(* ===== verification/Prelude.thy ===== *)
theory Prelude
  imports Main "HOL-Library.Word" "HOL-Library.Sublist"
begin

text \<open>
  The shared vocabulary of the development: Go's byte strings and the functions of package
  strings that the repository calls, time instants and durations of package time, the result
  of a function that may panic, decimal printing, and the generic lemmas on lists, options and
  words that the component theories use.

  A Go string is a sequence of bytes, so it is modelled by \<^typ>\<open>string\<close> (a list of
  \<^typ>\<open>char\<close>). A time instant is an \<^typ>\<open>int\<close> number of nanoseconds since Go's
  zero time; a duration is an \<^typ>\<open>int\<close> in the range of \<open>int64\<close>.
\<close>

named_theorems go_simps \<open>equations that evaluate the model of Go library functions\<close>
named_theorems frame_simps \<open>what an operation leaves unchanged\<close>
named_theorems inv_intros \<open>operations preserve the component invariants\<close>

section \<open>Names of the model's basic types\<close>

type_synonym go_time = int
type_synonym go_duration = int
type_synonym go_uint = "64 word"

text \<open>A computation that may panic: \<open>Inl\<close> carries the panic's text.\<close>

type_synonym 'a panics = "string + 'a"

text \<open>Sequencing of computations that fail with an error value or panic: the first failure is
  the result.\<close>

definition bind_sum :: "'e + 'a \<Rightarrow> ('a \<Rightarrow> 'e + 'b) \<Rightarrow> 'e + 'b" where
  "bind_sum m f = (case m of Inl e \<Rightarrow> Inl e | Inr x \<Rightarrow> f x)"

lemma bind_sum_simps [simp]:
  "bind_sum (Inl e) f = Inl e"
  "bind_sum (Inr x) f = f x"
  by (simp_all add: bind_sum_def)

lemma bind_sum_Inr_iff: "bind_sum m f = Inr y \<longleftrightarrow> (\<exists>x. m = Inr x \<and> f x = Inr y)"
  by (cases m) auto

section \<open>Durations and time instants (package time)\<close>

definition max_duration :: go_duration where
  "max_duration = 9223372036854775807"

definition min_duration :: go_duration where
  "min_duration = - 9223372036854775808"

text \<open>\<open>Time.Sub\<close> saturates at the ends of the duration range.\<close>

definition time_Sub :: "go_time \<Rightarrow> go_time \<Rightarrow> go_duration" where
  "time_Sub t u = max min_duration (min max_duration (t - u))"

lemmas duration_bounds = max_duration_def min_duration_def

lemma time_Sub_bounds: "min_duration \<le> time_Sub t u" "time_Sub t u \<le> max_duration"
  by (auto simp: time_Sub_def duration_bounds)

lemma time_Sub_ge_iff:
  assumes "min_duration < d" and "d \<le> max_duration"
  shows "d \<le> time_Sub t u \<longleftrightarrow> d \<le> t - u"
  using assms by (auto simp: time_Sub_def duration_bounds)

lemma time_Sub_exact:
  assumes "min_duration \<le> t - u" and "t - u \<le> max_duration"
  shows "time_Sub t u = t - u"
  using assms by (auto simp: time_Sub_def)

section \<open>Counters of unsigned machine words\<close>

lemma unat_Suc_below:
  fixes r l :: "'a::len word"
  assumes "r < l"
  shows "unat (r + 1) = Suc (unat r)"
proof -
  have "r + 1 \<noteq> 0"
    using assms by (metis less_irrefl max_word_max max_word_wrap order_less_le_trans)
  then show ?thesis by (rule unatSuc [unfolded add.commute [of 1]])
qed

section \<open>Byte strings (package strings)\<close>

text \<open>\<open>strings.IndexByte\<close>: \<open>None\<close> stands for the result \<open>-1\<close>.\<close>

fun index_byte :: "string \<Rightarrow> char \<Rightarrow> nat option" where
  "index_byte [] c = None"
| "index_byte (x # xs) c = (if x = c then Some 0 else map_option Suc (index_byte xs c))"

text \<open>\<open>strings.Cut\<close> for a one-byte separator: before, after, found.\<close>

fun cut_byte :: "char \<Rightarrow> string \<Rightarrow> string \<times> string \<times> bool" where
  "cut_byte c [] = ([], [], False)"
| "cut_byte c (x # xs) =
     (if x = c then ([], xs, True)
      else (let (b, a, f) = cut_byte c xs in (x # b, a, f)))"

text \<open>\<open>strings.Split\<close> for a one-byte separator; the result is never empty.\<close>

fun split_byte :: "char \<Rightarrow> string \<Rightarrow> string list" where
  "split_byte c [] = [[]]"
| "split_byte c (x # xs) =
     (if x = c then [] # split_byte c xs
      else (case split_byte c xs of [] \<Rightarrow> [[x]] | y # ys \<Rightarrow> (x # y) # ys))"

text \<open>\<open>strings.Join\<close>.\<close>

fun join :: "string \<Rightarrow> string list \<Rightarrow> string" where
  "join sep [] = []"
| "join sep [s] = s"
| "join sep (s # t # ss) = s @ sep @ join sep (t # ss)"

definition has_prefix :: "string \<Rightarrow> string \<Rightarrow> bool" where
  "has_prefix s p \<longleftrightarrow> take (length p) s = p"

definition has_suffix :: "string \<Rightarrow> string \<Rightarrow> bool" where
  "has_suffix s p \<longleftrightarrow> length p \<le> length s \<and> drop (length s - length p) s = p"

text \<open>\<open>strings.CutSuffix\<close>.\<close>

definition cut_suffix :: "string \<Rightarrow> string \<Rightarrow> string \<times> bool" where
  "cut_suffix s p = (if has_suffix s p then (take (length s - length p) s, True) else (s, False))"

text \<open>\<open>strings.Contains\<close>.\<close>

fun str_contains :: "string \<Rightarrow> string \<Rightarrow> bool" where
  "str_contains [] p = (p = [])"
| "str_contains (x # xs) p = (has_prefix (x # xs) p \<or> str_contains xs p)"

lemma index_byte_None_iff: "index_byte s c = None \<longleftrightarrow> c \<notin> set s"
  by (induction s) auto

lemma index_byte_Some:
  "index_byte s c = Some i \<Longrightarrow> i < length s \<and> s ! i = c \<and> c \<notin> set (take i s)"
  by (induction s arbitrary: i) (auto split: if_splits)

lemma index_byte_append:
  "c \<notin> set s \<Longrightarrow> index_byte (s @ c # t) c = Some (length s)"
  by (induction s) auto

lemma index_byte_before:
  assumes "c \<notin> set s" and "t = [] \<or> hd t = c"
  defines "i \<equiv> (case index_byte (s @ t) c of None \<Rightarrow> length (s @ t) | Some i \<Rightarrow> i)"
  shows "take i (s @ t) = s" "drop i (s @ t) = t"
proof -
  have "i = length s"
  proof (cases t)
    case Nil
    then show ?thesis using assms(1) index_byte_None_iff [of s c] by (simp add: i_def)
  next
    case (Cons x xs)
    then show ?thesis using assms(1,2) by (simp add: i_def index_byte_append)
  qed
  then show "take i (s @ t) = s" "drop i (s @ t) = t" by simp_all
qed

lemma cut_byte_none: "c \<notin> set s \<Longrightarrow> cut_byte c s = (s, [], False)"
  by (induction s) auto

lemma cut_byte_append: "c \<notin> set s \<Longrightarrow> cut_byte c (s @ c # t) = (s, t, True)"
  by (induction s) auto

lemma cut_suffix_append: "cut_suffix (s @ p) p = (s, True)"
  by (simp add: cut_suffix_def has_suffix_def)

lemma split_byte_nonempty [simp]: "split_byte c s \<noteq> []"
  by (cases s) (auto split: list.splits)

lemma split_byte_none: "c \<notin> set s \<Longrightarrow> split_byte c s = [s]"
  by (induction s) auto

lemma split_byte_append:
  "c \<notin> set s \<Longrightarrow> split_byte c (s @ c # t) = s # split_byte c t"
  by (induction s) auto

lemma join_split_byte: "join [c] (split_byte c s) = s"
proof (induction s)
  case Nil
  then show ?case by simp
next
  case (Cons x xs)
  obtain y ys where y: "split_byte c xs = y # ys"
    by (cases "split_byte c xs") auto
  with Cons show ?case by (cases ys) auto
qed

lemma split_byte_snoc: "c \<notin> set t \<Longrightarrow> split_byte c (s @ c # t) = split_byte c s @ [t]"
  by (induction s) (auto simp: split_byte_none split: list.split)

lemma split_byte_no_sep: "w \<in> set (split_byte c s) \<Longrightarrow> c \<notin> set w"
proof (induction s arbitrary: w)
  case Nil
  then show ?case by simp
next
  case (Cons x xs)
  obtain y ys where y: "split_byte c xs = y # ys"
    by (cases "split_byte c xs") auto
  with Cons show ?case by (auto split: if_splits)
qed

lemma split_join:
  assumes "ss \<noteq> []" and "\<forall>s \<in> set ss. c \<notin> set s"
  shows "split_byte c (join [c] ss) = ss"
  using assms
proof (induction "[c]" ss rule: join.induct)
  case 1
  then show ?case by simp
next
  case (2 s)
  then show ?case by (simp add: split_byte_none)
next
  case (3 s t ss)
  then show ?case by (simp add: split_byte_append)
qed

section \<open>Decimal printing (the verb \<open>%d\<close>)\<close>

definition digit_char :: "nat \<Rightarrow> char" where
  "digit_char d = char_of (48 + d)"

fun show_nat :: "nat \<Rightarrow> string" where
  "show_nat n = (if n < 10 then [digit_char n] else show_nat (n div 10) @ [digit_char (n mod 10)])"

declare show_nat.simps [simp del]

definition show_int :: "int \<Rightarrow> string" where
  "show_int i = (if i < 0 then CHR ''-'' # show_nat (nat (- i)) else show_nat (nat i))"

text \<open>\<open>strconv.ParseInt(s, 10, 64)\<close>: an optional sign, then digits, in the range of int64.\<close>

definition is_digit :: "char \<Rightarrow> bool" where
  "is_digit c \<longleftrightarrow> 48 \<le> (of_char c :: nat) \<and> (of_char c :: nat) \<le> 57"

definition digit_value :: "char \<Rightarrow> nat" where
  "digit_value c = of_char c - 48"

definition parse_digits :: "string \<Rightarrow> nat" where
  "parse_digits ds = foldl (\<lambda>n c. 10 * n + digit_value c) 0 ds"

definition ParseInt64 :: "string \<Rightarrow> int option" where
  "ParseInt64 s =
     (let (neg, ds) = (case s of
                         [] \<Rightarrow> (False, [])
                       | c # cs \<Rightarrow> if c = CHR ''-'' then (True, cs) else if c = CHR ''+'' then (False, cs) else (False, s))
      in if ds = [] \<or> \<not> list_all is_digit ds then None
         else let v = (if neg then - int (parse_digits ds) else int (parse_digits ds))
              in if - (2 ^ 63) \<le> v \<and> v < 2 ^ 63 then Some v else None)"

lemma show_nat_digits: "list_all is_digit (show_nat n)"
proof (induction n rule: show_nat.induct)
  case (1 n)
  have "is_digit (digit_char d)" if "d < 10" for d
    using that by (simp add: is_digit_def digit_char_def of_char_of)
  with 1 show ?case by (subst show_nat.simps) simp
qed

lemma digit_value_char: "d < 10 \<Longrightarrow> digit_value (digit_char d) = d"
  by (simp add: digit_value_def digit_char_def of_char_of)

lemma parse_digits_snoc: "parse_digits (ds @ [c]) = 10 * parse_digits ds + digit_value c"
  by (simp add: parse_digits_def)

lemma parse_show_nat: "parse_digits (show_nat n) = n"
proof (induction n rule: show_nat.induct)
  case (1 n)
  show ?case
  proof (cases "n < 10")
    case True
    then show ?thesis by (subst show_nat.simps) (simp add: parse_digits_def digit_value_char)
  next
    case False
    with 1 show ?thesis by (subst show_nat.simps) (simp add: parse_digits_snoc digit_value_char)
  qed
qed

lemma show_nat_nonempty: "show_nat n \<noteq> []"
  by (subst show_nat.simps) simp

lemma ParseInt64_show_nat:
  assumes "n < 2 ^ 63"
  shows "ParseInt64 (show_nat n) = Some (int n)"
proof -
  obtain c cs where c: "show_nat n = c # cs" using show_nat_nonempty by (cases "show_nat n") auto
  have "is_digit c" using show_nat_digits [of n] c by simp
  then have "c \<noteq> CHR ''-''" "c \<noteq> CHR ''+''" by (auto simp: is_digit_def)
  moreover have "int n < 2 ^ 63" using assms by (metis of_nat_less_numeral_power_cancel_iff)
  ultimately show ?thesis
    using parse_show_nat [of n] show_nat_digits [of n] by (simp add: ParseInt64_def c)
qed

section \<open>Generic lemmas on lists\<close>

lemma count_filter_le:
  assumes "\<And>x. x \<in> set xs \<Longrightarrow> P x \<Longrightarrow> Q x"
  shows "length (filter P xs) \<le> length (filter Q xs)"
  using assms by (induction xs) auto

lemma find_SomeD:
  assumes "find P xs = Some x"
  obtains ys zs where "xs = ys @ x # zs" "P x" "\<forall>y \<in> set ys. \<not> P y"
proof -
  from assms have "\<exists>ys zs. xs = ys @ x # zs \<and> P x \<and> (\<forall>y \<in> set ys. \<not> P y)"
  proof (induction xs)
    case Nil
    then show ?case by simp
  next
    case (Cons a xs)
    show ?case
    proof (cases "P a")
      case True
      with Cons.prems show ?thesis by (auto intro: exI [of _ "[]"])
    next
      case False
      with Cons obtain ys zs where "xs = ys @ x # zs" "P x" "\<forall>y \<in> set ys. \<not> P y"
        by auto
      with False have "a # xs = (a # ys) @ x # zs \<and> P x \<and> (\<forall>y \<in> set (a # ys). \<not> P y)"
        by simp
      then show ?thesis by blast
    qed
  qed
  with that show ?thesis by blast
qed

lemma find_SomeI:
  "P x \<Longrightarrow> \<forall>y \<in> set ys. \<not> P y \<Longrightarrow> find P (ys @ x # zs) = Some x"
  by (induction ys) auto

lemma find_append:
  "find P (xs @ ys) = (case find P xs of None \<Rightarrow> find P ys | Some x \<Rightarrow> Some x)"
  by (induction xs) auto

end
