(* ===== verification/Rate_Window.thy ===== *)
theory Rate_Window
  imports Prelude
begin

text \<open>
  The rate limiters of \<open>internal/rate\<close>: the fixed window, the list of windows, the
  multi-bucket limiter that keeps one list of windows per key, and the semaphore limiter.

  A window is a record with the source's fields; \<open>limit\<close> and \<open>requests\<close> are 64-bit
  words. Each method takes the receiver's state and returns the new one. The mutex of the
  limiter makes each method atomic, so a concurrent execution is a sequence of calls.
\<close>

section \<open>Model\<close>

record window =
  w_limit :: go_uint
  w_duration :: go_duration
  w_requests :: go_uint
  w_start :: go_time

definition window_allow :: "go_time \<Rightarrow> window \<Rightarrow> window \<times> bool \<times> go_duration" where
  "window_allow now w =
     (let w' = (if w_duration w \<le> time_Sub now (w_start w)
                then w\<lparr>w_start := now, w_requests := 0\<rparr> else w)
      in if w_requests w' < w_limit w'
         then (w'\<lparr>w_requests := w_requests w' + 1\<rparr>, True, 0)
         else (w', False, time_Sub (w_start w' + w_duration w') now))"

definition window_wouldAllow :: "go_time \<Rightarrow> window \<Rightarrow> bool \<times> go_duration" where
  "window_wouldAllow now w =
     (if w_requests w < w_limit w then (True, 0)
      else (False, time_Sub (w_start w + w_duration w) now))"

fun windows_allow :: "go_time \<Rightarrow> window list \<Rightarrow> window list \<times> bool \<times> go_duration" where
  "windows_allow now [] = ([], True, 0)"
| "windows_allow now (w # ws) =
     (case window_allow now w of
        (w', False, wait) \<Rightarrow> (w' # ws, False, wait)
      | (w', True, _) \<Rightarrow>
          (case windows_allow now ws of (ws', r) \<Rightarrow> (w' # ws', r)))"

fun windows_wouldAllow :: "go_time \<Rightarrow> window list \<Rightarrow> bool \<times> go_duration" where
  "windows_wouldAllow now [] = (True, 0)"
| "windows_wouldAllow now (w # ws) =
     (case window_wouldAllow now w of
        (False, wait) \<Rightarrow> (False, wait)
      | (True, _) \<Rightarrow> windows_wouldAllow now ws)"

record WindowConfig =
  Limit :: go_uint
  Duration :: go_duration

definition intoWindow :: "WindowConfig \<Rightarrow> window" where
  "intoWindow wc = \<lparr>w_limit = Limit wc, w_duration = Duration wc, w_requests = 0, w_start = 0\<rparr>"

record limiter =
  l_windows :: "string \<rightharpoonup> window list"
  l_cfg :: "WindowConfig list"

definition NewMultiBucketFixedWindowLimiter :: "WindowConfig list \<Rightarrow> limiter" where
  "NewMultiBucketFixedWindowLimiter config = \<lparr>l_windows = Map.empty, l_cfg = config\<rparr>"

definition limiter_Allow ::
    "string \<Rightarrow> go_time \<Rightarrow> limiter \<Rightarrow> limiter \<times> bool \<times> go_duration" where
  "limiter_Allow key now mb =
     (let ws = (case l_windows mb key of Some ws \<Rightarrow> ws | None \<Rightarrow> map intoWindow (l_cfg mb))
      in case windows_allow now ws of
           (ws', r) \<Rightarrow> (mb\<lparr>l_windows := (l_windows mb)(key \<mapsto> ws')\<rparr>, r))"

definition limiter_WouldAllow :: "string \<Rightarrow> go_time \<Rightarrow> limiter \<Rightarrow> bool \<times> go_duration" where
  "limiter_WouldAllow key now mb =
     (case l_windows mb key of None \<Rightarrow> (True, 0) | Some ws \<Rightarrow> windows_wouldAllow now ws)"

fun override_windows :: "window list \<Rightarrow> WindowConfig list \<Rightarrow> window list" where
  "override_windows (w # ws) (c # cs) =
     w\<lparr>w_limit := Limit c, w_duration := Duration c\<rparr> # override_windows ws cs"
| "override_windows ws _ = ws"

definition OverrideWindows :: "string \<Rightarrow> WindowConfig list \<Rightarrow> limiter \<Rightarrow> limiter" where
  "OverrideWindows key overrides mb =
     (case l_windows mb key of
        None \<Rightarrow> mb
      | Some ws \<Rightarrow>
          (let overrides = (if length overrides > length ws
                            then take (length ws) overrides else overrides)
           in mb\<lparr>l_windows := (l_windows mb)(key \<mapsto> override_windows ws overrides)\<rparr>))"

text \<open>A history of calls of an \<open>Allow\<close> method and its answers.\<close>

fun keyed_run ::
    "(string \<Rightarrow> go_time \<Rightarrow> 's \<Rightarrow> 's \<times> bool \<times> go_duration) \<Rightarrow> 's \<Rightarrow> (string \<times> go_time) list \<Rightarrow> bool list"
where
  "keyed_run allow s [] = []"
| "keyed_run allow s ((k, t) # es) =
     (case allow k t s of (s', ok, _) \<Rightarrow> ok # keyed_run allow s' es)"

definition limiter_run :: "limiter \<Rightarrow> (string \<times> go_time) list \<Rightarrow> bool list" where
  "limiter_run = keyed_run limiter_Allow"

fun window_run :: "window \<Rightarrow> go_time list \<Rightarrow> bool list" where
  "window_run w [] = []"
| "window_run w (t # ts) =
     (case window_allow t w of (w', ok, _) \<Rightarrow> ok # window_run w' ts)"

section \<open>One window\<close>

definition window_inv :: "window \<Rightarrow> bool" where
  "window_inv w \<longleftrightarrow> 0 \<le> w_duration w \<and> w_duration w \<le> max_duration"

definition within_limit :: "window \<Rightarrow> bool" where
  "within_limit w \<longleftrightarrow> w_requests w \<le> w_limit w"

definition expired :: "go_time \<Rightarrow> window \<Rightarrow> bool" where
  "expired now w \<longleftrightarrow> w_duration w \<le> now - w_start w"

lemma expired_Sub:
  "window_inv w \<Longrightarrow> w_duration w \<le> time_Sub now (w_start w) \<longleftrightarrow> expired now w"
  unfolding window_inv_def expired_def
  by (rule time_Sub_ge_iff) (auto simp: duration_bounds)

lemma window_allow_frame [frame_simps]:
  "w_limit (fst (window_allow now w)) = w_limit w"
  "w_duration (fst (window_allow now w)) = w_duration w"
  by (simp_all add: window_allow_def Let_def)

lemma window_allow_inv [inv_intros]: "window_inv w \<Longrightarrow> window_inv (fst (window_allow now w))"
  by (simp add: window_inv_def frame_simps)

lemma window_allow_within [inv_intros]:
  assumes "within_limit w"
  shows "within_limit (fst (window_allow now w))"
proof -
  have "w_requests w < w_limit w \<Longrightarrow> w_requests w + 1 \<le> w_limit w" by (rule inc_le)
  moreover have "0 < w_limit w \<Longrightarrow> 0 + 1 \<le> w_limit w" by (rule inc_le)
  ultimately show ?thesis
    using assms by (auto simp: within_limit_def window_allow_def Let_def word_gt_0)
qed

text \<open>The requests still available in the window at an instant.\<close>

definition budget :: "go_time \<Rightarrow> window \<Rightarrow> nat" where
  "budget now w = (if expired now w then unat (w_limit w)
                   else unat (w_limit w) - unat (w_requests w))"

lemma window_allow_ok_iff:
  "window_inv w \<Longrightarrow> fst (snd (window_allow now w)) \<longleftrightarrow> 0 < budget now w"
  by (auto simp: window_allow_def Let_def expired_Sub budget_def word_less_nat_alt)

lemma window_allow_start:
  "window_inv w \<Longrightarrow> w_start (fst (window_allow now w)) = (if expired now w then now else w_start w)"
  by (simp add: window_allow_def Let_def expired_Sub)

lemma window_allow_requests:
  assumes "window_inv w"
  shows "unat (w_requests (fst (window_allow now w))) =
    (if expired now w then 0 else unat (w_requests w)) + (if fst (snd (window_allow now w)) then 1 else 0)"
  using assms by (auto simp: window_allow_def Let_def expired_Sub unat_Suc_below)

lemma window_rejected_state:
  assumes "window_inv w" and "\<not> fst (snd (window_allow now w))" and "0 < w_limit w"
  shows "fst (window_allow now w) = w"
    and "snd (snd (window_allow now w)) = time_Sub (w_start w + w_duration w) now"
proof -
  have "\<not> expired now w"
    using assms by (auto simp: window_allow_ok_iff budget_def word_gt_0 unat_eq_zero)
  then show "fst (window_allow now w) = w"
    and "snd (snd (window_allow now w)) = time_Sub (w_start w + w_duration w) now"
    using assms(1,2) by (auto simp: window_allow_def Let_def expired_Sub)
qed

lemma window_allow_wait:
  assumes "window_inv w" and "\<not> fst (snd (window_allow now w))"
    and "w_start w \<le> now" and "0 < w_limit w"
  defines "wait \<equiv> snd (snd (window_allow now w))"
  shows "0 < wait" "fst (snd (window_allow (now + wait) (fst (window_allow now w))))"
proof -
  have nexp: "\<not> expired now w"
    using assms(1,2,4) by (auto simp: window_allow_ok_iff budget_def word_gt_0 unat_eq_zero)
  have w: "wait = time_Sub (w_start w + w_duration w) now" "fst (window_allow now w) = w"
    using assms(1,2) nexp by (auto simp: wait_def window_allow_def Let_def expired_Sub)
  have bounds: "min_duration \<le> w_start w + w_duration w - now" "w_start w + w_duration w - now \<le> max_duration"
    using assms(1,3) nexp by (auto simp: window_inv_def expired_def duration_bounds)
  have wait: "wait = w_start w + w_duration w - now"
    unfolding w by (rule time_Sub_exact [OF bounds])
  then show "0 < wait" using nexp by (simp add: expired_def)
  have "expired (now + wait) w" by (simp add: wait expired_def)
  then show "fst (snd (window_allow (now + wait) (fst (window_allow now w))))"
    using assms(1,4) by (simp add: w window_allow_ok_iff budget_def word_gt_0 unat_gt_0)
qed


section \<open>A run of one window\<close>

text \<open>The answers \<open>true\<close> given at instants of the half-open interval from \<open>a\<close> to \<open>b\<close>.\<close>

definition allowed_between :: "go_time list \<Rightarrow> bool list \<Rightarrow> go_time \<Rightarrow> go_time \<Rightarrow> nat" where
  "allowed_between ts oks a b = length (filter (\<lambda>(t, ok). ok \<and> a \<le> t \<and> t < b) (zip ts oks))"

lemma allowed_between_simps [simp]:
  "allowed_between [] oks a b = 0"
  "allowed_between (t # ts) (ok # oks) a b =
     (if ok \<and> a \<le> t \<and> t < b then 1 else 0) + allowed_between ts oks a b"
  by (simp_all add: allowed_between_def)

lemma allowed_between_late:
  "\<forall>t \<in> set ts. b \<le> t \<Longrightarrow> allowed_between ts oks a b = 0"
  unfolding allowed_between_def by (force simp: filter_empty_conv dest: set_zip_leftD)

lemma window_run_Cons:
  "window_run w (t # ts) = fst (snd (window_allow t w)) # window_run (fst (window_allow t w)) ts"
  by (simp add: case_prod_unfold)

text \<open>
  From an instant \<open>a\<close> on, a window that was (re)started before \<open>a\<close> can still answer what is
  left of its limit and, after its only possible reset before \<open>a + duration\<close>, its limit once
  more; one that was started after \<open>a\<close> can only answer what is left.
\<close>

lemma window_run_from:
  assumes "window_inv w" and "sorted ts" and "\<forall>t \<in> set ts. a \<le> t"
    and "b \<le> a + w_duration w"
  shows "allowed_between ts (window_run w ts) a b \<le>
    (unat (w_limit w) - unat (w_requests w)) + (if a \<le> w_start w then 0 else unat (w_limit w))"
  using assms
proof (induction ts arbitrary: w)
  case Nil
  then show ?case by simp
next
  case (Cons t ts)
  let ?w = "fst (window_allow t w)" and ?ok = "fst (snd (window_allow t w))"
  show ?case
  proof (cases "t < b")
    case False
    with Cons.prems have "allowed_between ts (window_run ?w ts) a b = 0"
      by (intro allowed_between_late) auto
    with False show ?thesis by (simp add: window_run_Cons del: window_run.simps)
  next
    case True
    have IH: "allowed_between ts (window_run ?w ts) a b \<le>
      (unat (w_limit w) - unat (w_requests ?w)) + (if a \<le> w_start ?w then 0 else unat (w_limit w))"
      using Cons.IH [of ?w] Cons.prems by (auto simp: frame_simps inv_intros split: if_splits)
    have ok: "?ok \<longleftrightarrow> 0 < budget t w" and
      st: "w_start ?w = (if expired t w then t else w_start w)" and
      req: "unat (w_requests ?w) = (if expired t w then 0 else unat (w_requests w)) + (if ?ok then 1 else 0)"
      using Cons.prems(1) by (simp_all add: window_allow_ok_iff window_allow_start window_allow_requests)
    have young: "a \<le> w_start w \<Longrightarrow> \<not> expired t w"
      using True Cons.prems(4) by (simp add: expired_def)
    have "a \<le> t" using Cons.prems(3) by simp
    with IH ok st req young True show ?thesis
      by (auto simp: window_run_Cons budget_def simp del: window_run.simps split: if_splits)
  qed
qed

lemma window_run_bound:
  assumes "window_inv w" and "sorted ts" and "b \<le> a + w_duration w"
  shows "allowed_between ts (window_run w ts) a b \<le> 2 * unat (w_limit w)"
  using assms
proof (induction ts arbitrary: w)
  case Nil
  then show ?case by simp
next
  case (Cons t ts)
  show ?case
  proof (cases "t < a")
    case True
    have "allowed_between ts (window_run (fst (window_allow t w)) ts) a b \<le> 2 * unat (w_limit w)"
      using Cons.IH [of "fst (window_allow t w)"] Cons.prems by (simp add: frame_simps inv_intros)
    with True show ?thesis by (simp add: window_run_Cons del: window_run.simps)
  next
    case False
    with Cons.prems(2) have "\<forall>x \<in> set (t # ts). a \<le> x" by auto
    from window_run_from [OF Cons.prems(1,2) this Cons.prems(3)] show ?thesis
      by (simp split: if_splits)
  qed
qed

section \<open>Lists of windows\<close>

lemma windows_allow_length [frame_simps]: "length (fst (windows_allow now ws)) = length ws"
  by (induction ws) (auto split: prod.splits bool.splits)

text \<open>
  The call reaches a window exactly when the windows before it allow the request; a window it
  does not reach is unchanged, and an allowed request was allowed by every window.
\<close>

lemma windows_allow_nth:
  assumes "i < length ws"
  shows "fst (windows_allow now ws) ! i =
      (if \<forall>j < i. fst (snd (window_allow now (ws ! j))) then fst (window_allow now (ws ! i)) else ws ! i)"
  using assms
proof (induction ws arbitrary: i)
  case Nil
  then show ?case by simp
next
  case (Cons w ws)
  obtain w' ok wait where w: "window_allow now w = (w', ok, wait)" by (cases "window_allow now w") auto
  obtain ws' r where ws: "windows_allow now ws = (ws', r)" by (cases "windows_allow now ws") auto
  show ?case
  proof (cases i)
    case 0
    with w ws show ?thesis by (cases ok) auto
  next
    case (Suc m)
    with Cons w ws show ?thesis
      by (cases ok) (auto simp: All_less_Suc2)
  qed
qed

lemma windows_allow_ok:
  "fst (snd (windows_allow now ws)) \<longleftrightarrow> (\<forall>w \<in> set ws. fst (snd (window_allow now w)))"
  by (induction ws) (auto split: prod.splits bool.splits)

lemma windows_allow_ok_wait:
  "fst (snd (windows_allow now ws)) \<Longrightarrow> snd (snd (windows_allow now ws)) = 0"
  by (induction ws) (auto split: prod.splits bool.splits)

lemma windows_allow_rejected:
  assumes "\<not> fst (snd (windows_allow now ws))"
  obtains ys w zs where "ws = ys @ w # zs" "\<forall>y \<in> set ys. fst (snd (window_allow now y))"
    "\<not> fst (snd (window_allow now w))"
    "windows_allow now ws = (map (\<lambda>y. fst (window_allow now y)) ys @ fst (window_allow now w) # zs,
       False, snd (snd (window_allow now w)))"
  using assms
proof (induction ws arbitrary: thesis)
  case Nil
  then show ?case by simp
next
  case (Cons x xs)
  obtain x' ok wait where x: "window_allow now x = (x', ok, wait)" by (cases "window_allow now x") auto
  show ?case
  proof (cases ok)
    case False
    with x show ?thesis by (intro Cons.prems(1) [of "[]" x xs]) auto
  next
    case True
    with x Cons.prems(2) have "\<not> fst (snd (windows_allow now xs))"
      by (auto split: prod.splits)
    then obtain ys w zs where *: "xs = ys @ w # zs" "\<forall>y \<in> set ys. fst (snd (window_allow now y))"
      "\<not> fst (snd (window_allow now w))"
      "windows_allow now xs = (map (\<lambda>y. fst (window_allow now y)) ys @ fst (window_allow now w) # zs,
         False, snd (snd (window_allow now w)))"
      using Cons.IH by blast
    with x True show ?thesis by (intro Cons.prems(1) [of "x # ys" w zs]) auto
  qed
qed


section \<open>The multi-bucket limiter\<close>

text \<open>The windows a key has, or gets at its first call.\<close>

definition windows_of :: "limiter \<Rightarrow> string \<Rightarrow> window list" where
  "windows_of mb key = (case l_windows mb key of Some ws \<Rightarrow> ws | None \<Rightarrow> map intoWindow (l_cfg mb))"

definition cfg_ok :: "WindowConfig list \<Rightarrow> bool" where
  "cfg_ok cfg \<longleftrightarrow> (\<forall>c \<in> set cfg. 0 \<le> Duration c \<and> Duration c \<le> max_duration)"

definition limiter_inv :: "limiter \<Rightarrow> bool" where
  "limiter_inv mb \<longleftrightarrow> cfg_ok (l_cfg mb) \<and> (\<forall>key ws. l_windows mb key = Some ws \<longrightarrow> (\<forall>w \<in> set ws. window_inv w))"

lemma intoWindow_inv: "cfg_ok cfg \<Longrightarrow> c \<in> set cfg \<Longrightarrow> window_inv (intoWindow c)"
  by (simp add: cfg_ok_def window_inv_def intoWindow_def)

lemma windows_of_inv: "limiter_inv mb \<Longrightarrow> w \<in> set (windows_of mb key) \<Longrightarrow> window_inv w"
  by (auto simp: limiter_inv_def windows_of_def intoWindow_inv split: option.splits)

lemma New_inv [inv_intros]: "cfg_ok cfg \<Longrightarrow> limiter_inv (NewMultiBucketFixedWindowLimiter cfg)"
  by (simp add: limiter_inv_def NewMultiBucketFixedWindowLimiter_def)

lemma limiter_Allow_eq:
  "limiter_Allow key now mb =
     (mb\<lparr>l_windows := (l_windows mb)(key \<mapsto> fst (windows_allow now (windows_of mb key)))\<rparr>,
      snd (windows_allow now (windows_of mb key)))"
  by (simp add: limiter_Allow_def windows_of_def case_prod_unfold Let_def)

lemma limiter_Allow_cfg [frame_simps]: "l_cfg (fst (limiter_Allow key now mb)) = l_cfg mb"
  by (simp add: limiter_Allow_eq)

lemma limiter_Allow_snd:
  "snd (limiter_Allow key now mb) = snd (windows_allow now (windows_of mb key))"
  by (simp add: limiter_Allow_eq)

lemma limiter_Allow_ok:
  "fst (snd (limiter_Allow key now mb)) \<longleftrightarrow>
     (\<forall>w \<in> set (windows_of mb key). fst (snd (window_allow now w)))"
  by (simp add: limiter_Allow_eq windows_allow_ok)

lemma windows_of_Allow:
  "windows_of (fst (limiter_Allow key now mb)) k =
     (if k = key then fst (windows_allow now (windows_of mb key)) else windows_of mb k)"
  by (simp add: windows_of_def limiter_Allow_eq split: option.split)

lemma windows_allow_inv:
  "\<forall>w \<in> set ws. window_inv w \<Longrightarrow> w \<in> set (fst (windows_allow now ws)) \<Longrightarrow> window_inv w"
  by (fastforce simp: in_set_conv_nth windows_allow_nth frame_simps intro: inv_intros)

lemma limiter_Allow_inv [inv_intros]:
  assumes "limiter_inv mb"
  shows "limiter_inv (fst (limiter_Allow key now mb))"
proof -
  have "\<forall>w \<in> set (fst (windows_allow now (windows_of mb key))). window_inv w"
    using windows_allow_inv [of "windows_of mb key"] windows_of_inv [OF assms] by blast
  with assms show ?thesis by (auto simp: limiter_inv_def limiter_Allow_eq)
qed

lemma limiter_run_Cons:
  "limiter_run mb ((k, t) # es) =
     fst (snd (limiter_Allow k t mb)) # limiter_run (fst (limiter_Allow k t mb)) es"
  by (simp add: limiter_run_def case_prod_unfold)

text \<open>What the limiter answers to one key in an interval.\<close>

definition allowed_in ::
    "(string \<times> go_time) list \<Rightarrow> bool list \<Rightarrow> string \<Rightarrow> go_time \<Rightarrow> go_time \<Rightarrow> nat" where
  "allowed_in es oks key a b =
     length (filter (\<lambda>((k, t), ok). ok \<and> k = key \<and> a \<le> t \<and> t < b) (zip es oks))"

lemma allowed_in_simps [simp]:
  "allowed_in [] oks key a b = 0"
  "allowed_in ((k, t) # es) (ok # oks) key a b =
     (if ok \<and> k = key \<and> a \<le> t \<and> t < b then 1 else 0) + allowed_in es oks key a b"
  by (simp_all add: allowed_in_def)

text \<open>
  Each window of a key sees a subsequence of the calls made with that key, and whatever the
  limiter allows that window allowed too.
\<close>

lemma limiter_run_window:
  assumes "i < length (windows_of mb key)"
  shows "\<exists>ts. subseq ts (map snd es) \<and>
    (\<forall>a b. allowed_in es (limiter_run mb es) key a b
         \<le> allowed_between ts (window_run (windows_of mb key ! i) ts) a b)"
  using assms
proof (induction es arbitrary: mb)
  case Nil
  then show ?case by (auto intro: exI [of _ "[]"])
next
  case (Cons e es)
  obtain k t where e: "e = (k, t)" by (cases e)
  let ?mb = "fst (limiter_Allow k t mb)" and ?w = "windows_of mb key ! i"
  have "i < length (windows_of ?mb key)"
    using Cons.prems by (auto simp: windows_of_Allow frame_simps)
  from Cons.IH [OF this] obtain ts where ts: "subseq ts (map snd es)"
    "\<And>a b. allowed_in es (limiter_run ?mb es) key a b
         \<le> allowed_between ts (window_run (windows_of ?mb key ! i) ts) a b" by blast
  show ?case
  proof (cases "k = key \<and> windows_of ?mb key ! i = fst (window_allow t ?w)")
    case True
    have ok: "fst (snd (limiter_Allow k t mb)) \<Longrightarrow> fst (snd (window_allow t ?w))"
      using True Cons.prems by (simp add: limiter_Allow_ok)
    have "allowed_in (e # es) (limiter_run mb (e # es)) key a b
        \<le> allowed_between (t # ts) (window_run ?w (t # ts)) a b" for a b
      using ts(2) [of a b] True ok
      by (auto simp: e limiter_run_Cons window_run_Cons simp del: window_run.simps)
    moreover have "subseq (t # ts) (map snd (e # es))" using ts(1) e by simp
    ultimately show ?thesis by blast
  next
    case False
    have "windows_of ?mb key ! i = ?w"
      using False Cons.prems by (auto simp: windows_of_Allow windows_allow_nth split: if_splits)
    moreover have "\<not> fst (snd (limiter_Allow k t mb))" if eq: "k = key"
    proof -
      obtain j where "j < i" "\<not> fst (snd (window_allow t (windows_of mb key ! j)))"
        using False Cons.prems eq by (auto simp: windows_of_Allow windows_allow_nth split: if_splits)
      with Cons.prems eq show ?thesis by (auto simp: limiter_Allow_ok)
    qed
    ultimately have "allowed_in (e # es) (limiter_run mb (e # es)) key a b
        \<le> allowed_between ts (window_run ?w ts) a b" for a b
      using ts(2) [of a b] by (auto simp: e limiter_run_Cons)
    moreover have "subseq ts (map snd (e # es))" using ts(1) e by auto
    ultimately show ?thesis by blast
  qed
qed

lemma sorted_subseq: "subseq xs ys \<Longrightarrow> sorted ys \<Longrightarrow> sorted xs"
  by (induction rule: list_emb.induct) (auto dest: list_emb_set)


section \<open>The interface of a keyed limiter\<close>

text \<open>
  What the manager of \<open>resttooling/ratelimiter/v2\<close> relies on: a limiter keeps a bucket per
  key, an operation on one key leaves the buckets of the others alone, the answers to a key
  depend on its bucket only, and an allowed request has nothing to wait for.
\<close>

locale keyed_limiter =
  fixes allow :: "string \<Rightarrow> go_time \<Rightarrow> 's \<Rightarrow> 's \<times> bool \<times> go_duration"
    and would_allow :: "string \<Rightarrow> go_time \<Rightarrow> 's \<Rightarrow> bool \<times> go_duration"
    and override :: "string \<Rightarrow> 'c list \<Rightarrow> 's \<Rightarrow> 's"
    and bucket :: "'s \<Rightarrow> string \<Rightarrow> 'b"
    and inv :: "'s \<Rightarrow> bool"
    and valid :: "'c list \<Rightarrow> bool"
  assumes allow_inv: "inv s \<Longrightarrow> inv (fst (allow key now s))"
    and override_inv: "inv s \<Longrightarrow> valid cs \<Longrightarrow> inv (override key cs s)"
    and allow_frame: "k \<noteq> key \<Longrightarrow> bucket (fst (allow key now s)) k = bucket s k"
    and override_frame: "k \<noteq> key \<Longrightarrow> bucket (override key cs s) k = bucket s k"
    and allow_local: "bucket s key = bucket s' key \<Longrightarrow>
      snd (allow key now s) = snd (allow key now s') \<and>
      bucket (fst (allow key now s)) key = bucket (fst (allow key now s')) key"
    and allow_ok: "fst (snd (allow key now s)) \<Longrightarrow> snd (snd (allow key now s)) = 0"
begin

lemma keyed_run_Cons:
  "keyed_run allow s ((k, t) # es) = fst (snd (allow k t s)) # keyed_run allow (fst (allow k t s)) es"
  by (simp add: case_prod_unfold)

lemma keyed_run_length: "length (keyed_run allow s es) = length es"
  by (induction es arbitrary: s) (auto simp: case_prod_unfold)

lemma keyed_run_key:
  assumes "bucket s key = bucket s' key"
  shows "map snd (filter (\<lambda>(e, ok). fst e = key) (zip es (keyed_run allow s es)))
       = keyed_run allow s' (filter (\<lambda>e. fst e = key) es)"
  using assms
proof (induction es arbitrary: s s')
  case Nil
  then show ?case by simp
next
  case (Cons e es)
  obtain k t where e: "e = (k, t)" by (cases e)
  show ?case
  proof (cases "k = key")
    case True
    with allow_local [OF Cons.prems, of t] Cons.IH [of "fst (allow k t s)" "fst (allow k t s')"]
    show ?thesis by (simp add: e keyed_run_Cons del: keyed_run.simps)
  next
    case False
    then have "bucket (fst (allow k t s)) key = bucket s' key"
      using allow_frame [of key k] Cons.prems by simp
    from Cons.IH [OF this] False show ?thesis
      by (simp add: e keyed_run_Cons del: keyed_run.simps)
  qed
qed

end

lemma override_windows_counts:
  "map w_requests (override_windows ws cs) = map w_requests ws"
  "map w_start (override_windows ws cs) = map w_start ws"
  by (induction ws cs rule: override_windows.induct) auto

lemma override_windows_nth:
  assumes "i < length ws"
  shows "w_limit (override_windows ws cs ! i) = (if i < length cs then Limit (cs ! i) else w_limit (ws ! i))"
    and "w_duration (override_windows ws cs ! i) = (if i < length cs then Duration (cs ! i) else w_duration (ws ! i))"
  using assms
  by (induction ws cs arbitrary: i rule: override_windows.induct) (auto simp: nth_Cons split: nat.splits)

lemma override_windows_inv:
  "\<forall>w \<in> set ws. window_inv w \<Longrightarrow> cfg_ok cs \<Longrightarrow> w \<in> set (override_windows ws cs) \<Longrightarrow> window_inv w"
  by (induction ws cs rule: override_windows.induct) (auto simp: cfg_ok_def window_inv_def)

lemma cfg_ok_take: "cfg_ok cs \<Longrightarrow> cfg_ok (take n cs)"
  by (auto simp: cfg_ok_def dest: in_set_takeD)

lemma OverrideWindows_inv [inv_intros]:
  assumes "limiter_inv mb" and "cfg_ok cs"
  shows "limiter_inv (OverrideWindows key cs mb)"
  using assms cfg_ok_take [OF assms(2)]
  by (auto simp: limiter_inv_def OverrideWindows_def Let_def split: option.splits
      dest!: override_windows_inv [rotated 2])

text \<open>
  The model of \<open>MultiBucketFixedWindowLimiter\<close> is such a limiter; the bucket of a key is the
  list of its windows and the configuration it would start from.
\<close>

interpretation mb: keyed_limiter limiter_Allow limiter_WouldAllow OverrideWindows
  "\<lambda>s key. (windows_of s key, l_cfg s)" limiter_inv cfg_ok
proof (unfold_locales, goal_cases)
  case (1 s key now)
  then show ?case by (rule limiter_Allow_inv)
next
  case (2 s cs key)
  then show ?case by (rule OverrideWindows_inv)
next
  case (3 k key now s)
  then show ?case by (simp add: windows_of_Allow frame_simps)
next
  case (4 k key cs s)
  then show ?case by (auto simp: OverrideWindows_def windows_of_def Let_def split: option.splits)
next
  case (5 s key s' now)
  then show ?case by (simp add: windows_of_Allow limiter_Allow_snd frame_simps)
next
  case (6 key now s)
  then show ?case by (simp add: limiter_Allow_eq windows_allow_ok_wait)
qed

section \<open>Properties\<close>




text \<open>A rejected request is told how long to wait, and the time is right: it is positive,
  at most the rejecting window's duration, and once it has passed that window allows a
  request again.\<close>

theorem limiter_rejection_wait:
  assumes "limiter_inv mb" and "limiter_Allow key now mb = (mb', False, wait)"
    and "\<forall>w \<in> set (windows_of mb key). w_start w \<le> now \<and> 0 < w_limit w"
  shows "\<exists>w \<in> set (windows_of mb key). \<not> fst (snd (window_allow now w)) \<and>
    0 < wait \<and> wait \<le> w_duration w \<and> fst (snd (window_allow (now + wait) w))"
proof -
  have "\<not> fst (snd (windows_allow now (windows_of mb key)))"
    using assms(2) by (metis limiter_Allow_snd fst_conv snd_conv)
  then obtain ys w zs where ws: "windows_of mb key = ys @ w # zs"
    and rej: "\<not> fst (snd (window_allow now w))"
    and eq: "windows_allow now (windows_of mb key) =
      (map (\<lambda>y. fst (window_allow now y)) ys @ fst (window_allow now w) # zs,
       False, snd (snd (window_allow now w)))"
    by (rule windows_allow_rejected)
  have wait: "wait = snd (snd (window_allow now w))"
    using assms(2) eq by (simp add: limiter_Allow_eq)
  have inv: "window_inv w" using assms(1) ws by (intro windows_of_inv [of mb w key]) auto
  have st: "w_start w \<le> now" "0 < w_limit w" using assms(3) ws by auto
  note fixed = window_rejected_state [OF inv rej st(2)]
  from window_allow_wait [OF inv rej st] fixed(1)
  have "0 < wait" "fst (snd (window_allow (now + wait) w))" by (simp_all add: wait)
  moreover have "wait \<le> w_duration w" using fixed(2) st(1) inv
    by (simp add: wait time_Sub_def window_inv_def duration_bounds)
  ultimately show ?thesis using ws rej by auto
qed

theorem limiter_rejection_wait_witness:
  "\<exists>w \<in> set (windows_of (fst (limiter_Allow ''k'' 10
        (NewMultiBucketFixedWindowLimiter [\<lparr>Limit = 1, Duration = 5\<rparr>]))) ''k'').
    \<not> fst (snd (window_allow 12 w)) \<and>
    0 < (3 :: int) \<and> 3 \<le> w_duration w \<and> fst (snd (window_allow (12 + 3) w))"
proof -
  define mb where "mb = fst (limiter_Allow ''k'' 10
        (NewMultiBucketFixedWindowLimiter [\<lparr>Limit = 1, Duration = 5\<rparr>]))"
  have mb: "mb = \<lparr>l_windows = [''k'' \<mapsto> [\<lparr>w_limit = 1, w_duration = 5, w_requests = 1, w_start = 10\<rparr>]],
      l_cfg = [\<lparr>Limit = 1, Duration = 5\<rparr>]\<rparr>"
    by (simp add: mb_def limiter_Allow_def NewMultiBucketFixedWindowLimiter_def intoWindow_def
        window_allow_def time_Sub_def duration_bounds)
  have inv: "limiter_inv mb"
    unfolding mb_def by (intro limiter_Allow_inv New_inv) (simp add: cfg_ok_def max_duration_def)
  have "limiter_Allow ''k'' 12 mb = (mb, False, 3)"
    by (simp add: mb limiter_Allow_def window_allow_def time_Sub_def duration_bounds)
  moreover have "\<forall>w \<in> set (windows_of mb ''k''). w_start w \<le> 12 \<and> 0 < w_limit w"
    by (simp add: mb windows_of_def)
  ultimately show ?thesis
    using limiter_rejection_wait [OF inv] unfolding mb_def by blast
qed

text \<open>What a call to \<open>Allow\<close> charges. An allowed request is counted by every window of
  its key. A rejected one is still counted by the windows before the one that rejects it, and
  the windows after that one are not touched (not even reset).\<close>

theorem limiter_Allow_charges:
  fixes mb :: limiter
  shows "case limiter_Allow key now mb of (mb', ok, wait) \<Rightarrow>
    if ok then windows_of mb' key = map (\<lambda>w. fst (window_allow now w)) (windows_of mb key)
    else (\<exists>ys w zs. windows_of mb key = ys @ w # zs \<and>
        (\<forall>y \<in> set ys. fst (snd (window_allow now y))) \<and> \<not> fst (snd (window_allow now w)) \<and>
        windows_of mb' key = map (\<lambda>y. fst (window_allow now y)) ys @ fst (window_allow now w) # zs)"
proof (cases "fst (snd (windows_allow now (windows_of mb key)))")
  case True
  then have "fst (windows_allow now (windows_of mb key)) = map (\<lambda>w. fst (window_allow now w)) (windows_of mb key)"
    by (intro nth_equalityI) (auto simp: frame_simps windows_allow_nth windows_allow_ok)
  with True show ?thesis
    using windows_of_Allow [of key now mb key] limiter_Allow_snd [of key now mb]
    by (simp add: case_prod_unfold)
next
  case False
  then obtain ys w zs where
    "windows_of mb key = ys @ w # zs" "\<forall>y \<in> set ys. fst (snd (window_allow now y))"
    "\<not> fst (snd (window_allow now w))" and
    eq: "windows_allow now (windows_of mb key) =
      (map (\<lambda>y. fst (window_allow now y)) ys @ fst (window_allow now w) # zs,
       False, snd (snd (window_allow now w)))"
    by (rule windows_allow_rejected)
  moreover have "windows_of (fst (limiter_Allow key now mb)) key =
      map (\<lambda>y. fst (window_allow now y)) ys @ fst (window_allow now w) # zs"
    using windows_of_Allow [of key now mb key] eq by simp
  moreover have "\<not> fst (snd (limiter_Allow key now mb))"
    using False limiter_Allow_snd [of key now mb] by simp
  ultimately show ?thesis by (simp only: case_prod_unfold if_False) blast
qed

theorem limiter_Allow_charges_witness:
  "case limiter_Allow ''k'' 10 (NewMultiBucketFixedWindowLimiter
        [\<lparr>Limit = 3, Duration = 5\<rparr>, \<lparr>Limit = 0, Duration = 9\<rparr>]) of (mb', ok, wait) \<Rightarrow>
     \<not> ok \<and> map w_requests (windows_of mb' ''k'') = [1, 0]"
proof -
  let ?mb = "NewMultiBucketFixedWindowLimiter [\<lparr>Limit = 3, Duration = 5\<rparr>, \<lparr>Limit = 0, Duration = 9\<rparr>]"
  define a where "a = intoWindow \<lparr>Limit = 3, Duration = 5\<rparr>"
  define b where "b = intoWindow \<lparr>Limit = 0, Duration = 9\<rparr>"
  have ws: "windows_of ?mb ''k'' = [a, b]"
    by (simp add: windows_of_def NewMultiBucketFixedWindowLimiter_def a_def b_def)
  have ok: "fst (snd (window_allow 10 a))" "\<not> fst (snd (window_allow 10 b))"
    "w_requests (fst (window_allow 10 a)) = 1" "w_requests (fst (window_allow 10 b)) = 0"
    by (simp_all add: a_def b_def intoWindow_def window_allow_def)
  have no: "\<not> fst (snd (limiter_Allow ''k'' 10 ?mb))"
    by (simp add: limiter_Allow_ok ws ok)
  from limiter_Allow_charges [of "''k''" 10 ?mb] no obtain ys v zs where
    eq: "[a, b] = ys @ v # zs" "\<not> fst (snd (window_allow 10 v))"
      "windows_of (fst (limiter_Allow ''k'' 10 ?mb)) ''k'' =
         map (\<lambda>y. fst (window_allow 10 y)) ys @ fst (window_allow 10 v) # zs"
    unfolding ws case_prod_unfold by (simp only: if_False) blast
  have "ys = [a] \<and> v = b \<and> zs = []"
    using eq(1,2) ok(1) by (cases ys) (auto simp: Cons_eq_append_conv)
  with eq(3) no ok show ?thesis by (simp add: case_prod_unfold)
qed

text \<open>Keys do not interfere. Whatever calls are made with other keys in between, the
  answers a key gets are those it would get alone.\<close>

theorem limiter_keys_independent:
  "map snd (filter (\<lambda>(e, ok). fst e = key) (zip es (limiter_run mb es)))
     = limiter_run mb (filter (\<lambda>e. fst e = key) es)"
  unfolding limiter_run_def by (rule mb.keyed_run_key) simp

text \<open>\<open>OverrideWindows\<close> replaces limit and duration of the windows it has an entry for
  and keeps every window's request count and start time, the number of windows and the other
  keys.\<close>

theorem OverrideWindows_keeps_counts:
  assumes "l_windows mb key = Some ws"
  shows "\<exists>ws'. l_windows (OverrideWindows key cs mb) = (l_windows mb)(key \<mapsto> ws') \<and>
      map w_requests ws' = map w_requests ws \<and> map w_start ws' = map w_start ws \<and>
      (\<forall>i < length ws. w_limit (ws' ! i) = (if i < length cs then Limit (cs ! i) else w_limit (ws ! i)) \<and>
         w_duration (ws' ! i) = (if i < length cs then Duration (cs ! i) else w_duration (ws ! i)))"
proof -
  define ds where "ds = (if length cs > length ws then take (length ws) cs else cs)"
  have "l_windows (OverrideWindows key cs mb) = (l_windows mb)(key \<mapsto> override_windows ws ds)"
    using assms by (simp add: OverrideWindows_def Let_def ds_def)
  moreover have "i < length ws \<Longrightarrow> w_limit (override_windows ws ds ! i) =
      (if i < length cs then Limit (cs ! i) else w_limit (ws ! i)) \<and>
      w_duration (override_windows ws ds ! i) =
      (if i < length cs then Duration (cs ! i) else w_duration (ws ! i))" for i
    by (simp add: override_windows_nth ds_def)
  ultimately show ?thesis
    by (intro exI [of _ "override_windows ws ds"] conjI override_windows_counts) blast+
qed

theorem OverrideWindows_keeps_counts_witness:
  "\<exists>ws'. l_windows (OverrideWindows ''k'' [\<lparr>Limit = 9, Duration = 5\<rparr>]
      \<lparr>l_windows = [''k'' \<mapsto> [\<lparr>w_limit = 1, w_duration = 5, w_requests = 1, w_start = 10\<rparr>]], l_cfg = []\<rparr>)
      = [''k'' \<mapsto> ws'] \<and> map w_requests ws' = [1] \<and> map w_start ws' = [10] \<and> w_limit (ws' ! 0) = 9"
  using OverrideWindows_keeps_counts [where key = "''k''" and cs = "[\<lparr>Limit = 9, Duration = 5\<rparr>]"
      and ws = "[\<lparr>w_limit = 1, w_duration = 5, w_requests = 1, w_start = 10\<rparr>]"
      and mb = "\<lparr>l_windows = [''k'' \<mapsto> [\<lparr>w_limit = 1, w_duration = 5, w_requests = 1, w_start = 10\<rparr>]], l_cfg = []\<rparr>"]
  by auto

end
