(* ===== verification/Pattern.thy ===== *)
theory Pattern
  imports Prelude
begin

text \<open>
  The path patterns of \<open>internal/resttooling/ratelimiter/v2/pattern.go\<close>: parsing, matching
  against a request, and the comparison that decides which of two patterns is more specific.

  The main results relate the code to the set of requests a pattern describes
  (\<open>requests\<close>): \<open>pattern_match\<close> decides membership and \<open>comparePathsAndMethods\<close> computes
  how two such sets relate. Both hold for patterns with at least one segment; the pattern
  \<open>/\<close> parses to none, and there the code indexes an empty slice.
\<close>

section \<open>Model\<close>

record segment =
  seg_s :: string
  seg_identifier :: bool
  seg_multi :: bool

record pattern =
  pat_pattern :: string
  pat_method :: string
  pat_segments :: "segment list"

datatype pattern_error =
    EmptyPattern
  | InvalidMethod string
  | MissingSlash
  | BadIdentifierStart
  | BadIdentifierEnd
  | MultiNotAtEnd
  | EmptyIdentifier
  | DuplicateIdentifier string

definition validateMethod :: "string \<Rightarrow> pattern_error option" where
  "validateMethod method =
     (if method \<in> set [''GET'', ''POST'', ''PUT'', ''DELETE'', ''PATCH'', ''OPTIONS'']
      then None else Some (InvalidMethod method))"

text \<open>The loop of \<open>newPattern\<close>; \<open>seen\<close> are the names in \<open>seenNames\<close>.\<close>

function parse_segments ::
    "string \<Rightarrow> string list \<Rightarrow> segment list \<Rightarrow> pattern_error + segment list" where
  "parse_segments path seen segs =
     (if path = [] then Inr segs
      else let path1 = tl path in
        if path1 = [] then Inr segs
        else
          let i = (case index_byte path1 (CHR ''/'') of None \<Rightarrow> length path1 | Some i \<Rightarrow> i);
              seg = take i path1; path2 = drop i path1
          in case index_byte seg (CHR ''{'') of
               None \<Rightarrow> parse_segments path2 seen
                         (segs @ [\<lparr>seg_s = seg, seg_identifier = False, seg_multi = False\<rparr>])
             | Some j \<Rightarrow>
                 if j \<noteq> 0 then Inl BadIdentifierStart
                 else if last seg \<noteq> CHR ''}'' then Inl BadIdentifierEnd
                 else
                   let inner = take (length seg - 2) (drop 1 seg);
                       (name, multi) = cut_suffix inner ''...''
                   in if multi \<and> path2 \<noteq> [] then Inl MultiNotAtEnd
                      else if name = [] then Inl EmptyIdentifier
                      else if name \<in> set seen then Inl (DuplicateIdentifier name)
                      else parse_segments path2 (name # seen)
                             (segs @ [\<lparr>seg_s = name, seg_identifier = True, seg_multi = multi\<rparr>]))"
  by pat_completeness auto
termination
  by (relation "measure (\<lambda>(path, seen, segs). length path)") auto

declare parse_segments.simps [simp del]

definition newPattern :: "string \<Rightarrow> pattern_error + pattern" where
  "newPattern p =
     (if p = [] then Inl EmptyPattern
      else
        let (m, path0, found) = cut_byte (CHR '' '') p;
            path = (if found then path0 else m);
            method = (if found then m else [])
        in case (if found then validateMethod method else None) of
             Some err \<Rightarrow> Inl err
           | None \<Rightarrow>
               if index_byte path (CHR ''/'') = None then Inl MissingSlash
               else bind_sum (parse_segments path [] [])
                      (\<lambda>segs. Inr \<lparr>pat_pattern = p, pat_method = method, pat_segments = segs\<rparr>))"

definition lastSegment :: "pattern \<Rightarrow> segment panics" where
  "lastSegment p =
     (if pat_segments p = [] then Inl ''index out of range [-1]'' else Inr (last (pat_segments p)))"

datatype relationship = equivalent | moreGeneral | moreSpecific | disjoint | overlaps

definition inverseRelationship :: "relationship \<Rightarrow> relationship" where
  "inverseRelationship r =
     (case r of moreSpecific \<Rightarrow> moreGeneral | moreGeneral \<Rightarrow> moreSpecific | _ \<Rightarrow> r)"

definition combineRelationships :: "relationship \<Rightarrow> relationship \<Rightarrow> relationship" where
  "combineRelationships r1 r2 =
     (case r1 of
        equivalent \<Rightarrow> r2
      | disjoint \<Rightarrow> disjoint
      | overlaps \<Rightarrow> (if r2 = disjoint then disjoint else overlaps)
      | _ \<Rightarrow> (if r2 = equivalent then r1
              else if r2 = inverseRelationship r1 then overlaps
              else r2))"

definition compareSegments :: "segment \<Rightarrow> segment \<Rightarrow> relationship" where
  "compareSegments s1 s2 =
     (if seg_multi s1 \<and> seg_multi s2 then equivalent
      else if seg_multi s1 then moreGeneral
      else if seg_multi s2 then moreSpecific
      else if seg_identifier s1 \<and> seg_identifier s2 then equivalent
      else if seg_identifier s1 then moreGeneral
      else if seg_identifier s2 then moreSpecific
      else if seg_s s1 = seg_s s2 then equivalent
      else disjoint)"

definition compareMethods :: "pattern \<Rightarrow> pattern \<Rightarrow> relationship" where
  "compareMethods p p2 =
     (if pat_method p = pat_method p2 then equivalent
      else if pat_method p = [] then moreGeneral
      else if pat_method p2 = [] then moreSpecific
      else disjoint)"

text \<open>
  The loop of \<open>comparePaths\<close> and the code after it; \<open>m1\<close> and \<open>m2\<close> are what
  \<open>lastSegment().multi\<close> gives for the two patterns.
\<close>

fun comparePaths_loop ::
    "bool \<Rightarrow> bool \<Rightarrow> relationship \<Rightarrow> segment list \<Rightarrow> segment list \<Rightarrow> relationship" where
  "comparePaths_loop m1 m2 rel (g # gs) (h # hs) =
     (let r = combineRelationships rel (compareSegments g h)
      in if r = disjoint then r else comparePaths_loop m1 m2 r gs hs)"
| "comparePaths_loop m1 m2 rel [] [] = rel"
| "comparePaths_loop m1 m2 rel segs1 segs2 =
     (if length segs1 < length segs2 \<and> m1 then combineRelationships rel moreGeneral
      else if length segs2 < length segs1 \<and> m2 then combineRelationships rel moreSpecific
      else disjoint)"

text \<open>
  Where the lengths differ the code evaluates \<open>lastSegment\<close> of both patterns, at the latest
  after the loop, so it panics when either pattern has no segments; where they are equal it
  never does.
\<close>

definition comparePaths :: "pattern \<Rightarrow> pattern \<Rightarrow> relationship panics" where
  "comparePaths p p2 =
     (if length (pat_segments p) = length (pat_segments p2)
      then Inr (comparePaths_loop False False equivalent (pat_segments p) (pat_segments p2))
      else
        bind_sum (lastSegment p) (\<lambda>l1. bind_sum (lastSegment p2) (\<lambda>l2.
          if \<not> seg_multi l1 \<and> \<not> seg_multi l2 then Inr disjoint
          else Inr (comparePaths_loop (seg_multi l1) (seg_multi l2) equivalent
                      (pat_segments p) (pat_segments p2)))))"

definition comparePathsAndMethods :: "pattern \<Rightarrow> pattern \<Rightarrow> relationship panics" where
  "comparePathsAndMethods p p2 =
     (let mrel = compareMethods p p2
      in if mrel = disjoint then Inr disjoint
         else bind_sum (comparePaths p p2) (\<lambda>prel. Inr (combineRelationships mrel prel)))"

text \<open>The loop of \<open>match\<close>; the second argument is \<open>segments\<close> from the current index on.\<close>

fun match_loop :: "segment list \<Rightarrow> string list \<Rightarrow> bool panics" where
  "match_loop [] segments = Inr True"
| "match_loop (seg # segs) segments =
     (if seg_multi seg then Inr True
      else if seg_identifier seg then match_loop segs (tl segments)
      else case segments of
             [] \<Rightarrow> Inl ''index out of range''
           | s # _ \<Rightarrow> if s \<noteq> seg_s seg then Inr False else match_loop segs (tl segments))"

definition pattern_match :: "pattern \<Rightarrow> string \<Rightarrow> string list \<Rightarrow> bool panics" where
  "pattern_match p method segments =
     (if pat_method p \<noteq> [] \<and> pat_method p \<noteq> method then Inr False
      else if length segments \<noteq> length (pat_segments p)
      then bind_sum (lastSegment p) (\<lambda>l.
             if \<not> seg_multi l then Inr False
             else if length segments < length (pat_segments p) then Inr False
             else match_loop (pat_segments p) segments)
      else match_loop (pat_segments p) segments)"


section \<open>The requests a pattern describes\<close>

definition seg_values :: "segment \<Rightarrow> string set" where
  "seg_values g = (if seg_identifier g then UNIV else {seg_s g})"

text \<open>The paths, as lists of segments, that a list of pattern segments describes: a multi
  identifier stands for one or more path segments.\<close>

fun paths :: "segment list \<Rightarrow> string list set" where
  "paths [] = {[]}"
| "paths (g # gs) =
     (if seg_multi g then {x # xs |x xs. True}
      else {x # xs |x xs. x \<in> seg_values g \<and> xs \<in> paths gs})"

definition methods :: "pattern \<Rightarrow> string set" where
  "methods p = (if pat_method p = [] then UNIV else {pat_method p})"

definition requests :: "pattern \<Rightarrow> (string \<times> string list) set" where
  "requests p = methods p \<times> paths (pat_segments p)"

text \<open>A multi identifier stands at the end only.\<close>

fun wf_segs :: "segment list \<Rightarrow> bool" where
  "wf_segs [] = True"
| "wf_segs (g # gs) = ((seg_multi g \<longrightarrow> seg_identifier g \<and> gs = []) \<and> wf_segs gs)"

definition wf_pattern :: "pattern \<Rightarrow> bool" where
  "wf_pattern p \<longleftrightarrow> pat_segments p \<noteq> [] \<and> wf_segs (pat_segments p)"

text \<open>How two non-empty sets relate: the specification of the comparison.\<close>

definition rel_of :: "'a set \<Rightarrow> 'a set \<Rightarrow> relationship" where
  "rel_of A B =
     (if A \<inter> B = {} then disjoint
      else if A \<subseteq> B \<and> B \<subseteq> A then equivalent
      else if B \<subseteq> A then moreGeneral
      else if A \<subseteq> B then moreSpecific
      else overlaps)"

lemma seg_values_nonempty: "seg_values g \<noteq> {}"
  by (simp add: seg_values_def)

lemma paths_nonempty: "paths gs \<noteq> {}"
  by (induction gs) (auto simp: seg_values_def split: if_splits)

lemma requests_nonempty: "requests p \<noteq> {}"
  using paths_nonempty by (auto simp: requests_def methods_def)

subsection \<open>The algebra of relationships\<close>

lemma combine_assoc:
  "combineRelationships (combineRelationships a b) c = combineRelationships a (combineRelationships b c)"
  by (cases a; cases b; cases c) (simp_all add: combineRelationships_def inverseRelationship_def)

lemma combine_units [simp]:
  "combineRelationships equivalent r = r" "combineRelationships r equivalent = r"
  "combineRelationships disjoint r = disjoint" "combineRelationships r disjoint = disjoint"
  "combineRelationships moreGeneral moreGeneral = moreGeneral"
  "combineRelationships moreSpecific moreSpecific = moreSpecific"
  by (cases r; simp add: combineRelationships_def inverseRelationship_def)+

lemma combine_eq_disjoint:
  "combineRelationships a b = disjoint \<longleftrightarrow> a = disjoint \<or> b = disjoint"
  by (cases a; cases b) (simp_all add: combineRelationships_def inverseRelationship_def)

lemma rel_of_inverse:
  "rel_of B A = inverseRelationship (rel_of A B)"
  by (auto simp: rel_of_def inverseRelationship_def)

text \<open>A product of two comparisons is their combination.\<close>

lemma rel_of_Times:
  assumes "A1 \<noteq> {}" "A2 \<noteq> {}" "B1 \<noteq> {}" "B2 \<noteq> {}"
  shows "rel_of (A1 \<times> A2) (B1 \<times> B2) = combineRelationships (rel_of A1 B1) (rel_of A2 B2)"
proof -
  have inter: "(A1 \<times> A2) \<inter> (B1 \<times> B2) = {} \<longleftrightarrow> A1 \<inter> B1 = {} \<or> A2 \<inter> B2 = {}" by auto
  have sub: "A1 \<times> A2 \<subseteq> B1 \<times> B2 \<longleftrightarrow> A1 \<subseteq> B1 \<and> A2 \<subseteq> B2"
    and sup: "B1 \<times> B2 \<subseteq> A1 \<times> A2 \<longleftrightarrow> B1 \<subseteq> A1 \<and> B2 \<subseteq> A2"
    using assms by (simp_all add: times_subset_iff)
  show ?thesis
    by (simp add: rel_of_def inter sub sup combineRelationships_def inverseRelationship_def)
qed

lemma rel_of_image: "inj f \<Longrightarrow> rel_of (f ` A) (f ` B) = rel_of A B"
  by (simp add: rel_of_def inj_image_subset_iff image_Int [symmetric])


subsection \<open>Comparison computes the relation of the request sets\<close>

lemma not_UNIV_string: "\<not> UNIV \<subseteq> {y :: string}"
proof
  assume "UNIV \<subseteq> {y}"
  then have "CHR ''a'' # y = y" by blast
  then show False by simp
qed

lemma rel_of_basic [simp]:
  "rel_of {x} {y} = (if x = y then equivalent else disjoint)"
  "rel_of UNIV {s :: string} = moreGeneral"
  "rel_of {s :: string} UNIV = moreSpecific"
  "A \<noteq> {} \<Longrightarrow> rel_of A A = equivalent"
  using not_UNIV_string [of s] by (auto simp: rel_of_def)

lemma compareSegments_rel:
  "\<not> seg_multi g \<Longrightarrow> \<not> seg_multi h \<Longrightarrow> compareSegments g h = rel_of (seg_values g) (seg_values h)"
  by (simp add: compareSegments_def seg_values_def)

lemma compareMethods_rel: "compareMethods p q = rel_of (methods p) (methods q)"
  by (simp add: compareMethods_def methods_def)

lemma paths_mem [simp]:
  "xs \<in> paths [] \<longleftrightarrow> xs = []"
  "[] \<notin> paths (g # gs)"
  "x # xs \<in> paths (g # gs) \<longleftrightarrow> seg_multi g \<or> x \<in> seg_values g \<and> xs \<in> paths gs"
  by auto

declare paths.simps [simp del]

lemma paths_Cons_image:
  assumes "\<not> seg_multi g"
  shows "paths (g # gs) = (\<lambda>(x, xs). x # xs) ` (seg_values g \<times> paths gs)"
proof (rule set_eqI)
  fix ys
  show "ys \<in> paths (g # gs) \<longleftrightarrow> ys \<in> (\<lambda>(x, xs). x # xs) ` (seg_values g \<times> paths gs)"
    using assms by (cases ys) auto
qed

lemma rel_of_paths_Cons:
  assumes "\<not> seg_multi g" "\<not> seg_multi h"
  shows "rel_of (paths (g # gs)) (paths (h # hs)) =
    combineRelationships (compareSegments g h) (rel_of (paths gs) (paths hs))"
proof -
  have inj: "inj (\<lambda>(x, xs). x # xs)" by (auto simp: inj_def)
  show ?thesis
    unfolding paths_Cons_image [OF assms(1)] paths_Cons_image [OF assms(2)] rel_of_image [OF inj]
      compareSegments_rel [OF assms]
    by (rule rel_of_Times) (rule seg_values_nonempty paths_nonempty)+
qed

lemma paths_length:
  assumes "xs \<in> paths gs" "wf_segs gs" "gs \<noteq> []"
  shows "length gs \<le> length xs \<and> (seg_multi (last gs) \<or> length xs = length gs)"
  using assms
proof (induction gs arbitrary: xs)
  case Nil
  then show ?case by simp
next
  case (Cons g gs)
  then obtain x xs' where xs: "xs = x # xs'" by (cases xs) auto
  with Cons show ?case by (cases "gs = []") auto
qed

lemma rel_of_multi:
  assumes "seg_multi g" and "\<not> seg_multi h"
  shows "rel_of (paths (g # gs)) (paths (h # hs)) = moreGeneral"
proof -
  have sub: "xs \<in> paths (g # gs)" if "xs \<in> paths (h # hs)" for xs
    using that assms by (cases xs) auto
  obtain x xs where x: "x # xs \<in> paths (h # hs)"
    using paths_nonempty [of "h # hs"] paths_mem(2) by (metis all_not_in_conv list.exhaust)
  have "[x] \<notin> paths (h # hs) \<or> [x, []] \<notin> paths (h # hs) \<or> [x, [], []] \<notin> paths (h # hs)"
  proof (cases hs)
    case Nil
    then show ?thesis using assms by simp
  next
    case (Cons k ks)
    then show ?thesis using assms by simp
  qed
  then have "\<not> paths (g # gs) \<subseteq> paths (h # hs)" using assms(1) by (meson paths_mem(3) subsetD)
  with sub x show ?thesis unfolding rel_of_def by (metis IntI empty_iff subsetI)
qed

lemma rel_of_multi_eq:
  assumes "seg_multi g" and "seg_multi h"
  shows "rel_of (paths (g # gs)) (paths (h # hs)) = equivalent"
proof -
  have "xs \<in> paths (g # gs) \<longleftrightarrow> xs \<in> paths (h # hs)" for xs
    using assms by (cases xs) auto
  then have "paths (g # gs) = paths (h # hs)" by blast
  then show ?thesis using paths_nonempty [of "g # gs"] by simp
qed

lemma rel_of_short:
  assumes "hs \<noteq> []" "wf_segs hs" "\<not> seg_multi g" "\<not> seg_multi h"
  shows "rel_of (paths [g]) (paths (h # hs)) = disjoint"
proof -
  have "[] \<notin> paths hs" using paths_length [of "[]" hs] assms(1,2) by auto
  then have "xs \<notin> paths (h # hs)" if "xs \<in> paths [g]" for xs
    using that assms(3,4) by (cases xs) auto
  then show ?thesis by (auto simp: rel_of_def)
qed

lemma comparePaths_loop_rel:
  assumes "gs \<noteq> []" "hs \<noteq> []" "wf_segs gs" "wf_segs hs" "rel \<noteq> disjoint"
    and "length gs \<noteq> length hs \<Longrightarrow> m1 = seg_multi (last gs) \<and> m2 = seg_multi (last hs)"
  shows "comparePaths_loop m1 m2 rel gs hs = combineRelationships rel (rel_of (paths gs) (paths hs))"
  using assms
proof (induction gs arbitrary: hs rel)
  case Nil
  then show ?case by simp
next
  case (Cons g gs)
  from Cons.prems obtain h hs' where hs: "hs = h # hs'" by (cases hs) auto
  consider (gm) "seg_multi g" "\<not> seg_multi h" | (hm) "seg_multi h" "\<not> seg_multi g"
    | (both) "seg_multi g" "seg_multi h" | (none) "\<not> seg_multi g" "\<not> seg_multi h" by blast
  then show ?case
  proof cases
    case gm
    with Cons.prems hs show ?thesis
      using rel_of_multi [OF gm, of gs hs']
      by (cases hs') (auto simp: compareSegments_def combine_eq_disjoint combine_assoc)
  next
    case hm
    with Cons.prems hs show ?thesis
      using rel_of_multi [OF hm, of hs' gs] rel_of_inverse [of "paths (g # gs)" "paths (h # hs')"]
      by (cases gs) (auto simp: compareSegments_def combine_eq_disjoint combine_assoc inverseRelationship_def)
  next
    case both
    with Cons.prems hs show ?thesis
      using paths_nonempty [of "g # gs"] rel_of_multi_eq [OF both]
      by (auto simp: compareSegments_def)
  next
    case none
    show ?thesis
    proof (cases "gs = [] \<or> hs' = []")
      case True
      have "rel_of (paths (g # gs)) (paths (h # hs')) =
        (if gs = [] \<and> hs' = [] then compareSegments g h else disjoint)"
        using True rel_of_short [of hs' g h] rel_of_short [of gs h g] none Cons.prems(3,4) hs
          rel_of_inverse [of "paths (g # gs)" "paths (h # hs')"] rel_of_paths_Cons [OF none, of gs hs']
        by (auto simp: inverseRelationship_def paths.simps(1))
      with True none Cons.prems hs show ?thesis
        by (cases gs; cases hs') (auto simp: Let_def combine_eq_disjoint)
    next
      case False
      with Cons.prems hs
      have "comparePaths_loop m1 m2 r gs hs' = combineRelationships r (rel_of (paths gs) (paths hs'))"
        if "r \<noteq> disjoint" for r
        using that by (intro Cons.IH) auto
      with hs Cons.prems(5) show ?thesis
        by (simp add: rel_of_paths_Cons [OF none] combine_assoc [symmetric] combine_eq_disjoint Let_def)
    qed
  qed
qed

lemma comparePaths_rel:
  assumes "wf_pattern p" "wf_pattern q"
  shows "comparePaths p q = Inr (rel_of (paths (pat_segments p)) (paths (pat_segments q)))"
proof -
  let ?gs = "pat_segments p" and ?hs = "pat_segments q"
  have ne: "?gs \<noteq> []" "?hs \<noteq> []" and wf: "wf_segs ?gs" "wf_segs ?hs"
    using assms by (auto simp: wf_pattern_def)
  have disj: "rel_of (paths ?gs) (paths ?hs) = disjoint"
    if "length ?gs \<noteq> length ?hs" "\<not> seg_multi (last ?gs)" "\<not> seg_multi (last ?hs)"
    using that paths_length [OF _ wf(1) ne(1)] paths_length [OF _ wf(2) ne(2)]
    by (fastforce simp: rel_of_def)
  show ?thesis
    using comparePaths_loop_rel [OF ne wf, of equivalent] disj ne
    by (auto simp: comparePaths_def lastSegment_def)
qed

lemma comparePathsAndMethods_rel:
  assumes "wf_pattern p" "wf_pattern q"
  shows "comparePathsAndMethods p q = Inr (rel_of (requests p) (requests q))"
proof -
  have "methods p \<noteq> {}" "methods q \<noteq> {}" by (auto simp: methods_def)
  then have "rel_of (requests p) (requests q) = combineRelationships (compareMethods p q)
      (rel_of (paths (pat_segments p)) (paths (pat_segments q)))"
    by (simp add: requests_def rel_of_Times paths_nonempty compareMethods_rel)
  then show ?thesis
    using comparePaths_rel [OF assms] by (auto simp: comparePathsAndMethods_def Let_def)
qed

subsection \<open>Matching decides membership\<close>

lemma match_loop_paths:
  assumes "wf_segs gs" "gs \<noteq> []"
    and "length xs = length gs \<or> seg_multi (last gs) \<and> length gs \<le> length xs"
  shows "match_loop gs xs = Inr (xs \<in> paths gs)"
  using assms
proof (induction gs arbitrary: xs)
  case Nil
  then show ?case by simp
next
  case (Cons g gs)
  then obtain x xs' where xs: "xs = x # xs'" by (cases xs) auto
  show ?case
  proof (cases "gs = []")
    case True
    with Cons.prems xs show ?thesis by (auto simp: seg_values_def)
  next
    case False
    with Cons.prems xs have "match_loop gs xs' = Inr (xs' \<in> paths gs)" "\<not> seg_multi g"
      by (auto intro!: Cons.IH)
    with xs show ?thesis by (auto simp: seg_values_def)
  qed
qed

lemma pattern_match_requests:
  assumes "wf_pattern p"
  shows "pattern_match p method segments = Inr ((method, segments) \<in> requests p)"
proof -
  let ?gs = "pat_segments p"
  have wf: "wf_segs ?gs" "?gs \<noteq> []" using assms by (auto simp: wf_pattern_def)
  have out: "segments \<notin> paths ?gs"
    if "length segments \<noteq> length ?gs" "\<not> seg_multi (last ?gs) \<or> length segments < length ?gs"
    using that paths_length [OF _ wf] by fastforce
  show ?thesis
    using match_loop_paths [OF wf, of segments] out wf
    by (auto simp: pattern_match_def lastSegment_def requests_def methods_def)
qed


section \<open>Parsing\<close>

definition id_names :: "segment list \<Rightarrow> string list" where
  "id_names gs = map seg_s (filter seg_identifier gs)"

lemma id_names_simps [simp]:
  "id_names [] = []"
  "id_names (g # gs) = (if seg_identifier g then seg_s g # id_names gs else id_names gs)"
  by (simp_all add: id_names_def)

lemma parse_segments_end: "path = [] \<or> tl path = [] \<Longrightarrow> parse_segments path seen segs = Inr segs"
  by (subst parse_segments.simps) auto

lemma parse_segments_result:
  assumes "parse_segments path seen segs = Inr segs'"
  shows "\<exists>new. segs' = segs @ new \<and> wf_segs new \<and> distinct (id_names new) \<and>
    set (id_names new) \<inter> set seen = {} \<and> (new = [] \<longleftrightarrow> length path \<le> 1)"
  using assms
proof (induction path seen segs rule: parse_segments.induct)
  case (1 path seen segs)
  show ?case
  proof (cases "length path \<le> 1")
    case True
    then have "path = [] \<or> tl path = []" by (cases path) auto
    with "1.prems" True show ?thesis by (auto simp: parse_segments_end)
  next
    case False
    then have ne: "path \<noteq> []" "tl path \<noteq> []" by (cases path; cases "tl path"; simp)+
    define i where "i = (case index_byte (tl path) (CHR ''/'') of None \<Rightarrow> length (tl path) | Some i \<Rightarrow> i)"
    define seg where "seg = take i (tl path)"
    define path2 where "path2 = drop i (tl path)"
    note IH = "1.IH" [OF ne(1) refl ne(2) i_def seg_def path2_def]
    note step = "1.prems" [unfolded parse_segments.simps [of path seen segs] Let_def
        if_not_P [OF ne(1)] if_not_P [OF ne(2)], folded i_def, folded seg_def path2_def]
    show ?thesis
    proof (cases "index_byte seg (CHR ''{'')")
      case None
      with IH(1) [OF None] step False show ?thesis by fastforce
    next
      case (Some j)
      obtain name multi where cut: "cut_suffix (take (length seg - 2) (drop 1 seg)) ''...'' = (name, multi)"
        by fastforce
      from step Some cut have c: "j = 0" "last seg = CHR ''}''" "\<not> (multi \<and> path2 \<noteq> [])" "name \<noteq> []"
          "name \<notin> set seen" and
        rec: "parse_segments path2 (name # seen)
          (segs @ [\<lparr>seg_s = name, seg_identifier = True, seg_multi = multi\<rparr>]) = Inr segs'"
        by (auto split: if_splits)
      from c have "\<not> j \<noteq> 0" "\<not> last seg \<noteq> CHR ''}''" by simp_all
      from IH(2) [OF Some this refl cut [symmetric] refl c(3-5) rec] obtain new where
        new: "segs' = segs @ \<lparr>seg_s = name, seg_identifier = True, seg_multi = multi\<rparr> # new"
          "wf_segs new" "distinct (id_names new)" "set (id_names new) \<inter> set (name # seen) = {}"
          "new = [] \<longleftrightarrow> length path2 \<le> 1"
        by auto
      with c(3,5) False show ?thesis by auto
    qed
  qed
qed


subsection \<open>Printing, and parsing back\<close>

definition print_seg :: "segment \<Rightarrow> string" where
  "print_seg g =
     (if seg_identifier g then CHR ''{'' # seg_s g @ (if seg_multi g then ''...'' else []) @ ''}''
      else seg_s g)"

definition print_path :: "segment list \<Rightarrow> string" where
  "print_path gs = concat (map (\<lambda>g. CHR ''/'' # print_seg g) gs)"

definition print_pattern :: "string \<Rightarrow> segment list \<Rightarrow> string" where
  "print_pattern method gs = (if method = [] then [] else method @ '' '') @ print_path gs"

definition printable :: "segment \<Rightarrow> bool" where
  "printable g \<longleftrightarrow> seg_s g \<noteq> [] \<and> CHR ''/'' \<notin> set (seg_s g) \<and> CHR '' '' \<notin> set (seg_s g) \<and>
     (if seg_identifier g then seg_multi g \<or> \<not> has_suffix (seg_s g) ''...''
      else \<not> seg_multi g \<and> CHR ''{'' \<notin> set (seg_s g))"

lemma print_seg_chars:
  "printable g \<Longrightarrow> CHR ''/'' \<notin> set (print_seg g) \<and> CHR '' '' \<notin> set (print_seg g) \<and> print_seg g \<noteq> []"
  by (auto simp: printable_def print_seg_def)

lemma print_path_hd: "print_path gs = [] \<or> hd (print_path gs) = CHR ''/''"
  by (cases gs) (auto simp: print_path_def)

lemma print_path_Cons: "print_path (g # gs) = CHR ''/'' # print_seg g @ print_path gs"
  by (simp add: print_path_def)

lemma print_path_Nil_iff: "print_path gs = [] \<longleftrightarrow> gs = []"
  by (cases gs) (simp_all add: print_path_def)

lemma print_path_space: "\<forall>g \<in> set gs. printable g \<Longrightarrow> CHR '' '' \<notin> set (print_path gs)"
  by (auto simp: print_path_def print_seg_chars)

lemma parse_identifier:
  assumes "seg_identifier g" "printable g"
  shows "index_byte (print_seg g) (CHR ''{'') = Some 0" "last (print_seg g) = CHR ''}''"
    "cut_suffix (take (length (print_seg g) - 2) (drop 1 (print_seg g))) ''...'' = (seg_s g, seg_multi g)"
  using assms cut_suffix_append [of "seg_s g" "''...''"]
  by (auto simp: print_seg_def printable_def cut_suffix_def split: if_splits)

lemma parse_print_path:
  assumes "wf_segs gs" "\<forall>g \<in> set gs. printable g" "distinct (id_names gs)"
    "set (id_names gs) \<inter> set seen = {}"
  shows "parse_segments (print_path gs) seen acc = Inr (acc @ gs)"
  using assms
proof (induction gs arbitrary: seen acc)
  case Nil
  then show ?case by (simp add: print_path_def parse_segments_end)
next
  case (Cons g gs)
  let ?rest = "print_path gs" and ?seg = "print_seg g"
  define i where "i = (case index_byte (?seg @ ?rest) (CHR ''/'') of
      None \<Rightarrow> length (?seg @ ?rest) | Some i \<Rightarrow> i)"
  have chars: "CHR ''/'' \<notin> set ?seg" "?seg \<noteq> []" using Cons.prems(2) print_seg_chars by auto
  note cut = index_byte_before [OF chars(1) print_path_hd [of gs], folded i_def]
  have IH: "parse_segments ?rest seen' acc' = Inr (acc' @ gs)"
    if "set (id_names gs) \<inter> set seen' = {}" for seen' acc'
    using Cons.prems that by (intro Cons.IH) (auto split: if_splits)
  have unfold: "parse_segments (print_path (g # gs)) seen acc =
      (case index_byte ?seg (CHR ''{'') of
         None \<Rightarrow> parse_segments ?rest seen (acc @ [\<lparr>seg_s = ?seg, seg_identifier = False, seg_multi = False\<rparr>])
       | Some j \<Rightarrow>
           if j \<noteq> 0 then Inl BadIdentifierStart
           else if last ?seg \<noteq> CHR ''}'' then Inl BadIdentifierEnd
           else let (name, multi) = cut_suffix (take (length ?seg - 2) (drop 1 ?seg)) ''...''
             in if multi \<and> ?rest \<noteq> [] then Inl MultiNotAtEnd
                else if name = [] then Inl EmptyIdentifier
                else if name \<in> set seen then Inl (DuplicateIdentifier name)
                else parse_segments ?rest (name # seen)
                       (acc @ [\<lparr>seg_s = name, seg_identifier = True, seg_multi = multi\<rparr>]))"
    using chars(2)
    by (subst parse_segments.simps)
      (simp add: print_path_Cons Let_def i_def [symmetric] cut del: take_append drop_append
        split: option.split prod.split)
  show ?case
  proof (cases "seg_identifier g")
    case True
    note id = parse_identifier [OF True]
    have "\<not> (seg_multi g \<and> ?rest \<noteq> [])" using Cons.prems(1) by (auto simp: print_path_Nil_iff)
    with Cons.prems True id IH [of "seg_s g # seen"] show ?thesis
      by (simp add: unfold printable_def)
  next
    case False
    with Cons.prems have "index_byte ?seg (CHR ''{'') = None" "?seg = seg_s g" "\<not> seg_multi g"
      by (auto simp: print_seg_def printable_def index_byte_None_iff)
    with Cons.prems False IH [of seen] show ?thesis by (simp add: unfold)
  qed
qed

text \<open>A parsed pattern with a segment is well formed.\<close>

lemma newPattern_wf:
  assumes "newPattern s = Inr p" "pat_segments p \<noteq> []"
  shows "wf_pattern p" and "pat_pattern p = s"
  using assms parse_segments_result [of _ "[]" "[]"]
  by (fastforce simp: newPattern_def wf_pattern_def Let_def bind_sum_Inr_iff
      split: if_splits option.splits prod.splits)+

section \<open>Properties\<close>

text \<open>C12: the comparison of patterns is exact. For any two patterns with at least one segment,
  \<open>comparePathsAndMethods\<close> returns without panic the relation that the two sets of requests
  have: disjoint, equal, strictly including either way, or overlapping.\<close>

theorem comparePathsAndMethods_exact:
  assumes "wf_pattern p" "wf_pattern q"
  shows "comparePathsAndMethods p q = Inr (rel_of (requests p) (requests q))"
  using assms by (rule comparePathsAndMethods_rel)

theorem comparePathsAndMethods_exact_witness:
  "comparePathsAndMethods
     \<lparr>pat_pattern = ''/a/{x}'', pat_method = [], pat_segments =
        [\<lparr>seg_s = ''a'', seg_identifier = False, seg_multi = False\<rparr>,
         \<lparr>seg_s = ''x'', seg_identifier = True, seg_multi = False\<rparr>]\<rparr>
     \<lparr>pat_pattern = ''/{all...}'', pat_method = [], pat_segments =
        [\<lparr>seg_s = ''all'', seg_identifier = True, seg_multi = True\<rparr>]\<rparr> = Inr moreSpecific \<and>
   rel_of (requests \<lparr>pat_pattern = ''/a/{x}'', pat_method = [], pat_segments =
        [\<lparr>seg_s = ''a'', seg_identifier = False, seg_multi = False\<rparr>,
         \<lparr>seg_s = ''x'', seg_identifier = True, seg_multi = False\<rparr>]\<rparr>)
     (requests \<lparr>pat_pattern = ''/{all...}'', pat_method = [], pat_segments =
        [\<lparr>seg_s = ''all'', seg_identifier = True, seg_multi = True\<rparr>]\<rparr>) = moreSpecific"
proof -
  let ?p = "\<lparr>pat_pattern = ''/a/{x}'', pat_method = [], pat_segments =
        [\<lparr>seg_s = ''a'', seg_identifier = False, seg_multi = False\<rparr>,
         \<lparr>seg_s = ''x'', seg_identifier = True, seg_multi = False\<rparr>]\<rparr>"
  let ?q = "\<lparr>pat_pattern = ''/{all...}'', pat_method = [], pat_segments =
        [\<lparr>seg_s = ''all'', seg_identifier = True, seg_multi = True\<rparr>]\<rparr>"
  have "comparePathsAndMethods ?p ?q = Inr moreSpecific"
    by (simp add: comparePathsAndMethods_def compareMethods_def comparePaths_def lastSegment_def
        compareSegments_def)
  moreover have "comparePathsAndMethods ?p ?q = Inr (rel_of (requests ?p) (requests ?q))"
    by (rule comparePathsAndMethods_exact) (simp_all add: wf_pattern_def)
  ultimately show ?thesis by simp
qed

text \<open>Matching is exact. A pattern with at least one segment matches exactly the requests
  it describes, and \<open>match\<close> never indexes out of range on it.\<close>

theorem pattern_match_exact:
  assumes "wf_pattern p"
  shows "pattern_match p method segments = Inr ((method, segments) \<in> requests p)"
  using assms by (rule pattern_match_requests)

theorem pattern_match_exact_witness:
  "pattern_match \<lparr>pat_pattern = ''GET /{all...}'', pat_method = ''GET'', pat_segments =
        [\<lparr>seg_s = ''all'', seg_identifier = True, seg_multi = True\<rparr>]\<rparr> ''GET'' [''a'', ''b''] = Inr True"
  using pattern_match_exact [of "\<lparr>pat_pattern = ''GET /{all...}'', pat_method = ''GET'', pat_segments =
        [\<lparr>seg_s = ''all'', seg_identifier = True, seg_multi = True\<rparr>]\<rparr>" "''GET''" "[''a'', ''b'']"]
  by (simp add: wf_pattern_def requests_def methods_def)

text \<open>What \<open>newPattern\<close> accepts. An accepted pattern has an optional method of the six
  allowed ones, multi identifiers at the end only, pairwise different identifier names, and at
  least one segment unless its path is a single character.\<close>

theorem newPattern_sound:
  assumes "newPattern s = Inr p"
  shows "wf_segs (pat_segments p) \<and> distinct (id_names (pat_segments p)) \<and> pat_pattern p = s \<and>
    pat_method p \<in> set [[], ''GET'', ''POST'', ''PUT'', ''DELETE'', ''PATCH'', ''OPTIONS''] \<and>
    (pat_segments p = [] \<longleftrightarrow>
       (let (m, path, found) = cut_byte (CHR '' '') s in (if found then path else m) = ''/''))"
proof -
  obtain m path0 found where cut: "cut_byte (CHR '' '') s = (m, path0, found)" by (cases "cut_byte (CHR '' '') s")
  define path where "path = (if found then path0 else m)"
  from assms cut obtain segs where ok: "found \<Longrightarrow> validateMethod m = None"
    and slash: "index_byte path (CHR ''/'') \<noteq> None" and parse: "parse_segments path [] [] = Inr segs"
    and p: "p = \<lparr>pat_pattern = s, pat_method = (if found then m else []), pat_segments = segs\<rparr>"
    by (auto simp: newPattern_def path_def bind_sum_Inr_iff split: if_splits option.splits)
  from parse_segments_result [OF parse] have
    segs: "wf_segs segs" "distinct (id_names segs)" "segs = [] \<longleftrightarrow> length path \<le> 1" by auto
  have "length path \<le> 1 \<longleftrightarrow> path = ''/''"
    using slash by (cases path; cases "tl path") (auto split: if_splits)
  with segs ok cut p show ?thesis
    by (auto simp: validateMethod_def path_def [symmetric] split: if_splits)
qed

theorem newPattern_sound_witness:
  "newPattern ''/{id}'' = Inr \<lparr>pat_pattern = ''/{id}'', pat_method = [], pat_segments =
      [\<lparr>seg_s = ''id'', seg_identifier = True, seg_multi = False\<rparr>]\<rparr> \<and>
   wf_segs [\<lparr>seg_s = ''id'', seg_identifier = True, seg_multi = False\<rparr>]"
proof -
  have *: "newPattern ''/{id}'' = Inr \<lparr>pat_pattern = ''/{id}'', pat_method = [], pat_segments =
      [\<lparr>seg_s = ''id'', seg_identifier = True, seg_multi = False\<rparr>]\<rparr>"
    by (simp add: newPattern_def parse_segments.simps cut_suffix_def has_suffix_def)
  then show ?thesis using newPattern_sound [OF *] by simp
qed

text \<open>Parsing inverts printing. For every list of segments that a pattern can express,
  with or without an allowed method, \<open>newPattern\<close> of its written form gives it back.\<close>

theorem newPattern_print:
  assumes "gs \<noteq> []" "wf_segs gs" "\<forall>g \<in> set gs. printable g" "distinct (id_names gs)"
    and "method = [] \<or> validateMethod method = None"
  shows "newPattern (print_pattern method gs) =
    Inr \<lparr>pat_pattern = print_pattern method gs, pat_method = method, pat_segments = gs\<rparr>"
proof -
  let ?path = "print_path gs"
  have parse: "parse_segments ?path [] [] = Inr gs"
    using parse_print_path [of gs "[]" "[]"] assms(2-4) by simp
  have slash: "index_byte ?path (CHR ''/'') \<noteq> None" and ne: "?path \<noteq> []"
    using assms(1) by (cases gs; simp add: print_path_Cons)+
  have "cut_byte (CHR '' '') (print_pattern method gs) =
      (if method = [] then (?path, [], False) else (method, ?path, True))"
  proof (cases "method = []")
    case True
    then show ?thesis using print_path_space [OF assms(3)] by (simp add: print_pattern_def cut_byte_none)
  next
    case False
    with assms(5) have "CHR '' '' \<notin> set method"
      by (auto simp: validateMethod_def split: if_splits)
    with False show ?thesis by (simp add: print_pattern_def cut_byte_append)
  qed
  with parse slash ne assms(5) show ?thesis
    by (auto simp: newPattern_def print_pattern_def)
qed

theorem newPattern_print_witness:
  "newPattern ''GET /a/{x}'' = Inr \<lparr>pat_pattern = ''GET /a/{x}'', pat_method = ''GET'', pat_segments =
     [\<lparr>seg_s = ''a'', seg_identifier = False, seg_multi = False\<rparr>,
      \<lparr>seg_s = ''x'', seg_identifier = True, seg_multi = False\<rparr>]\<rparr>"
  using newPattern_print [of "[\<lparr>seg_s = ''a'', seg_identifier = False, seg_multi = False\<rparr>,
      \<lparr>seg_s = ''x'', seg_identifier = True, seg_multi = False\<rparr>]" "''GET''"]
  by (simp add: printable_def has_suffix_def validateMethod_def print_pattern_def print_path_def print_seg_def)

text \<open>The pattern \<open>/\<close>. It is accepted and has no segments; matching it against any
  request then indexes an empty slice at \<open>-1\<close>, and so does comparing it with any pattern that
  has a segment.\<close>

theorem root_pattern_panics:
  "\<exists>p. newPattern ''/'' = Inr p \<and>
    (\<forall>method x xs. pattern_match p method (x # xs) = Inl ''index out of range [-1]'') \<and>
    (\<forall>q g gs. comparePathsAndMethods p (q\<lparr>pat_segments := g # gs\<rparr>) = Inl ''index out of range [-1]'')"
  by (simp add: newPattern_def parse_segments_end pattern_match_def lastSegment_def
      comparePathsAndMethods_def compareMethods_def comparePaths_def)

end
