(* ===== verification/Recovery.thy ===== *)
theory Recovery
  imports Prelude
begin

text \<open>
  The restart helpers of \<open>internal/recoverytooling/recovery.go\<close>.

  The function they run is a state transformer with the outcome of one run: it returned
  \<open>nil\<close>, it returned an error, or it panicked. \<open>ctx.Done()\<close> is read from the state, which
  includes the environment, by the parameter \<open>is_done\<close>. The loops need not end, so they are
  partial functions and the value \<open>None\<close> stands for running forever.
\<close>

section \<open>Model\<close>

datatype 'e outcome = Returned | ReturnedErr 'e | Panicked string

partial_function (option) RecoverOrStop ::
    "('s \<Rightarrow> bool) \<Rightarrow> ('s \<Rightarrow> 's \<times> string option) \<Rightarrow> 's \<Rightarrow> 's option" where
  "RecoverOrStop is_done exec s =
     (if is_done s then Some s
      else case exec s of
             (s', panic) \<Rightarrow> if panic = None then Some s' else RecoverOrStop is_done exec s')"

partial_function (option) Loop_recovering ::
    "('s \<Rightarrow> bool) \<Rightarrow> ('s \<Rightarrow> 's \<times> string option) \<Rightarrow> 's \<Rightarrow> 's option" where
  "Loop_recovering is_done loop s =
     (if is_done s then Some s else Loop_recovering is_done loop (fst (loop s)))"

text \<open>\<open>SuppressPanic\<close> returns normally whatever \<open>exec\<close> does; the second component is what
  it logs: the panic, then the message that it was suppressed.\<close>

datatype panic_log = LogPanic string | LogError string string

definition SuppressPanic :: "('s \<Rightarrow> 's \<times> string option) \<Rightarrow> 's \<Rightarrow> 's \<times> panic_log list" where
  "SuppressPanic exec s =
     (case exec s of
        (s', None) \<Rightarrow> (s', [])
      | (s', Some p) \<Rightarrow> (s', [LogPanic p, LogError ''panic suppressed, won't retry'' p]))"

partial_function (option) DoUntilSuccess ::
    "('s \<Rightarrow> bool) \<Rightarrow> ('s \<Rightarrow> 's \<times> 'e outcome) \<Rightarrow> 's \<Rightarrow> 's option" where
  "DoUntilSuccess is_done f s =
     (if is_done s then Some s
      else case f s of
             (s', r) \<Rightarrow> (case r of Returned \<Rightarrow> Some s' | _ \<Rightarrow> DoUntilSuccess is_done f s'))"

section \<open>A loop that repeats a step until one succeeds\<close>

text \<open>The two restart loops are instances of one scheme: stop when the context is done or when
  a step reports success.\<close>

locale restart_loop =
  fixes is_done :: "'s \<Rightarrow> bool"
    and step :: "'s \<Rightarrow> 's"
    and succeeds :: "'s \<Rightarrow> bool"
    and run :: "'s \<Rightarrow> 's option"
  assumes run_eq: "run s = (if is_done s then Some s else if succeeds s then Some (step s) else run (step s))"
    and run_ends: "run s = Some s' \<Longrightarrow> \<exists>n. is_done ((step ^^ n) s) \<or> succeeds ((step ^^ n) s)"
begin

lemma run_unfold:
  assumes "\<forall>k < n. \<not> is_done ((step ^^ k) s) \<and> \<not> succeeds ((step ^^ k) s)"
  shows "run s = run ((step ^^ n) s)"
  using assms
proof (induction n)
  case (Suc n)
  then have "run s = run ((step ^^ n) s)" by simp
  also have "\<dots> = run ((step ^^ Suc n) s)" using Suc.prems by (subst run_eq) simp
  finally show ?case .
qed simp

lemma run_result:
  assumes "\<forall>k < n. \<not> is_done ((step ^^ k) s) \<and> \<not> succeeds ((step ^^ k) s)"
    and "is_done ((step ^^ n) s) \<or> succeeds ((step ^^ n) s)"
  shows "run s = Some (if is_done ((step ^^ n) s) then (step ^^ n) s else (step ^^ Suc n) s)"
  using run_unfold [OF assms(1)] assms(2) run_eq [of "(step ^^ n) s"] by auto

lemma run_Some_iff:
  "run s = Some s' \<longleftrightarrow>
     (\<exists>n. (\<forall>k < n. \<not> is_done ((step ^^ k) s) \<and> \<not> succeeds ((step ^^ k) s)) \<and>
       (is_done ((step ^^ n) s) \<and> s' = (step ^^ n) s \<or>
        \<not> is_done ((step ^^ n) s) \<and> succeeds ((step ^^ n) s) \<and> s' = (step ^^ Suc n) s))"
  (is "_ \<longleftrightarrow> ?R")
proof
  assume eq: "run s = Some s'"
  define n where "n = (LEAST n. is_done ((step ^^ n) s) \<or> succeeds ((step ^^ n) s))"
  have n: "is_done ((step ^^ n) s) \<or> succeeds ((step ^^ n) s)"
    unfolding n_def using run_ends [OF eq] by (rule LeastI_ex)
  have below: "\<forall>k < n. \<not> is_done ((step ^^ k) s) \<and> \<not> succeeds ((step ^^ k) s)"
    unfolding n_def using not_less_Least by blast
  from run_result [OF below n] eq n below show ?R by (intro exI [of _ n]) (auto split: if_splits)
next
  assume ?R
  then show "run s = Some s'" using run_result by auto
qed

end

lemma DoUntilSuccess_eq:
  "DoUntilSuccess is_done f s =
     (if is_done s then Some s else if snd (f s) = Returned then Some (fst (f s))
      else DoUntilSuccess is_done f (fst (f s)))"
  by (subst DoUntilSuccess.simps) (auto simp: case_prod_unfold split: outcome.split)

lemma DoUntilSuccess_ends:
  assumes "DoUntilSuccess is_done f s = Some s'"
  shows "\<exists>n. is_done (((\<lambda>s. fst (f s)) ^^ n) s) \<or> snd (f (((\<lambda>s. fst (f s)) ^^ n) s)) = Returned"
proof (induction is_done f s s' rule: DoUntilSuccess.raw_induct)
  case (1 run is_done f s s')
  show ?case
  proof (cases "is_done s \<or> snd (f s) = Returned")
    case True
    then show ?thesis by (intro exI [of _ 0]) simp
  next
    case False
    then have "run is_done f (fst (f s)) = Some s'"
      using 1(2) by (auto simp: case_prod_unfold split: outcome.splits)
    from 1(1) [OF this] obtain n where "is_done (((\<lambda>s. fst (f s)) ^^ n) (fst (f s))) \<or>
        snd (f (((\<lambda>s. fst (f s)) ^^ n) (fst (f s)))) = Returned" by blast
    then show ?thesis by (intro exI [of _ "Suc n"]) (simp only: funpow_Suc_right o_apply)
  qed
qed (rule assms)

interpretation dus: restart_loop is_done "\<lambda>s. fst (f s)" "\<lambda>s. snd (f s) = Returned"
    "DoUntilSuccess is_done f" for is_done f
  by unfold_locales (rule DoUntilSuccess_eq, rule DoUntilSuccess_ends)

lemma RecoverOrStop_eq:
  "RecoverOrStop is_done f s =
     (if is_done s then Some s else if snd (f s) = None then Some (fst (f s))
      else RecoverOrStop is_done f (fst (f s)))"
  by (subst RecoverOrStop.simps) (auto simp: case_prod_unfold)

lemma RecoverOrStop_ends:
  assumes "RecoverOrStop is_done f s = Some s'"
  shows "\<exists>n. is_done (((\<lambda>s. fst (f s)) ^^ n) s) \<or> snd (f (((\<lambda>s. fst (f s)) ^^ n) s)) = None"
proof (induction is_done f s s' rule: RecoverOrStop.raw_induct)
  case (1 run is_done f s s')
  show ?case
  proof (cases "is_done s \<or> snd (f s) = None")
    case True
    then show ?thesis by (intro exI [of _ 0]) simp
  next
    case False
    then have "run is_done f (fst (f s)) = Some s'"
      using 1(2) by (auto simp: case_prod_unfold split: option.splits)
    from 1(1) [OF this] obtain n where "is_done (((\<lambda>s. fst (f s)) ^^ n) (fst (f s))) \<or>
        snd (f (((\<lambda>s. fst (f s)) ^^ n) (fst (f s)))) = None" by blast
    then show ?thesis by (intro exI [of _ "Suc n"]) (simp only: funpow_Suc_right o_apply)
  qed
qed (rule assms)

interpretation ros: restart_loop is_done "\<lambda>s. fst (f s)" "\<lambda>s. snd (f s) = None"
    "RecoverOrStop is_done f" for is_done f
  by unfold_locales (rule RecoverOrStop_eq, rule RecoverOrStop_ends)

section \<open>Properties\<close>

text \<open>\<open>DoUntilSuccess\<close> returns exactly when some run of the function is the first to
  return \<open>nil\<close>, or the context is done before such a run starts; errors and panics restart the
  function on the state they leave. The state at return is the one after that run.\<close>

theorem DoUntilSuccess_first_success:
  "DoUntilSuccess is_done f s = Some s' \<longleftrightarrow>
     (\<exists>n. (\<forall>k < n. \<not> is_done (((\<lambda>s. fst (f s)) ^^ k) s) \<and> snd (f (((\<lambda>s. fst (f s)) ^^ k) s)) \<noteq> Returned) \<and>
       (is_done (((\<lambda>s. fst (f s)) ^^ n) s) \<and> s' = ((\<lambda>s. fst (f s)) ^^ n) s \<or>
        \<not> is_done (((\<lambda>s. fst (f s)) ^^ n) s) \<and> snd (f (((\<lambda>s. fst (f s)) ^^ n) s)) = Returned \<and>
          s' = ((\<lambda>s. fst (f s)) ^^ Suc n) s))"
  by (rule dus.run_Some_iff)

theorem DoUntilSuccess_first_success_witness:
  "DoUntilSuccess (\<lambda>_. False)
     (\<lambda>i :: nat. (i + 1, if i = 0 then Panicked ''panic'' else if i = 1 then ReturnedErr ''error'' else Returned)) 0
   = Some 3"
  unfolding DoUntilSuccess_first_success
  by (intro exI [of _ 2]) (auto simp: numeral_2_eq_2 less_Suc_eq)

end
