(* ===== verification/Limiter_Manager.thy ===== *)
theory Limiter_Manager
  imports Rate_Window Pattern Recovery "HOL-Library.Multiset"
begin

text \<open>
  The manager of \<open>internal/resttooling/ratelimiter/v2\<close>: it keeps one limiter per path
  pattern, ordered by precedence, answers requests, and reloads its configuration.

  \<open>Manager\<close> is the record \<open>manager\<close>; the three Prometheus counters it increments are fields
  of it. Parameters stand for what the code is given or gets from elsewhere: the configuration
  hash of package hashstructure, the override fetcher, the configuration getter's results and
  the clock. A Go map is iterated in an unspecified order, so \<open>cfg.Paths\<close> is the list of its
  entries in the order of one iteration.
\<close>

section \<open>Model\<close>

definition ModeReporting :: string where "ModeReporting = ''reporting''"
definition ModeEnforcing :: string where "ModeEnforcing = ''enforcing''"

record Config =
  Enabled :: bool
  Mode :: string
  Paths :: "(string \<times> WindowConfig list) list"

datatype config_error =
    GetterError string
  | HashError string
  | PathParseError pattern_error string
  | ConflictingPatterns string string

type_synonym config_hash = "Config \<Rightarrow> string + 64 word"
type_synonym override_fetcher = "string \<Rightarrow> string \<Rightarrow> bool \<times> WindowConfig list"

record manager =
  m_enabled :: bool
  m_mode :: string
  m_lastConfigHash :: "64 word"
  m_patterns :: "pattern list"
  m_limiters :: "limiter list"
  m_seen :: "string \<times> string \<Rightarrow> nat"
  m_rejected :: "string \<times> string \<Rightarrow> nat"
  m_would_be_rejected :: "string \<times> string \<Rightarrow> nat"

definition bump :: "string \<times> string \<Rightarrow> (string \<times> string \<Rightarrow> nat) \<Rightarrow> string \<times> string \<Rightarrow> nat" where
  "bump k f = f(k := Suc (f k))"

text \<open>What \<open>Allow\<close> does once a pattern matches: its body from the metric on. The first clock
  reading is \<open>now1\<close>, the one after an override \<open>now2\<close>.\<close>

definition Allow_matched ::
    "override_fetcher \<Rightarrow> go_time \<Rightarrow> go_time \<Rightarrow> string \<Rightarrow> nat \<Rightarrow> pattern \<Rightarrow> manager \<Rightarrow>
       (manager \<times> bool \<times> go_duration) panics" where
  "Allow_matched fetch now1 now2 key i p m0 =
     (let m = m0\<lparr>m_seen := bump (pat_pattern p, key) (m_seen m0)\<rparr>
      in if length (m_limiters m) \<le> i then Inl ''index out of range''
         else
           let (l1, ok, wait) = limiter_Allow key now1 (m_limiters m ! i);
               m1 = m\<lparr>m_limiters := (m_limiters m)[i := l1]\<rparr>
           in if ok then Inr (m1, True, 0)
              else
                let (hasOverride, overrides) = fetch key (pat_pattern p);
                    l2 = (if hasOverride then OverrideWindows key overrides l1 else l1);
                    m2 = m1\<lparr>m_limiters := (m_limiters m1)[i := l2]\<rparr>;
                    (ok2, wait2) = (if hasOverride then limiter_WouldAllow key now2 l2 else (ok, wait))
                in if hasOverride \<and> ok2 then Inr (m2, True, 0)
                   else if m_mode m2 = ModeReporting
                   then Inr (m2\<lparr>m_would_be_rejected := bump (pat_pattern p, key) (m_would_be_rejected m2)\<rparr>, True, 0)
                   else Inr (m2\<lparr>m_rejected := bump (pat_pattern p, key) (m_rejected m2)\<rparr>, ok2, wait2))"

fun Allow_loop ::
    "override_fetcher \<Rightarrow> go_time \<Rightarrow> go_time \<Rightarrow> string \<Rightarrow> string list \<Rightarrow> string \<Rightarrow> nat \<Rightarrow> pattern list \<Rightarrow>
       manager \<Rightarrow> (manager \<times> bool \<times> go_duration) panics" where
  "Allow_loop fetch now1 now2 method segments key i [] m = Inr (m, True, 0)"
| "Allow_loop fetch now1 now2 method segments key i (p # ps) m =
     bind_sum (pattern_match p method segments) (\<lambda>matched.
       if \<not> matched then Allow_loop fetch now1 now2 method segments key (Suc i) ps m
       else Allow_matched fetch now1 now2 key i p m)"

definition Allow ::
    "override_fetcher \<Rightarrow> go_time \<Rightarrow> go_time \<Rightarrow> string \<Rightarrow> string \<Rightarrow> string \<Rightarrow> manager \<Rightarrow>
       (manager \<times> bool \<times> go_duration) panics" where
  "Allow fetch now1 now2 method path key m =
     (if \<not> m_enabled m then Inr (m, True, 0)
      else if path = [] then Inl ''slice bounds out of range [1:0]''
      else Allow_loop fetch now1 now2 method (split_byte (CHR ''/'') (tl path)) key 0 (m_patterns m) m)"

text \<open>The inner loop of \<open>parseConfig\<close>: where the new pattern goes, or the conflict.\<close>

fun find_insertion ::
    "pattern \<Rightarrow> nat \<Rightarrow> pattern list \<Rightarrow> nat option \<Rightarrow> (config_error + nat option) panics" where
  "find_insertion p idx [] insertionIndex = Inr (Inr insertionIndex)"
| "find_insertion p idx (p2 # ps) insertionIndex =
     bind_sum (comparePathsAndMethods p p2) (\<lambda>relation.
       if relation = equivalent \<or> relation = overlaps
       then Inr (Inl (ConflictingPatterns (pat_pattern p) (pat_pattern p2)))
       else find_insertion p (Suc idx) ps
              (if relation = moreSpecific \<and> insertionIndex = None then Some idx else insertionIndex))"

definition insert_at :: "nat \<Rightarrow> 'a \<Rightarrow> 'a list \<Rightarrow> 'a list" where
  "insert_at k x xs = take k xs @ x # drop k xs"

text \<open>\<open>parseConfig\<close> changes the manager as it goes, so its state is part of the result also when
  it returns an error or panics (\<open>Inl\<close>).\<close>

fun parse_paths ::
    "(string \<times> WindowConfig list) list \<Rightarrow> manager \<Rightarrow> manager \<times> config_error option panics" where
  "parse_paths [] m = (m, Inr None)"
| "parse_paths ((path, windows) # rest) m =
     (case newPattern path of
        Inl err \<Rightarrow> (m, Inr (Some (PathParseError err path)))
      | Inr p \<Rightarrow>
          (case find_insertion p 0 (m_patterns m) None of
             Inl panic \<Rightarrow> (m, Inl panic)
           | Inr (Inl err) \<Rightarrow> (m, Inr (Some err))
           | Inr (Inr idx) \<Rightarrow>
               let k = (case idx of None \<Rightarrow> length (m_patterns m) | Some k \<Rightarrow> k)
               in parse_paths rest
                    (m\<lparr>m_patterns := insert_at k p (m_patterns m),
                       m_limiters := insert_at k (NewMultiBucketFixedWindowLimiter windows) (m_limiters m)\<rparr>)))"

definition parseConfig ::
    "config_hash \<Rightarrow> Config \<Rightarrow> manager \<Rightarrow> manager \<times> config_error option panics" where
  "parseConfig hash cfg m =
     (case hash cfg of
        Inl err \<Rightarrow> (m, Inr (Some (HashError err)))
      | Inr h \<Rightarrow>
          parse_paths (Paths cfg)
            (m\<lparr>m_enabled := Enabled cfg, m_mode := Mode cfg, m_lastConfigHash := h,
               m_patterns := [], m_limiters := []\<rparr>))"

definition zero_manager :: manager where
  "zero_manager =
     \<lparr>m_enabled = False, m_mode = [], m_lastConfigHash = 0, m_patterns = [], m_limiters = [],
      m_seen = (\<lambda>_. 0), m_rejected = (\<lambda>_. 0), m_would_be_rejected = (\<lambda>_. 0)\<rparr>"

definition NewManager :: "config_hash \<Rightarrow> string + Config \<Rightarrow> (config_error + manager) panics" where
  "NewManager hash got =
     (case got of
        Inl err \<Rightarrow> Inr (Inl (GetterError err))
      | Inr cfg \<Rightarrow>
          (case parseConfig hash cfg zero_manager of
             (m, Inl panic) \<Rightarrow> Inl panic
           | (m, Inr (Some err)) \<Rightarrow> Inr (Inl err)
           | (m, Inr None) \<Rightarrow> Inr (Inr m)))"

text \<open>
  \<open>watchConfig\<close> on the results of \<open>cfgGetter\<close> at the ticks of its timer until the context is
  done: the manager, the ticks it has not seen, and how it ended.
\<close>

definition outcome_of :: "config_error option panics \<Rightarrow> config_error outcome" where
  "outcome_of r = (case r of Inl p \<Rightarrow> Panicked p | Inr (Some e) \<Rightarrow> ReturnedErr e | Inr None \<Rightarrow> Returned)"

fun watchConfig ::
    "config_hash \<Rightarrow> manager \<Rightarrow> (string + Config) list \<Rightarrow>
       (manager \<times> (string + Config) list) \<times> config_error outcome" where
  "watchConfig hash m [] = ((m, []), Returned)"
| "watchConfig hash m (got # ticks) =
     (case got of
        Inl err \<Rightarrow> ((m, ticks), ReturnedErr (GetterError err))
      | Inr cfg \<Rightarrow>
          (case hash cfg of
             Inl err \<Rightarrow> ((m, ticks), ReturnedErr (HashError err))
           | Inr h \<Rightarrow>
               if h \<noteq> m_lastConfigHash m
               then case parseConfig hash cfg m of (m', r) \<Rightarrow> ((m', ticks), outcome_of r)
               else watchConfig hash m ticks))"

text \<open>The goroutine \<open>NewManager\<close> starts. Its context is done when the ticks end.\<close>

definition config_watcher ::
    "config_hash \<Rightarrow> manager \<Rightarrow> (string + Config) list \<Rightarrow> (manager \<times> (string + Config) list) option" where
  "config_watcher hash m ticks =
     DoUntilSuccess (\<lambda>(m, ticks). ticks = []) (\<lambda>(m, ticks). watchConfig hash m ticks) (m, ticks)"

section \<open>Precedence\<close>

text \<open>What the manager relies on: the comparison tells how the sets of requests of two patterns
  relate. In a list in order of precedence an earlier pattern is disjoint from a later one or
  strictly more specific.\<close>

locale precedence =
  fixes ok :: "'p \<Rightarrow> bool"
    and reqs :: "'p \<Rightarrow> 'r set"
    and rel :: "'p \<Rightarrow> 'p \<Rightarrow> relationship panics"
  assumes rel_exact: "ok p \<Longrightarrow> ok q \<Longrightarrow> rel p q = Inr (rel_of (reqs p) (reqs q))"
    and reqs_nonempty: "reqs p \<noteq> {}"
begin

definition before :: "'p \<Rightarrow> 'p \<Rightarrow> bool" where
  "before p q \<longleftrightarrow> reqs p \<inter> reqs q = {} \<or> reqs p \<subset> reqs q"

definition compatible :: "'p \<Rightarrow> 'p \<Rightarrow> bool" where
  "compatible p q \<longleftrightarrow> reqs p \<inter> reqs q = {} \<or> reqs p \<subset> reqs q \<or> reqs q \<subset> reqs p"

lemma rel_compatible:
  "ok p \<Longrightarrow> ok q \<Longrightarrow> compatible p q \<longleftrightarrow> rel p q \<noteq> Inr equivalent \<and> rel p q \<noteq> Inr overlaps"
  "ok p \<Longrightarrow> ok q \<Longrightarrow> rel p q = Inr moreSpecific \<longleftrightarrow> reqs p \<subset> reqs q"
  using reqs_nonempty [of p] reqs_nonempty [of q] by (auto simp: rel_exact rel_of_def compatible_def)

lemma compatible_sym: "compatible p q \<longleftrightarrow> compatible q p"
  by (auto simp: compatible_def)

lemma before_compatible: "before p q \<Longrightarrow> compatible p q"
  by (auto simp: before_def compatible_def)

text \<open>Inserting a compatible element in front of the first one it is more specific than keeps the
  order: an element behind that is more specific than the new one would be more specific than
  one before it.\<close>

lemma insert_sorted:
  assumes sorted: "sorted_wrt before (ys @ zs)"
    and comp: "\<forall>q \<in> set (ys @ zs). compatible p q"
    and ys: "\<forall>q \<in> set ys. \<not> reqs p \<subset> reqs q"
    and zs: "zs = [] \<or> reqs p \<subset> reqs (hd zs)"
  shows "sorted_wrt before (ys @ p # zs)"
proof -
  have "before q p" if "q \<in> set ys" for q
    using comp ys that by (auto simp: before_def compatible_def)
  moreover have "before p q" if q: "q \<in> set zs" for q
  proof -
    from q zs obtain z zs' where z: "zs = z # zs'" "reqs p \<subset> reqs z" by (cases zs) auto
    show ?thesis
    proof (cases "q = z")
      case True
      with z show ?thesis by (simp add: before_def)
    next
      case False
      with q z sorted have "before z q" by (auto simp: sorted_wrt_append)
      moreover have "compatible p q" using comp q by simp
      ultimately show ?thesis using z reqs_nonempty [of q] by (auto simp: before_def compatible_def)
    qed
  qed
  ultimately show ?thesis using sorted by (auto simp: sorted_wrt_append)
qed

text \<open>The first match is the most specific one.\<close>

lemma first_match_least:
  assumes "sorted_wrt before ps" "find (\<lambda>p. r \<in> reqs p) ps = Some p" "q \<in> set ps" "r \<in> reqs q"
  shows "q = p \<or> reqs p \<subset> reqs q"
proof -
  from find_SomeD [OF assms(2)] obtain ys zs where
    ps: "ps = ys @ p # zs" and ys: "\<forall>y \<in> set ys. r \<notin> reqs y" and p: "r \<in> reqs p" by blast
  from assms(3,4) ps ys consider "q = p" | "q \<in> set zs" by auto
  then show ?thesis
  proof cases
    case 2
    with assms(1) ps have "before p q" by (simp add: sorted_wrt_append)
    with p assms(4) show ?thesis by (auto simp: before_def)
  qed simp
qed

lemma first_match_unique:
  assumes "sorted_wrt before ps" "sorted_wrt before qs" "set ps = set qs"
  shows "find (\<lambda>p. r \<in> reqs p) ps = find (\<lambda>p. r \<in> reqs p) qs"
proof (cases "find (\<lambda>p. r \<in> reqs p) ps")
  case None
  then show ?thesis using assms(3) by (metis find_None_iff)
next
  case (Some p)
  then have p: "p \<in> set ps" "r \<in> reqs p" by (auto simp: find_Some_iff)
  then obtain q where q: "find (\<lambda>p. r \<in> reqs p) qs = Some q"
    using assms(3) find_None_iff by fastforce
  then have q': "q \<in> set qs" "r \<in> reqs q" by (auto simp: find_Some_iff)
  from first_match_least [OF assms(1) Some] first_match_least [OF assms(2) q] p q' assms(3)
  have "p = q" by blast
  with Some q show ?thesis by simp
qed

end

interpretation pat: precedence wf_pattern requests comparePathsAndMethods
  by unfold_locales (simp_all add: comparePathsAndMethods_rel requests_nonempty)

abbreviation pat_before :: "pattern \<Rightarrow> pattern \<Rightarrow> bool" where
  "pat_before \<equiv> pat.before"

abbreviation pat_compatible :: "pattern \<Rightarrow> pattern \<Rightarrow> bool" where
  "pat_compatible \<equiv> pat.compatible"

definition manager_inv :: "manager \<Rightarrow> bool" where
  "manager_inv m \<longleftrightarrow> length (m_limiters m) = length (m_patterns m) \<and>
     (\<forall>p \<in> set (m_patterns m). wf_pattern p) \<and> sorted_wrt pat_before (m_patterns m)"

lemma manager_inv_wf: "manager_inv m \<Longrightarrow> \<forall>p \<in> set (m_patterns m). wf_pattern p"
  by (simp add: manager_inv_def)

definition entries :: "manager \<Rightarrow> (pattern \<times> limiter) list" where
  "entries m = zip (m_patterns m) (m_limiters m)"

subsection \<open>Insertion\<close>

text \<open>The number of patterns in front of the first one that the new pattern is more specific
  than.\<close>

definition rank :: "pattern \<Rightarrow> pattern list \<Rightarrow> nat" where
  "rank p qs = length (takeWhile (\<lambda>q. \<not> requests p \<subset> requests q) qs)"

lemma rank_simps [simp]:
  "rank p [] = 0"
  "rank p (q # qs) = (if requests p \<subset> requests q then 0 else Suc (rank p qs))"
  by (simp_all add: rank_def)

lemma rank_le: "rank p qs \<le> length qs"
  by (simp add: rank_def length_takeWhile_le)

lemma find_insertion_Cons:
  assumes "wf_pattern p" "wf_pattern q"
  shows "find_insertion p i (q # qs) acc =
    (if pat_compatible p q
     then find_insertion p (Suc i) qs (if requests p \<subset> requests q \<and> acc = None then Some i else acc)
     else Inr (Inl (ConflictingPatterns (pat_pattern p) (pat_pattern q))))"
proof -
  have "comparePathsAndMethods p q = Inr (rel_of (requests p) (requests q))"
    using assms by (rule comparePathsAndMethods_rel)
  then show ?thesis
    using pat.rel_compatible [OF assms] by simp
qed

lemma find_insertion_conflict:
  assumes "wf_pattern p" "\<forall>q \<in> set qs. wf_pattern q" "\<exists>q \<in> set qs. \<not> pat_compatible p q"
  shows "\<exists>q \<in> set qs. \<not> pat_compatible p q \<and>
    find_insertion p i qs acc = Inr (Inl (ConflictingPatterns (pat_pattern p) (pat_pattern q)))"
  using assms(2,3)
proof (induction qs arbitrary: i acc)
  case (Cons q qs)
  then show ?case
    by (cases "pat_compatible p q") (auto simp: find_insertion_Cons assms(1) simp del: find_insertion.simps)
qed simp

lemma find_insertion_set:
  assumes "wf_pattern p" "\<forall>q \<in> set qs. wf_pattern q \<and> pat_compatible p q"
  shows "find_insertion p i qs (Some k) = Inr (Inr (Some k))"
  using assms(2)
  by (induction qs arbitrary: i)
    (auto simp: find_insertion_Cons assms(1) simp del: find_insertion.simps(2))

lemma find_insertion_rank:
  assumes "wf_pattern p" "\<forall>q \<in> set qs. wf_pattern q \<and> pat_compatible p q"
  shows "find_insertion p i qs None =
    Inr (Inr (if rank p qs < length qs then Some (i + rank p qs) else None))"
  using assms(2)
  by (induction qs arbitrary: i)
    (auto simp: find_insertion_Cons find_insertion_set assms(1) simp del: find_insertion.simps(2))

lemma insert_at_rank:
  assumes "sorted_wrt pat_before qs" "\<forall>q \<in> set qs. pat_compatible p q"
  shows "sorted_wrt pat_before (insert_at (rank p qs) p qs)"
proof -
  let ?P = "\<lambda>q. \<not> requests p \<subset> requests q"
  have "insert_at (rank p qs) p qs = takeWhile ?P qs @ p # dropWhile ?P qs"
    by (simp add: insert_at_def rank_def takeWhile_eq_take [symmetric] dropWhile_eq_drop [symmetric])
  moreover have "sorted_wrt pat_before (takeWhile ?P qs @ p # dropWhile ?P qs)"
  proof (rule pat.insert_sorted)
    show "\<forall>q \<in> set (takeWhile ?P qs). ?P q" using set_takeWhileD by metis
    show "dropWhile ?P qs = [] \<or> requests p \<subset> requests (hd (dropWhile ?P qs))"
      using hd_dropWhile [of ?P qs] by auto
  qed (use assms in simp_all)
  ultimately show ?thesis by simp
qed

lemma set_insert_at [simp]: "set (insert_at k x xs) = insert x (set xs)"
  using set_append [of "take k xs" "drop k xs"] by (simp add: insert_at_def del: set_append) auto

lemma length_insert_at [simp]: "length (insert_at k x xs) = Suc (length xs)"
  by (simp add: insert_at_def)

lemma zip_insert_at:
  "length xs = length ys \<Longrightarrow> zip (insert_at k x xs) (insert_at k y ys) = insert_at k (x, y) (zip xs ys)"
  by (simp add: insert_at_def zip_append take_zip drop_zip)

subsection \<open>What a configuration means\<close>

definition rootless :: "(string \<times> WindowConfig list) list \<Rightarrow> bool" where
  "rootless cs \<longleftrightarrow> (\<forall>(path, ws) \<in> set cs. \<forall>p. newPattern path = Inr p \<longrightarrow> pat_segments p \<noteq> [])"

definition entry_of :: "string \<times> WindowConfig list \<Rightarrow> pattern \<times> limiter" where
  "entry_of c = (projr (newPattern (fst c)), NewMultiBucketFixedWindowLimiter (snd c))"

text \<open>Every path parses, and no two of them conflict.\<close>

definition acceptable :: "(string \<times> WindowConfig list) list \<Rightarrow> bool" where
  "acceptable cs \<longleftrightarrow> (\<forall>c \<in> set cs. \<exists>p. newPattern (fst c) = Inr p) \<and>
     sorted_wrt pat_compatible (map (fst \<circ> entry_of) cs)"

lemma pairwise_mset_eq:
  assumes "mset xs = mset ys" "\<And>x y. P x y \<longleftrightarrow> P y x" "\<And>x. \<not> P x x"
  shows "sorted_wrt P xs \<longleftrightarrow> sorted_wrt P ys"
proof -
  have "sorted_wrt P zs \<longleftrightarrow> distinct zs \<and> (\<forall>x \<in> set zs. \<forall>y \<in> set zs. x \<noteq> y \<longrightarrow> P x y)" for zs
    using assms(2,3) by (induction zs) auto
  then show ?thesis
    using mset_eq_setD [OF assms(1)] mset_eq_imp_distinct_iff [OF assms(1)] by simp
qed

lemma acceptable_mset:
  assumes "mset cs = mset ds"
  shows "acceptable cs \<longleftrightarrow> acceptable ds"
proof -
  have "\<not> pat_compatible p p" for p
    using requests_nonempty by (auto simp: pat.compatible_def)
  then have "sorted_wrt pat_compatible (map (fst \<circ> entry_of) cs) \<longleftrightarrow>
      sorted_wrt pat_compatible (map (fst \<circ> entry_of) ds)"
    using assms pat.compatible_sym by (intro pairwise_mset_eq) (simp_all del: map_map add: map_map [symmetric])
  with mset_eq_setD [OF assms] show ?thesis by (simp add: acceptable_def)
qed

text \<open>The manager after \<open>parse_paths\<close>, in one statement for all branches.\<close>

lemma parse_step:
  assumes "manager_inv m" "wf_pattern p" "\<forall>q \<in> set (m_patterns m). pat_compatible p q"
    "m' = m\<lparr>m_patterns := insert_at (rank p (m_patterns m)) p (m_patterns m),
            m_limiters := insert_at (rank p (m_patterns m)) l (m_limiters m)\<rparr>"
  shows "manager_inv m'" and "set (entries m') = insert (p, l) (set (entries m))"
    and "set (m_patterns m') = insert p (set (m_patterns m))"
  using assms insert_at_rank [of "m_patterns m" p]
  by (auto simp: manager_inv_def entries_def zip_insert_at)

lemma parse_paths_Cons_ok:
  assumes "manager_inv m" "newPattern path = Inr p" "wf_pattern p"
    "\<forall>q \<in> set (m_patterns m). pat_compatible p q"
  shows "parse_paths ((path, ws) # cs) m =
    parse_paths cs (m\<lparr>m_patterns := insert_at (rank p (m_patterns m)) p (m_patterns m),
        m_limiters := insert_at (rank p (m_patterns m)) (NewMultiBucketFixedWindowLimiter ws) (m_limiters m)\<rparr>)"
proof -
  have k: "(case if rank p (m_patterns m) < length (m_patterns m) then Some (0 + rank p (m_patterns m)) else None of
      None \<Rightarrow> length (m_patterns m) | Some k \<Rightarrow> k) = rank p (m_patterns m)"
    using rank_le [of p "m_patterns m"] by auto
  have "find_insertion p 0 (m_patterns m) None =
      Inr (Inr (if rank p (m_patterns m) < length (m_patterns m) then Some (0 + rank p (m_patterns m)) else None))"
    using assms by (intro find_insertion_rank) (auto simp: manager_inv_def)
  then show ?thesis
    unfolding parse_paths.simps using assms(2) k by (simp only: sum.case Let_def)
qed

lemma parse_paths_Cons_err:
  assumes "manager_inv m"
    "newPattern path = Inl err \<or> newPattern path = Inr p \<and> wf_pattern p \<and> \<not> (\<forall>q \<in> set (m_patterns m). pat_compatible p q)"
  shows "\<exists>e. parse_paths ((path, ws) # cs) m = (m, Inr (Some e))"
proof (cases "newPattern path")
  case (Inr p')
  with assms(2) have "wf_pattern p'" "\<exists>q \<in> set (m_patterns m). \<not> pat_compatible p' q" by auto
  then obtain q :: pattern where "find_insertion p' 0 (m_patterns m) None =
      Inr (Inl (ConflictingPatterns (pat_pattern p') (pat_pattern q)))"
    using find_insertion_conflict [of p' "m_patterns m" 0 None] assms(1) [THEN manager_inv_wf] by blast
  with Inr show ?thesis by simp
qed simp

lemma parse_paths_correct:
  assumes "manager_inv m" "rootless cs"
  shows "\<exists>m' e. parse_paths cs m = (m', Inr e) \<and> manager_inv m' \<and>
    m_enabled m' = m_enabled m \<and> m_mode m' = m_mode m \<and> m_lastConfigHash m' = m_lastConfigHash m \<and>
    (e = None \<longleftrightarrow> acceptable cs \<and> (\<forall>p \<in> set (map (fst \<circ> entry_of) cs). \<forall>q \<in> set (m_patterns m). pat_compatible p q)) \<and>
    (e = None \<longrightarrow> set (entries m') = entry_of ` set cs \<union> set (entries m))"
  using assms
proof (induction cs arbitrary: m)
  case Nil
  then show ?case by (simp add: acceptable_def)
next
  case (Cons c cs)
  obtain path ws where c: "c = (path, ws)" by (cases c)
  show ?case
  proof (cases "\<exists>p. newPattern path = Inr p \<and> (\<forall>q \<in> set (m_patterns m). pat_compatible p q)")
    case True
    then obtain p where p: "newPattern path = Inr p" "\<forall>q \<in> set (m_patterns m). pat_compatible p q" by blast
    have wf: "wf_pattern p" using newPattern_wf [OF p(1)] Cons.prems(2) p(1) c by (auto simp: rootless_def)
    define m1 where "m1 = m\<lparr>m_patterns := insert_at (rank p (m_patterns m)) p (m_patterns m),
        m_limiters := insert_at (rank p (m_patterns m)) (NewMultiBucketFixedWindowLimiter ws) (m_limiters m)\<rparr>"
    note m1 = parse_step [OF Cons.prems(1) wf p(2) m1_def]
    have e: "entry_of c = (p, NewMultiBucketFixedWindowLimiter ws)" using p(1) by (simp add: entry_of_def c)
    have "parse_paths (c # cs) m = parse_paths cs m1"
      unfolding c m1_def by (rule parse_paths_Cons_ok [OF Cons.prems(1) p(1) wf p(2)])
    moreover have "acceptable (c # cs) \<longleftrightarrow> acceptable cs \<and> (\<forall>q \<in> set (map (fst \<circ> entry_of) cs). pat_compatible p q)"
      using p(1) e by (auto simp: acceptable_def c)
    moreover have "m_enabled m1 = m_enabled m" "m_mode m1 = m_mode m" "m_lastConfigHash m1 = m_lastConfigHash m"
      by (simp_all add: m1_def)
    moreover have "rootless cs" using Cons.prems(2) by (simp add: rootless_def)
    ultimately show ?thesis
      using Cons.IH [OF m1(1)] m1(2,3) e p(2) pat.compatible_sym by auto
  next
    case False
    then obtain err p where bad: "newPattern path = Inl err \<or> newPattern path = Inr p \<and> wf_pattern p \<and>
        \<not> (\<forall>q \<in> set (m_patterns m). pat_compatible p q)"
      using newPattern_wf(1) Cons.prems(2) c by (cases "newPattern path") (auto simp: rootless_def)
    from parse_paths_Cons_err [OF Cons.prems(1) bad] obtain e where
      "parse_paths (c # cs) m = (m, Inr (Some e))" unfolding c by blast
    moreover have "\<not> (acceptable (c # cs) \<and>
        (\<forall>p \<in> set (map (fst \<circ> entry_of) (c # cs)). \<forall>q \<in> set (m_patterns m). pat_compatible p q))"
      using bad by (auto simp: acceptable_def entry_of_def c)
    ultimately show ?thesis using Cons.prems(1) by auto
  qed
qed

subsection \<open>Answering a request\<close>

definition matches :: "string \<Rightarrow> string \<Rightarrow> pattern \<Rightarrow> bool" where
  "matches method path p \<longleftrightarrow> (method, split_byte (CHR ''/'') (tl path)) \<in> requests p"

lemma Allow_loop_find:
  assumes "\<forall>p \<in> set ps. wf_pattern p"
  shows "Allow_loop fetch now1 now2 method segs key i ps m =
    (case find (\<lambda>j. (method, segs) \<in> requests (ps ! j)) [0 ..< length ps] of
       None \<Rightarrow> Inr (m, True, 0)
     | Some j \<Rightarrow> Allow_matched fetch now1 now2 key (i + j) (ps ! j) m)"
  using assms
proof (induction ps arbitrary: i)
  case (Cons p ps)
  have shift: "[0 ..< Suc (length ps)] = 0 # map Suc [0 ..< length ps]"
    by (simp add: upt_conv_Cons map_Suc_upt del: upt_Suc)
  have step: "find (\<lambda>j. (method, segs) \<in> requests ((p # ps) ! j)) (map Suc js) =
      map_option Suc (find (\<lambda>j. (method, segs) \<in> requests (ps ! j)) js)" for js
    by (induction js) auto
  show ?case
    using Cons by (auto simp: pattern_match_requests shift step simp del: upt_Suc split: option.split)
qed simp

lemma Allow_matched_total:
  assumes "i < length (m_limiters m)"
  shows "\<exists>m' ok wait. Allow_matched fetch now1 now2 key i p m = Inr (m', ok, wait)"
  using assms by (auto simp: Allow_matched_def Let_def split: prod.split)

lemma Allow_enabled_find:
  assumes "manager_inv m" "m_enabled m" "path \<noteq> []"
  shows "Allow fetch now1 now2 method path key m =
    (case find (\<lambda>j. matches method path (m_patterns m ! j)) [0 ..< length (m_patterns m)] of
       None \<Rightarrow> Inr (m, True, 0)
     | Some j \<Rightarrow> Allow_matched fetch now1 now2 key j (m_patterns m ! j) m)"
  using assms by (auto simp: Allow_def Allow_loop_find manager_inv_wf matches_def split: option.split)

lemma find_index:
  assumes "find (\<lambda>j. P (xs ! j)) [0 ..< length xs] = Some j"
  shows "j < length xs" "P (xs ! j)" "find P xs = Some (xs ! j)"
proof -
  from assms have j: "j < length xs" "P (xs ! j)" "\<forall>k < j. \<not> P (xs ! k)"
    by (auto simp: find_Some_iff)
  then show "j < length xs" "P (xs ! j)" "find P xs = Some (xs ! j)" by (auto simp: find_Some_iff)
qed

lemma find_index_None:
  "find (\<lambda>j. P (xs ! j)) [0 ..< length xs] = None \<longleftrightarrow> (\<forall>x \<in> set xs. \<not> P x)"
  by (auto simp: find_None_iff all_set_conv_all_nth)

lemma Allow_matched_mode:
  assumes "i < length (m_limiters m)" "mode \<noteq> ModeReporting"
  obtains lims ok wait where
    "Allow_matched fetch now1 now2 key i p (m\<lparr>m_mode := mode\<rparr>) =
       Inr (m\<lparr>m_mode := mode, m_seen := bump (pat_pattern p, key) (m_seen m), m_limiters := lims,
              m_rejected := (if ok then m_rejected m else bump (pat_pattern p, key) (m_rejected m))\<rparr>, ok, wait)"
    "Allow_matched fetch now1 now2 key i p (m\<lparr>m_mode := ModeReporting\<rparr>) =
       Inr (m\<lparr>m_mode := ModeReporting, m_seen := bump (pat_pattern p, key) (m_seen m), m_limiters := lims,
              m_would_be_rejected :=
                (if ok then m_would_be_rejected m else bump (pat_pattern p, key) (m_would_be_rejected m))\<rparr>, True, 0)"
proof -
  obtain l1 ok1 wait1 where l1: "limiter_Allow key now1 (m_limiters m ! i) = (l1, ok1, wait1)"
    by (cases "limiter_Allow key now1 (m_limiters m ! i)")
  obtain has ovs where f: "fetch key (pat_pattern p) = (has, ovs)" by (cases "fetch key (pat_pattern p)")
  obtain ok2 wait2 where l2: "limiter_WouldAllow key now2 (OverrideWindows key ovs l1) = (ok2, wait2)"
    by (cases "limiter_WouldAllow key now2 (OverrideWindows key ovs l1)")
  let ?lims = "(m_limiters m)[i := if \<not> ok1 \<and> has then OverrideWindows key ovs l1 else l1]"
  let ?ok = "ok1 \<or> has \<and> ok2"
  let ?wait = "if ?ok then 0 else if has then wait2 else wait1"
  show thesis
    by (rule that [where lims = ?lims and ok = ?ok and wait = ?wait]; use assms l1 f l2 in \<open>simp add: Allow_matched_def\<close>)
qed

lemma parseConfig_correct:
  assumes "rootless (Paths cfg)" "hash cfg = Inr h"
  shows "\<exists>m' e. parseConfig hash cfg m = (m', Inr e) \<and> manager_inv m' \<and>
    m_enabled m' = Enabled cfg \<and> m_mode m' = Mode cfg \<and> m_lastConfigHash m' = h \<and>
    (e = None \<longleftrightarrow> acceptable (Paths cfg)) \<and>
    (e = None \<longrightarrow> set (entries m') = entry_of ` set (Paths cfg))"
proof -
  let ?m = "m\<lparr>m_enabled := Enabled cfg, m_mode := Mode cfg, m_lastConfigHash := h, m_patterns := [], m_limiters := []\<rparr>"
  have "manager_inv ?m" "entries ?m = []" by (simp_all add: manager_inv_def entries_def)
  with parse_paths_correct [of ?m "Paths cfg"] assms show ?thesis by (simp add: parseConfig_def)
qed

subsection \<open>Two managers with the same entries\<close>

lemma entries_patterns:
  "manager_inv m \<Longrightarrow> set (m_patterns m) = fst ` set (entries m)"
  by (simp add: manager_inv_def entries_def flip: set_map)

lemma patterns_distinct: "manager_inv m \<Longrightarrow> distinct (m_patterns m)"
  using requests_nonempty
  by (auto simp: manager_inv_def distinct_conv_nth sorted_wrt_iff_nth_less pat.before_def linorder_neq_iff)
     (metis Int_absorb order_less_irrefl)+

lemma entry_limiter:
  assumes "manager_inv m" "i < length (m_patterns m)" "(m_patterns m ! i, l) \<in> set (entries m)"
  shows "m_limiters m ! i = l"
proof -
  from assms(3) obtain j where "j < length (m_patterns m)" "m_patterns m ! i = m_patterns m ! j" "l = m_limiters m ! j"
    using assms(1) by (auto simp: entries_def set_zip manager_inv_def)
  with patterns_distinct [OF assms(1)] assms(2) show ?thesis by (simp add: nth_eq_iff_index_eq)
qed

lemma Allow_matched_answer:
  assumes "i < length (m_limiters m)" "j < length (m_limiters m')" "m_limiters m ! i = m_limiters m' ! j"
    "m_mode m = m_mode m'"
  shows "map_sum id snd (Allow_matched fetch now1 now2 key i p m) =
    map_sum id snd (Allow_matched fetch now1 now2 key j p m')"
  using assms by (auto simp: Allow_matched_def Let_def split: prod.split)

lemma Allow_answer_entries:
  assumes inv: "manager_inv m" "manager_inv m'" and set: "set (entries m) = set (entries m')"
    and same: "m_mode m = m_mode m'" "m_enabled m = m_enabled m'"
  shows "map_sum id snd (Allow fetch now1 now2 method path key m) =
    map_sum id snd (Allow fetch now1 now2 method path key m')"
proof (cases "m_enabled m' \<and> path \<noteq> []")
  case True
  let ?idx = "\<lambda>m. find (\<lambda>j. matches method path (m_patterns m ! j)) [0 ..< length (m_patterns m)]"
  have ps: "set (m_patterns m) = set (m_patterns m')" using entries_patterns inv set by simp
  have first: "find (matches method path) (m_patterns m) = find (matches method path) (m_patterns m')"
    unfolding matches_def using ps inv by (intro pat.first_match_unique) (auto simp: manager_inv_def)
  note eqs = Allow_enabled_find [OF inv(1)] Allow_enabled_find [OF inv(2)]
  show ?thesis
  proof (cases "?idx m")
    case None
    moreover from this ps have "?idx m' = None" by (simp only: find_index_None)
    ultimately show ?thesis using True same eqs by simp
  next
    case (Some i)
    note i = find_index [of "matches method path", OF Some]
    obtain j where Some': "?idx m' = Some j"
      using i ps find_index_None [of "matches method path" "m_patterns m'"] by (cases "?idx m'") auto
    note j = find_index [of "matches method path", OF Some']
    have p: "m_patterns m ! i = m_patterns m' ! j" using i(3) j(3) first by simp
    have len: "i < length (m_limiters m)" "j < length (m_limiters m')"
      using i(1) j(1) inv by (auto simp: manager_inv_def)
    have "(m_patterns m' ! j, m_limiters m' ! j) \<in> set (entries m')"
      using j(1) len(2) by (auto simp: entries_def set_zip)
    then have "m_limiters m ! i = m_limiters m' ! j"
      using entry_limiter [OF inv(1) i(1)] set p by simp
    from Allow_matched_answer [OF len this same(1)] show ?thesis
      using True same eqs Some Some' p by simp
  qed
qed (use same in \<open>auto simp: Allow_def\<close>)

subsection \<open>A configuration of two paths\<close>

definition example_cfg :: Config where
  "example_cfg = \<lparr>Enabled = True, Mode = ModeEnforcing,
     Paths = [(''/a/{x}'', [\<lparr>Limit = 5, Duration = 10\<rparr>]), (''/a/b'', [\<lparr>Limit = 1, Duration = 10\<rparr>])]\<rparr>"

abbreviation lit_seg :: "string \<Rightarrow> segment" where
  "lit_seg s \<equiv> \<lparr>seg_s = s, seg_identifier = False, seg_multi = False\<rparr>"

abbreviation id_seg :: "string \<Rightarrow> segment" where
  "id_seg s \<equiv> \<lparr>seg_s = s, seg_identifier = True, seg_multi = False\<rparr>"

lemma example_patterns:
  "newPattern ''/a/{x}'' = Inr \<lparr>pat_pattern = ''/a/{x}'', pat_method = [], pat_segments = [lit_seg ''a'', id_seg ''x'']\<rparr>"
  "newPattern ''/a/b'' = Inr \<lparr>pat_pattern = ''/a/b'', pat_method = [], pat_segments = [lit_seg ''a'', lit_seg ''b'']\<rparr>"
  by (simp_all add: newPattern_def parse_segments.simps cut_suffix_def has_suffix_def)

lemma example_compare:
  "comparePathsAndMethods \<lparr>pat_pattern = ''/a/{x}'', pat_method = [], pat_segments = [lit_seg ''a'', id_seg ''x'']\<rparr>
     \<lparr>pat_pattern = ''/a/b'', pat_method = [], pat_segments = [lit_seg ''a'', lit_seg ''b'']\<rparr> = Inr moreGeneral"
  by (simp add: comparePathsAndMethods_def compareMethods_def comparePaths_def compareSegments_def
      combineRelationships_def)

lemma example_ok: "rootless (Paths example_cfg)" "acceptable (Paths example_cfg)"
  using example_patterns example_compare
  by (auto simp: example_cfg_def rootless_def acceptable_def entry_of_def wf_pattern_def pat.rel_compatible)

definition example_manager :: manager where
  "example_manager = fst (parseConfig (\<lambda>_. Inr 7) example_cfg zero_manager)"

lemma example_manager:
  "manager_inv example_manager" "m_enabled example_manager"
  "parseConfig (\<lambda>_. Inr 7) example_cfg zero_manager = (example_manager, Inr None)"
  using parseConfig_correct [of example_cfg "\<lambda>_. Inr 7" 7 zero_manager] example_ok
  by (auto simp: example_manager_def example_cfg_def)

definition conflicting_cfg :: Config where
  "conflicting_cfg = example_cfg\<lparr>Paths := [(''/a/b'', []), (''/a/b'', [])]\<rparr>"

lemma conflicting: "rootless (Paths conflicting_cfg)" "\<not> acceptable (Paths conflicting_cfg)"
  using example_patterns requests_nonempty
  by (auto simp: conflicting_cfg_def rootless_def acceptable_def entry_of_def pat.compatible_def)

section \<open>Properties\<close>

text \<open>C4: \<open>parseConfig\<close> on a configuration whose paths all have a segment. It never panics; it
  returns no error exactly when every path parses and no two patterns are equal or overlap. The
  patterns it leaves are in order of precedence, each pattern at the index of its limiter, and
  after success they are exactly those of the configuration.\<close>

theorem parseConfig_precedence:
  assumes "rootless (Paths cfg)" "hash cfg = Inr h"
  shows "\<exists>m' e. parseConfig hash cfg m = (m', Inr e) \<and> manager_inv m' \<and>
    m_enabled m' = Enabled cfg \<and> m_mode m' = Mode cfg \<and> m_lastConfigHash m' = h \<and>
    (e = None \<longleftrightarrow> acceptable (Paths cfg)) \<and>
    (e = None \<longrightarrow> set (entries m') = entry_of ` set (Paths cfg))"
  using assms by (rule parseConfig_correct)

theorem parseConfig_precedence_witness:
  "\<exists>m'. parseConfig (\<lambda>_. Inr 7) example_cfg zero_manager = (m', Inr None) \<and> manager_inv m'"
  using parseConfig_precedence [of example_cfg "\<lambda>_. Inr 7" 7 zero_manager] example_ok by auto

text \<open>C8: a request is answered by the limiter of the most specific pattern that matches it, or
  allowed and left uncounted when none does; on a manager in order of precedence \<open>Allow\<close> does
  not panic.\<close>

theorem Allow_most_specific:
  assumes "manager_inv m" "m_enabled m" "path \<noteq> []"
  shows "(\<forall>p \<in> set (m_patterns m). \<not> matches method path p) \<and>
      Allow fetch now1 now2 method path key m = Inr (m, True, 0) \<or>
    (\<exists>i < length (m_patterns m). matches method path (m_patterns m ! i) \<and>
      (\<forall>q \<in> set (m_patterns m). matches method path q \<longrightarrow>
         q = m_patterns m ! i \<or> requests (m_patterns m ! i) \<subset> requests q) \<and>
      Allow fetch now1 now2 method path key m = Allow_matched fetch now1 now2 key i (m_patterns m ! i) m \<and>
      (\<exists>m' ok wait. Allow fetch now1 now2 method path key m = Inr (m', ok, wait)))"
proof (cases "find (\<lambda>j. matches method path (m_patterns m ! j)) [0 ..< length (m_patterns m)]")
  case None
  then have "\<forall>p \<in> set (m_patterns m). \<not> matches method path p"
    using find_index_None [of "matches method path" "m_patterns m"] by blast
  moreover have "Allow fetch now1 now2 method path key m = Inr (m, True, 0)"
    using Allow_enabled_find [OF assms] None by simp
  ultimately show ?thesis by blast
next
  case (Some i)
  note i = find_index [of "matches method path", OF Some]
  have eq: "Allow fetch now1 now2 method path key m = Allow_matched fetch now1 now2 key i (m_patterns m ! i) m"
    using Allow_enabled_find [OF assms] Some by simp
  have sorted: "sorted_wrt pat_before (m_patterns m)" and len: "i < length (m_limiters m)"
    using assms(1) i(1) by (auto simp: manager_inv_def)
  have "\<forall>q \<in> set (m_patterns m). matches method path q \<longrightarrow>
      q = m_patterns m ! i \<or> requests (m_patterns m ! i) \<subset> requests q"
    using pat.first_match_least [OF sorted i(3) [unfolded matches_def [abs_def]]] unfolding matches_def by blast
  then show ?thesis using i(1,2) eq Allow_matched_total [OF len] by auto
qed

theorem Allow_most_specific_witness:
  "\<exists>m' ok wait. Allow (\<lambda>_ _. (False, [])) 1 2 ''GET'' ''/a/b'' ''k'' example_manager = Inr (m', ok, wait)"
  using Allow_most_specific [OF example_manager(1,2), of "''/a/b''" "''GET''" "\<lambda>_ _. (False, [])" 1 2 "''k''"] by fast

text \<open>The order in which Go iterates over the configured paths does not matter: success is the
  same, and the managers that result give the same answer to every request.\<close>

theorem parseConfig_order_irrelevant:
  assumes "rootless (Paths cfg)" "mset (Paths cfg) = mset paths'" "hash cfg = Inr h"
    "hash (cfg\<lparr>Paths := paths'\<rparr>) = Inr h"
    and "parseConfig hash cfg m = (m1, r1)" "parseConfig hash (cfg\<lparr>Paths := paths'\<rparr>) m = (m2, r2)"
  shows "(r1 = Inr None \<longleftrightarrow> r2 = Inr None) \<and>
    (r1 = Inr None \<longrightarrow> map_sum id snd (Allow fetch now1 now2 method path key m1) =
       map_sum id snd (Allow fetch now1 now2 method path key m2))"
proof -
  let ?cfg' = "cfg\<lparr>Paths := paths'\<rparr>"
  have "rootless (Paths ?cfg')" using assms(1) mset_eq_setD [OF assms(2)] by (simp add: rootless_def)
  from parseConfig_correct [of ?cfg' hash h m, OF this assms(4)] parseConfig_correct [of cfg hash h m, OF assms(1,3)]
  have "manager_inv m1" "manager_inv m2" "m_enabled m1 = m_enabled m2" "m_mode m1 = m_mode m2"
    "r1 = Inr None \<longleftrightarrow> acceptable (Paths cfg)" "r2 = Inr None \<longleftrightarrow> acceptable paths'"
    "r1 = Inr None \<Longrightarrow> set (entries m1) = entry_of ` set (Paths cfg)"
    "r2 = Inr None \<Longrightarrow> set (entries m2) = entry_of ` set paths'"
    using assms(5,6) by auto
  then show ?thesis
    using acceptable_mset [OF assms(2)] mset_eq_setD [OF assms(2)] by (auto intro!: Allow_answer_entries)
qed

theorem parseConfig_order_irrelevant_witness:
  "map_sum id snd (Allow (\<lambda>_ _. (False, [])) 1 2 ''GET'' ''/a/b'' ''k''
       (fst (parseConfig (\<lambda>_. Inr 7) example_cfg zero_manager))) =
   map_sum id snd (Allow (\<lambda>_ _. (False, [])) 1 2 ''GET'' ''/a/b'' ''k''
       (fst (parseConfig (\<lambda>_. Inr 7) (example_cfg\<lparr>Paths := rev (Paths example_cfg)\<rparr>) zero_manager)))"
  using parseConfig_order_irrelevant [of example_cfg "rev (Paths example_cfg)" "\<lambda>_. Inr 7" 7 zero_manager
      example_manager "Inr None" "fst (parseConfig (\<lambda>_. Inr 7) (example_cfg\<lparr>Paths := rev (Paths example_cfg)\<rparr>) zero_manager)"
      "snd (parseConfig (\<lambda>_. Inr 7) (example_cfg\<lparr>Paths := rev (Paths example_cfg)\<rparr>) zero_manager)"
      "\<lambda>_ _. (False, [])" 1 2 "''GET''" "''/a/b''" "''k''"] example_ok example_manager(3)
  by simp

text \<open>Reporting mode reports what enforcing mode enforces. On the same state the two modes
  charge the limiters and count the request alike; whenever enforcing rejects a request and
  counts it as rejected, reporting allows it and counts it as one that would be rejected, and
  otherwise both allow it and count neither.\<close>

theorem reporting_mirrors_enforcing:
  assumes "manager_inv m" "m_enabled m" "path \<noteq> []"
  shows "\<exists>lims seen k ok wait.
    Allow fetch now1 now2 method path key (m\<lparr>m_mode := ModeEnforcing\<rparr>) =
      Inr (m\<lparr>m_mode := ModeEnforcing, m_seen := seen, m_limiters := lims,
             m_rejected := (if ok then m_rejected m else bump k (m_rejected m))\<rparr>, ok, wait) \<and>
    Allow fetch now1 now2 method path key (m\<lparr>m_mode := ModeReporting\<rparr>) =
      Inr (m\<lparr>m_mode := ModeReporting, m_seen := seen, m_limiters := lims,
             m_would_be_rejected := (if ok then m_would_be_rejected m else bump k (m_would_be_rejected m))\<rparr>, True, 0)"
proof -
  let ?idx = "find (\<lambda>j. matches method path (m_patterns m ! j)) [0 ..< length (m_patterns m)]"
  have eq: "Allow fetch now1 now2 method path key (m\<lparr>m_mode := mode\<rparr>) =
      (case ?idx of None \<Rightarrow> Inr (m\<lparr>m_mode := mode\<rparr>, True, 0)
       | Some j \<Rightarrow> Allow_matched fetch now1 now2 key j (m_patterns m ! j) (m\<lparr>m_mode := mode\<rparr>))" for mode
    using Allow_enabled_find [of "m\<lparr>m_mode := mode\<rparr>"] assms by (auto simp: manager_inv_def split: option.split)
  show ?thesis
  proof (cases ?idx)
    case None
    then show ?thesis unfolding eq
      by (intro exI [of _ "m_limiters m"] exI [of _ "m_seen m"] exI [of _ undefined] exI [of _ True] exI [of _ 0]) simp
  next
    case (Some j)
    have "j < length (m_limiters m)"
      using find_index(1) [of "matches method path", OF Some] assms(1) by (simp add: manager_inv_def)
    moreover have "ModeEnforcing \<noteq> ModeReporting" by (simp add: ModeEnforcing_def ModeReporting_def)
    ultimately obtain lims ok wait where
      "Allow_matched fetch now1 now2 key j (m_patterns m ! j) (m\<lparr>m_mode := ModeEnforcing\<rparr>) =
       Inr (m\<lparr>m_mode := ModeEnforcing, m_seen := bump (pat_pattern (m_patterns m ! j), key) (m_seen m), m_limiters := lims,
         m_rejected := (if ok then m_rejected m else bump (pat_pattern (m_patterns m ! j), key) (m_rejected m))\<rparr>, ok, wait)"
      "Allow_matched fetch now1 now2 key j (m_patterns m ! j) (m\<lparr>m_mode := ModeReporting\<rparr>) =
       Inr (m\<lparr>m_mode := ModeReporting, m_seen := bump (pat_pattern (m_patterns m ! j), key) (m_seen m), m_limiters := lims,
         m_would_be_rejected := (if ok then m_would_be_rejected m
           else bump (pat_pattern (m_patterns m ! j), key) (m_would_be_rejected m))\<rparr>, True, 0)"
      by (rule Allow_matched_mode)
    then show ?thesis unfolding eq Some option.case by blast
  qed
qed

theorem reporting_mirrors_enforcing_witness:
  "\<exists>r e ok wait.
    Allow (\<lambda>_ _. (False, [])) 1 2 ''GET'' ''/a/b'' ''k'' (example_manager\<lparr>m_mode := ModeEnforcing\<rparr>) = Inr (e, ok, wait) \<and>
    Allow (\<lambda>_ _. (False, [])) 1 2 ''GET'' ''/a/b'' ''k'' (example_manager\<lparr>m_mode := ModeReporting\<rparr>) = Inr (r, True, 0) \<and>
    m_limiters e = m_limiters r"
  using reporting_mirrors_enforcing [OF example_manager(1,2), of "''/a/b''" "\<lambda>_ _. (False, [])" 1 2 "''GET''" "''k''"]
  by fastforce

text \<open>The configuration is reloaded live only once. When a tick brings a changed configuration
  that is accepted, \<open>watchConfig\<close> returns \<open>nil\<close>, which \<open>DoUntilSuccess\<close> takes for the end of its
  work: all later configurations, whatever they are, are left unread.\<close>

theorem config_watcher_stops_after_reload:
  assumes "rootless (Paths cfg)" "acceptable (Paths cfg)" "hash cfg = Inr h" "h \<noteq> m_lastConfigHash m"
    and "\<forall>c \<in> set unchanged. \<exists>d. c = Inr d \<and> hash d = Inr (m_lastConfigHash m)"
  shows "\<exists>m'. parseConfig hash cfg m = (m', Inr None) \<and>
    config_watcher hash m (unchanged @ Inr cfg # rest) = Some (m', rest)"
proof -
  obtain m' where m': "parseConfig hash cfg m = (m', Inr None)"
    using parseConfig_correct [of cfg hash h m] assms(1-3) by auto
  have "watchConfig hash m (unchanged @ Inr cfg # rest) = ((m', rest), Returned)"
    using assms(5) by (induction unchanged) (use assms(3,4) m' in \<open>auto simp: outcome_of_def\<close>)
  then have "config_watcher hash m (unchanged @ Inr cfg # rest) = Some (m', rest)"
    unfolding config_watcher_def by (subst DoUntilSuccess_eq) simp
  with m' show ?thesis by blast
qed

theorem config_watcher_stops_after_reload_witness:
  "config_watcher (\<lambda>c. Inr (if Enabled c then 7 else 0)) zero_manager
     [Inr (example_cfg\<lparr>Enabled := False\<rparr>), Inr example_cfg, Inr (example_cfg\<lparr>Enabled := False\<rparr>)] =
   Some (fst (parseConfig (\<lambda>c. Inr (if Enabled c then 7 else 0)) example_cfg zero_manager),
     [Inr (example_cfg\<lparr>Enabled := False\<rparr>)])"
  using config_watcher_stops_after_reload [of example_cfg "\<lambda>c. Inr (if Enabled c then 7 else 0)" 7 zero_manager
      "[Inr (example_cfg\<lparr>Enabled := False\<rparr>)]" "[Inr (example_cfg\<lparr>Enabled := False\<rparr>)]"] example_ok
  by (auto simp: zero_manager_def example_cfg_def)

text \<open>A rejected configuration is half applied and never tried again. The manager keeps the
  patterns parsed before the failing one, with the mode and the switch of the new configuration
  and its hash; as the hash now agrees, ticks that bring the same configuration leave that state
  as it is.\<close>

theorem rejected_config_sticks:
  assumes "rootless (Paths cfg)" "\<not> acceptable (Paths cfg)" "hash cfg = Inr h" "h \<noteq> m_lastConfigHash m"
  shows "\<exists>m' e. parseConfig hash cfg m = (m', Inr (Some e)) \<and> m_enabled m' = Enabled cfg \<and>
    m_mode m' = Mode cfg \<and> m_lastConfigHash m' = h \<and> manager_inv m' \<and>
    config_watcher hash m (replicate (Suc n) (Inr cfg)) = Some (m', [])"
proof -
  obtain m' e where m': "parseConfig hash cfg m = (m', Inr (Some e))" "m_lastConfigHash m' = h"
    "m_enabled m' = Enabled cfg" "m_mode m' = Mode cfg" "manager_inv m'"
    using parseConfig_correct [of cfg hash h m] assms(1-3) by auto
  have "watchConfig hash m' (replicate n (Inr cfg)) = ((m', []), Returned)"
    using m'(2) assms(3) by (induction n) auto
  then have "DoUntilSuccess (\<lambda>(m, ticks). ticks = []) (\<lambda>(m, ticks). watchConfig hash m ticks)
      (m', replicate n (Inr cfg)) = Some (m', [])"
    by (subst DoUntilSuccess_eq) simp
  moreover have "watchConfig hash m (replicate (Suc n) (Inr cfg)) =
      ((m', replicate n (Inr cfg)), ReturnedErr e)"
    using m'(1) assms(3,4) by (simp add: outcome_of_def)
  ultimately have "config_watcher hash m (replicate (Suc n) (Inr cfg)) = Some (m', [])"
    unfolding config_watcher_def by (subst DoUntilSuccess_eq) simp
  with m' show ?thesis by blast
qed

theorem rejected_config_sticks_witness:
  "\<exists>m' e. parseConfig (\<lambda>_. Inr 7) conflicting_cfg zero_manager = (m', Inr (Some e)) \<and>
    config_watcher (\<lambda>_. Inr 7) zero_manager (replicate (Suc 3) (Inr conflicting_cfg)) = Some (m', [])"
  using rejected_config_sticks [of conflicting_cfg "\<lambda>_. Inr 7" 7 zero_manager 3] conflicting
  by (auto simp: zero_manager_def simp del: replicate_Suc)

end
