(* ===== verification/Go_Error.thy ===== *)
theory Go_Error
  imports Prelude
begin

text \<open>
  Go error values and the functions of package \<open>errors\<close> the program uses on them.

  A non-nil error is a tree of type \<open>gerr\<close>; \<open>nil\<close> is \<open>None\<close> of \<open>gerr option\<close> where it can
  occur. There is one constructor per error type the sources create or look for: those of the
  packages \<open>semerr\<close>, \<open>status\<close>, \<open>codeerr\<close> and \<open>clouderr\<close>, those of the standard library,
  and those of the packages pgx and ogen that are searched for. \<open>Foreign\<close> stands for any other
  type: its text, what its \<open>Timeout\<close> method returns if it has one, and what it unwraps to.

  \<open>FmtWrap t e\<close> is \<open>fmt.Errorf("t: %w", e)\<close>, and \<open>FmtWraps t [e, f]\<close> is
  \<open>fmt.Errorf("t: %w: %w", e, f)\<close>. \<open>OpErr t b e\<close> is a \<open>net.OpError\<close> with the text \<open>t\<close> before the
  one of its cause \<open>e\<close>; \<open>b\<close> is what its \<open>Timeout\<close> method returns.

  Go compares errors by identity. The sources compare with package variables and with
  \<open>syscall.Errno\<close> values only, and these are the constructor \<open>Sentinel\<close>.
\<close>

section \<open>Data\<close>

datatype Semantic =
    SemanticUnknown
  | SemanticNotImplemented
  | SemanticUnavailable
  | SemanticInvalidInput
  | SemanticTimeout
  | SemanticInternal
  | SemanticAuthentication
  | SemanticForbidden
  | SemanticFailedPrecondition
  | SemanticNotFound
  | SemanticAlreadyExists
  | SemanticCanceled
  | SemanticUnprocessable
  | SemanticNotAcceptable
  | SemanticResourceLocked
  | SemanticTooManyRequests
  | SemanticSkipError
  | SemanticPartialSuccess

text \<open>The value of a zap field, by its type tag. Integers are the 64 bits of \<open>f.Integer\<close>; a
  \<open>RenderedType\<close> is a value of one of the types that are printed by \<open>%v\<close> as they are, given by
  its printed form.\<close>

datatype field_value =
    BoolType "64 word"
  | BinaryType "8 word list"
  | ByteStringType string
  | StringType string
  | Int64Type "64 word"
  | Int32Type "64 word"
  | Int16Type "64 word"
  | Int8Type "64 word"
  | Uint64Type "64 word"
  | Uint32Type "64 word"
  | Uint16Type "64 word"
  | Uint8Type "64 word"
  | UintptrType "64 word"
  | RenderedType string
  | SkipType
  | UnknownType "8 word"

record field =
  f_key :: string
  f_value :: field_value

type_synonym code = "32 word"

record ErrorInfo =
  ei_Reason :: string
  ei_Metadata :: "(string \<times> string) list"

record ErrorDetails =
  d_ErrorInfo :: "ErrorInfo option"
  d_RetryInfo :: "go_duration option"
  d_UserFacingMessage :: "string option"

datatype sentinel =
    ContextCanceled
  | ContextDeadlineExceeded
  | Errno string
  | IoErrUnexpectedEOF
  | ErrRecoveredPanic
  | NamedError string

datatype ogen_kind = SecurityError | DecodeParamsError | DecodeRequestError | OtherOgenError

datatype gerr =
    ErrNew string
  | Sentinel sentinel
  | FmtWrap string gerr
  | Joined "gerr list"
  | XErr string "gerr option"
  | SemErr Semantic string "field list" gerr
  | StatusErr code gerr ErrorDetails
  | RawErr gerr
  | WithFieldsErr gerr "field list"
  | CodeErr string gerr
  | DNSErr string string bool
  | PgErr string string
  | OgenErr ogen_kind string gerr
  | OpErr string bool gerr
  | FmtWraps string "gerr list"
  | Foreign string "bool option" "gerr option"

text \<open>What \<open>Unwrap\<close> returns: at most one error, except for joined errors. Since Go 1.23 a
  \<open>net.DNSError\<close> has an \<open>Unwrap\<close> method; the module is built with 1.22, where it has none.\<close>

primrec children :: "gerr \<Rightarrow> gerr list" where
  "children (ErrNew t) = []"
| "children (Sentinel s) = []"
| "children (FmtWrap t e) = [e]"
| "children (Joined es) = es"
| "children (XErr t oe) = (case oe of None \<Rightarrow> [] | Some e \<Rightarrow> [e])"
| "children (SemErr s t fs e) = [e]"
| "children (StatusErr c e d) = [e]"
| "children (RawErr e) = [e]"
| "children (WithFieldsErr e fs) = [e]"
| "children (CodeErr c e) = [e]"
| "children (DNSErr r t b) = []"
| "children (PgErr c t) = []"
| "children (OgenErr k t e) = [e]"
| "children (OpErr t b e) = [e]"
| "children (FmtWraps t es) = es"
| "children (Foreign t b oe) = (case oe of None \<Rightarrow> [] | Some e \<Rightarrow> [e])"

definition unwrap1 :: "gerr \<Rightarrow> gerr option" where
  "unwrap1 e = (case e of Joined es \<Rightarrow> None | FmtWraps t es \<Rightarrow> None | _ \<Rightarrow> (case children e of [c] \<Rightarrow> Some c | _ \<Rightarrow> None))"

lemma size_child: "c \<in> set (children e) \<Longrightarrow> size c < size e"
  by (cases e) (auto simp: less_Suc_eq_le intro: size_list_estimation' split: option.splits)

lemma size_unwrap1: "unwrap1 e = Some c \<Longrightarrow> size c < size e"
  by (rule size_child) (auto simp: unwrap1_def split: gerr.splits list.splits option.splits)

section \<open>\<open>errors.As\<close> and \<open>errors.Is\<close>\<close>

fun first_some :: "'a option list \<Rightarrow> 'a option" where
  "first_some [] = None"
| "first_some (None # xs) = first_some xs"
| "first_some (Some x # xs) = Some x"

text \<open>\<open>errors.As\<close>: the error itself if it has the wanted type (\<open>sel\<close>), else its \<open>As\<close> method if it
  has one, else the wrapped errors in turn. The \<open>As\<close> methods of \<open>semerr.Error\<close> and
  \<open>codeerr.Error\<close> call \<open>errors.As\<close> on the wrapped error.\<close>

function errors_As :: "(gerr \<Rightarrow> 'a option) \<Rightarrow> gerr \<Rightarrow> 'a option" where
  "errors_As sel e =
     (case sel e of
        Some x \<Rightarrow> Some x
      | None \<Rightarrow>
          (case (case e of SemErr _ _ _ _ \<Rightarrow> first_some (map (errors_As sel) (children e))
                 | CodeErr _ _ \<Rightarrow> first_some (map (errors_As sel) (children e))
                 | _ \<Rightarrow> None) of
             Some x \<Rightarrow> Some x
           | None \<Rightarrow> first_some (map (errors_As sel) (children e))))"
  by pat_completeness auto
termination by (relation "measure (\<lambda>(sel, e). size e)") (auto dest: size_child)

declare errors_As.simps [simp del]

text \<open>\<open>errors.Is\<close> with a sentinel as target. \<open>semerr.Error.Is\<close> compares the target with the
  wrapped error, \<open>codeerr.Error.Is\<close> calls \<open>errors.Is\<close> on it.\<close>

function errors_Is :: "sentinel \<Rightarrow> gerr \<Rightarrow> bool" where
  "errors_Is t e \<longleftrightarrow>
     e = Sentinel t \<or>
     (case e of SemErr _ _ _ c \<Rightarrow> c = Sentinel t
      | CodeErr _ _ \<Rightarrow> list_ex (errors_Is t) (children e)
      | _ \<Rightarrow> False) \<or>
     list_ex (errors_Is t) (children e)"
  by pat_completeness auto
termination by (relation "measure (\<lambda>(t, e). size e)") (auto dest: size_child)

declare errors_Is.simps [simp del]

text \<open>\<open>errors.Join\<close> drops nil errors and returns nil when there is no other.\<close>

definition errors_Join :: "gerr option list \<Rightarrow> gerr option" where
  "errors_Join errs =
     (let es = [e. Some e \<leftarrow> errs] in if es = [] then None else Some (Joined es))"

section \<open>The preorder of an error tree\<close>

function chain :: "gerr \<Rightarrow> gerr list" where
  "chain e = e # concat (map chain (children e))"
  by pat_completeness auto
termination by (relation "measure size") (auto dest: size_child)

declare chain.simps [simp del]

lemma self_in_chain: "e \<in> set (chain e)"
  by (subst chain.simps) simp

lemma chain_child: "c \<in> set (children e) \<Longrightarrow> set (chain c) \<subseteq> set (chain e)"
  by (subst (2) chain.simps) auto

lemma chain_trans: "x \<in> set (chain e) \<Longrightarrow> set (chain x) \<subseteq> set (chain e)"
proof (induction e rule: chain.induct)
  case (1 e)
  from "1.prems" consider "x = e" | c where "c \<in> set (children e)" "x \<in> set (chain c)"
    by (subst (asm) chain.simps) auto
  then show ?case
  proof cases
    case 2
    with 1 chain_child show ?thesis by blast
  qed simp
qed

lemma unwrap1_child: "unwrap1 e = Some c \<Longrightarrow> c \<in> set (children e)"
  by (auto simp: unwrap1_def split: gerr.splits list.splits option.splits)

lemma chain_simps [simp]:
  "chain (ErrNew t) = [ErrNew t]"
  "chain (Sentinel sn) = [Sentinel sn]"
  "chain (FmtWrap t e) = FmtWrap t e # chain e"
  "chain (Joined es) = Joined es # concat (map chain es)"
  "chain (XErr t None) = [XErr t None]"
  "chain (XErr t (Some e)) = XErr t (Some e) # chain e"
  "chain (SemErr s t fs e) = SemErr s t fs e # chain e"
  "chain (StatusErr cd e d) = StatusErr cd e d # chain e"
  "chain (RawErr e) = RawErr e # chain e"
  "chain (WithFieldsErr e fs) = WithFieldsErr e fs # chain e"
  "chain (CodeErr c e) = CodeErr c e # chain e"
  "chain (DNSErr r t b) = [DNSErr r t b]"
  "chain (PgErr c t) = [PgErr c t]"
  "chain (OgenErr k t e) = OgenErr k t e # chain e"
  "chain (OpErr t b e) = OpErr t b e # chain e"
  "chain (FmtWraps t es) = FmtWraps t es # concat (map chain es)"
  "chain (Foreign t ob None) = [Foreign t ob None]"
  "chain (Foreign t ob (Some e)) = Foreign t ob (Some e) # chain e"
  by (simp_all add: chain.simps)

lemma first_some_append: "first_some (xs @ ys) = (case first_some xs of None \<Rightarrow> first_some ys | Some x \<Rightarrow> Some x)"
  by (induction xs rule: first_some.induct) auto

lemma first_some_concat: "first_some (concat xss) = first_some (map first_some xss)"
proof (induction xss)
  case (Cons xs xss)
  then show ?case by (cases "first_some xs") (simp_all add: first_some_append)
qed simp

lemma first_some_None_iff: "first_some xs = None \<longleftrightarrow> (\<forall>x \<in> set xs. x = None)"
  by (induction xs rule: first_some.induct) auto

lemma first_some_SomeD: "first_some xs = Some x \<Longrightarrow> Some x \<in> set xs"
  by (induction xs rule: first_some.induct) auto

text \<open>Both functions are searches of the preorder; the \<open>As\<close> and \<open>Is\<close> methods of the program's
  types change nothing.\<close>

lemma errors_As_chain: "errors_As sel e = first_some (map sel (chain e))"
proof (induction e rule: chain.induct)
  case (1 e)
  then have IH: "map (errors_As sel) (children e) = map (\<lambda>c. first_some (map sel (chain c))) (children e)"
    by simp
  have "errors_As sel e =
      (case sel e of Some x \<Rightarrow> Some x | None \<Rightarrow> first_some (map (errors_As sel) (children e)))"
    by (subst errors_As.simps) (auto split: option.split gerr.split)
  then show ?case
    by (cases "sel e") (simp_all add: IH chain.simps [of e] map_concat first_some_concat comp_def)
qed

lemma errors_Is_chain: "errors_Is t e \<longleftrightarrow> Sentinel t \<in> set (chain e)"
proof (induction e rule: chain.induct)
  case (1 e)
  have "errors_Is t e \<longleftrightarrow> e = Sentinel t \<or> list_ex (errors_Is t) (children e)"
    by (subst errors_Is.simps) (auto simp: errors_Is.simps split: gerr.split)
  then show ?case using 1 by (subst chain.simps) (auto simp: list_ex_iff)
qed

lemma errors_As_Cons:
  "sel e = None \<Longrightarrow> errors_As sel e = first_some (map (errors_As sel) (children e))"
  by (auto simp: errors_As_chain [abs_def] chain.simps [of e] map_concat first_some_concat comp_def)

section \<open>Wrapping\<close>

text \<open>The ways of adding context to an error that no classification of errors looks at.\<close>

datatype context_wrap = ViaFmt string | ViaFields "field list" | ViaForeign string

fun wrap_one :: "context_wrap \<Rightarrow> gerr \<Rightarrow> gerr" where
  "wrap_one (ViaFmt t) e = FmtWrap t e"
| "wrap_one (ViaFields fs) e = WithFieldsErr e fs"
| "wrap_one (ViaForeign t) e = Foreign t None (Some e)"

lemma chain_wrap_one: "chain (wrap_one w e) = wrap_one w e # chain e"
  by (cases w) simp_all

definition wrap_all :: "context_wrap list \<Rightarrow> gerr \<Rightarrow> gerr" where
  "wrap_all ws e = foldr wrap_one ws e"

text \<open>A classification of errors that context does not change.\<close>

locale error_classifier =
  fixes classify :: "gerr \<Rightarrow> 'c"
  assumes classify_wrap: "classify (wrap_one w e) = classify e"
begin

lemma classify_wrap_all: "classify (wrap_all ws e) = classify e"
  by (induction ws) (simp_all add: wrap_all_def classify_wrap)

end

text \<open>A search for a type that no context wrapper has is one.\<close>

locale error_search =
  fixes sel :: "gerr \<Rightarrow> 'a option"
  assumes sel_wrap: "sel (wrap_one w e) = None"

sublocale error_search \<subseteq> error_classifier "errors_As sel"
  by unfold_locales (simp add: errors_As_chain chain_wrap_one sel_wrap)

end
