(* ===== verification/Clouderr.thy ===== *)
theory Clouderr
  imports Go_Error "HOL-Library.Multiset"
begin

unbundle bit_operations_syntax

text \<open>
  Package \<open>internal/clouderr\<close>: log fields carried by errors and by contexts.

  A context is the list of its key/value pairs, the newest first. A Go map of fields is a list of
  fields with pairwise different keys; the order in which \<open>lo.MapToSlice\<close> goes through a map is
  unspecified and is the parameter \<open>ord\<close>, which permutes its argument.
\<close>

section \<open>Fields in a context\<close>

text \<open>Both context keys are values of the same empty struct type, so they are equal.\<close>

datatype ctxkey = Ctxkey

definition logFieldsContextKey :: ctxkey where "logFieldsContextKey = Ctxkey"
definition logFieldKeysMapContextKey :: ctxkey where "logFieldKeysMapContextKey = Ctxkey"

datatype ctx_value = FieldsValue "field list" | KeyMapValue "(string \<times> nat) list"

type_synonym log_context = "(ctxkey \<times> ctx_value) list"

definition FieldsFromContext :: "log_context \<Rightarrow> field list" where
  "FieldsFromContext ctx =
     (case map_of ctx logFieldsContextKey of Some (FieldsValue fs) \<Rightarrow> fs | _ \<Rightarrow> [])"

definition logFieldKeyMapFromContext :: "log_context \<Rightarrow> (string \<times> nat) list" where
  "logFieldKeyMapFromContext ctx =
     (case map_of ctx logFieldKeysMapContextKey of Some (KeyMapValue m) \<Rightarrow> m | _ \<Rightarrow> [])"

fun add_fields ::
    "field list \<Rightarrow> (string \<times> nat) list \<Rightarrow> field list \<Rightarrow> ((string \<times> nat) list \<times> field list) panics" where
  "add_fields [] lkm lf = Inr (lkm, lf)"
| "add_fields (f # fs) lkm lf =
     (case map_of lkm (f_key f) of
        Some idx \<Rightarrow>
          if idx < length lf then add_fields fs lkm (lf[idx := f]) else Inl ''index out of range''
      | None \<Rightarrow> add_fields fs ((f_key f, length lf) # lkm) (lf @ [f]))"

definition ContextWithFields :: "log_context \<Rightarrow> field list \<Rightarrow> log_context panics" where
  "ContextWithFields ctx flds =
     bind_sum (add_fields flds (logFieldKeyMapFromContext ctx) (FieldsFromContext ctx)) (\<lambda>(lkm, lf).
       Inr ((logFieldsContextKey, FieldsValue lf) # (logFieldKeysMapContextKey, KeyMapValue lkm) # ctx))"

section \<open>Fields in an error\<close>

definition WrapWithFields :: "gerr option \<Rightarrow> field list \<Rightarrow> gerr panics" where
  "WrapWithFields err flds =
     (case err of
        None \<Rightarrow> Inl ''cannot wrap nil error''
      | Some e \<Rightarrow> Inr (if flds = [] then e else WithFieldsErr e flds))"

definition WithFields :: "string \<Rightarrow> field list \<Rightarrow> gerr panics" where
  "WithFields text flds = WrapWithFields (Some (ErrNew text)) flds"

definition WithFieldsFromContext :: "log_context \<Rightarrow> string \<Rightarrow> field list \<Rightarrow> gerr panics" where
  "WithFieldsFromContext ctx text flds = WithFields text (FieldsFromContext ctx @ flds)"

definition WrapWithFieldsFromContext :: "log_context \<Rightarrow> gerr option \<Rightarrow> field list \<Rightarrow> gerr panics" where
  "WrapWithFieldsFromContext ctx err flds = WrapWithFields err (FieldsFromContext ctx @ flds)"

text \<open>The types with a \<open>Fields\<close> method.\<close>

definition own_fields :: "gerr \<Rightarrow> field list" where
  "own_fields e = (case e of SemErr _ _ fs _ \<Rightarrow> fs | WithFieldsErr _ fs \<Rightarrow> fs | _ \<Rightarrow> [])"

fun put_field :: "field \<Rightarrow> field list \<Rightarrow> field list" where
  "put_field f [] = [f]"
| "put_field f (g # gs) = (if f_key g = f_key f then f # gs else g # put_field f gs)"

definition weight :: "gerr list \<Rightarrow> nat" where
  "weight es = (\<Sum>e \<leftarrow> es. Suc (size e))"

lemma weight_simps [simp]:
  "weight [] = 0" "weight (e # es) = Suc (size e) + weight es" "weight (es @ es') = weight es + weight es'"
  by (simp_all add: weight_def)

lemma weight_children: "weight (children e) \<le> size e"
proof -
  have "weight es \<le> size_list size es" for es
    by (induction es) auto
  then show ?thesis by (cases e) (auto simp: le_SucI split: option.split)
qed

function unwrap_loop :: "gerr list \<Rightarrow> field list \<Rightarrow> field list" where
  "unwrap_loop [] flds = flds"
| "unwrap_loop (e # errs) flds = unwrap_loop (errs @ children e) (fold put_field (own_fields e) flds)"
  by pat_completeness auto
termination
  by (relation "measure (\<lambda>(errs, flds). weight errs)") (auto simp: less_Suc_eq_le weight_children)

definition UnwrapFields :: "(field list \<Rightarrow> field list) \<Rightarrow> gerr \<Rightarrow> field list" where
  "UnwrapFields ord err = ord (unwrap_loop [err] [])"

definition hex_digit :: "nat \<Rightarrow> char" where
  "hex_digit n = ''0123456789abcdef'' ! n"

definition hex_EncodeToString :: "8 word list \<Rightarrow> string" where
  "hex_EncodeToString bs = concat (map (\<lambda>b. [hex_digit (unat b div 16), hex_digit (unat b mod 16)]) bs)"

text \<open>The conversions \<open>int32(f.Integer)\<close> and so on keep the low bits.\<close>

definition FieldToString :: "field \<Rightarrow> string panics" where
  "FieldToString f =
     bind_sum
       (case f_value f of
          BinaryType bs \<Rightarrow> Inr (hex_EncodeToString bs)
        | BoolType i \<Rightarrow> Inr (if i = 1 then ''true'' else ''false'')
        | ByteStringType s \<Rightarrow> Inr s
        | Int64Type i \<Rightarrow> Inr (show_int (sint i))
        | Int32Type i \<Rightarrow> Inr (show_int (sint (ucast i :: 32 word)))
        | Int16Type i \<Rightarrow> Inr (show_int (sint (ucast i :: 16 word)))
        | Int8Type i \<Rightarrow> Inr (show_int (sint (ucast i :: 8 word)))
        | StringType s \<Rightarrow> Inr s
        | Uint64Type i \<Rightarrow> Inr (show_nat (unat i))
        | Uint32Type i \<Rightarrow> Inr (show_nat (unat (ucast i :: 32 word)))
        | Uint16Type i \<Rightarrow> Inr (show_nat (unat (ucast i :: 16 word)))
        | Uint8Type i \<Rightarrow> Inr (show_nat (unat (ucast i :: 8 word)))
        | UintptrType i \<Rightarrow> Inr (show_nat (unat i))
        | RenderedType s \<Rightarrow> Inr s
        | SkipType \<Rightarrow> Inr ''<nil>''
        | UnknownType t \<Rightarrow> Inl ''unknown field type'')
       (\<lambda>v. Inr (f_key f @ '':\"'' @ v @ ''\"''))"

text \<open>\<open>Errors\<close> encodes a slice of errors as an array of objects: the error's text under the key
  \<open>error\<close>, then its fields. The text of an error is the parameter \<open>txt\<close>.\<close>

definition Errors ::
    "(gerr \<Rightarrow> string) \<Rightarrow> (field list \<Rightarrow> field list) \<Rightarrow> gerr option list \<Rightarrow> field list list" where
  "Errors txt ord errs =
     [\<lparr>f_key = ''error'', f_value = StringType (txt e)\<rparr> # UnwrapFields ord e. Some e \<leftarrow> errs]"

section \<open>Level order\<close>

definition level :: "nat \<Rightarrow> gerr list \<Rightarrow> gerr list" where
  "level n es = ((\<lambda>es. concat (map children es)) ^^ n) es"

definition fields_at :: "gerr \<Rightarrow> nat \<Rightarrow> field list" where
  "fields_at e n = concat (map own_fields (level n [e]))"

function bfs_order :: "gerr list \<Rightarrow> gerr list" where
  "bfs_order [] = []"
| "bfs_order (e # errs) = e # bfs_order (errs @ children e)"
  by pat_completeness auto
termination by (relation "measure weight") (auto simp: less_Suc_eq_le weight_children)

lemma unwrap_loop_bfs: "unwrap_loop errs flds = fold put_field (concat (map own_fields (bfs_order errs))) flds"
  by (induction errs flds rule: unwrap_loop.induct) simp_all

lemma bfs_order_append: "bfs_order (xs @ ys) = xs @ bfs_order (ys @ concat (map children xs))"
  by (induction xs arbitrary: ys) simp_all

lemma level_simps: "level 0 es = es" "level (Suc n) es = level n (concat (map children es))"
  by (simp_all add: level_def funpow_Suc_right del: funpow.simps)

lemma weight_next: "es \<noteq> [] \<Longrightarrow> weight (concat (map children es)) < weight es"
proof (induction es)
  case (Cons e es)
  then show ?case using weight_children [of e] by (cases "es = []") auto
qed simp

text \<open>The queue goes through the tree level by level.\<close>

lemma bfs_order_levels:
  "weight es < n \<Longrightarrow> bfs_order es = concat (map (\<lambda>k. level k es) [0 ..< n])"
proof (induction n arbitrary: es)
  case (Suc n)
  show ?case
  proof (cases "es = []")
    case True
    have "level k [] = []" for k by (induction k) (simp_all add: level_simps)
    with True show ?thesis by simp
  next
    case False
    let ?next = "concat (map children es)"
    have "weight ?next < n" using weight_next [OF False] Suc.prems by simp
    from Suc.IH [OF this] have "bfs_order es = es @ concat (map (\<lambda>k. level k ?next) [0 ..< n])"
      using bfs_order_append [of es "[]"] by simp
    also have "\<dots> = concat (map (\<lambda>k. level k es) (0 # map Suc [0 ..< n]))"
      by (simp add: level_simps comp_def)
    also have "0 # map Suc [0 ..< n] = [0 ..< Suc n]"
      by (simp add: map_Suc_upt upt_conv_Cons del: upt_Suc)
    finally show ?thesis .
  qed
qed simp

subsection \<open>Fields with unique keys\<close>

definition lookup_field :: "string \<Rightarrow> field list \<Rightarrow> field option" where
  "lookup_field k fs = find (\<lambda>f. f_key f = k) fs"

lemma lookup_field_mem: "lookup_field k fs = Some g \<Longrightarrow> g \<in> set fs \<and> f_key g = k"
  by (auto simp: lookup_field_def find_Some_iff)

lemma put_field_keys: "f_key ` set (put_field f fs) = insert (f_key f) (f_key ` set fs)"
  by (induction fs) auto

lemma put_field_distinct: "distinct (map f_key fs) \<Longrightarrow> distinct (map f_key (put_field f fs))"
  by (induction fs) (auto simp: put_field_keys)

lemma lookup_put_field:
  "lookup_field k (put_field f fs) = (if f_key f = k then Some f else lookup_field k fs)"
  by (induction fs) (auto simp: lookup_field_def)

lemma lookup_append:
  "lookup_field k (fs @ gs) = (case lookup_field k fs of Some f \<Rightarrow> Some f | None \<Rightarrow> lookup_field k gs)"
  "lookup_field k [] = None"
  "lookup_field k (f # fs) = (if f_key f = k then Some f else lookup_field k fs)"
  by (auto simp: lookup_field_def find_append split: option.split)

lemma fold_put_field:
  "lookup_field k (fold put_field gs fs) =
     (case lookup_field k (rev gs) of Some g \<Rightarrow> Some g | None \<Rightarrow> lookup_field k fs)"
  by (induction gs arbitrary: fs)
    (auto simp: lookup_put_field lookup_append split: option.split)

lemma fold_put_field_distinct:
  "distinct (map f_key fs) \<Longrightarrow> distinct (map f_key (fold put_field gs fs))"
  by (induction gs arbitrary: fs) (simp_all add: put_field_distinct)

lemma lookup_field_unique:
  assumes "distinct (map f_key fs)" "f \<in> set fs"
  shows "lookup_field (f_key f) fs = Some f"
proof -
  from assms(2) obtain ys zs where fs: "fs = ys @ f # zs" by (auto simp: in_set_conv_decomp)
  with assms(1) have "\<forall>y \<in> set ys. f_key y \<noteq> f_key f" by (auto simp: image_iff)
  then show ?thesis unfolding lookup_field_def fs by (intro find_SomeI) simp_all
qed

lemma put_field_absent: "f_key f \<notin> f_key ` set fs \<Longrightarrow> put_field f fs = fs @ [f]"
  by (induction fs) auto

lemma put_field_present:
  "distinct (map f_key fs) \<Longrightarrow> j < length fs \<Longrightarrow> f_key (fs ! j) = f_key f \<Longrightarrow> put_field f fs = fs[j := f]"
proof (induction fs arbitrary: j)
  case (Cons g gs)
  show ?case
  proof (cases j)
    case (Suc i)
    with Cons.prems have "gs ! i \<in> set gs" "f_key (gs ! i) = f_key f" by simp_all
    with Cons.prems(1) have "f_key g \<noteq> f_key f" by (metis distinct.simps(2) image_eqI list.simps(9) set_map)
    with Suc Cons show ?thesis by simp
  qed (use Cons.prems in simp)
qed simp

text \<open>The key map that \<open>add_fields\<close> has built for the fields \<open>ds\<close> added after \<open>n\<close> earlier ones.\<close>

definition key_map :: "nat \<Rightarrow> field list \<Rightarrow> (string \<times> nat) list" where
  "key_map n ds = rev (zip (map f_key ds) [n ..< n + length ds])"

lemma map_of_key_map:
  assumes "distinct (map f_key ds)"
  shows "f_key f \<notin> f_key ` set ds \<Longrightarrow> map_of (key_map n ds) (f_key f) = None"
    and "j < length ds \<Longrightarrow> map_of (key_map n ds) (f_key (ds ! j)) = Some (n + j)"
proof -
  have d: "distinct (map fst (key_map n ds))" using assms by (simp add: key_map_def rev_map [symmetric])
  show "map_of (key_map n ds) (f_key f) = None" if "f_key f \<notin> f_key ` set ds"
    using that by (auto simp: map_of_eq_None_iff key_map_def dest: set_zip_leftD)
  show "map_of (key_map n ds) (f_key (ds ! j)) = Some (n + j)" if "j < length ds"
    using d that by (intro map_of_is_SomeI) (auto simp: key_map_def set_zip intro!: exI [of _ j])
qed

lemma add_fields_eq:
  assumes "distinct (map f_key ds)"
  shows "add_fields fs (key_map (length base) ds) (base @ ds) =
    Inr (key_map (length base) (fold put_field fs ds), base @ fold put_field fs ds)"
  using assms
proof (induction fs arbitrary: ds)
  case (Cons f fs)
  note IH = Cons.IH [OF put_field_distinct [OF Cons.prems, of f]]
  show ?case
  proof (cases "f_key f \<in> f_key ` set ds")
    case False
    have "(f_key f, length base + length ds) # key_map (length base) ds = key_map (length base) (ds @ [f])"
      by (simp add: key_map_def)
    with False IH show ?thesis
      by (simp add: map_of_key_map(1) [OF Cons.prems] put_field_absent)
  next
    case True
    then obtain j where j: "j < length ds" "f_key (ds ! j) = f_key f" by (auto simp: in_set_conv_nth)
    have "map f_key (ds[j := f]) = map f_key ds" using j by (simp add: map_update list_update_same_conv)
    then have "key_map (length base) (ds[j := f]) = key_map (length base) ds" by (simp add: key_map_def)
    moreover have "map_of (key_map (length base) ds) (f_key f) = Some (length base + j)"
      using map_of_key_map(2) [OF Cons.prems j(1), of "length base"] j(2) by simp
    ultimately show ?thesis
      using IH j put_field_present [OF Cons.prems j] by (simp add: list_update_append)
  qed
qed simp

text \<open>Every field comes from an error of the tree.\<close>

lemma set_fold_put_field: "set (fold put_field gs fs) \<subseteq> set gs \<union> set fs"
proof (induction gs arbitrary: fs)
  case (Cons g gs)
  have "set (put_field g fs) \<subseteq> insert g (set fs)" by (induction fs) auto
  with Cons [of "put_field g fs"] show ?case by auto
qed simp

definition tree_fields :: "gerr \<Rightarrow> field set" where
  "tree_fields e = (\<Union>x \<in> set (chain e). set (own_fields x))"

lemma tree_fields_own: "set (own_fields e) \<subseteq> tree_fields e"
  using self_in_chain [of e] by (auto simp: tree_fields_def)

lemma tree_fields_child: "c \<in> set (children e) \<Longrightarrow> tree_fields c \<subseteq> tree_fields e"
  using chain_child by (fastforce simp: tree_fields_def)

lemma unwrap_loop_fields: "set (unwrap_loop errs flds) \<subseteq> set flds \<union> (\<Union>e \<in> set errs. tree_fields e)"
proof (induction errs flds rule: unwrap_loop.induct)
  case (2 e errs flds)
  have "set (fold put_field (own_fields e) flds) \<subseteq> set flds \<union> tree_fields e"
    using set_fold_put_field [of "own_fields e" flds] tree_fields_own [of e] by blast
  with 2 show ?case using tree_fields_child [of _ e] by fastforce
qed simp

text \<open>What every context built by \<open>ContextWithFields\<close> looks like: its newest value is a slice.\<close>

definition log_context_wf :: "log_context \<Rightarrow> bool" where
  "log_context_wf ctx \<longleftrightarrow> (ctx = [] \<or> (\<exists>fs. snd (hd ctx) = FieldsValue fs))"

lemma concat_concat: "concat (concat xss) = concat (map concat xss)"
  by (induction xss) simp_all

lemma filter_key_unique:
  assumes "distinct (map f_key fs)" "g \<in> set fs"
  shows "filter (\<lambda>h. f_key h = f_key g) fs = [g]"
proof -
  from assms(2) obtain ys zs where fs: "fs = ys @ g # zs" by (auto simp: in_set_conv_decomp)
  with assms(1) have "\<forall>h \<in> set ys \<union> set zs. f_key h \<noteq> f_key g" by (auto simp: image_iff)
  then show ?thesis by (simp add: fs filter_empty_conv)
qed

section \<open>Properties\<close>

text \<open>\<open>UnwrapFields\<close> returns for each key exactly one field, and that field stands at the
  greatest depth at which any error of the tree has a field with this key.\<close>

theorem UnwrapFields_deepest:
  assumes "\<forall>fs. mset (ord fs) = mset fs"
    and "f \<in> set (fields_at e d)" "\<forall>d' > d. \<forall>g \<in> set (fields_at e d'). f_key g \<noteq> f_key f"
  shows "\<exists>g \<in> set (fields_at e d). filter (\<lambda>h. f_key h = f_key f) (UnwrapFields ord e) = [g]"
proof -
  define fs where "fs = unwrap_loop [e] []"
  define n where "n = Suc (weight [e] + d)"
  have "[0 ..< n] = [0 ..< d] @ d # [Suc d ..< n]"
    using upt_add_eq_append [of 0 d "Suc (weight [e])"] upt_conv_Cons [of d n]
    by (simp add: n_def add.commute del: upt_Suc weight_simps)
  moreover have "bfs_order [e] = concat (map (\<lambda>k. level k [e]) [0 ..< n])"
    by (intro bfs_order_levels) (simp add: n_def)
  moreover define A where "A = concat (map (fields_at e) [0 ..< d])"
  moreover define B where "B = concat (map (fields_at e) [Suc d ..< n])"
  ultimately have fs: "fs = fold put_field (A @ fields_at e d @ B) []"
    by (simp add: fs_def unwrap_loop_bfs map_concat comp_def fields_at_def [abs_def] concat_concat)
  have "lookup_field (f_key f) (rev B) = None"
    using assms(3) by (auto simp: lookup_field_def find_None_iff B_def Suc_le_eq)
  moreover obtain g where g: "lookup_field (f_key f) (rev (fields_at e d)) = Some g"
    using assms(2) by (cases "lookup_field (f_key f) (rev (fields_at e d))") (auto simp: lookup_field_def find_None_iff)
  ultimately have look: "lookup_field (f_key f) fs = Some g"
    by (simp add: fs fold_put_field lookup_append)
  have "g \<in> set (fields_at e d)" using lookup_field_mem [OF g] by simp
  moreover have "filter (\<lambda>h. f_key h = f_key f) (ord fs) = [g]"
  proof -
    have d: "distinct (map f_key fs)" unfolding fs by (rule fold_put_field_distinct) simp
    then have "distinct (map f_key (ord fs))"
      using assms(1) by (metis mset_map mset_eq_imp_distinct_iff)
    moreover have "set (ord fs) = set fs" using assms(1) mset_eq_setD by blast
    moreover have "g \<in> set fs" "f_key g = f_key f" using lookup_field_mem [OF look] by simp_all
    ultimately show ?thesis by (metis filter_key_unique)
  qed
  ultimately show ?thesis unfolding UnwrapFields_def fs_def [symmetric] by blast
qed

theorem UnwrapFields_deepest_witness:
  "filter (\<lambda>h. f_key h = ''id'') (UnwrapFields rev
     (WithFieldsErr (FmtWrap ''x'' (WithFieldsErr (ErrNew ''y'') [\<lparr>f_key = ''id'', f_value = StringType ''deep''\<rparr>]))
       [\<lparr>f_key = ''id'', f_value = StringType ''shallow''\<rparr>])) =
   [\<lparr>f_key = ''id'', f_value = StringType ''deep''\<rparr>]"
proof -
  let ?f = "\<lparr>f_key = ''id'', f_value = StringType ''deep''\<rparr>"
  let ?e = "WithFieldsErr (FmtWrap ''x'' (WithFieldsErr (ErrNew ''y'') [?f])) [\<lparr>f_key = ''id'', f_value = StringType ''shallow''\<rparr>]"
  have two: "level (Suc (Suc n)) [?e] = level n [WithFieldsErr (ErrNew ''y'') [?f]]" for n
    by (simp add: level_simps)
  have at: "fields_at ?e 2 = [?f]" unfolding numeral_2_eq_2 fields_at_def two by (simp add: level_simps own_fields_def)
  have "level n [] = []" for n by (induction n) (simp_all add: level_simps)
  then have deeper: "fields_at ?e (Suc (Suc (Suc n))) = []" for n
    unfolding fields_at_def two by (cases n) (simp_all add: level_simps own_fields_def)
  have "fields_at ?e d' = []" if "2 < d'" for d'
    using deeper [of "d' - 3"] that by (simp add: eval_nat_numeral Suc_diff_Suc)
  then have "\<forall>d' > 2. \<forall>g \<in> set (fields_at ?e d'). f_key g \<noteq> f_key ?f" by simp
  with UnwrapFields_deepest [of rev ?f ?e 2] at show ?thesis by simp
qed

text \<open>A nested \<open>ContextWithFields\<close> appends to the parent's fields and replaces none of them:
  only keys repeated within one call are merged, with the later field in the place of the
  earlier.\<close>

theorem ContextWithFields_appends:
  assumes "log_context_wf ctx"
  shows "\<exists>ctx'. ContextWithFields ctx fs = Inr ctx' \<and> log_context_wf ctx' \<and>
    FieldsFromContext ctx' = FieldsFromContext ctx @ fold put_field fs []"
proof -
  have "map_of ctx k = None \<or> (\<exists>gs. map_of ctx k = Some (FieldsValue gs))" for k
    using assms by (cases ctx; cases k) (auto simp: log_context_wf_def, metis (full_types) ctxkey.exhaust)
  then have "logFieldKeyMapFromContext ctx = key_map (length (FieldsFromContext ctx)) []"
    by (auto simp: logFieldKeyMapFromContext_def key_map_def split: option.split ctx_value.split)
      (metis ctx_value.distinct(1) option.distinct(1) option.inject)
  with add_fields_eq [of "[]" fs "FieldsFromContext ctx"]
  have "add_fields fs (logFieldKeyMapFromContext ctx) (FieldsFromContext ctx) =
      Inr (key_map (length (FieldsFromContext ctx)) (fold put_field fs []), FieldsFromContext ctx @ fold put_field fs [])"
    by simp
  then show ?thesis
    by (simp add: ContextWithFields_def log_context_wf_def FieldsFromContext_def logFieldsContextKey_def)
qed

theorem ContextWithFields_appends_witness:
  "\<exists>ctx'. ContextWithFields [(Ctxkey, FieldsValue [\<lparr>f_key = ''a'', f_value = StringType ''1''\<rparr>])]
      [\<lparr>f_key = ''a'', f_value = StringType ''2''\<rparr>] = Inr ctx' \<and>
    FieldsFromContext ctx' =
      [\<lparr>f_key = ''a'', f_value = StringType ''1''\<rparr>, \<lparr>f_key = ''a'', f_value = StringType ''2''\<rparr>]"
  using ContextWithFields_appends [of "[(Ctxkey, FieldsValue [\<lparr>f_key = ''a'', f_value = StringType ''1''\<rparr>])]"
      "[\<lparr>f_key = ''a'', f_value = StringType ''2''\<rparr>]"]
  by (auto simp: log_context_wf_def FieldsFromContext_def logFieldsContextKey_def)

end
