(* ===== verification/Semerr.thy ===== *)
theory Semerr
  imports Clouderr
begin

text \<open>
  Package \<open>internal/semerr\<close>: errors with a meaning (\<open>semantic.go\<close>), the collector of errors from
  several goroutines (\<open>collector.go\<close>) and the printing of stack frames (\<open>stack.go\<close>).

  A \<open>*semerr.Error\<close> is the constructor \<open>SemErr\<close>; its stack is left out of it. \<open>errFmt\<close> calls
  \<open>xerrors.Errorf\<close>, whose result is \<open>XErr\<close> with the text given as the format. The constructors
  with a format and arguments (\<open>newErrorf\<close>, \<open>wrapErrorf\<close> and the unexported ones that call
  them) are not used by the program and not modelled.
\<close>

section \<open>Semantic errors\<close>

definition errFmt :: "string \<Rightarrow> gerr option \<Rightarrow> gerr" where
  "errFmt text wrapped = XErr text wrapped"

definition newError :: "Semantic \<Rightarrow> string \<Rightarrow> field list \<Rightarrow> gerr" where
  "newError s text flds = SemErr s text flds (errFmt text None)"

definition wrapError :: "Semantic \<Rightarrow> gerr \<Rightarrow> string \<Rightarrow> field list \<Rightarrow> gerr" where
  "wrapError s err text flds = SemErr s text flds (errFmt text (Some err))"

text \<open>The \<open>errors.As\<close> target \<open>*Error\<close>.\<close>

definition sem_target :: "gerr \<Rightarrow> gerr option" where
  "sem_target e = (case e of SemErr _ _ _ _ \<Rightarrow> Some e | _ \<Rightarrow> None)"

definition sem_semantic :: "gerr \<Rightarrow> Semantic" where
  "sem_semantic e = (case e of SemErr s _ _ _ \<Rightarrow> s | _ \<Rightarrow> SemanticUnknown)"

definition AsSemanticError :: "gerr option \<Rightarrow> gerr option" where
  "AsSemanticError err = (case err of None \<Rightarrow> None | Some e \<Rightarrow> errors_As sem_target e)"

definition IsSemanticError :: "gerr option \<Rightarrow> Semantic \<Rightarrow> bool" where
  "IsSemanticError err semantic =
     (case AsSemanticError err of None \<Rightarrow> False | Some target \<Rightarrow> sem_semantic target = semantic)"

definition Message :: "gerr \<Rightarrow> string" where
  "Message e = (case e of SemErr _ message _ _ \<Rightarrow> message | _ \<Rightarrow> [])"

fun all_strings :: "(field \<Rightarrow> string panics) \<Rightarrow> field list \<Rightarrow> string list panics" where
  "all_strings f [] = Inr []"
| "all_strings f (x # xs) = bind_sum (f x) (\<lambda>s. bind_sum (all_strings f xs) (\<lambda>ss. Inr (s # ss)))"

definition MessageWithFields :: "(field list \<Rightarrow> field list) \<Rightarrow> gerr \<Rightarrow> string panics" where
  "MessageWithFields ord e =
     (let ff = UnwrapFields ord e
      in if ff = [] then Inr (Message e)
         else bind_sum (all_strings FieldToString ff) (\<lambda>ss. Inr (Message e @ ''; '' @ join '', '' ss)))"

text \<open>The text of the wrapped error is \<open>err.Error()\<close>.\<close>

definition WrapWithSkipError :: "gerr \<Rightarrow> string \<Rightarrow> field list \<Rightarrow> gerr" where
  "WrapWithSkipError err err_text flds = wrapError SemanticSkipError err err_text flds"

text \<open>One constructor, one wrapper and one test per meaning.\<close>

definition unknown :: "string \<Rightarrow> gerr" where
  "unknown text = newError SemanticUnknown text []"

definition wrapWithUnknown :: "gerr \<Rightarrow> string \<Rightarrow> gerr" where
  "wrapWithUnknown err text = wrapError SemanticUnknown err text []"

definition WrapWithCanceled :: "gerr \<Rightarrow> string \<Rightarrow> field list \<Rightarrow> gerr" where
  "WrapWithCanceled err text flds = wrapError SemanticCanceled err text flds"

definition isUnknown :: "gerr option \<Rightarrow> bool" where
  "isUnknown err = IsSemanticError err SemanticUnknown"

definition Internal :: "string \<Rightarrow> field list \<Rightarrow> gerr" where
  "Internal text flds = newError SemanticInternal text flds"

definition WrapWithInternal :: "gerr \<Rightarrow> string \<Rightarrow> field list \<Rightarrow> gerr" where
  "WrapWithInternal err text flds = wrapError SemanticInternal err text flds"

definition NotImplemented :: "string \<Rightarrow> field list \<Rightarrow> gerr" where
  "NotImplemented text flds = newError SemanticNotImplemented text flds"

definition WrapWithNotImplemented :: "gerr \<Rightarrow> string \<Rightarrow> field list \<Rightarrow> gerr" where
  "WrapWithNotImplemented err text flds = wrapError SemanticNotImplemented err text flds"

definition IsNotImplemented :: "gerr option \<Rightarrow> bool" where
  "IsNotImplemented err = IsSemanticError err SemanticNotImplemented"

definition Unavailable :: "string \<Rightarrow> field list \<Rightarrow> gerr" where
  "Unavailable text flds = newError SemanticUnavailable text flds"

definition WrapWithUnavailable :: "gerr \<Rightarrow> string \<Rightarrow> field list \<Rightarrow> gerr" where
  "WrapWithUnavailable err text flds = wrapError SemanticUnavailable err text flds"

definition WrapWithTimeout :: "gerr \<Rightarrow> string \<Rightarrow> field list \<Rightarrow> gerr" where
  "WrapWithTimeout err text flds = wrapError SemanticTimeout err text flds"

definition ResourceLocked :: "string \<Rightarrow> field list \<Rightarrow> gerr" where
  "ResourceLocked text flds = newError SemanticResourceLocked text flds"

definition WrapWithResourceLocked :: "gerr \<Rightarrow> string \<Rightarrow> field list \<Rightarrow> gerr" where
  "WrapWithResourceLocked err text flds = wrapError SemanticResourceLocked err text flds"

definition WrapWithTooManyRequests :: "gerr \<Rightarrow> string \<Rightarrow> field list \<Rightarrow> gerr" where
  "WrapWithTooManyRequests err text flds = wrapError SemanticTooManyRequests err text flds"

definition IsResourceLocked :: "gerr option \<Rightarrow> bool" where
  "IsResourceLocked err = IsSemanticError err SemanticResourceLocked"

definition IsUnavailable :: "gerr option \<Rightarrow> bool" where
  "IsUnavailable err = IsSemanticError err SemanticUnavailable"

definition IsInternal :: "gerr option \<Rightarrow> bool" where
  "IsInternal err = IsSemanticError err SemanticInternal"

definition InvalidInput :: "string \<Rightarrow> field list \<Rightarrow> gerr" where
  "InvalidInput text flds = newError SemanticInvalidInput text flds"

definition WrapWithInvalidInput :: "gerr \<Rightarrow> string \<Rightarrow> field list \<Rightarrow> gerr" where
  "WrapWithInvalidInput err text flds = wrapError SemanticInvalidInput err text flds"

definition IsInvalidInput :: "gerr option \<Rightarrow> bool" where
  "IsInvalidInput err = IsSemanticError err SemanticInvalidInput"

definition Authentication :: "string \<Rightarrow> field list \<Rightarrow> gerr" where
  "Authentication text flds = newError SemanticAuthentication text flds"

definition WrapWithAuthentication :: "gerr \<Rightarrow> string \<Rightarrow> field list \<Rightarrow> gerr" where
  "WrapWithAuthentication err text flds = wrapError SemanticAuthentication err text flds"

definition IsAuthentication :: "gerr option \<Rightarrow> bool" where
  "IsAuthentication err = IsSemanticError err SemanticAuthentication"

definition Forbidden :: "string \<Rightarrow> field list \<Rightarrow> gerr" where
  "Forbidden text flds = newError SemanticForbidden text flds"

definition WrapWithForbidden :: "gerr \<Rightarrow> string \<Rightarrow> field list \<Rightarrow> gerr" where
  "WrapWithForbidden err text flds = wrapError SemanticForbidden err text flds"

definition IsForbidden :: "gerr option \<Rightarrow> bool" where
  "IsForbidden err = IsSemanticError err SemanticForbidden"

definition FailedPrecondition :: "string \<Rightarrow> field list \<Rightarrow> gerr" where
  "FailedPrecondition text flds = newError SemanticFailedPrecondition text flds"

definition WrapWithFailedPrecondition :: "gerr \<Rightarrow> string \<Rightarrow> field list \<Rightarrow> gerr" where
  "WrapWithFailedPrecondition err text flds = wrapError SemanticFailedPrecondition err text flds"

definition IsFailedPrecondition :: "gerr option \<Rightarrow> bool" where
  "IsFailedPrecondition err = IsSemanticError err SemanticFailedPrecondition"

definition NotFound :: "string \<Rightarrow> field list \<Rightarrow> gerr" where
  "NotFound text flds = newError SemanticNotFound text flds"

definition WrapWithNotFound :: "gerr \<Rightarrow> string \<Rightarrow> field list \<Rightarrow> gerr" where
  "WrapWithNotFound err text flds = wrapError SemanticNotFound err text flds"

definition IsNotFound :: "gerr option \<Rightarrow> bool" where
  "IsNotFound err = IsSemanticError err SemanticNotFound"

definition AlreadyExists :: "string \<Rightarrow> field list \<Rightarrow> gerr" where
  "AlreadyExists text flds = newError SemanticAlreadyExists text flds"

definition WrapWithAlreadyExists :: "gerr \<Rightarrow> string \<Rightarrow> field list \<Rightarrow> gerr" where
  "WrapWithAlreadyExists err text flds = wrapError SemanticAlreadyExists err text flds"

definition IsAlreadyExists :: "gerr option \<Rightarrow> bool" where
  "IsAlreadyExists err = IsSemanticError err SemanticAlreadyExists"

definition Unprocessable :: "string \<Rightarrow> field list \<Rightarrow> gerr" where
  "Unprocessable text flds = newError SemanticUnprocessable text flds"

definition WrapWithUnprocessable :: "gerr \<Rightarrow> string \<Rightarrow> field list \<Rightarrow> gerr" where
  "WrapWithUnprocessable err text flds = wrapError SemanticUnprocessable err text flds"

definition IsUnprocessable :: "gerr option \<Rightarrow> bool" where
  "IsUnprocessable err = IsSemanticError err SemanticUnprocessable"

definition NotAcceptable :: "string \<Rightarrow> field list \<Rightarrow> gerr" where
  "NotAcceptable text flds = newError SemanticNotAcceptable text flds"

definition WrapWithNotAcceptable :: "gerr \<Rightarrow> string \<Rightarrow> field list \<Rightarrow> gerr" where
  "WrapWithNotAcceptable err text flds = wrapError SemanticNotAcceptable err text flds"

definition IsNotAcceptable :: "gerr option \<Rightarrow> bool" where
  "IsNotAcceptable err = IsSemanticError err SemanticNotAcceptable"

definition TooManyRequests :: "string \<Rightarrow> field list \<Rightarrow> gerr" where
  "TooManyRequests text flds = newError SemanticTooManyRequests text flds"

definition IsTooManyRequests :: "gerr option \<Rightarrow> bool" where
  "IsTooManyRequests err = IsSemanticError err SemanticTooManyRequests"

definition PartialSuccess :: "string \<Rightarrow> field list \<Rightarrow> gerr" where
  "PartialSuccess text flds = newError SemanticPartialSuccess text flds"

definition IsPartialSuccess :: "gerr option \<Rightarrow> bool" where
  "IsPartialSuccess err = IsSemanticError err SemanticPartialSuccess"

text \<open>The value a panic carries: nothing, an error, or another value given by its \<open>%v\<close> text.\<close>

datatype panic_value = PanicNil | PanicError gerr | PanicOther string

definition UnwrapPanic :: "panic_value \<Rightarrow> gerr" where
  "UnwrapPanic p =
     (case p of
        PanicNil \<Rightarrow> Internal ''panic'' []
      | PanicOther text \<Rightarrow> WrapWithInternal (ErrNew text) ''panic'' []
      | PanicError err \<Rightarrow> err)"

section \<open>The collector\<close>

record ErrCollector =
  ec_err :: "gerr option"

definition ErrCollector_Join :: "gerr option \<Rightarrow> ErrCollector \<Rightarrow> ErrCollector" where
  "ErrCollector_Join err e = e\<lparr>ec_err := errors_Join [ec_err e, err]\<rparr>"

definition ErrCollector_Resolve :: "ErrCollector \<Rightarrow> gerr option" where
  "ErrCollector_Resolve e = ec_err e"

text \<open>\<open>Recover\<close> is deferred; its argument is the value of the panic, if there is one.\<close>

definition ErrCollector_Recover :: "panic_value option \<Rightarrow> ErrCollector \<Rightarrow> ErrCollector" where
  "ErrCollector_Recover r e =
     (case r of
        None \<Rightarrow> e
      | Some p \<Rightarrow>
          ErrCollector_Join (Some (Sentinel ErrRecoveredPanic)) (ErrCollector_Join (Some (UnwrapPanic p)) e))"

section \<open>Stack frames\<close>

text \<open>A program counter is given by what the runtime knows of it: \<open>None\<close> when
  \<open>runtime.FuncForPC\<close> returns nil.\<close>

record func_info =
  fi_file :: string
  fi_line :: nat
  fi_name :: string

type_synonym Frame = "func_info option"

definition UNKNOWN :: string where "UNKNOWN = ''unknown''"

definition Frame_file :: "Frame \<Rightarrow> string" where
  "Frame_file f = (case f of None \<Rightarrow> UNKNOWN | Some i \<Rightarrow> fi_file i)"

definition Frame_line :: "Frame \<Rightarrow> nat" where
  "Frame_line f = (case f of None \<Rightarrow> 0 | Some i \<Rightarrow> fi_line i)"

definition Frame_name :: "Frame \<Rightarrow> string" where
  "Frame_name f = (case f of None \<Rightarrow> UNKNOWN | Some i \<Rightarrow> fi_name i)"

text \<open>\<open>name[strings.LastIndex(name, c)+1:]\<close> and \<open>name[strings.Index(name, c)+1:]\<close>: all of the
  string when \<open>c\<close> does not occur.\<close>

definition after_last :: "char \<Rightarrow> string \<Rightarrow> string" where
  "after_last c s = rev (takeWhile (\<lambda>x. x \<noteq> c) (rev s))"

definition after_first :: "char \<Rightarrow> string \<Rightarrow> string" where
  "after_first c s = (case index_byte s c of None \<Rightarrow> s | Some i \<Rightarrow> drop (Suc i) s)"

definition funcname :: "string \<Rightarrow> string" where
  "funcname name = after_first (CHR ''.'') (after_last (CHR ''/'') name)"

text \<open>\<open>path.Base\<close> of the standard library.\<close>

definition path_Base :: "string \<Rightarrow> string" where
  "path_Base p =
     (if p = [] then ''.''
      else let q = rev (dropWhile (\<lambda>x. x = CHR ''/'') (rev p));
               b = after_last (CHR ''/'') q
           in if b = [] then ''/'' else b)"

definition Frame_Format :: "bool \<Rightarrow> char \<Rightarrow> Frame \<Rightarrow> string" where
  "Frame_Format plus_flag verb f =
     (let s = (if plus_flag then Frame_name f @ [CHR 0x0A, CHR 0x09] @ Frame_file f else path_Base (Frame_file f));
          d = show_nat (Frame_line f)
      in if verb = CHR ''s'' then s
         else if verb = CHR ''d'' then d
         else if verb = CHR ''n'' then funcname (Frame_name f)
         else if verb = CHR ''v'' then s @ '':'' @ d
         else [])"

definition Frame_MarshalText :: "Frame \<Rightarrow> string" where
  "Frame_MarshalText f =
     (let name = Frame_name f
      in if name = UNKNOWN then name
         else name @ '' '' @ Frame_file f @ '':'' @ show_nat (Frame_line f))"

definition formatSlice :: "bool \<Rightarrow> char \<Rightarrow> Frame list \<Rightarrow> string" where
  "formatSlice plus_flag verb st = ''['' @ join '' '' (map (Frame_Format plus_flag verb) st) @ '']''"

text \<open>The form \<open>%#v\<close> of the slice is printed by package fmt: parameter \<open>go_syntax\<close>.\<close>

definition StackTrace_Format ::
    "(Frame list \<Rightarrow> string) \<Rightarrow> bool \<Rightarrow> bool \<Rightarrow> char \<Rightarrow> Frame list \<Rightarrow> string" where
  "StackTrace_Format go_syntax plus_flag sharp_flag verb st =
     (if verb = CHR ''v'' then
        if plus_flag then concat (map (\<lambda>f. CHR 0x0A # Frame_Format plus_flag verb f) st)
        else if sharp_flag then go_syntax st
        else formatSlice plus_flag verb st
      else if verb = CHR ''s'' then formatSlice plus_flag verb st
      else [])"

definition stack_Format :: "bool \<Rightarrow> char \<Rightarrow> Frame list \<Rightarrow> string" where
  "stack_Format plus_flag verb s =
     (if verb = CHR ''v'' \<and> plus_flag then concat (map (\<lambda>f. CHR 0x0A # Frame_Format True (CHR ''v'') f) s) else [])"

text \<open>\<open>Error.StackTrace\<close> drops the newest frame; a nil stack gives an empty trace, an empty one
  panics.\<close>

definition Error_StackTrace :: "Frame list option \<Rightarrow> Frame list panics" where
  "Error_StackTrace st =
     (case st of
        None \<Rightarrow> Inr []
      | Some [] \<Rightarrow> Inl ''slice bounds out of range [1:0]''
      | Some (f # fs) \<Rightarrow> Inr fs)"

section \<open>Lemmas\<close>

lemma sem_target_simps [simp]:
  "sem_target (SemErr s t fs e) = Some (SemErr s t fs e)"
  "sem_target (ErrNew t) = None" "sem_target (Sentinel sn) = None" "sem_target (FmtWrap t e) = None"
  "sem_target (Joined es) = None" "sem_target (XErr t oe) = None" "sem_target (StatusErr cd e d) = None"
  "sem_target (RawErr e) = None" "sem_target (WithFieldsErr e fs) = None" "sem_target (CodeErr c e) = None"
  "sem_target (DNSErr r t b) = None" "sem_target (PgErr c t) = None" "sem_target (OgenErr k t e) = None"
  "sem_target (OpErr t b e) = None" "sem_target (FmtWraps t es) = None"
  "sem_target (Foreign t ob oe) = None"
  by (simp_all add: sem_target_def)

lemma sem_target_SomeD: "sem_target e = Some x \<Longrightarrow> \<exists>s t fs c. x = SemErr s t fs c \<and> e = x"
  by (cases e) auto

interpretation sem: error_search sem_target
proof unfold_locales
  show "sem_target (wrap_one w e) = None" for w e by (cases w) simp_all
qed

definition joined_all :: "gerr option list \<Rightarrow> ErrCollector" where
  "joined_all errs = fold ErrCollector_Join errs \<lparr>ec_err = None\<rparr>"

lemma AsSemanticError_SomeD:
  assumes "AsSemanticError (Some e) = Some x"
  shows "\<exists>s t fs c. x = SemErr s t fs c" and "x \<in> set (chain e)"
proof -
  obtain y where "y \<in> set (chain e)" "sem_target y = Some x"
    using assms first_some_SomeD [of "map sem_target (chain e)" x]
    by (auto simp: AsSemanticError_def errors_As_chain)
  with sem_target_SomeD [of y x] show "\<exists>s t fs c. x = SemErr s t fs c" and "x \<in> set (chain e)" by auto
qed

lemma errors_As_SemErr [simp]: "errors_As sem_target (SemErr s t fs e) = Some (SemErr s t fs e)"
  by (simp add: errors_As_chain)

lemma FieldToString_known: "\<forall>b. f_value f \<noteq> UnknownType b \<Longrightarrow> \<exists>s. FieldToString f = Inr s"
  by (cases "f_value f") (auto simp: FieldToString_def)

lemma all_strings_known:
  "\<forall>f \<in> set fs. \<forall>b. f_value f \<noteq> UnknownType b \<Longrightarrow> \<exists>ss. all_strings FieldToString fs = Inr ss"
proof (induction fs)
  case (Cons f fs)
  with FieldToString_known [of f] show ?case by auto
qed simp

lemma MessageWithFields_known:
  assumes "\<forall>fs. set (ord fs) = set fs" "\<forall>x \<in> set (chain e). \<forall>f \<in> set (own_fields x). \<forall>b. f_value f \<noteq> UnknownType b"
  shows "\<exists>m. MessageWithFields ord e = Inr m"
proof -
  have "set (UnwrapFields ord e) \<subseteq> (\<Union>x \<in> set (chain e). set (own_fields x))"
    using unwrap_loop_fields [of "[e]" "[]"] assms(1) by (simp add: UnwrapFields_def tree_fields_def)
  with assms(2) have "\<exists>ss. all_strings FieldToString (UnwrapFields ord e) = Inr ss"
    by (intro all_strings_known) blast
  then show ?thesis by (auto simp: MessageWithFields_def Let_def)
qed

section \<open>Properties\<close>

text \<open>The outermost meaning decides. Wrapping an error gives it exactly the meaning of the
  wrapper, whatever the error meant before and whatever context is added around the result; the
  error below stays in the chain, so that \<open>errors.Is\<close> still finds every sentinel in it.\<close>

theorem wrapError_meaning:
  "(IsSemanticError (Some (wrap_all ws (wrapError s err text fs))) s' \<longleftrightarrow> s' = s) \<and>
   (errors_Is t (wrap_all ws (wrapError s err text fs)) \<longleftrightarrow> errors_Is t err)"
proof
  show "IsSemanticError (Some (wrap_all ws (wrapError s err text fs))) s' \<longleftrightarrow> s' = s"
    by (auto simp: IsSemanticError_def AsSemanticError_def sem.classify_wrap_all wrapError_def sem_semantic_def)
  have "Sentinel t \<in> set (chain (wrap_all ws e)) \<longleftrightarrow> Sentinel t \<in> set (chain e)" for e
  proof (induction ws)
    case (Cons w ws)
    then show ?case by (cases w) (simp_all add: wrap_all_def)
  qed (simp add: wrap_all_def)
  then show "errors_Is t (wrap_all ws (wrapError s err text fs)) \<longleftrightarrow> errors_Is t err"
    by (simp add: errors_Is_chain wrapError_def errFmt_def)
qed

text \<open>The collector loses nothing. After any sequence of \<open>Join\<close> calls, \<open>Resolve\<close> returns nil
  exactly when every joined error was nil, and \<open>errors.Is\<close> finds in it exactly the sentinels
  found in one of the joined errors.\<close>

theorem ErrCollector_keeps_all:
  "(ErrCollector_Resolve (joined_all errs) = None \<longleftrightarrow> set errs \<subseteq> {None}) \<and>
   ((\<exists>e. ErrCollector_Resolve (joined_all errs) = Some e \<and> errors_Is t e) \<longleftrightarrow>
    (\<exists>e. Some e \<in> set errs \<and> errors_Is t e))"
proof -
  define found where "found oe \<longleftrightarrow> (\<exists>e. oe = Some e \<and> errors_Is t e)" for oe
  have "(ec_err (fold ErrCollector_Join errs c) = None \<longleftrightarrow> ec_err c = None \<and> set errs \<subseteq> {None}) \<and>
     (found (ec_err (fold ErrCollector_Join errs c)) \<longleftrightarrow> found (ec_err c) \<or> (\<exists>e. Some e \<in> set errs \<and> errors_Is t e))" for c
  proof (induction errs arbitrary: c)
    case (Cons oe errs)
    have "ec_err (ErrCollector_Join oe c) = None \<longleftrightarrow> ec_err c = None \<and> oe = None"
      by (cases oe; cases "ec_err c") (auto simp: ErrCollector_Join_def errors_Join_def)
    moreover have "found (ec_err (ErrCollector_Join oe c)) \<longleftrightarrow> found (ec_err c) \<or> found oe"
      by (cases oe; cases "ec_err c")
        (auto simp: found_def ErrCollector_Join_def errors_Join_def errors_Is_chain)
    ultimately show ?case using Cons [of "ErrCollector_Join oe c"] by (auto simp: found_def)
  qed (simp add: found_def)
  from this [of "\<lparr>ec_err = None\<rparr>"] show ?thesis
    by (auto simp: joined_all_def ErrCollector_Resolve_def found_def)
qed

end
