(* ===== verification/Status.thy ===== *)
theory Status
  imports Semerr
begin

text \<open>
  Package \<open>internal/status\<close> with its subpackages \<open>codes\<close>, \<open>details\<close>, \<open>reason\<close> and
  \<open>networkerrs\<close>: status codes, the conversion of errors to a status, user-facing messages.

  A \<open>*Status\<close> is a record; the methods that set details return the changed record. A
  \<open>*status.Error\<close> is the constructor \<open>StatusErr\<close> with the code, error and details of its
  status. \<open>errors.As\<close> with an interface type as target selects the types that have its methods.
\<close>

section \<open>Codes\<close>

definition codes_Unknown :: code where "codes_Unknown = 0"
definition codes_Canceled :: code where "codes_Canceled = 1"
definition codes_InvalidArgument :: code where "codes_InvalidArgument = 2"
definition codes_DeadlineExceeded :: code where "codes_DeadlineExceeded = 3"
definition codes_NotFound :: code where "codes_NotFound = 4"
definition codes_AlreadyExists :: code where "codes_AlreadyExists = 5"
definition codes_PermissionDenied :: code where "codes_PermissionDenied = 6"
definition codes_TooManyRequests :: code where "codes_TooManyRequests = 7"
definition codes_FailedPrecondition :: code where "codes_FailedPrecondition = 8"
definition codes_Aborted :: code where "codes_Aborted = 9"
definition codes_Unimplemented :: code where "codes_Unimplemented = 10"
definition codes_Internal :: code where "codes_Internal = 11"
definition codes_Unavailable :: code where "codes_Unavailable = 12"
definition codes_Unauthenticated :: code where "codes_Unauthenticated = 13"
definition codes_Unprocessable :: code where "codes_Unprocessable = 14"
definition codes_NotAcceptable :: code where "codes_NotAcceptable = 15"
definition codes_Locked :: code where "codes_Locked = 16"

text \<open>The constants of package net/http.\<close>

abbreviation (input) http_StatusOK :: int where "http_StatusOK \<equiv> 200"
abbreviation (input) http_StatusMultiStatus :: int where "http_StatusMultiStatus \<equiv> 207"
abbreviation (input) http_StatusBadRequest :: int where "http_StatusBadRequest \<equiv> 400"
abbreviation (input) http_StatusUnauthorized :: int where "http_StatusUnauthorized \<equiv> 401"
abbreviation (input) http_StatusForbidden :: int where "http_StatusForbidden \<equiv> 403"
abbreviation (input) http_StatusNotFound :: int where "http_StatusNotFound \<equiv> 404"
abbreviation (input) http_StatusNotAcceptable :: int where "http_StatusNotAcceptable \<equiv> 406"
abbreviation (input) http_StatusRequestTimeout :: int where "http_StatusRequestTimeout \<equiv> 408"
abbreviation (input) http_StatusConflict :: int where "http_StatusConflict \<equiv> 409"
abbreviation (input) http_StatusPreconditionFailed :: int where "http_StatusPreconditionFailed \<equiv> 412"
abbreviation (input) http_StatusUnprocessableEntity :: int where "http_StatusUnprocessableEntity \<equiv> 422"
abbreviation (input) http_StatusLocked :: int where "http_StatusLocked \<equiv> 423"
abbreviation (input) http_StatusTooManyRequests :: int where "http_StatusTooManyRequests \<equiv> 429"
abbreviation (input) http_StatusInternalServerError :: int where "http_StatusInternalServerError \<equiv> 500"
abbreviation (input) http_StatusNotImplemented :: int where "http_StatusNotImplemented \<equiv> 501"
abbreviation (input) http_StatusServiceUnavailable :: int where "http_StatusServiceUnavailable \<equiv> 503"

definition codes_String :: "code \<Rightarrow> string" where
  "codes_String c =
     (if c = codes_Unknown then ''UNKNOWN''
      else if c = codes_Canceled then ''CANCELED''
      else if c = codes_InvalidArgument then ''INVALID_ARGUMENT''
      else if c = codes_DeadlineExceeded then ''DEADLINE_EXCEEDED''
      else if c = codes_NotFound then ''NOT_FOUND''
      else if c = codes_AlreadyExists then ''ALREADY_EXISTS''
      else if c = codes_PermissionDenied then ''PERMISSION_DENIED''
      else if c = codes_TooManyRequests then ''TOO_MANY_REQUESTS''
      else if c = codes_FailedPrecondition then ''FAILED_PRECONDITION''
      else if c = codes_Aborted then ''ABORTED''
      else if c = codes_Unimplemented then ''UNIMPLEMENTED''
      else if c = codes_Internal then ''INTERNAL''
      else if c = codes_Unavailable then ''UNAVAILABLE''
      else if c = codes_Unauthenticated then ''UNAUTHENTICATED''
      else if c = codes_Unprocessable then ''UNPROCESSABLE''
      else if c = codes_NotAcceptable then ''NOT_ACCEPTABLE''
      else if c = codes_Locked then ''LOCKED''
      else ''CODE('' @ show_nat (unat c) @ '')'')"

definition codes_HTTP :: "code \<Rightarrow> int" where
  "codes_HTTP c =
     (if c = codes_Unknown then http_StatusInternalServerError
      else if c = codes_Canceled then 499
      else if c = codes_InvalidArgument then http_StatusBadRequest
      else if c = codes_DeadlineExceeded then http_StatusRequestTimeout
      else if c = codes_NotFound then http_StatusNotFound
      else if c = codes_AlreadyExists then http_StatusConflict
      else if c = codes_PermissionDenied then http_StatusNotFound
      else if c = codes_TooManyRequests then http_StatusTooManyRequests
      else if c = codes_FailedPrecondition then http_StatusPreconditionFailed
      else if c = codes_Aborted then http_StatusConflict
      else if c = codes_Unimplemented then http_StatusNotImplemented
      else if c = codes_Internal then http_StatusInternalServerError
      else if c = codes_Unavailable then http_StatusServiceUnavailable
      else if c = codes_Unauthenticated then http_StatusUnauthorized
      else if c = codes_Unprocessable then http_StatusUnprocessableEntity
      else if c = codes_NotAcceptable then http_StatusNotAcceptable
      else if c = codes_Locked then http_StatusLocked
      else http_StatusInternalServerError)"

subsection \<open>The text of an error\<close>

text \<open>\<open>Error()\<close> of each type. The message \<open>xerrors.Errorf\<close> makes of a format without further
  arguments is the parameter \<open>fm\<close>; it is the format itself when that has no percent sign.\<close>

definition sentinel_text :: "sentinel \<Rightarrow> string" where
  "sentinel_text s =
     (case s of ContextCanceled \<Rightarrow> ''context canceled''
      | ContextDeadlineExceeded \<Rightarrow> ''context deadline exceeded''
      | Errno name \<Rightarrow> name
      | IoErrUnexpectedEOF \<Rightarrow> ''unexpected EOF''
      | ErrRecoveredPanic \<Rightarrow> ''recovered panic''
      | NamedError text \<Rightarrow> text)"

primrec error_text :: "(string \<Rightarrow> string) \<Rightarrow> gerr \<Rightarrow> string" where
  "error_text fm (ErrNew t) = t"
| "error_text fm (Sentinel s) = sentinel_text s"
| "error_text fm (FmtWrap t e) = t @ '': '' @ error_text fm e"
| "error_text fm (Joined es) = join [CHR 0x0A] (map (error_text fm) es)"
| "error_text fm (XErr t oe) = (case map_option (error_text fm) oe of None \<Rightarrow> fm t | Some u \<Rightarrow> fm t @ '': '' @ u)"
| "error_text fm (SemErr s t fs e) = error_text fm e"
| "error_text fm (StatusErr c e d) = codes_String c @ '': '' @ error_text fm e"
| "error_text fm (RawErr e) = error_text fm e"
| "error_text fm (WithFieldsErr e fs) = error_text fm e"
| "error_text fm (CodeErr c e) = c"
| "error_text fm (DNSErr r t b) = t"
| "error_text fm (PgErr c t) = t"
| "error_text fm (OgenErr k t e) = t"
| "error_text fm (OpErr t b e) = t @ '': '' @ error_text fm e"
| "error_text fm (FmtWraps t es) = join '': '' (t # map (error_text fm) es)"
| "error_text fm (Foreign t b oe) = t"

section \<open>Status\<close>

record Status =
  st_code :: code
  st_err :: gerr
  st_details :: ErrorDetails

definition no_details :: ErrorDetails where
  "no_details = \<lparr>d_ErrorInfo = None, d_RetryInfo = None, d_UserFacingMessage = None\<rparr>"

definition Status_New :: "code \<Rightarrow> string \<Rightarrow> Status" where
  "Status_New code message = \<lparr>st_code = code, st_err = RawErr (ErrNew message), st_details = no_details\<rparr>"

definition Status_Code :: "Status \<Rightarrow> code" where
  "Status_Code s = st_code s"

function status_message ::
    "(string \<Rightarrow> string) \<Rightarrow> (field list \<Rightarrow> field list) \<Rightarrow> gerr \<Rightarrow> string option panics" where
  "status_message fm ord e =
     (case e of
        SemErr _ _ _ _ \<Rightarrow> bind_sum (MessageWithFields ord e) (\<lambda>m. Inr (Some m))
      | RawErr err \<Rightarrow> Inr (Some (error_text fm err))
      | _ \<Rightarrow> (case unwrap1 e of None \<Rightarrow> Inr None | Some c \<Rightarrow> status_message fm ord c))"
  by pat_completeness auto
termination by (relation "measure (\<lambda>(fm, ord, e). size e)") (auto dest: size_unwrap1)

declare status_message.simps [simp del]

definition Status_Message :: "(string \<Rightarrow> string) \<Rightarrow> (field list \<Rightarrow> field list) \<Rightarrow> Status \<Rightarrow> string panics" where
  "Status_Message fm ord s =
     bind_sum (status_message fm ord (st_err s)) (\<lambda>m.
       Inr (case m of Some m \<Rightarrow> m | None \<Rightarrow> ''unknown error''))"

definition Status_Details :: "Status \<Rightarrow> ErrorDetails" where
  "Status_Details s = st_details s"

definition WithDetails :: "ErrorDetails \<Rightarrow> Status \<Rightarrow> Status" where
  "WithDetails d s = s\<lparr>st_details := d\<rparr>"

definition WithErrorInfo :: "ErrorInfo \<Rightarrow> Status \<Rightarrow> Status" where
  "WithErrorInfo ei s = s\<lparr>st_details := (st_details s)\<lparr>d_ErrorInfo := Some ei\<rparr>\<rparr>"

definition WithReason :: "string \<Rightarrow> Status \<Rightarrow> Status" where
  "WithReason r s =
     (let ei = (case d_ErrorInfo (st_details s) of
                  None \<Rightarrow> \<lparr>ei_Reason = [], ei_Metadata = []\<rparr> | Some ei \<Rightarrow> ei)
      in s\<lparr>st_details := (st_details s)\<lparr>d_ErrorInfo := Some (ei\<lparr>ei_Reason := r\<rparr>)\<rparr>\<rparr>)"

definition WithRetryDelay :: "go_duration \<Rightarrow> Status \<Rightarrow> Status" where
  "WithRetryDelay delay s = s\<lparr>st_details := (st_details s)\<lparr>d_RetryInfo := Some delay\<rparr>\<rparr>"

definition WithUserFacingMessage :: "string \<Rightarrow> Status \<Rightarrow> Status" where
  "WithUserFacingMessage ufm s = s\<lparr>st_details := (st_details s)\<lparr>d_UserFacingMessage := Some ufm\<rparr>\<rparr>"

definition Status_Error :: "Status \<Rightarrow> gerr" where
  "Status_Error s = StatusErr (st_code s) (st_err s) (st_details s)"

subsection \<open>Constructors and tests per code\<close>

definition NewUnknown :: "string \<Rightarrow> Status" where
  "NewUnknown message = Status_New codes_Unknown message"

definition NewCanceled :: "string \<Rightarrow> Status" where
  "NewCanceled message = Status_New codes_Canceled message"

definition NewInvalidArgument :: "string \<Rightarrow> Status" where
  "NewInvalidArgument message = Status_New codes_InvalidArgument message"

definition NewDeadlineExceeded :: "string \<Rightarrow> Status" where
  "NewDeadlineExceeded message = Status_New codes_DeadlineExceeded message"

definition NewNotFound :: "string \<Rightarrow> Status" where
  "NewNotFound message = Status_New codes_NotFound message"

definition NewAlreadyExists :: "string \<Rightarrow> Status" where
  "NewAlreadyExists message = Status_New codes_AlreadyExists message"

definition NewPermissionDenied :: "string \<Rightarrow> Status" where
  "NewPermissionDenied message = Status_New codes_PermissionDenied message"

definition NewTooManyRequests :: "string \<Rightarrow> Status" where
  "NewTooManyRequests message = Status_New codes_TooManyRequests message"

definition NewFailedPrecondition :: "string \<Rightarrow> Status" where
  "NewFailedPrecondition message = Status_New codes_FailedPrecondition message"

definition NewAborted :: "string \<Rightarrow> Status" where
  "NewAborted message = Status_New codes_Aborted message"

definition NewUnimplemented :: "string \<Rightarrow> Status" where
  "NewUnimplemented message = Status_New codes_Unimplemented message"

definition NewInternal :: "string \<Rightarrow> Status" where
  "NewInternal message = Status_New codes_Internal message"

definition NewUnavailable :: "string \<Rightarrow> Status" where
  "NewUnavailable message = Status_New codes_Unavailable message"

definition NewUnauthenticated :: "string \<Rightarrow> Status" where
  "NewUnauthenticated message = Status_New codes_Unauthenticated message"

definition NewUnprocessable :: "string \<Rightarrow> Status" where
  "NewUnprocessable message = Status_New codes_Unprocessable message"

definition NewNotAcceptable :: "string \<Rightarrow> Status" where
  "NewNotAcceptable message = Status_New codes_NotAcceptable message"

definition NewLocked :: "string \<Rightarrow> Status" where
  "NewLocked message = Status_New codes_Locked message"

definition Status_IsUnknown :: "Status \<Rightarrow> bool" where
  "Status_IsUnknown s \<longleftrightarrow> st_code s = codes_Unknown"

definition Status_IsCanceled :: "Status \<Rightarrow> bool" where
  "Status_IsCanceled s \<longleftrightarrow> st_code s = codes_Canceled"

definition Status_IsInvalidArgument :: "Status \<Rightarrow> bool" where
  "Status_IsInvalidArgument s \<longleftrightarrow> st_code s = codes_InvalidArgument"

definition Status_IsDeadlineExceeded :: "Status \<Rightarrow> bool" where
  "Status_IsDeadlineExceeded s \<longleftrightarrow> st_code s = codes_DeadlineExceeded"

definition Status_IsNotFound :: "Status \<Rightarrow> bool" where
  "Status_IsNotFound s \<longleftrightarrow> st_code s = codes_NotFound"

definition Status_IsAlreadyExists :: "Status \<Rightarrow> bool" where
  "Status_IsAlreadyExists s \<longleftrightarrow> st_code s = codes_AlreadyExists"

definition Status_IsPermissionDenied :: "Status \<Rightarrow> bool" where
  "Status_IsPermissionDenied s \<longleftrightarrow> st_code s = codes_PermissionDenied"

definition Status_IsTooManyRequests :: "Status \<Rightarrow> bool" where
  "Status_IsTooManyRequests s \<longleftrightarrow> st_code s = codes_TooManyRequests"

definition Status_IsFailedPrecondition :: "Status \<Rightarrow> bool" where
  "Status_IsFailedPrecondition s \<longleftrightarrow> st_code s = codes_FailedPrecondition"

definition Status_IsAborted :: "Status \<Rightarrow> bool" where
  "Status_IsAborted s \<longleftrightarrow> st_code s = codes_Aborted"

definition Status_IsUnimplemented :: "Status \<Rightarrow> bool" where
  "Status_IsUnimplemented s \<longleftrightarrow> st_code s = codes_Unimplemented"

definition Status_IsInternal :: "Status \<Rightarrow> bool" where
  "Status_IsInternal s \<longleftrightarrow> st_code s = codes_Internal"

definition Status_IsUnavailable :: "Status \<Rightarrow> bool" where
  "Status_IsUnavailable s \<longleftrightarrow> st_code s = codes_Unavailable"

definition Status_IsUnauthenticated :: "Status \<Rightarrow> bool" where
  "Status_IsUnauthenticated s \<longleftrightarrow> st_code s = codes_Unauthenticated"

definition Status_IsUnprocessable :: "Status \<Rightarrow> bool" where
  "Status_IsUnprocessable s \<longleftrightarrow> st_code s = codes_Unprocessable"

definition Status_IsNotAcceptable :: "Status \<Rightarrow> bool" where
  "Status_IsNotAcceptable s \<longleftrightarrow> st_code s = codes_NotAcceptable"

definition Status_IsLocked :: "Status \<Rightarrow> bool" where
  "Status_IsLocked s \<longleftrightarrow> st_code s = codes_Locked"

subsection \<open>Reasons and user-facing messages\<close>

definition reason_RoleProtected :: string where "reason_RoleProtected = ''ROLE_PROTECTED''"
definition reason_ResourceNotFound :: string where "reason_ResourceNotFound = ''RESOURCE_NOT_FOUND''"
definition reason_ProjectNotFound :: string where "reason_ProjectNotFound = ''PROJECT_NOT_FOUND''"
definition reason_EndpointNotFound :: string where "reason_EndpointNotFound = ''ENDPOINT_NOT_FOUND''"
definition reason_BranchNotFound :: string where "reason_BranchNotFound = ''BRANCH_NOT_FOUND''"
definition reason_RateLimitExceeded :: string where "reason_RateLimitExceeded = ''RATE_LIMIT_EXCEEDED''"
definition reason_NonDefaultBranchComputeTimeExceeded :: string where "reason_NonDefaultBranchComputeTimeExceeded = ''NON_PRIMARY_BRANCH_COMPUTE_TIME_EXCEEDED''"
definition reason_ActiveTimeQuotaExceeded :: string where "reason_ActiveTimeQuotaExceeded = ''ACTIVE_TIME_QUOTA_EXCEEDED''"
definition reason_ComputeTimeQuotaExceeded :: string where "reason_ComputeTimeQuotaExceeded = ''COMPUTE_TIME_QUOTA_EXCEEDED''"
definition reason_WrittenDataQuotaExceeded :: string where "reason_WrittenDataQuotaExceeded = ''WRITTEN_DATA_QUOTA_EXCEEDED''"
definition reason_DataTransferQuotaExceeded :: string where "reason_DataTransferQuotaExceeded = ''DATA_TRANSFER_QUOTA_EXCEEDED''"
definition reason_LogicalSizeQuotaExceeded :: string where "reason_LogicalSizeQuotaExceeded = ''LOGICAL_SIZE_QUOTA_EXCEEDED''"
definition reason_RunningOperations :: string where "reason_RunningOperations = ''RUNNING_OPERATIONS''"
definition reason_ConcurrencyLimitReached :: string where "reason_ConcurrencyLimitReached = ''CONCURRENCY_LIMIT_REACHED''"
definition reason_LockAlreadyTaken :: string where "reason_LockAlreadyTaken = ''LOCK_ALREADY_TAKEN''"
definition reason_ActiveEndpointsLimitExceeded :: string where "reason_ActiveEndpointsLimitExceeded = ''ACTIVE_ENDPOINTS_LIMIT_EXCEEDED''"

definition user_facing_message :: "string \<Rightarrow> string option" where
  "user_facing_message r =
     (if r = reason_RoleProtected
        then Some ''The role you're attempting to use is protected and cannot be used for password-based authentication. Please pick a different role and try again.''
      else if r = reason_ResourceNotFound
        then Some ''The requested resource could not be found, or you don't have access to it. Please check the provided ID and try again.''
      else if r = reason_ProjectNotFound
        then Some ''The requested project could not be found, or you don't have access to it. Please check the provided ID and try again.''
      else if r = reason_EndpointNotFound
        then Some ''The requested endpoint could not be found, or you don't have access to it. Please check the provided ID and try again.''
      else if r = reason_BranchNotFound
        then Some ''The requested branch could not be found, or you don't have access to it. Please check the provided ID and try again.''
      else if r = reason_RateLimitExceeded
        then Some ''You've exceeded the rate limit. Please wait a moment and try again.''
      else if r = reason_NonDefaultBranchComputeTimeExceeded
        then Some ''You've exceeded the compute time for this branch. Upgrade your plan to increase limits or connect to another branch.''
      else if r = reason_ActiveTimeQuotaExceeded
        then Some ''Your project has exceeded the active time quota. Upgrade your plan to increase limits.''
      else if r = reason_ComputeTimeQuotaExceeded
        then Some ''Your account or project has exceeded the compute time quota. Upgrade your plan to increase limits.''
      else if r = reason_WrittenDataQuotaExceeded
        then Some ''Your project has exceeded the written data quota. Upgrade your plan to increase limits.''
      else if r = reason_DataTransferQuotaExceeded
        then Some ''Your project has exceeded the data transfer quota. Upgrade your plan to increase limits.''
      else if r = reason_LogicalSizeQuotaExceeded
        then Some ''Your project has exceeded the logical size quota. Upgrade your plan to increase limits.''
      else if r = reason_RunningOperations
        then Some ''Your project already has running operations. Please wait until they complete, and then try again.''
      else if r = reason_ActiveEndpointsLimitExceeded
        then Some ''You have exceeded the limit of concurrently active endpoints. Please suspend some endpoints and try again.''
      else None)"

definition EnrichWithUserFacingMessage :: "Status \<Rightarrow> Status" where
  "EnrichWithUserFacingMessage s =
     (let dt = Status_Details s
      in if d_UserFacingMessage dt \<noteq> None then s
         else case d_ErrorInfo dt of
                None \<Rightarrow> s
              | Some ei \<Rightarrow>
                  (case user_facing_message (ei_Reason ei) of
                     Some m \<Rightarrow> WithUserFacingMessage m s
                   | None \<Rightarrow> s))"

section \<open>Network errors\<close>

definition isConnectionResetByPeer :: "gerr \<Rightarrow> bool" where
  "isConnectionResetByPeer err = errors_Is (Errno ''ECONNRESET'') err"

definition isConnectionRefused :: "gerr \<Rightarrow> bool" where
  "isConnectionRefused err = errors_Is (Errno ''ECONNREFUSED'') err"

text \<open>The types with a method \<open>Timeout() bool\<close>, and what it returns.\<close>

definition timeout_target :: "gerr \<Rightarrow> bool option" where
  "timeout_target e =
     (case e of
        Sentinel ContextDeadlineExceeded \<Rightarrow> Some True
      | Sentinel (Errno n) \<Rightarrow> Some (n = ''EAGAIN'' \<or> n = ''EWOULDBLOCK'' \<or> n = ''ETIMEDOUT'')
      | DNSErr _ _ b \<Rightarrow> Some b
      | OpErr _ b _ \<Rightarrow> Some b
      | Foreign _ b _ \<Rightarrow> b
      | _ \<Rightarrow> None)"

definition IsNetworkErrTranslatesToUnavailable :: "gerr \<Rightarrow> bool" where
  "IsNetworkErrTranslatesToUnavailable err =
     (if isConnectionResetByPeer err then True
      else if isConnectionRefused err then True
      else case errors_As timeout_target err of Some b \<Rightarrow> b | None \<Rightarrow> False)"

section \<open>The status of an error\<close>

definition status_target :: "gerr \<Rightarrow> Status option" where
  "status_target e =
     (case e of StatusErr c err d \<Rightarrow> Some \<lparr>st_code = c, st_err = err, st_details = d\<rparr> | _ \<Rightarrow> None)"

definition pg_target :: "gerr \<Rightarrow> string option" where
  "pg_target e = (case e of PgErr code _ \<Rightarrow> Some code | _ \<Rightarrow> None)"

definition ogen_target :: "gerr \<Rightarrow> ogen_kind option" where
  "ogen_target e = (case e of OgenErr k _ _ \<Rightarrow> Some k | _ \<Rightarrow> None)"

definition dns_target :: "gerr \<Rightarrow> string option" where
  "dns_target e = (case e of DNSErr r _ _ \<Rightarrow> Some r | _ \<Rightarrow> None)"

definition codeFromContext :: "gerr \<Rightarrow> bool \<times> code" where
  "codeFromContext err =
     (if errors_Is ContextCanceled err then (True, codes_Canceled)
      else if errors_Is ContextDeadlineExceeded err then (True, codes_DeadlineExceeded)
      else (False, codes_Unknown))"

definition codeFromDNSErr :: "gerr \<Rightarrow> bool \<times> code" where
  "codeFromDNSErr err =
     (case errors_As dns_target err of
        None \<Rightarrow> (False, codes_Unknown)
      | Some r \<Rightarrow>
          if \<not> str_contains r ''operation was canceled'' then (False, codes_Unknown)
          else (True, codes_Canceled))"

definition codeFromSemerr :: "gerr \<Rightarrow> bool \<times> code" where
  "codeFromSemerr err =
     (case errors_As sem_target err of
        None \<Rightarrow> (False, codes_Unknown)
      | Some serr \<Rightarrow>
          (case sem_semantic serr of
             SemanticAlreadyExists \<Rightarrow> (True, codes_AlreadyExists)
           | SemanticAuthentication \<Rightarrow> (True, codes_Unauthenticated)
           | SemanticCanceled \<Rightarrow> (True, codes_Canceled)
           | SemanticFailedPrecondition \<Rightarrow> (True, codes_FailedPrecondition)
           | SemanticForbidden \<Rightarrow> (True, codes_PermissionDenied)
           | SemanticInternal \<Rightarrow> (True, codes_Internal)
           | SemanticInvalidInput \<Rightarrow> (True, codes_InvalidArgument)
           | SemanticNotFound \<Rightarrow> (True, codes_NotFound)
           | SemanticNotImplemented \<Rightarrow> (True, codes_Unimplemented)
           | SemanticResourceLocked \<Rightarrow> (True, codes_Locked)
           | SemanticTooManyRequests \<Rightarrow> (True, codes_TooManyRequests)
           | SemanticTimeout \<Rightarrow> (True, codes_DeadlineExceeded)
           | SemanticUnavailable \<Rightarrow> (True, codes_Unavailable)
           | SemanticUnprocessable \<Rightarrow> (True, codes_Unprocessable)
           | SemanticNotAcceptable \<Rightarrow> (True, codes_NotAcceptable)
           | _ \<Rightarrow> (False, codes_Unknown)))"

definition codeFromOgenerr :: "gerr \<Rightarrow> bool \<times> code" where
  "codeFromOgenerr err =
     (case errors_As ogen_target err of
        None \<Rightarrow> (False, codes_Unknown)
      | Some SecurityError \<Rightarrow> (True, codes_Unauthenticated)
      | Some DecodeParamsError \<Rightarrow> (True, codes_InvalidArgument)
      | Some DecodeRequestError \<Rightarrow> (True, codes_InvalidArgument)
      | Some OtherOgenError \<Rightarrow> (False, codes_Unknown))"

text \<open>The values of the constants of package pgerrcode.\<close>

abbreviation pgerrcode_ConnectionException :: string where "pgerrcode_ConnectionException \<equiv> ''08000''"
abbreviation pgerrcode_ConnectionFailure :: string where "pgerrcode_ConnectionFailure \<equiv> ''08006''"
abbreviation pgerrcode_TooManyConnections :: string where "pgerrcode_TooManyConnections \<equiv> ''53300''"
abbreviation pgerrcode_CannotConnectNow :: string where "pgerrcode_CannotConnectNow \<equiv> ''57P03''"

definition codeFromPGDriver :: "gerr \<Rightarrow> bool \<times> code" where
  "codeFromPGDriver err =
     (case errors_As pg_target err of
        None \<Rightarrow> (False, codes_Unknown)
      | Some c \<Rightarrow>
          if c = pgerrcode_ConnectionFailure \<or> c = pgerrcode_ConnectionException then (True, codes_Unavailable)
          else if c = pgerrcode_TooManyConnections then (True, codes_Unavailable)
          else if c = pgerrcode_CannotConnectNow then (True, codes_Unavailable)
          else (True, codes_Unknown))"

definition codeFromNetworkErr :: "gerr \<Rightarrow> bool \<times> code" where
  "codeFromNetworkErr err =
     (if IsNetworkErrTranslatesToUnavailable err then (True, codes_Unavailable) else (False, codes_Unknown))"

fun first_code :: "(gerr \<Rightarrow> bool \<times> code) list \<Rightarrow> gerr \<Rightarrow> code" where
  "first_code [] err = codes_Unknown"
| "first_code (f # fs) err = (case f err of (ok, code) \<Rightarrow> if ok then code else first_code fs err)"

definition FromError :: "gerr \<Rightarrow> Status" where
  "FromError err =
     (case errors_As status_target err of
        Some s \<Rightarrow> s
      | None \<Rightarrow>
          \<lparr>st_code = first_code [codeFromContext, codeFromDNSErr, codeFromSemerr, codeFromOgenerr,
                       codeFromPGDriver, codeFromNetworkErr] err,
           st_err = err, st_details = no_details\<rparr>)"

section \<open>Lemmas\<close>

lemma status_target_simps [simp]:
  "status_target (ErrNew t) = None" "status_target (Sentinel sn) = None"
  "status_target (FmtWrap t e) = None" "status_target (Joined es) = None"
  "status_target (XErr t oe) = None" "status_target (SemErr s t fs e) = None"
  "status_target (StatusErr cd e d) = Some \<lparr>st_code = cd, st_err = e, st_details = d\<rparr>" "status_target (RawErr e) = None"
  "status_target (WithFieldsErr e fs) = None" "status_target (CodeErr c e) = None"
  "status_target (DNSErr r t b) = None" "status_target (PgErr c t) = None"
  "status_target (OgenErr k t e) = None" "status_target (OpErr t b e) = None" "status_target (FmtWraps t es) = None"
  "status_target (Foreign t ob oe) = None"
  by (simp_all add: status_target_def)

lemma pg_target_simps [simp]:
  "pg_target (ErrNew t) = None" "pg_target (Sentinel sn) = None"
  "pg_target (FmtWrap t e) = None" "pg_target (Joined es) = None"
  "pg_target (XErr t oe) = None" "pg_target (SemErr s t fs e) = None"
  "pg_target (StatusErr cd e d) = None" "pg_target (RawErr e) = None"
  "pg_target (WithFieldsErr e fs) = None" "pg_target (CodeErr c e) = None"
  "pg_target (DNSErr r t b) = None" "pg_target (PgErr c t) = Some c"
  "pg_target (OgenErr k t e) = None" "pg_target (OpErr t b e) = None" "pg_target (FmtWraps t es) = None"
  "pg_target (Foreign t ob oe) = None"
  by (simp_all add: pg_target_def)

lemma ogen_target_simps [simp]:
  "ogen_target (ErrNew t) = None" "ogen_target (Sentinel sn) = None"
  "ogen_target (FmtWrap t e) = None" "ogen_target (Joined es) = None"
  "ogen_target (XErr t oe) = None" "ogen_target (SemErr s t fs e) = None"
  "ogen_target (StatusErr cd e d) = None" "ogen_target (RawErr e) = None"
  "ogen_target (WithFieldsErr e fs) = None" "ogen_target (CodeErr c e) = None"
  "ogen_target (DNSErr r t b) = None" "ogen_target (PgErr c t) = None"
  "ogen_target (OgenErr k t e) = Some k" "ogen_target (OpErr t b e) = None" "ogen_target (FmtWraps t es) = None"
  "ogen_target (Foreign t ob oe) = None"
  by (simp_all add: ogen_target_def)

lemma dns_target_simps [simp]:
  "dns_target (ErrNew t) = None" "dns_target (Sentinel sn) = None"
  "dns_target (FmtWrap t e) = None" "dns_target (Joined es) = None"
  "dns_target (XErr t oe) = None" "dns_target (SemErr s t fs e) = None"
  "dns_target (StatusErr cd e d) = None" "dns_target (RawErr e) = None"
  "dns_target (WithFieldsErr e fs) = None" "dns_target (CodeErr c e) = None"
  "dns_target (DNSErr r t b) = Some r" "dns_target (PgErr c t) = None"
  "dns_target (OgenErr k t e) = None" "dns_target (OpErr t b e) = None" "dns_target (FmtWraps t es) = None"
  "dns_target (Foreign t ob oe) = None"
  by (simp_all add: dns_target_def)

lemma timeout_target_simps [simp]:
  "timeout_target (ErrNew t) = None" "timeout_target (FmtWrap t e) = None"
  "timeout_target (Joined es) = None" "timeout_target (XErr t oe) = None"
  "timeout_target (SemErr s t fs e) = None" "timeout_target (StatusErr cd e d) = None"
  "timeout_target (RawErr e) = None" "timeout_target (WithFieldsErr e fs) = None"
  "timeout_target (CodeErr c e) = None" "timeout_target (PgErr c t) = None"
  "timeout_target (OgenErr k t e) = None"
  "timeout_target (DNSErr r t b) = Some b" "timeout_target (OpErr t b e) = Some b" "timeout_target (FmtWraps t es) = None"
  "timeout_target (Foreign t ob oe) = ob"
  "timeout_target (Sentinel ContextDeadlineExceeded) = Some True" "timeout_target (Sentinel ContextCanceled) = None"
  by (simp_all add: timeout_target_def)

interpretation stt: error_search status_target
proof unfold_locales
  show "status_target (wrap_one w e) = None" for w e by (cases w) simp_all
qed

interpretation pgt: error_search pg_target
proof unfold_locales
  show "pg_target (wrap_one w e) = None" for w e by (cases w) simp_all
qed

interpretation ogt: error_search ogen_target
proof unfold_locales
  show "ogen_target (wrap_one w e) = None" for w e by (cases w) simp_all
qed

interpretation dnt: error_search dns_target
proof unfold_locales
  show "dns_target (wrap_one w e) = None" for w e by (cases w) simp_all
qed

interpretation tot: error_search timeout_target
proof unfold_locales
  show "timeout_target (wrap_one w e) = None" for w e by (cases w) simp_all
qed

interpretation isc: error_classifier "errors_Is t" for t
proof unfold_locales
  show "errors_Is t (wrap_one w e) = errors_Is t e" for w e by (cases w) (simp_all add: errors_Is_chain)
qed

lemmas classifiers_wrap = stt.classify_wrap_all pgt.classify_wrap_all ogt.classify_wrap_all
  dnt.classify_wrap_all tot.classify_wrap_all sem.classify_wrap_all isc.classify_wrap_all

text \<open>Each of the six conversions is a classification that context does not change.\<close>

lemma codeFrom_wrap_all:
  "codeFromContext (wrap_all ws e) = codeFromContext e"
  "codeFromDNSErr (wrap_all ws e) = codeFromDNSErr e"
  "codeFromSemerr (wrap_all ws e) = codeFromSemerr e"
  "codeFromOgenerr (wrap_all ws e) = codeFromOgenerr e"
  "codeFromPGDriver (wrap_all ws e) = codeFromPGDriver e"
  "codeFromNetworkErr (wrap_all ws e) = codeFromNetworkErr e"
  by (simp_all add: codeFromContext_def codeFromDNSErr_def codeFromSemerr_def codeFromOgenerr_def
      codeFromPGDriver_def codeFromNetworkErr_def IsNetworkErrTranslatesToUnavailable_def
      isConnectionResetByPeer_def isConnectionRefused_def classifiers_wrap)

lemma first_code_wrap:
  "first_code [codeFromContext, codeFromDNSErr, codeFromSemerr, codeFromOgenerr, codeFromPGDriver, codeFromNetworkErr]
     (wrap_all ws e) =
   first_code [codeFromContext, codeFromDNSErr, codeFromSemerr, codeFromOgenerr, codeFromPGDriver, codeFromNetworkErr] e"
  by (simp add: case_prod_unfold codeFrom_wrap_all)

lemma FromError_status: "errors_As status_target e = Some s \<Longrightarrow> FromError e = s"
  by (simp add: FromError_def)

lemma errors_As_status_chain:
  assumes "errors_As status_target e = Some s"
  shows "set (chain (st_err s)) \<subseteq> set (chain e)"
proof -
  have "\<exists>x \<in> set (chain e). status_target x = Some s"
    using assms first_some_SomeD [of "map status_target (chain e)" s] by (auto simp: errors_As_chain)
  then obtain x where x: "x \<in> set (chain e)" "status_target x = Some s" by blast
  then obtain c d where "StatusErr c (st_err s) d \<in> set (chain e)" by (cases x rule: gerr.exhaust) auto
  then show ?thesis using chain_trans by fastforce
qed

lemma status_message_none:
  assumes "\<forall>x \<in> set (chain e). (\<forall>s t fs c. x \<noteq> SemErr s t fs c) \<and> (\<forall>c. x \<noteq> RawErr c)"
  shows "status_message fm ord e = Inr None"
  using assms
proof (induction e rule: measure_induct_rule [of size])
  case (less e)
  have here: "\<not> (\<exists>s t fs c. e = SemErr s t fs c)" "\<not> (\<exists>c. e = RawErr c)"
    using less.prems self_in_chain [of e] by blast+
  have "status_message fm ord c = Inr None" if "unwrap1 e = Some c" for c
    using that less chain_child [OF unwrap1_child [OF that]] by (blast dest: size_unwrap1)
  with here show ?case
    by (subst status_message.simps) (auto split: gerr.split option.split)
qed

section \<open>Properties\<close>

text \<open>C24: the code of an error survives context. Formatting, fields and foreign wrappers around an
  error leave the code that \<open>FromError\<close> gives it unchanged; a status found below them is
  returned as it is, so converting a status to an error and back loses nothing.\<close>

theorem FromError_wrap:
  "st_code (FromError (wrap_all ws e)) = st_code (FromError e) \<and>
   FromError (wrap_all ws (Status_Error s)) = s"
proof
  show "st_code (FromError (wrap_all ws e)) = st_code (FromError e)"
    unfolding FromError_def classifiers_wrap first_code_wrap by (simp split: option.split)
  have "errors_As status_target (Status_Error s) = Some s"
    by (simp add: Status_Error_def errors_As_chain)
  then show "FromError (wrap_all ws (Status_Error s)) = s"
    by (simp add: FromError_def classifiers_wrap)
qed

text \<open>A status shows no text of internal errors. Unless some error below is a semantic error or
  a message given to \<open>New\<close>, the message of the status of an error is the fixed text.\<close>

theorem Status_Message_no_leak:
  assumes "\<forall>x \<in> set (chain e). (\<forall>s t fs c. x \<noteq> SemErr s t fs c) \<and> (\<forall>c. x \<noteq> RawErr c)"
  shows "Status_Message fm ord (FromError e) = Inr ''unknown error''"
proof -
  have "set (chain (st_err (FromError e))) \<subseteq> set (chain e)"
    using errors_As_status_chain [of e] by (auto simp: FromError_def split: option.split)
  with assms have "status_message fm ord (st_err (FromError e)) = Inr None"
    by (intro status_message_none) blast
  then show ?thesis by (simp add: Status_Message_def)
qed

theorem Status_Message_no_leak_witness:
  "Status_Message id id (FromError (FmtWrap ''query users'' (PgErr ''53300'' ''secret''))) = Inr ''unknown error''"
  using Status_Message_no_leak [of "FmtWrap ''query users'' (PgErr ''53300'' ''secret'')" id id] by simp

text \<open>\<open>EnrichWithUserFacingMessage\<close> touches the user-facing message only, never overwrites
  one, and doing it again changes nothing.\<close>

theorem Enrich_once:
  "EnrichWithUserFacingMessage (EnrichWithUserFacingMessage s) = EnrichWithUserFacingMessage s \<and>
   (\<exists>m. EnrichWithUserFacingMessage s = s\<lparr>st_details := (st_details s)\<lparr>d_UserFacingMessage := m\<rparr>\<rparr> \<and>
      (m = d_UserFacingMessage (st_details s) \<or>
       d_UserFacingMessage (st_details s) = None \<and>
       (\<exists>ei. d_ErrorInfo (st_details s) = Some ei \<and> m = user_facing_message (ei_Reason ei))))"
  by (cases "d_ErrorInfo (st_details s)"; cases "d_UserFacingMessage (st_details s)")
    (auto simp: EnrichWithUserFacingMessage_def Status_Details_def WithUserFacingMessage_def split: option.split)

end
