(* ===== verification/Rest_Errors.thy ===== *)
theory Rest_Errors
  imports Status
begin

text \<open>
  Errors at the edge of the API: error codes (\<open>internal/codeerr\<close>), the mapping between meanings
  and HTTP status codes and the error slot of a request (\<open>internal/resttooling/errors.go\<close>), and
  the two presenters of \<open>internal/openapiapp/errors.go\<close>.

  The presenters report the error to Sentry and store it in the slot that the logging middleware
  put into the request's context: the record \<open>request_env\<close>. The text \<open>Error()\<close> of errors depends
  on the parameter \<open>fm\<close> of \<open>error_text\<close>, and messages with fields on the iteration order \<open>ord\<close>.
\<close>

section \<open>Error codes\<close>

definition codeerr_Wrap :: "string \<Rightarrow> gerr \<Rightarrow> gerr" where
  "codeerr_Wrap code err = CodeErr code err"

definition code_target :: "gerr \<Rightarrow> (string \<times> gerr) option" where
  "code_target e = (case e of CodeErr c err \<Rightarrow> Some (c, err) | _ \<Rightarrow> None)"

definition AsCodeErr :: "gerr \<Rightarrow> (string \<times> gerr) option" where
  "AsCodeErr err = errors_As code_target err"

definition GetCode :: "string \<times> gerr \<Rightarrow> string" where
  "GetCode e = fst e"

definition RawError :: "string \<times> gerr \<Rightarrow> gerr" where
  "RawError e = snd e"

section \<open>Meanings and HTTP status codes\<close>

definition contextCanceledStatusCode :: int where
  "contextCanceledStatusCode = 499"

definition SemanticErrorToHTTP :: "Semantic \<Rightarrow> int" where
  "SemanticErrorToHTTP s =
     (case s of
        SemanticInvalidInput \<Rightarrow> http_StatusBadRequest
      | SemanticAuthentication \<Rightarrow> http_StatusUnauthorized
      | SemanticForbidden \<Rightarrow> http_StatusNotFound
      | SemanticNotFound \<Rightarrow> http_StatusNotFound
      | SemanticFailedPrecondition \<Rightarrow> http_StatusPreconditionFailed
      | SemanticAlreadyExists \<Rightarrow> http_StatusConflict
      | SemanticNotImplemented \<Rightarrow> http_StatusBadRequest
      | SemanticResourceLocked \<Rightarrow> http_StatusLocked
      | SemanticTooManyRequests \<Rightarrow> http_StatusTooManyRequests
      | SemanticUnprocessable \<Rightarrow> http_StatusUnprocessableEntity
      | SemanticNotAcceptable \<Rightarrow> http_StatusNotAcceptable
      | SemanticTimeout \<Rightarrow> http_StatusRequestTimeout
      | SemanticUnavailable \<Rightarrow> http_StatusServiceUnavailable
      | SemanticSkipError \<Rightarrow> http_StatusOK
      | SemanticPartialSuccess \<Rightarrow> http_StatusMultiStatus
      | _ \<Rightarrow> http_StatusInternalServerError)"

definition CodeFromSemanticError :: "gerr option \<Rightarrow> int \<times> bool" where
  "CodeFromSemanticError err =
     (case AsSemanticError err of
        None \<Rightarrow> (0, False)
      | Some e \<Rightarrow>
          if (case err of None \<Rightarrow> False | Some x \<Rightarrow> errors_Is ContextCanceled x)
          then (contextCanceledStatusCode, True)
          else (SemanticErrorToHTTP (sem_semantic e), True))"

definition HTTPToSemantic :: "int \<Rightarrow> gerr \<Rightarrow> string \<Rightarrow> field list \<Rightarrow> gerr" where
  "HTTPToSemantic s =
     (if s = http_StatusServiceUnavailable then WrapWithUnavailable
      else if s = http_StatusRequestTimeout then WrapWithTimeout
      else if s = http_StatusNotAcceptable then WrapWithNotAcceptable
      else if s = http_StatusUnprocessableEntity then WrapWithUnprocessable
      else if s = http_StatusLocked then WrapWithResourceLocked
      else if s = http_StatusConflict then WrapWithAlreadyExists
      else if s = http_StatusPreconditionFailed then WrapWithFailedPrecondition
      else if s = http_StatusNotFound then WrapWithNotFound
      else if s = http_StatusForbidden then WrapWithForbidden
      else if s = http_StatusUnauthorized then WrapWithAuthentication
      else if s = http_StatusBadRequest then WrapWithInvalidInput
      else if s = http_StatusTooManyRequests then WrapWithTooManyRequests
      else WrapWithInternal)"

text \<open>What \<open>LogAppError\<close> logs: a warning with the fields of the semantic error, or an error.\<close>

datatype app_log = WarnCanceled "field list" | ErrorFinished gerr

definition LogAppError :: "(field list \<Rightarrow> field list) \<Rightarrow> gerr \<Rightarrow> app_log" where
  "LogAppError ord err =
     (let semanticErr = (case AsSemanticError (Some err) of
                           None \<Rightarrow> WrapWithInternal err ''internal'' [] | Some e \<Rightarrow> e)
      in if errors_Is ContextCanceled err then WarnCanceled (UnwrapFields ord semanticErr)
         else ErrorFinished (FmtWrap ''incoming request finished with error'' semanticErr))"

section \<open>The error slot of a request\<close>

text \<open>The value of the context under \<open>errorKey\<close>: none, a pointer to an error, or something of
  another type.\<close>

datatype error_slot = NoSlot | Slot "gerr option" | WrongType

record request_env =
  re_slot :: error_slot
  re_reported :: "gerr list"
  re_logged :: "gerr list"

definition WithErrorPlaceholder :: "request_env \<Rightarrow> request_env" where
  "WithErrorPlaceholder env = env\<lparr>re_slot := Slot None\<rparr>"

definition SetErrorInContext :: "gerr \<Rightarrow> request_env \<Rightarrow> request_env panics" where
  "SetErrorInContext err env =
     (case re_slot env of
        NoSlot \<Rightarrow> Inr (env\<lparr>re_logged := re_logged env @ [FmtWrap ''error in detached context'' err]\<rparr>)
      | WrongType \<Rightarrow> Inl ''error value has invalid type''
      | Slot _ \<Rightarrow> Inr (env\<lparr>re_slot := Slot (Some err)\<rparr>))"

definition ErrorMustFromContext :: "request_env \<Rightarrow> gerr option panics" where
  "ErrorMustFromContext env =
     (case re_slot env of
        NoSlot \<Rightarrow> Inl ''error key not found in context''
      | WrongType \<Rightarrow> Inl ''error value has invalid type''
      | Slot e \<Rightarrow> Inr e)"

section \<open>The presenters\<close>

text \<open>\<open>errors.As\<close> with one of the ogen error types: the text of the first such error.\<close>

definition ogen_kind_target :: "ogen_kind \<Rightarrow> gerr \<Rightarrow> string option" where
  "ogen_kind_target k e = (case e of OgenErr k' text _ \<Rightarrow> if k' = k then Some text else None | _ \<Rightarrow> None)"

definition asDNSError :: "gerr \<Rightarrow> string option" where
  "asDNSError err = errors_As dns_target err"

definition semerrFromPGDriver :: "gerr \<Rightarrow> gerr option" where
  "semerrFromPGDriver err =
     (case errors_As pg_target err of
        None \<Rightarrow> None
      | Some c \<Rightarrow>
          if c = pgerrcode_ConnectionFailure \<or> c = pgerrcode_ConnectionException \<or>
             c = pgerrcode_TooManyConnections \<or> c = pgerrcode_CannotConnectNow
          then Some (WrapWithUnavailable err ''please try again later'' [])
          else None)"

definition mapNonSemantic :: "(string \<Rightarrow> string) \<Rightarrow> gerr \<Rightarrow> gerr" where
  "mapNonSemantic fm err =
     (if errors_Is ContextCanceled err then WrapWithCanceled err ''canceled'' []
      else if errors_As (ogen_kind_target DecodeParamsError) err \<noteq> None
      then WrapWithInvalidInput err (''invalid input: '' @ error_text fm err) []
      else if errors_As (ogen_kind_target DecodeRequestError) err \<noteq> None
      then WrapWithInvalidInput err (''invalid request: '' @ error_text fm err) []
      else
        case errors_As (ogen_kind_target SecurityError) err of
          Some text \<Rightarrow> WrapWithAuthentication err text []
        | None \<Rightarrow>
            (case semerrFromPGDriver err of
               Some parsed \<Rightarrow> parsed
             | None \<Rightarrow>
                 if IsNetworkErrTranslatesToUnavailable err
                 then WrapWithUnavailable err ''please try again later'' []
                 else
                   (case asDNSError err of
                      Some r \<Rightarrow>
                        if str_contains r ''operation was canceled''
                        then WrapWithCanceled err ''dns lookup was canceled'' []
                        else WrapWithInternal err ''unknown internal server error'' []
                    | None \<Rightarrow> WrapWithInternal err ''unknown internal server error'' [])))"

definition wrapWithSemantic :: "(string \<Rightarrow> string) \<Rightarrow> gerr \<Rightarrow> gerr" where
  "wrapWithSemantic fm err =
     (case AsSemanticError (Some err) of None \<Rightarrow> mapNonSemantic fm err | Some e \<Rightarrow> e)"

definition payloadFromSemantic :: "(field list \<Rightarrow> field list) \<Rightarrow> gerr \<Rightarrow> string panics" where
  "payloadFromSemantic ord err = MessageWithFields ord err"

definition sentry_Report :: "gerr \<Rightarrow> request_env \<Rightarrow> request_env" where
  "sentry_Report err env = env\<lparr>re_reported := re_reported env @ [err]\<rparr>"

definition PresentError ::
    "(string \<Rightarrow> string) \<Rightarrow> (field list \<Rightarrow> field list) \<Rightarrow> gerr \<Rightarrow> request_env \<Rightarrow>
       (request_env \<times> int \<times> string \<times> string) panics" where
  "PresentError fm ord err env =
     (let (errorCode, semanticErr) =
            (case AsCodeErr err of
               Some codeErr \<Rightarrow> (GetCode codeErr, wrapWithSemantic fm (RawError codeErr))
             | None \<Rightarrow> ([], wrapWithSemantic fm err));
          (statusCode, ok) = CodeFromSemanticError (Some semanticErr)
      in if \<not> ok then Inl ''cannot get statusCode from semantic error''
         else
           bind_sum (SetErrorInContext semanticErr (sentry_Report semanticErr env)) (\<lambda>env'.
             bind_sum (payloadFromSemantic ord semanticErr) (\<lambda>message.
               Inr (env', statusCode, errorCode, message))))"

definition PresentStatus :: "gerr \<Rightarrow> request_env \<Rightarrow> (request_env \<times> Status \<times> string) panics" where
  "PresentStatus err env =
     (let st = EnrichWithUserFacingMessage (FromError err);
          err' = Status_Error st;
          errorCode = (case AsCodeErr err' of Some codeErr \<Rightarrow> GetCode codeErr | None \<Rightarrow> [])
      in bind_sum (SetErrorInContext err' (sentry_Report err' env)) (\<lambda>env'. Inr (env', st, errorCode)))"

text \<open>\<open>RewriteRequestHandler.ServeHTTP\<close>: the path passed on, or \<open>None\<close> for the standard
  not-found answer.\<close>

definition RewriteRequest :: "string \<Rightarrow> string \<Rightarrow> string \<Rightarrow> string option" where
  "RewriteRequest prefixFrom prefixTo path =
     (if \<not> has_prefix path prefixFrom then None
      else Some (prefixTo @ drop (length prefixFrom) path))"

section \<open>Lemmas\<close>

lemmas code_numbers = codes_Unknown_def codes_Canceled_def codes_InvalidArgument_def codes_DeadlineExceeded_def
  codes_NotFound_def codes_AlreadyExists_def codes_PermissionDenied_def codes_TooManyRequests_def
  codes_FailedPrecondition_def codes_Aborted_def codes_Unimplemented_def codes_Internal_def
  codes_Unavailable_def codes_Unauthenticated_def codes_Unprocessable_def codes_NotAcceptable_def
  codes_Locked_def

lemma code_target_wrap: "code_target (wrap_one w e) = None"
  by (cases w) (simp_all add: code_target_def)

interpretation ct: error_search code_target
  by unfold_locales (rule code_target_wrap)

interpretation okt: error_search "ogen_kind_target k" for k
proof unfold_locales
  show "ogen_kind_target k (wrap_one w e) = None" for w e by (cases w) (simp_all add: ogen_kind_target_def)
qed

lemma wrap_semantics [simp]:
  "sem_semantic (wrapError s err t fs) = s"
  "AsSemanticError (Some (wrapError s err t fs)) = Some (wrapError s err t fs)"
  "errors_Is c (wrapError s err t fs) = errors_Is c err"
  "Message (wrapError s err t fs) = t"
  by (simp_all add: sem_semantic_def wrapError_def AsSemanticError_def errors_Is_chain errFmt_def Message_def)

lemmas wrappers = WrapWithUnavailable_def WrapWithTimeout_def WrapWithNotAcceptable_def
  WrapWithUnprocessable_def WrapWithResourceLocked_def WrapWithAlreadyExists_def
  WrapWithFailedPrecondition_def WrapWithNotFound_def WrapWithForbidden_def
  WrapWithAuthentication_def WrapWithInvalidInput_def WrapWithTooManyRequests_def
  WrapWithInternal_def WrapWithCanceled_def

lemma mapNonSemantic_wrapError:
  "\<exists>s t. mapNonSemantic fm err = wrapError s err t []"
  by (auto simp: mapNonSemantic_def semerrFromPGDriver_def wrappers split: option.split)

lemma wrapWithSemantic_SemErr: "\<exists>s t fs c. wrapWithSemantic fm err = SemErr s t fs c"
proof (cases "AsSemanticError (Some err)")
  case None
  with mapNonSemantic_wrapError [of fm err] show ?thesis
    by (auto simp: wrapWithSemantic_def wrapError_def)
next
  case (Some x)
  with AsSemanticError_SomeD(1) [OF Some] show ?thesis by (simp add: wrapWithSemantic_def)
qed

lemma CodeFromSemanticError_SemErr:
  "CodeFromSemanticError (Some (SemErr s t fs c)) =
     (if errors_Is ContextCanceled c then contextCanceledStatusCode else SemanticErrorToHTTP s, True)"
  by (simp add: CodeFromSemanticError_def AsSemanticError_def sem_semantic_def errors_Is_chain)

lemma SemanticErrorToHTTP_range:
  "SemanticErrorToHTTP s \<in> {200, 207, 400, 401, 404, 406, 408, 409, 412, 422, 423, 429, 500, 503}"
  by (cases s) (simp_all add: SemanticErrorToHTTP_def)

text \<open>The semantic error that \<open>PresentError\<close> presents, and the error code it returns.\<close>

definition presented :: "(string \<Rightarrow> string) \<Rightarrow> gerr \<Rightarrow> gerr" where
  "presented fm err =
     wrapWithSemantic fm (case AsCodeErr err of Some codeErr \<Rightarrow> RawError codeErr | None \<Rightarrow> err)"

lemma PresentError_eq:
  "PresentError fm ord err env =
     bind_sum (SetErrorInContext (presented fm err) (sentry_Report (presented fm err) env)) (\<lambda>env'.
       bind_sum (MessageWithFields ord (presented fm err)) (\<lambda>message.
         Inr (env', fst (CodeFromSemanticError (Some (presented fm err))),
           (case AsCodeErr err of Some codeErr \<Rightarrow> GetCode codeErr | None \<Rightarrow> []), message)))"
proof -
  obtain s t fs c where "presented fm err = SemErr s t fs c"
    using wrapWithSemantic_SemErr unfolding presented_def by blast
  then show ?thesis
    by (auto simp: PresentError_def presented_def CodeFromSemanticError_SemErr payloadFromSemantic_def
        Let_def split: option.splits)
qed

lemma code_target_chain:
  assumes "AsCodeErr err = Some c"
  shows "set (chain (RawError c)) \<subseteq> set (chain err)"
proof -
  have "\<exists>x \<in> set (chain err). code_target x = Some c"
    using assms first_some_SomeD [of "map code_target (chain err)" c] by (auto simp: AsCodeErr_def errors_As_chain)
  then obtain x where x: "x \<in> set (chain err)" "code_target x = Some c" by blast
  then have "CodeErr (fst c) (snd c) \<in> set (chain err)"
    by (cases x rule: gerr.exhaust) (auto simp: code_target_def)
  from chain_trans [OF this] show ?thesis by (auto simp: RawError_def)
qed

lemma presented_fields:
  assumes "x \<in> set (chain (presented fm err))" "f \<in> set (own_fields x)"
  shows "\<exists>y \<in> set (chain err). f \<in> set (own_fields y)"
proof -
  define raw where "raw = (case AsCodeErr err of Some codeErr \<Rightarrow> RawError codeErr | None \<Rightarrow> err)"
  have raw: "set (chain raw) \<subseteq> set (chain err)"
    using code_target_chain by (auto simp: raw_def split: option.split)
  show ?thesis
  proof (cases "AsSemanticError (Some raw)")
    case None
    obtain s t where "presented fm err = wrapError s raw t []"
      using mapNonSemantic_wrapError [of fm raw] None
      by (auto simp: presented_def raw_def [symmetric] wrapWithSemantic_def)
    with assms raw show ?thesis by (auto simp: wrapError_def errFmt_def own_fields_def)
  next
    case (Some e)
    then have "presented fm err = e" by (simp add: presented_def raw_def [symmetric] wrapWithSemantic_def)
    with assms raw AsSemanticError_SomeD(2) [OF Some] chain_trans show ?thesis by blast
  qed
qed

lemma presented_plain:
  assumes "errors_As sem_target e = None" "errors_As code_target e = None" "errors_As pg_target e = None"
    and "\<And>k. errors_As (ogen_kind_target k) e = None" "\<not> errors_Is ContextCanceled e"
  shows "presented fm e =
    (if IsNetworkErrTranslatesToUnavailable e then WrapWithUnavailable e ''please try again later'' []
     else case asDNSError e of
         Some r \<Rightarrow> if str_contains r ''operation was canceled''
           then WrapWithCanceled e ''dns lookup was canceled'' []
           else WrapWithInternal e ''unknown internal server error'' []
       | None \<Rightarrow> WrapWithInternal e ''unknown internal server error'' [])"
  using assms
  by (simp add: presented_def wrapWithSemantic_def mapNonSemantic_def AsSemanticError_def AsCodeErr_def semerrFromPGDriver_def)

section \<open>Properties\<close>





text \<open>A status code received from a server and sent on. Mapping it to a meaning and back gives
  the same code for the codes that have a meaning, 404 for 403, and 500 for all others.\<close>

theorem HTTP_semantic_roundtrip:
  "SemanticErrorToHTTP (sem_semantic (HTTPToSemantic h err t fs)) =
     (if h = 403 then 404
      else if h \<in> {400, 401, 404, 406, 408, 409, 412, 422, 423, 429, 503} then h
      else 500)"
  by (simp add: HTTPToSemantic_def wrappers SemanticErrorToHTTP_def)

text \<open>The two presenters on errors with a meaning. When no status, error code, cancellation,
  deadline or DNS error is in the chain, \<open>PresentStatus\<close> and \<open>PresentError\<close> answer with the same
  HTTP status for every meaning but two: an unimplemented operation (501 and 400) and a
  cancellation (499 and 500). Skipped errors, partial successes and unknown meanings are left
  out, as they have no code of their own.\<close>

theorem presenters_agree:
  assumes "AsSemanticError (Some err) = Some e" "errors_As status_target err = None" "AsCodeErr err = None"
    and "\<not> errors_Is ContextCanceled err" "\<not> errors_Is ContextDeadlineExceeded err" "asDNSError err = None"
    and "sem_semantic e \<notin> {SemanticUnknown, SemanticSkipError, SemanticPartialSuccess}"
  shows "codes_HTTP (st_code (FromError err)) = fst (CodeFromSemanticError (Some (presented fm err))) \<longleftrightarrow>
    sem_semantic e \<notin> {SemanticNotImplemented, SemanticCanceled}"
proof -
  obtain s t fs c where e: "e = SemErr s t fs c" using AsSemanticError_SomeD(1) [OF assms(1)] by blast
  have "\<not> errors_Is ContextCanceled c"
    using assms(4) chain_trans [OF AsSemanticError_SomeD(2) [OF assms(1)]] e by (auto simp: errors_Is_chain)
  then have "fst (CodeFromSemanticError (Some (presented fm err))) = SemanticErrorToHTTP s"
    using assms(1,3) e by (simp add: presented_def wrapWithSemantic_def CodeFromSemanticError_SemErr)
  moreover have "errors_As sem_target err = Some e" using assms(1) by (simp add: AsSemanticError_def)
  ultimately show ?thesis
    using assms(2,4-7) e
    by (cases s) (simp_all add: FromError_def codeFromContext_def codeFromDNSErr_def codeFromSemerr_def
        asDNSError_def sem_semantic_def SemanticErrorToHTTP_def codes_HTTP_def code_numbers)
qed

theorem presenters_agree_witness:
  "codes_HTTP (st_code (FromError (FmtWrap ''load'' (Forbidden ''no access'' [])))) =
     fst (CodeFromSemanticError (Some (presented id (FmtWrap ''load'' (Forbidden ''no access'' [])))))"
  using presenters_agree [of "FmtWrap ''load'' (Forbidden ''no access'' [])" "Forbidden ''no access'' []" id]
  by (simp add: AsSemanticError_def AsCodeErr_def asDNSError_def errors_As_chain errors_Is_chain code_target_def
      Forbidden_def newError_def errFmt_def sem_semantic_def)

text \<open>The two presenters disagree on deadlines and on cancelled DNS lookups, with whatever
  context around them: a context deadline is 503 for one and 408 for the other, and a cancelled
  lookup is 500 for the one, although it maps it to a cancellation, and 499 for the other.\<close>

theorem presenters_disagree:
  "fst (CodeFromSemanticError (Some (presented fm (wrap_all ws (Sentinel ContextDeadlineExceeded))))) = 503 \<and>
   codes_HTTP (st_code (FromError (wrap_all ws (Sentinel ContextDeadlineExceeded)))) = 408 \<and>
   fst (CodeFromSemanticError (Some (presented fm (wrap_all ws (DNSErr ''operation was canceled'' text False))))) = 500 \<and>
   codes_HTTP (st_code (FromError (wrap_all ws (DNSErr ''operation was canceled'' text False)))) = 499"
proof -
  note search = errors_As_chain errors_Is_chain code_target_def ogen_kind_target_def has_prefix_def
  note wraps = classifiers_wrap ct.classify_wrap_all okt.classify_wrap_all
  note network = IsNetworkErrTranslatesToUnavailable_def isConnectionResetByPeer_def isConnectionRefused_def
  have "presented fm (wrap_all ws (Sentinel ContextDeadlineExceeded)) =
      wrapError SemanticUnavailable (wrap_all ws (Sentinel ContextDeadlineExceeded)) ''please try again later'' []"
    by (subst presented_plain; unfold wraps network asDNSError_def) (simp_all add: search wrappers)
  moreover have "presented fm (wrap_all ws (DNSErr ''operation was canceled'' text False)) =
      wrapError SemanticCanceled (wrap_all ws (DNSErr ''operation was canceled'' text False)) ''dns lookup was canceled'' []"
    by (subst presented_plain; unfold wraps network asDNSError_def) (simp_all add: search wrappers)
  moreover have "st_code (FromError (wrap_all ws (Sentinel ContextDeadlineExceeded))) = codes_DeadlineExceeded"
    "st_code (FromError (wrap_all ws (DNSErr ''operation was canceled'' text False))) = codes_Canceled"
    unfolding FromError_def wraps first_code_wrap
    by (simp_all add: search codeFromContext_def codeFromDNSErr_def)
  moreover have "\<not> errors_Is ContextCanceled (wrap_all ws (Sentinel ContextDeadlineExceeded))"
    "\<not> errors_Is ContextCanceled (wrap_all ws (DNSErr ''operation was canceled'' text False))"
    unfolding wraps by (simp_all add: errors_Is_chain)
  ultimately show ?thesis
    by (simp add: CodeFromSemanticError_def SemanticErrorToHTTP_def codes_HTTP_def code_numbers)
qed

end
