(* ===== verification/Schedule.thy ===== *)
theory Schedule
  imports Semerr Recovery
begin

text \<open>
  Package \<open>internal/scheduletooling\<close> with its subpackage \<open>worker\<close>: the latch of an in-process job,
  the middleware every job runs under, the scheduler and the reloading of job configurations.

  The job scheduler of package go-quartz is a parameter: a record of its two operations on a
  state of its own. What the sources rely on is the predicate \<open>quartz_laws\<close>. A trigger is what
  it is made from. Go iterates over the map of jobs in any order, so a tick is given the jobs
  in the order of that iteration.
\<close>

section \<open>Configuration\<close>

record job_config =
  UniqueName :: string
  jc_Enabled :: bool
  Interval :: go_duration
  CronExpression :: string
  RunOnStart :: bool
  jc_Timeout :: go_duration

definition zero_config :: job_config where
  "zero_config = \<lparr>UniqueName = [], jc_Enabled = False, Interval = 0, CronExpression = [],
     RunOnStart = False, jc_Timeout = 0\<rparr>"

datatype trigger = CronTrigger string | SimpleTrigger go_duration

text \<open>\<open>cron\<close> is the error of \<open>quartz.NewCronTrigger\<close>, if any.\<close>

definition Validate :: "(string \<Rightarrow> gerr option) \<Rightarrow> job_config \<Rightarrow> gerr option" where
  "Validate cron c =
     (if jc_Enabled c \<and> Interval c = 0 \<and> CronExpression c = []
      then Some (ErrNew ''interval or cron_expression must be set'')
      else if CronExpression c \<noteq> []
      then (case cron (CronExpression c) of
              None \<Rightarrow> None
            | Some err \<Rightarrow>
                Some (FmtWrap ''error validating cron expression''
                  (WithFieldsErr err [\<lparr>f_key = ''cron_expression'', f_value = StringType (CronExpression c)\<rparr>])))
      else None)"

definition GetTriggerValidated :: "job_config \<Rightarrow> trigger" where
  "GetTriggerValidated c =
     (if CronExpression c \<noteq> [] then CronTrigger (CronExpression c) else SimpleTrigger (Interval c))"

definition Job_GetConfig ::
    "(string \<Rightarrow> gerr option) \<Rightarrow> (unit \<Rightarrow> gerr + job_config) \<Rightarrow> gerr + job_config" where
  "Job_GetConfig cron getFreshConfig =
     (case getFreshConfig () of
        Inl err \<Rightarrow> Inl err
      | Inr cfg \<Rightarrow> (case Validate cron cfg of Some err \<Rightarrow> Inl err | None \<Rightarrow> Inr cfg))"

definition ConstantConfig :: "job_config \<Rightarrow> unit \<Rightarrow> gerr + job_config" where
  "ConstantConfig config = (\<lambda>_. Inr config)"

section \<open>The latch of a job\<close>

text \<open>\<open>Execute\<close> takes the latch, runs the job and gives the latch back; other goroutines run in
  between. Its two critical sections are functions of the running count.\<close>

definition take_latch :: "int \<Rightarrow> int \<Rightarrow> bool \<times> int" where
  "take_latch maxRunningCount runningCount =
     (let canRun = runningCount < maxRunningCount
      in (canRun, if canRun then runningCount + 1 else runningCount))"

text \<open>The second component tells whether the error that should never happen was reported.\<close>

definition release_latch :: "int \<Rightarrow> int \<times> bool" where
  "release_latch i = (if i \<le> 0 then (0, True) else (i - 1, False))"

record job_state =
  runningCount :: int
  maxRunningCount :: int
  executing :: nat
  skipped :: nat
  misreported :: nat

inductive job_step :: "job_state \<Rightarrow> job_state \<Rightarrow> bool" where
  enter: "take_latch (maxRunningCount j) (runningCount j) = (True, n) \<Longrightarrow>
    job_step j (j\<lparr>runningCount := n, executing := Suc (executing j)\<rparr>)"
| skip: "take_latch (maxRunningCount j) (runningCount j) = (False, n) \<Longrightarrow>
    job_step j (j\<lparr>runningCount := n, skipped := Suc (skipped j)\<rparr>)"
| leave: "executing j = Suc k \<Longrightarrow> release_latch (runningCount j) = (n, bad) \<Longrightarrow>
    job_step j (j\<lparr>runningCount := n, executing := k,
      misreported := (if bad then Suc (misreported j) else misreported j)\<rparr>)"

definition new_job :: "int \<Rightarrow> job_state" where
  "new_job maxRunning =
     \<lparr>runningCount = 0, maxRunningCount = maxRunning, executing = 0, skipped = 0, misreported = 0\<rparr>"

inductive_cases job_stepE: "job_step j j'"

section \<open>The middleware\<close>

record job_metrics =
  jobs_running :: int
  job_runs :: nat
  job_status :: "string \<Rightarrow> nat"
  job_skips :: nat

definition statusUNHANDLED :: string where "statusUNHANDLED = ''unhandled''"
definition statusPanic :: string where "statusPanic = ''panic''"
definition statusTimeout :: string where "statusTimeout = ''timeout''"
definition statusCancelled :: string where "statusCancelled = ''canceled''"
definition statusSuccess :: string where "statusSuccess = ''success''"

definition errToStatus :: "gerr option \<Rightarrow> string" where
  "errToStatus err =
     (case err of
        None \<Rightarrow> statusSuccess
      | Some e \<Rightarrow>
          if errors_Is ContextDeadlineExceeded e then statusTimeout
          else if errors_Is ContextCanceled e then statusCancelled
          else statusUNHANDLED)"

definition JobStarted :: "job_metrics \<Rightarrow> job_metrics" where
  "JobStarted m = m\<lparr>jobs_running := jobs_running m + 1, job_runs := Suc (job_runs m)\<rparr>"

text \<open>The function \<open>JobStarted\<close> returns, called deferred with a panic in flight or not.\<close>

definition JobStarted_finished :: "bool \<Rightarrow> gerr option \<Rightarrow> job_metrics \<Rightarrow> job_metrics" where
  "JobStarted_finished panicking err m =
     (if panicking then m\<lparr>job_status := (job_status m)(statusPanic := Suc (job_status m statusPanic))\<rparr>
      else m\<lparr>job_status := (job_status m)(errToStatus err := Suc (job_status m (errToStatus err))),
             jobs_running := jobs_running m - 1\<rparr>)"

definition SkippedJob :: "job_metrics \<Rightarrow> job_metrics" where
  "SkippedJob m = m\<lparr>job_skips := Suc (job_skips m)\<rparr>"

definition toSemanticErr :: "gerr \<Rightarrow> gerr" where
  "toSemanticErr err =
     (case AsSemanticError (Some err) of None \<Rightarrow> WrapWithInternal err ''internal error'' [] | Some e \<Rightarrow> e)"

text \<open>
  \<open>Middleware.Execute\<close> given how \<open>exec\<close> ends. The deferred call of \<open>finished\<close> is registered
  after \<open>exec\<close> has returned; when \<open>exec\<close> panics, only the earlier deferred calls run, among
  them \<open>handlePanic\<close>, which recovers, so that \<open>Execute\<close> returns the zero value \<open>nil\<close>. The third
  component is what is reported to Sentry.
\<close>

datatype exec_end = ExecReturned "gerr option" | ExecPanicked panic_value

definition handlePanic :: "panic_value option \<Rightarrow> gerr list" where
  "handlePanic p = (case p of None \<Rightarrow> [] | Some v \<Rightarrow> [toSemanticErr (UnwrapPanic v)])"

definition Middleware_Execute ::
    "exec_end \<Rightarrow> go_duration \<Rightarrow> job_metrics \<Rightarrow> job_metrics \<times> gerr option \<times> gerr list" where
  "Middleware_Execute result duration m =
     (let m1 = JobStarted m
      in case result of
           ExecPanicked v \<Rightarrow> (m1, None, handlePanic (Some v))
         | ExecReturned err \<Rightarrow>
             let ret = (case err of
                          None \<Rightarrow> None
                        | Some e \<Rightarrow>
                            Some (WithFieldsErr (FmtWrap ''job finished with error'' e)
                              [\<lparr>f_key = ''duration'', f_value = RenderedType (show_int duration)\<rparr>]))
             in (JobStarted_finished False err m1, ret, handlePanic None))"

section \<open>The scheduler\<close>

record 'q quartz =
  DeleteJob :: "'q \<Rightarrow> string \<Rightarrow> 'q \<times> gerr option"
  ScheduleJob :: "'q \<Rightarrow> string \<Rightarrow> 'q \<times> gerr option"

abbreviation ErrJobNotFound :: sentinel where "ErrJobNotFound \<equiv> NamedError ''job not found''"

record 'q scheduler =
  collectedJobsToSchedule :: "string list"
  s_jobs :: "string list"
  s_triggers :: "string \<rightharpoonup> trigger"
  s_quartz :: 'q
  isRunning :: bool
  oldConfigs :: "string \<rightharpoonup> job_config"
  s_errors :: "gerr list"

text \<open>A job is named by its key; its trigger is in \<open>s_triggers\<close>. \<open>s.jobs[key] = job\<close> adds the key
  when it is new.\<close>

definition Scheduler_Add :: "gerr + job_config \<Rightarrow> string \<Rightarrow> 'q scheduler \<Rightarrow> 'q scheduler \<times> gerr option" where
  "Scheduler_Add got key s =
     (if isRunning s then (s, Some (ErrNew ''already running, can't add job''))
      else case got of
             Inl err \<Rightarrow> (s\<lparr>s_errors := s_errors s @ [FmtWrap ''could not get config'' err]\<rparr>, Some err)
           | Inr cfg \<Rightarrow>
               if \<not> jc_Enabled cfg then (s, None)
               else (s\<lparr>collectedJobsToSchedule := collectedJobsToSchedule s @ [key]\<rparr>, None))"

definition stopScheduling :: "'q quartz \<Rightarrow> string \<Rightarrow> 'q scheduler \<Rightarrow> 'q scheduler" where
  "stopScheduling qz key s =
     (case DeleteJob qz (s_quartz s) key of
        (q, None) \<Rightarrow> s\<lparr>s_quartz := q\<rparr>
      | (q, Some err) \<Rightarrow>
          if errors_Is ErrJobNotFound err then s\<lparr>s_quartz := q\<rparr>
          else s\<lparr>s_quartz := q, s_errors := s_errors s @ [FmtWrap ''could not stop job, skipping'' err]\<rparr>)"

definition scheduleSilently :: "'q quartz \<Rightarrow> string \<Rightarrow> 'q scheduler \<Rightarrow> 'q scheduler" where
  "scheduleSilently qz key s0 =
     (let s1 = stopScheduling qz key s0;
          s = s1\<lparr>s_jobs := (if key \<in> set (s_jobs s1) then s_jobs s1 else s_jobs s1 @ [key])\<rparr>
      in case ScheduleJob qz (s_quartz s) key of
           (q, None) \<Rightarrow> s\<lparr>s_quartz := q\<rparr>
         | (q, Some err) \<Rightarrow>
             s\<lparr>s_quartz := q, s_errors := s_errors s @ [FmtWrap ''could not schedule job, skipping'' err]\<rparr>)"

definition scheduleCollectedJobs :: "'q quartz \<Rightarrow> 'q scheduler \<Rightarrow> 'q scheduler" where
  "scheduleCollectedJobs qz s = fold (scheduleSilently qz) (collectedJobsToSchedule s) s"

text \<open>\<open>Start\<close> runs once. It remembers the configurations of the jobs known so far, which are none
  before the first start, and then schedules the collected jobs.\<close>

definition Scheduler_Start :: "'q quartz \<Rightarrow> 'q scheduler \<Rightarrow> 'q scheduler" where
  "Scheduler_Start qz s =
     (if isRunning s then s else scheduleCollectedJobs qz (s\<lparr>isRunning := True\<rparr>))"

definition SetTrigger :: "string \<Rightarrow> trigger \<Rightarrow> 'q scheduler \<Rightarrow> 'q scheduler" where
  "SetTrigger key t s = s\<lparr>s_triggers := (s_triggers s)(key \<mapsto> t)\<rparr>"

text \<open>What a tick does for one job with its new configuration.\<close>

definition apply_config :: "'q quartz \<Rightarrow> job_config \<Rightarrow> string \<Rightarrow> 'q scheduler \<Rightarrow> 'q scheduler" where
  "apply_config qz newConfig key s0 =
     (let s = s0\<lparr>oldConfigs := (oldConfigs s0)(key \<mapsto> newConfig)\<rparr>
      in case oldConfigs s0 key of
           None \<Rightarrow>
             let s' = SetTrigger key (GetTriggerValidated newConfig) s
             in if jc_Enabled newConfig then scheduleSilently qz key s' else stopScheduling qz key s'
         | Some oldConfig \<Rightarrow>
             if oldConfig = newConfig then s
             else if jc_Enabled oldConfig \<noteq> jc_Enabled newConfig
             then (if jc_Enabled newConfig then scheduleSilently qz key s else stopScheduling qz key s)
             else if Interval oldConfig \<noteq> Interval newConfig
             then SetTrigger key (GetTriggerValidated newConfig) s
             else s)"

text \<open>\<open>got\<close> is what the job's \<open>GetConfig\<close> returns. On an error that is the zero configuration beside
  the error, and after logging the error the loop goes on with it.\<close>

definition update_job :: "'q quartz \<Rightarrow> (string \<Rightarrow> gerr + job_config) \<Rightarrow> string \<Rightarrow> 'q scheduler \<Rightarrow> 'q scheduler" where
  "update_job qz got key s =
     (case got key of
        Inl err \<Rightarrow>
          apply_config qz zero_config key
            (s\<lparr>s_errors := s_errors s @ [FmtWrap ''could not get config, skipping job'' err]\<rparr>)
      | Inr newConfig \<Rightarrow> apply_config qz newConfig key s)"

definition update_tick :: "'q quartz \<Rightarrow> (string \<Rightarrow> gerr + job_config) \<Rightarrow> 'q scheduler \<Rightarrow> 'q scheduler" where
  "update_tick qz got s = fold (update_job qz got) (s_jobs s) s"

section \<open>Splitting the work\<close>

record WorkloadSplitConfig =
  WorkerCount :: "64 word"
  WorkerIndex :: "64 word"

definition SingleWorkerDoesAllJob :: WorkloadSplitConfig where
  "SingleWorkerDoesAllJob = \<lparr>WorkerCount = 1, WorkerIndex = 0\<rparr>"

definition DefaultWorkloadSplit :: WorkloadSplitConfig where
  "DefaultWorkloadSplit = \<lparr>WorkerCount = 1, WorkerIndex = 0\<rparr>"

definition GetWorkerIndex :: "string \<Rightarrow> 64 word" where
  "GetWorkerIndex hostname =
     (let splitParts = split_byte (CHR ''-'') hostname
      in if length splitParts = 1 then 0
         else case ParseInt64 (last splitParts) of
                None \<Rightarrow> 0
              | Some v \<Rightarrow> word_of_int v)"

section \<open>Invariants\<close>

definition latch_inv :: "job_state \<Rightarrow> bool" where
  "latch_inv j \<longleftrightarrow> runningCount j = int (executing j) \<and> int (executing j) \<le> maxRunningCount j \<and> misreported j = 0"

lemma latch_inv_step:
  assumes "job_step j j'" "latch_inv j"
  shows "latch_inv j' \<and> maxRunningCount j' = maxRunningCount j"
  using assms by cases (auto simp: latch_inv_def take_latch_def release_latch_def Let_def split: if_splits)

lemma latch_inv_reachable:
  assumes "job_step\<^sup>*\<^sup>* (new_job m) j" "0 \<le> m"
  shows "latch_inv j \<and> maxRunningCount j = m"
  using assms(1)
proof (induction rule: rtranclp_induct)
  case base
  then show ?case using assms(2) by (simp add: latch_inv_def new_job_def)
next
  case (step j j')
  with latch_inv_step show ?case by auto
qed

subsection \<open>Scheduling through quartz\<close>

text \<open>What the scheduler relies on: deleting a job ends its scheduling, with an error only when
  there was none; scheduling an unknown key succeeds; other keys are not touched. \<open>sch q k\<close>
  tells whether quartz has a job under the key \<open>k\<close>.\<close>

definition quartz_laws :: "'q quartz \<Rightarrow> ('q \<Rightarrow> string \<Rightarrow> bool) \<Rightarrow> bool" where
  "quartz_laws qz sch \<longleftrightarrow>
     (\<forall>q k. (\<forall>k'. sch (fst (DeleteJob qz q k)) k' \<longleftrightarrow> sch q k' \<and> k' \<noteq> k) \<and>
        (\<forall>e. snd (DeleteJob qz q k) = Some e \<longrightarrow> errors_Is ErrJobNotFound e)) \<and>
     (\<forall>q k. \<not> sch q k \<longrightarrow>
        (\<forall>k'. sch (fst (ScheduleJob qz q k)) k' \<longleftrightarrow> sch q k' \<or> k' = k) \<and> snd (ScheduleJob qz q k) = None)"

lemma stopScheduling_effect:
  assumes "quartz_laws qz sch"
  shows "sch (s_quartz (stopScheduling qz key s)) k \<longleftrightarrow> sch (s_quartz s) k \<and> k \<noteq> key"
    and "s_jobs (stopScheduling qz key s) = s_jobs s" "oldConfigs (stopScheduling qz key s) = oldConfigs s"
proof -
  obtain q e where d: "DeleteJob qz (s_quartz s) key = (q, e)" by (cases "DeleteJob qz (s_quartz s) key")
  with assms have "sch q k \<longleftrightarrow> sch (s_quartz s) k \<and> k \<noteq> key" and e: "\<And>x. e = Some x \<Longrightarrow> errors_Is ErrJobNotFound x"
    unfolding quartz_laws_def by (metis fst_conv, metis snd_conv)
  moreover have "stopScheduling qz key s = s\<lparr>s_quartz := q\<rparr>"
    using e by (cases e) (simp_all add: stopScheduling_def d)
  ultimately show "sch (s_quartz (stopScheduling qz key s)) k \<longleftrightarrow> sch (s_quartz s) k \<and> k \<noteq> key"
    and "s_jobs (stopScheduling qz key s) = s_jobs s" "oldConfigs (stopScheduling qz key s) = oldConfigs s"
    by simp_all
qed

lemma scheduleSilently_effect:
  assumes "quartz_laws qz sch"
  shows "sch (s_quartz (scheduleSilently qz key s)) k \<longleftrightarrow> sch (s_quartz s) k \<or> k = key"
    and "oldConfigs (scheduleSilently qz key s) = oldConfigs s"
    and "key \<in> set (s_jobs s) \<Longrightarrow> s_jobs (scheduleSilently qz key s) = s_jobs s"
proof -
  let ?q = "s_quartz (stopScheduling qz key s)"
  have none: "\<not> sch ?q key" and others: "sch ?q k \<longleftrightarrow> sch (s_quartz s) k \<and> k \<noteq> key"
    using stopScheduling_effect(1) [OF assms] by auto
  from none assms have "sch (fst (ScheduleJob qz ?q key)) k \<longleftrightarrow> sch ?q k \<or> k = key"
    and ok: "snd (ScheduleJob qz ?q key) = None" by (auto simp: quartz_laws_def)
  with others show "sch (s_quartz (scheduleSilently qz key s)) k \<longleftrightarrow> sch (s_quartz s) k \<or> k = key"
    by (auto simp: scheduleSilently_def Let_def split: prod.split option.split)
  show "oldConfigs (scheduleSilently qz key s) = oldConfigs s"
    "key \<in> set (s_jobs s) \<Longrightarrow> s_jobs (scheduleSilently qz key s) = s_jobs s"
    using ok stopScheduling_effect [OF assms, of key s]
    by (auto simp: scheduleSilently_def Let_def split: prod.split option.split)
qed

text \<open>A job remembered with a configuration is scheduled exactly if that is enabled.\<close>

definition sched_inv :: "('q \<Rightarrow> string \<Rightarrow> bool) \<Rightarrow> 'q scheduler \<Rightarrow> bool" where
  "sched_inv sch s \<longleftrightarrow> (\<forall>k c. oldConfigs s k = Some c \<longrightarrow> sch (s_quartz s) k = jc_Enabled c)"

lemma apply_config_effect:
  assumes "quartz_laws qz sch" "sched_inv sch s" "key \<in> set (s_jobs s)"
  shows "sched_inv sch (apply_config qz new key s)"
    and "oldConfigs (apply_config qz new key s) = (oldConfigs s)(key \<mapsto> new)"
    and "s_jobs (apply_config qz new key s) = s_jobs s"
proof -
  note effects = stopScheduling_effect [OF assms(1)] scheduleSilently_effect [OF assms(1)]
  define s2 where "s2 = s\<lparr>oldConfigs := (oldConfigs s)(key \<mapsto> new)\<rparr>"
  have s2: "oldConfigs s2 = (oldConfigs s)(key \<mapsto> new)" "s_jobs s2 = s_jobs s" "s_quartz s2 = s_quartz s"
    by (simp_all add: s2_def)
  let ?goal = "sched_inv sch (apply_config qz new key s) \<and>
      oldConfigs (apply_config qz new key s) = (oldConfigs s)(key \<mapsto> new) \<and> s_jobs (apply_config qz new key s) = s_jobs s"
  note eq = apply_config_def [of qz new key s, folded s2_def, unfolded Let_def]
  have ?goal
  proof (cases "oldConfigs s key")
    case None
    with assms(2,3) s2 show ?thesis
      by (cases "jc_Enabled new") (auto simp: eq sched_inv_def effects SetTrigger_def)
  next
    case (Some old)
    consider "old = new" | "old \<noteq> new" "jc_Enabled old \<noteq> jc_Enabled new" "jc_Enabled new"
      | "old \<noteq> new" "jc_Enabled old \<noteq> jc_Enabled new" "\<not> jc_Enabled new"
      | "old \<noteq> new" "jc_Enabled old = jc_Enabled new" "Interval old \<noteq> Interval new"
      | "old \<noteq> new" "jc_Enabled old = jc_Enabled new" "Interval old = Interval new" by blast
    then show ?thesis
      by cases (use assms(2,3) s2 Some in \<open>auto simp: eq sched_inv_def effects SetTrigger_def\<close>)
  qed
  then show "sched_inv sch (apply_config qz new key s)"
    "oldConfigs (apply_config qz new key s) = (oldConfigs s)(key \<mapsto> new)"
    "s_jobs (apply_config qz new key s) = s_jobs s" by simp_all
qed

lemma update_job_effect:
  assumes "quartz_laws qz sch" "sched_inv sch s" "key \<in> set (s_jobs s)"
  shows "sched_inv sch (update_job qz got key s)"
    and "oldConfigs (update_job qz got key s) =
      (oldConfigs s)(key \<mapsto> (case got key of Inl _ \<Rightarrow> zero_config | Inr c \<Rightarrow> c))"
    and "s_jobs (update_job qz got key s) = s_jobs s"
proof -
  have err: "sched_inv sch (s\<lparr>s_errors := es\<rparr>)" for es using assms(2) by (simp add: sched_inv_def)
  show "sched_inv sch (update_job qz got key s)"
    "oldConfigs (update_job qz got key s) =
      (oldConfigs s)(key \<mapsto> (case got key of Inl _ \<Rightarrow> zero_config | Inr c \<Rightarrow> c))"
    "s_jobs (update_job qz got key s) = s_jobs s"
    using apply_config_effect [OF assms(1) err] apply_config_effect [OF assms] assms(3)
    by (cases "got key"; simp add: update_job_def)+
qed

lemma fold_update_job:
  assumes "quartz_laws qz sch" "sched_inv sch s" "set keys \<subseteq> set (s_jobs s)"
  shows "sched_inv sch (fold (update_job qz got) keys s) \<and> s_jobs (fold (update_job qz got) keys s) = s_jobs s \<and>
    oldConfigs (fold (update_job qz got) keys s) =
      (\<lambda>k. if k \<in> set keys then Some (case got k of Inl _ \<Rightarrow> zero_config | Inr c \<Rightarrow> c) else oldConfigs s k)"
  using assms(2,3)
proof (induction keys arbitrary: s)
  case (Cons key keys)
  then have key: "key \<in> set (s_jobs s)" by simp
  note e = update_job_effect [OF assms(1) Cons.prems(1) key, of got]
  from Cons.IH [OF e(1)] Cons.prems(2) e show ?case by (auto simp: fun_eq_iff)
qed simp

text \<open>A scheduler that obeys the laws: the list of its keys.\<close>

definition run_all :: "(exec_end \<times> go_duration) list \<Rightarrow> job_metrics \<Rightarrow> job_metrics" where
  "run_all runs m = fold (\<lambda>(r, d) m. fst (Middleware_Execute r d m)) runs m"

definition map_quartz :: "(string list) quartz" where
  "map_quartz = \<lparr>DeleteJob = (\<lambda>q k. (removeAll k q, if k \<in> set q then None else Some (Sentinel ErrJobNotFound))),
     ScheduleJob = (\<lambda>q k. (k # q, None))\<rparr>"

lemma map_quartz_laws: "quartz_laws map_quartz (\<lambda>q k. k \<in> set q)"
  by (auto simp: quartz_laws_def map_quartz_def errors_Is_chain)

definition example_scheduler :: "string list scheduler" where
  "example_scheduler = \<lparr>collectedJobsToSchedule = [], s_jobs = [''a''], s_triggers = Map.empty, s_quartz = [''a''],
     isRunning = True, oldConfigs = [''a'' \<mapsto> zero_config\<lparr>jc_Enabled := True\<rparr>], s_errors = []\<rparr>"

lemma example_scheduler_inv: "sched_inv (\<lambda>q k. k \<in> set q) example_scheduler"
  by (auto simp: sched_inv_def example_scheduler_def split: if_splits)

section \<open>Properties\<close>

text \<open>C9: at most \<open>maxRunningCount\<close> executions of a job run at any time, however the goroutines
  that call \<open>Execute\<close> interleave. The running count is their number, so it is zero when all have
  ended, and the error that should never happen is never reported.\<close>

theorem job_latch:
  assumes "job_step\<^sup>*\<^sup>* (new_job m) j" "0 \<le> m"
  shows "runningCount j = int (executing j) \<and> int (executing j) \<le> m \<and> misreported j = 0"
  using latch_inv_reachable [OF assms] by (simp add: latch_inv_def)

theorem job_latch_witness:
  "job_step\<^sup>*\<^sup>* (new_job 1) ((new_job 1)\<lparr>runningCount := 1, executing := 1, skipped := 1\<rparr>) \<and>
   runningCount ((new_job 1)\<lparr>runningCount := 1, executing := 1, skipped := 1\<rparr>) = int 1"
proof -
  have "job_step (new_job 1) ((new_job 1)\<lparr>runningCount := 1, executing := Suc (executing (new_job 1))\<rparr>)"
    by (rule job_step.enter) (simp add: new_job_def take_latch_def)
  moreover have "job_step ((new_job 1)\<lparr>runningCount := 1, executing := 1\<rparr>)
      ((new_job 1)\<lparr>runningCount := 1, executing := 1\<rparr>\<lparr>runningCount := 1,
         skipped := Suc (skipped ((new_job 1)\<lparr>runningCount := 1, executing := 1\<rparr>))\<rparr>)"
    by (rule job_step.skip) (simp add: new_job_def take_latch_def)
  ultimately have run: "job_step\<^sup>*\<^sup>* (new_job 1) ((new_job 1)\<lparr>runningCount := 1, executing := 1, skipped := 1\<rparr>)"
    by (simp add: new_job_def)
  with job_latch [OF run] show ?thesis by simp
qed

text \<open>A tick brings every job in line with its configuration. When quartz obeys its laws and all
  configurations can be read, after a tick every job is scheduled exactly if its new
  configuration is enabled, and that configuration is remembered.\<close>

theorem update_tick_applies:
  assumes "quartz_laws qz sch" "sched_inv sch s" "\<forall>k \<in> set (s_jobs s). got k = Inr (cfg k)"
  shows "sched_inv sch (update_tick qz got s) \<and>
    (\<forall>k \<in> set (s_jobs s). sch (s_quartz (update_tick qz got s)) k = jc_Enabled (cfg k) \<and>
       oldConfigs (update_tick qz got s) k = Some (cfg k))"
  using fold_update_job [OF assms(1,2), of "s_jobs s" got] assms(3)
  by (auto simp: update_tick_def sched_inv_def)

theorem update_tick_applies_witness:
  "\<not> ''a'' \<in> set (s_quartz (update_tick map_quartz (\<lambda>_. Inr zero_config) example_scheduler))"
  using update_tick_applies [OF map_quartz_laws example_scheduler_inv, of "\<lambda>_. Inr zero_config" "\<lambda>_. zero_config"]
  by (simp add: example_scheduler_def zero_config_def)

text \<open>A job whose configuration cannot be read is not skipped, as the log line says, but taken
  off the schedule, since the loop goes on with the zero configuration.\<close>

theorem config_error_unschedules:
  assumes "quartz_laws qz sch" "sched_inv sch s" "key \<in> set (s_jobs s)" "got key = Inl err"
  shows "\<not> sch (s_quartz (update_job qz got key s)) key \<and>
    oldConfigs (update_job qz got key s) key = Some zero_config"
  using update_job_effect [OF assms(1-3), of got] assms(4)
  by (auto simp: sched_inv_def zero_config_def)

theorem config_error_unschedules_witness:
  "''a'' \<in> set (s_quartz example_scheduler) \<and>
   \<not> ''a'' \<in> set (s_quartz (update_job map_quartz (\<lambda>_. Inl (ErrNew ''timeout'')) ''a'' example_scheduler))"
  using config_error_unschedules [OF map_quartz_laws example_scheduler_inv, of "''a''" "\<lambda>_. Inl (ErrNew ''timeout'')"]
  by (simp add: example_scheduler_def)

text \<open>What the middleware does with panics. After any sequence of runs the gauge of running jobs
  has grown by the number of runs that panicked, none of which is counted under any status, and
  each of them looks like a success to the caller.\<close>

theorem middleware_panics_leak:
  "jobs_running (run_all runs m) = jobs_running m + int (length [v. (ExecPanicked v, d) \<leftarrow> runs]) \<and>
   job_runs (run_all runs m) = job_runs m + length runs \<and>
   job_status (run_all runs m) statusPanic = job_status m statusPanic \<and>
   fst (snd (Middleware_Execute (ExecPanicked v) d m)) = None"
proof -
  have status: "errToStatus err \<noteq> statusPanic" for err
    by (auto simp: errToStatus_def statusSuccess_def statusTimeout_def statusCancelled_def statusUNHANDLED_def
        statusPanic_def split: option.split)
  have "jobs_running (run_all runs m) = jobs_running m + int (length [v. (ExecPanicked v, d) \<leftarrow> runs]) \<and>
     job_runs (run_all runs m) = job_runs m + length runs \<and>
     job_status (run_all runs m) statusPanic = job_status m statusPanic" for m
  proof (induction runs arbitrary: m)
    case (Cons r runs)
    then show ?case
      by (cases r; cases "fst r")
        (auto simp: run_all_def Middleware_Execute_def JobStarted_def JobStarted_finished_def Let_def status [symmetric])
  qed (simp add: run_all_def)
  then show ?thesis by (simp add: Middleware_Execute_def Let_def)
qed

text \<open>The worker index is the number at the end of a host name of a stateful set.\<close>

theorem GetWorkerIndex_roundtrip:
  assumes "n < 2 ^ 63"
  shows "GetWorkerIndex (base @ ''-'' @ show_nat n) = of_nat n"
proof -
  have "CHR ''-'' \<notin> set (show_nat n)" using show_nat_digits [of n] by (auto simp: list_all_iff is_digit_def)
  then have split: "split_byte (CHR ''-'') (base @ ''-'' @ show_nat n) = split_byte (CHR ''-'') base @ [show_nat n]"
    by (simp add: split_byte_snoc)
  have "length (split_byte (CHR ''-'') base) > 0" by (simp add: split_byte_nonempty)
  with split assms show ?thesis
    by (simp add: GetWorkerIndex_def ParseInt64_show_nat)
qed

theorem GetWorkerIndex_roundtrip_witness: "GetWorkerIndex (''yanakipre-api'' @ ''-'' @ show_nat 12) = 12"
  using GetWorkerIndex_roundtrip [of 12 "''yanakipre-api''"] by simp

end
