(* ===== verification/Retries.thy ===== *)
theory Retries
  imports Status
begin

text \<open>
  Retries of outgoing HTTP requests: \<open>internal/resttooling/restretries\<close>, with the request timeout
  of \<open>resttimeouts\<close> and the body handling of \<open>http2tooling\<close>.

  A retry policy looks at the error of a round trip, the request's method and the error of the
  request's context, and returns nil, an error to be retried, or a permanent error. The loop
  itself is \<open>retry.Do\<close> of package kamilsk/retry; modelled here are the action it repeats and
  the strategy that stops it. Errors are searched by \<open>errors_Is\<close> and \<open>errors_As\<close>; \<open>fm\<close> is the
  parameter of \<open>error_text\<close>.
\<close>

section \<open>Permanent errors and timeouts\<close>

abbreviation errMustStop :: sentinel where "errMustStop \<equiv> NamedError ''request must not be retried''"
abbreviation errTemporary :: sentinel where "errTemporary \<equiv> NamedError ''retryable rest timeout error''"

definition IsPermanentError :: "gerr \<Rightarrow> bool" where
  "IsPermanentError err = errors_Is errMustStop err"

definition NewPermanentError :: "gerr \<Rightarrow> gerr" where
  "NewPermanentError err = Joined [err, Sentinel errMustStop]"

definition IsTimeout :: "gerr \<Rightarrow> bool" where
  "IsTimeout err = errors_Is errTemporary err"

text \<open>The timeout round tripper waits for the first of two events.\<close>

datatype 'r rt_event = ContextDone gerr | RoundTripDone "'r option \<times> gerr option"

definition timeouts_RoundTrip :: "'r rt_event \<Rightarrow> 'r option \<times> gerr option" where
  "timeouts_RoundTrip ev =
     (case ev of
        ContextDone ctxErr \<Rightarrow> (None, Some (Joined [Sentinel errTemporary, ctxErr]))
      | RoundTripDone r \<Rightarrow> r)"

section \<open>Network errors\<close>

definition isConnectionResetByPeer :: "gerr \<Rightarrow> bool" where
  "isConnectionResetByPeer err = errors_Is (Errno ''ECONNRESET'') err"

definition isConnectionRefused :: "gerr \<Rightarrow> bool" where
  "isConnectionRefused err = errors_Is (Errno ''ECONNREFUSED'') err"

definition IsTemporaryNetworkErr :: "gerr \<Rightarrow> bool" where
  "IsTemporaryNetworkErr err =
     (if isConnectionResetByPeer err then True
      else if isConnectionRefused err then True
      else case errors_As timeout_target err of Some b \<Rightarrow> b | None \<Rightarrow> False)"

definition isNetworkTimeout :: "(string \<Rightarrow> string) \<Rightarrow> gerr \<Rightarrow> bool" where
  "isNetworkTimeout fm err =
     (if str_contains (error_text fm err) ''request canceled'' then True
      else case errors_As timeout_target err of Some b \<Rightarrow> b | None \<Rightarrow> False)"

definition checkContext :: "gerr option \<Rightarrow> gerr \<Rightarrow> gerr option" where
  "checkContext ctxErr err =
     (if (case ctxErr of None \<Rightarrow> False | Some c \<Rightarrow> \<not> errors_Is ContextDeadlineExceeded c)
      then Some (FmtWrap ''context canceled with underlying error'' err)
      else if errors_Is ContextCanceled err then Some err
      else None)"

definition idempotentHTTPMethods :: "string list" where
  "idempotentHTTPMethods = [''GET'', ''HEAD'', ''OPTIONS'']"

section \<open>Policies\<close>

definition StraightforwardNetworkRetry ::
    "(string \<Rightarrow> string) \<Rightarrow> gerr option \<Rightarrow> string \<Rightarrow> gerr option \<Rightarrow> gerr option" where
  "StraightforwardNetworkRetry fm ctxErr meth err0 =
     (case err0 of
        None \<Rightarrow> None
      | Some err \<Rightarrow>
          (case checkContext ctxErr err of
             Some e \<Rightarrow> Some (NewPermanentError e)
           | None \<Rightarrow>
               let idempotent = meth \<in> set idempotentHTTPMethods;
                   decide = Some (if idempotent then err else NewPermanentError err)
               in if IsTimeout err then Some err
                  else if isConnectionResetByPeer err then decide
                  else if isConnectionRefused err then decide
                  else if errors_Is IoErrUnexpectedEOF err then decide
                  else if isNetworkTimeout fm err then decide
                  else Some err))"

definition UnconditionalNetworkRetry :: "gerr option \<Rightarrow> gerr option \<Rightarrow> gerr option" where
  "UnconditionalNetworkRetry ctxErr err0 =
     (case err0 of
        None \<Rightarrow> None
      | Some err \<Rightarrow>
          (case checkContext ctxErr err of Some e \<Rightarrow> Some (NewPermanentError e) | None \<Rightarrow> Some err))"

definition URISlugBasedNetworkRetry ::
    "string list \<Rightarrow> bool \<Rightarrow> string \<Rightarrow> gerr option \<Rightarrow> string \<Rightarrow> gerr option \<Rightarrow> gerr option" where
  "URISlugBasedNetworkRetry slugs adhereToRESTIdempotency slug ctxErr meth err0 =
     (case err0 of
        None \<Rightarrow> None
      | Some err \<Rightarrow>
          (case checkContext ctxErr err of
             Some e \<Rightarrow> Some (NewPermanentError e)
           | None \<Rightarrow>
               if IsTimeout err then Some err
               else if meth \<in> set idempotentHTTPMethods \<and> adhereToRESTIdempotency then Some err
               else if slug \<in> set slugs then Some err
               else if isConnectionRefused err then Some err
               else Some (NewPermanentError err)))"

text \<open>Policies on the response: nil, or an error that makes the request be retried.\<close>

definition RetryByStatusCodeFunc :: "(int \<Rightarrow> bool) \<Rightarrow> int \<Rightarrow> gerr option" where
  "RetryByStatusCodeFunc shouldRetry statusCode =
     (if shouldRetry statusCode
      then Some (WithFieldsErr (ErrNew ''response status code is retryable'')
             [\<lparr>f_key = ''status'', f_value = Int64Type (word_of_int statusCode)\<rparr>])
      else None)"

definition RetryByStatusCode :: "int list \<Rightarrow> int \<Rightarrow> gerr option" where
  "RetryByStatusCode retryableCodes = RetryByStatusCodeFunc (\<lambda>c. c \<in> set retryableCodes)"

definition RepeatRetriableStatusCodes :: "int \<Rightarrow> gerr option" where
  "RepeatRetriableStatusCodes =
     RetryByStatusCode [http_StatusServiceUnavailable, http_StatusTooManyRequests, 502, http_StatusLocked]"

definition mustNotRetryTerminalErrorsStrategy :: "gerr \<Rightarrow> bool" where
  "mustNotRetryTerminalErrorsStrategy err = (\<not> IsPermanentError err)"

section \<open>The retried action\<close>

text \<open>A request with its body, which a round trip reads to the end, and its \<open>GetBody\<close> function,
  given by its result.\<close>

record request =
  rq_Body :: "(gerr + string) option"
  rq_GetBody :: "(gerr + string) option"

definition EnsureGetBodyMethod :: "request \<Rightarrow> request \<times> gerr option" where
  "EnsureGetBodyMethod r =
     (case (rq_Body r, rq_GetBody r) of
        (Some (Inl err), None) \<Rightarrow> (r, Some (FmtWrap ''could not read request body'' err))
      | (Some (Inr buf), None) \<Rightarrow> (r\<lparr>rq_GetBody := Some (Inr buf), rq_Body := Some (Inr buf)\<rparr>, None)
      | _ \<Rightarrow> (r, None))"

text \<open>The state of a retried round trip: the request, the last response, the responses whose
  bodies were drained and closed, and the bodies that were sent. \<open>send\<close> is the inner round
  tripper's answer to its n-th call.\<close>

record rt_state =
  ts_req :: request
  ts_resp :: "int option"
  ts_discarded :: "int list"
  ts_sent :: "(gerr + string) option list"

definition action ::
    "(nat \<Rightarrow> int option \<times> gerr option) \<Rightarrow> (gerr option \<Rightarrow> gerr option) \<Rightarrow> (int option \<Rightarrow> gerr option) \<Rightarrow>
       rt_state \<Rightarrow> rt_state \<times> gerr option" where
  "action send checkNetworkError checkResponse s =
     (case rq_GetBody (ts_req s) of
        Some (Inl getBodyErr) \<Rightarrow> (s, Some (NewPermanentError getBodyErr))
      | gb \<Rightarrow>
          let r = (case gb of Some b \<Rightarrow> (ts_req s)\<lparr>rq_Body := Some b\<rparr> | None \<Rightarrow> ts_req s);
              discarded = (case ts_resp s of None \<Rightarrow> ts_discarded s | Some resp \<Rightarrow> ts_discarded s @ [resp]);
              (resp, err) = send (length (ts_sent s));
              s' = s\<lparr>ts_req := r\<lparr>rq_Body := map_option (\<lambda>_. Inr []) (rq_Body r)\<rparr>, ts_resp := resp,
                     ts_discarded := discarded, ts_sent := ts_sent s @ [rq_Body r]\<rparr>
          in case checkNetworkError err of
               Some e \<Rightarrow> (s', Some e)
             | None \<Rightarrow> (s', checkResponse resp))"

text \<open>\<open>RoundTrip\<close> up to the loop: the state the action starts from, or the error.\<close>

definition RoundTrip_start :: "request \<Rightarrow> gerr + rt_state" where
  "RoundTrip_start r =
     (case EnsureGetBodyMethod r of
        (r', Some err) \<Rightarrow> Inl (NewPermanentError err)
      | (r', None) \<Rightarrow> Inr \<lparr>ts_req = r', ts_resp = None, ts_discarded = [], ts_sent = []\<rparr>)"

text \<open>The chain of round trippers, the outermost first: whether each is a retrying one.\<close>

fun isRetryableRoundTripper :: "bool list \<Rightarrow> bool" where
  "isRetryableRoundTripper [] = False"
| "isRetryableRoundTripper (r # rs) = (if r then True else isRetryableRoundTripper rs)"

definition NewRetryableRoundTripper ::
    "bool list \<Rightarrow> bool \<Rightarrow> (gerr \<Rightarrow> bool) list \<Rightarrow> bool \<Rightarrow> (gerr \<Rightarrow> bool) list panics" where
  "NewRetryableRoundTripper rt networkRetry_nil how responseShouldBeRetried_nil =
     (if isRetryableRoundTripper rt then Inl ''cannot nest multiple retryable roundtrippers''
      else if networkRetry_nil then Inl ''must specify network retry''
      else if responseShouldBeRetried_nil then Inl ''must specify a response retry''
      else if how = [] then Inl ''must specify at least one retry strategy''
      else Inr (mustNotRetryTerminalErrorsStrategy # how))"

section \<open>Lemmas\<close>

lemma IsPermanentError_New [simp]: "IsPermanentError (NewPermanentError err)"
  by (simp add: IsPermanentError_def NewPermanentError_def errors_Is_chain)

fun attempts ::
    "nat \<Rightarrow> (nat \<Rightarrow> int option \<times> gerr option) \<Rightarrow> (gerr option \<Rightarrow> gerr option) \<Rightarrow> (int option \<Rightarrow> gerr option) \<Rightarrow>
       rt_state \<Rightarrow> rt_state" where
  "attempts 0 send cn cr s = s"
| "attempts (Suc n) send cn cr s = fst (action send cn cr (attempts n send cn cr s))"

lemma attempts_sent:
  assumes "rq_GetBody (ts_req s) = Some (Inr b)" "ts_sent s = []"
  shows "ts_sent (attempts n send cn cr s) = replicate n (Some (Inr b)) \<and>
    rq_GetBody (ts_req (attempts n send cn cr s)) = Some (Inr b)"
proof (induction n)
  case (Suc n)
  then show ?case
    by (simp add: action_def Let_def replicate_append_same [symmetric] split: prod.split option.split)
qed (simp add: assms)

section \<open>Properties\<close>

text \<open>Exactly when the straightforward policy gives up on a failed request: the request's
  context was cancelled or the error is a cancellation, or else the method is not idempotent
  and the error is a reset, a refusal, an unexpected end of input or a timeout of package net,
  but not a timeout of \<open>resttimeouts\<close>. In all other cases the error is returned as it is and
  the request is retried, whatever its method.\<close>

theorem StraightforwardNetworkRetry_permanent:
  assumes "\<not> IsPermanentError err"
  shows "\<exists>e. StraightforwardNetworkRetry fm ctxErr meth (Some err) = Some e \<and>
    (IsPermanentError e \<longleftrightarrow>
       (\<exists>c. ctxErr = Some c \<and> \<not> errors_Is ContextDeadlineExceeded c) \<or> errors_Is ContextCanceled err \<or>
       \<not> IsTimeout err \<and> meth \<notin> {''GET'', ''HEAD'', ''OPTIONS''} \<and>
         (isConnectionResetByPeer err \<or> isConnectionRefused err \<or> errors_Is IoErrUnexpectedEOF err \<or>
          isNetworkTimeout fm err)) \<and>
    (\<not> IsPermanentError e \<longrightarrow> e = err)"
  using assms
  by (auto simp: StraightforwardNetworkRetry_def checkContext_def idempotentHTTPMethods_def Let_def split: option.splits)

theorem StraightforwardNetworkRetry_permanent_witness:
  "\<exists>e. StraightforwardNetworkRetry id None ''POST'' (Some (Sentinel (Errno ''ECONNRESET''))) = Some e \<and> IsPermanentError e"
  using StraightforwardNetworkRetry_permanent [of "Sentinel (Errno ''ECONNRESET'')" id None "''POST''"]
  by (auto simp: IsPermanentError_def isConnectionResetByPeer_def IsTimeout_def errors_Is_chain)



end
