(* ===== verification/Pg_Array.thy ===== *)
theory Pg_Array
  imports Prelude
begin

text \<open>
  \<open>internal/rdb/array.go\<close>: PostgreSQL arrays of strings and of floats in text form.

  Bytes are characters and a nil slice is \<open>None\<close>. \<open>parseArray\<close> is a state machine written with
  \<open>goto\<close> and labelled loops; there is one function per label, each with the unread input, its
  offset, the depth, the dimensions and the elements found so far. Its only callers pass a
  delimiter of one byte. An index out of range and a division by zero are panics (\<open>Inl\<close>); an
  error of the code is \<open>Inr (Inl e)\<close>.

  Floats are a type \<open>'f\<close>; \<open>strconv.ParseFloat\<close> and \<open>strconv.AppendFloat\<close> are parameters.
\<close>

section \<open>Model\<close>

datatype array_error =
    Expected char nat
  | Unexpected char nat
  | MismatchedDimensions
  | TooManyDimensions "nat list"
  | NilElement nat
  | ParsingElement nat string
  | CannotConvert

type_synonym array_elem = "string option"
type_synonym 'a array_result = "(array_error + 'a) panics"

abbreviation BACKSLASH :: char where "BACKSLASH \<equiv> CHR 0x5C"
abbreviation QUOTE :: char where "QUOTE \<equiv> CHR 0x22"

subsection \<open>Writing\<close>

definition special :: "char \<Rightarrow> bool" where
  "special c \<longleftrightarrow> c = QUOTE \<or> c = BACKSLASH"

function escape_loop :: "string \<Rightarrow> string" where
  "escape_loop v =
     (case dropWhile (\<lambda>c. \<not> special c) v of
        [] \<Rightarrow> v
      | c # rest \<Rightarrow> takeWhile (\<lambda>c. \<not> special c) v @ BACKSLASH # c # escape_loop rest)"
  by pat_completeness auto
termination
proof (relation "measure length")
  show "dropWhile (\<lambda>c. \<not> special c) v = c # rest \<Longrightarrow> (rest, v) \<in> measure length" for v c rest
    using length_dropWhile_le [of "\<lambda>c. \<not> special c" v] by simp
qed simp

declare escape_loop.simps [simp del]

definition appendArrayQuotedBytes :: "string \<Rightarrow> string \<Rightarrow> string" where
  "appendArrayQuotedBytes b v = b @ QUOTE # escape_loop v @ [QUOTE]"

definition StringArray_Value :: "string list option \<Rightarrow> string option" where
  "StringArray_Value a =
     (case a of
        None \<Rightarrow> None
      | Some [] \<Rightarrow> Some ''{}''
      | Some (x # xs) \<Rightarrow>
          Some (foldl (\<lambda>b v. appendArrayQuotedBytes (b @ '','') v) (appendArrayQuotedBytes ''{'' x) xs @ ''}''))"

subsection \<open>Parsing\<close>

text \<open>The inner loop of a quoted element: the element, the input after the closing quote and its
  offset, or \<open>None\<close> when the input ends first.\<close>

fun quoted_elem :: "string \<Rightarrow> nat \<Rightarrow> bool \<Rightarrow> string \<Rightarrow> (string \<times> string \<times> nat) option" where
  "quoted_elem [] i escape elem = None"
| "quoted_elem (c # cs) i escape elem =
     (if escape then quoted_elem cs (Suc i) False (elem @ [c])
      else if c = BACKSLASH then quoted_elem cs (Suc i) True elem
      else if c = QUOTE then Some (elem, cs, Suc i)
      else quoted_elem cs (Suc i) False (elem @ [c]))"

text \<open>The inner loop of an unquoted element: the element and the input from the delimiter or
  closing bracket on, or \<open>None\<close> when the input ends first.\<close>

fun bare_elem :: "char \<Rightarrow> string \<Rightarrow> nat \<Rightarrow> string \<Rightarrow> (string \<times> string \<times> nat) option" where
  "bare_elem del [] i elem = None"
| "bare_elem del (c # cs) i elem =
     (if c = del \<or> c = CHR ''}'' then Some (elem, c # cs, i) else bare_elem del cs (Suc i) (elem @ [c]))"

definition finish_dims :: "nat list \<Rightarrow> array_elem list \<Rightarrow> (nat list \<times> array_elem list) array_result" where
  "finish_dims dims elems =
     (if 0 \<in> set dims then Inl ''integer divide by zero''
      else if list_ex (\<lambda>d. length elems mod d \<noteq> 0) dims then Inr (Inl MismatchedDimensions)
      else Inr (Inr (dims, elems)))"

fun close_label ::
    "string \<Rightarrow> nat \<Rightarrow> nat \<Rightarrow> nat list \<Rightarrow> array_elem list \<Rightarrow> (nat list \<times> array_elem list) array_result" where
  "close_label [] i depth dims elems =
     (if depth > 0 then Inr (Inl (Expected (CHR ''}'') i)) else finish_dims dims elems)"
| "close_label (c # cs) i depth dims elems =
     (if c = CHR ''}'' \<and> depth > 0 then close_label cs (Suc i) (depth - 1) dims elems
      else Inr (Inl (Unexpected c i)))"

lemma quoted_elem_length: "quoted_elem cs i esc e = Some (elem, rest, j) \<Longrightarrow> length rest < length cs"
  by (induction cs i esc e rule: quoted_elem.induct) (auto split: if_splits)

lemma bare_elem_length: "bare_elem del cs i e = Some (elem, rest, j) \<Longrightarrow> length rest \<le> length cs"
  by (induction del cs i e rule: bare_elem.induct) (auto split: if_splits)

function (sequential)
  element_label ::
    "char \<Rightarrow> string \<Rightarrow> nat \<Rightarrow> nat \<Rightarrow> nat list \<Rightarrow> array_elem list \<Rightarrow> (nat list \<times> array_elem list) array_result"
  and after_element ::
    "char \<Rightarrow> string \<Rightarrow> nat \<Rightarrow> nat \<Rightarrow> nat list \<Rightarrow> array_elem list \<Rightarrow> (nat list \<times> array_elem list) array_result" where
  "element_label del [] i depth dims elems = after_element del [] i depth dims elems"
| "element_label del (c # cs) i depth dims elems =
     (if c = CHR ''{'' then
        if depth = length dims then after_element del (c # cs) i depth dims elems
        else if length dims \<le> depth then Inl ''index out of range''
        else element_label del cs (Suc i) (Suc depth) (dims[depth := 0]) elems
      else if c = QUOTE then
        (case quoted_elem cs (Suc i) False [] of
           None \<Rightarrow> after_element del [] (i + length (c # cs)) depth dims elems
         | Some (elem, rest, j) \<Rightarrow> after_element del rest j depth dims (elems @ [Some elem]))
      else
        (case bare_elem del (c # cs) i [] of
           None \<Rightarrow> after_element del [] (i + length (c # cs)) depth dims elems
         | Some (elem, rest, j) \<Rightarrow>
             if elem = [] then Inr (Inl (Unexpected c i))
             else after_element del rest j depth dims
                    (elems @ [if elem = ''NULL'' then None else Some elem])))"
| "after_element del [] i depth dims elems = close_label [] i depth dims elems"
| "after_element del (c # cs) i depth dims elems =
     (if c = del \<and> depth > 0 then
        if length dims \<le> depth - 1 then Inl ''index out of range''
        else element_label del cs (Suc i) depth (dims[depth - 1 := Suc (dims ! (depth - 1))]) elems
      else if c = CHR ''}'' \<and> depth > 0 then
        if length dims \<le> depth - 1 then Inl ''index out of range''
        else after_element del cs (Suc i) (depth - 1) (dims[depth - 1 := Suc (dims ! (depth - 1))]) elems
      else Inr (Inl (Unexpected c i)))"
  by pat_completeness auto
termination
  by (relation "measure (\<lambda>x. case x of Inl (_, s, _) \<Rightarrow> 2 * length s + 1 | Inr (_, s, _) \<Rightarrow> 2 * length s)")
    (auto simp del: bare_elem.simps dest: quoted_elem_length bare_elem_length)

text \<open>At the label \<open>Open\<close> the offset equals the depth.\<close>

fun open_label :: "char \<Rightarrow> string \<Rightarrow> nat \<Rightarrow> nat \<Rightarrow> (nat list \<times> array_elem list) array_result" where
  "open_label del [] i depth = element_label del [] i depth (replicate i 0) []"
| "open_label del (c # cs) i depth =
     (if c = CHR ''{'' then open_label del cs (Suc i) (Suc depth)
      else if c = CHR ''}'' then close_label (c # cs) i depth [] []
      else element_label del (c # cs) i depth (replicate i 0) [])"

definition parseArray :: "string \<Rightarrow> char \<Rightarrow> (nat list \<times> array_elem list) array_result" where
  "parseArray src del =
     (case src of
        [] \<Rightarrow> Inr (Inl (Expected (CHR ''{'') 0))
      | c # cs \<Rightarrow> if c \<noteq> CHR ''{'' then Inr (Inl (Expected (CHR ''{'') 0)) else open_label del src 0 0)"

definition scanLinearArray :: "string \<Rightarrow> char \<Rightarrow> array_elem list array_result" where
  "scanLinearArray src del =
     bind_sum (parseArray src del) (\<lambda>r. Inr
       (case r of
          Inl err \<Rightarrow> Inl err
        | Inr (dims, elems) \<Rightarrow> if length dims > 1 then Inl (TooManyDimensions dims) else Inr elems))"

fun all_elems :: "nat \<Rightarrow> array_elem list \<Rightarrow> array_error + string list" where
  "all_elems i [] = Inr []"
| "all_elems i (None # es) = Inl (NilElement i)"
| "all_elems i (Some e # es) = bind_sum (all_elems (Suc i) es) (\<lambda>xs. Inr (e # xs))"

text \<open>The new value of the array, or the error; the old value matters only for being nil.\<close>

definition StringArray_scanBytes :: "string list option \<Rightarrow> string \<Rightarrow> string list option array_result" where
  "StringArray_scanBytes a src =
     bind_sum (scanLinearArray src (CHR '','')) (\<lambda>r. Inr
       (case r of
          Inl err \<Rightarrow> Inl err
        | Inr elems \<Rightarrow>
            if a \<noteq> None \<and> elems = [] then Inr (Some [])
            else bind_sum (all_elems 0 elems) (\<lambda>b. Inr (Some b))))"

datatype scan_source = SrcBytes string | SrcString string | SrcNil | SrcOther

definition StringArray_Scan :: "string list option \<Rightarrow> scan_source \<Rightarrow> string list option array_result" where
  "StringArray_Scan a src =
     (case src of
        SrcBytes s \<Rightarrow> StringArray_scanBytes a s
      | SrcString s \<Rightarrow> StringArray_scanBytes a s
      | SrcNil \<Rightarrow> Inr (Inr None)
      | SrcOther \<Rightarrow> Inr (Inl CannotConvert))"

text \<open>\<open>Float32Array\<close>: an element that is NULL has the empty text.\<close>

fun parse_floats :: "(string \<Rightarrow> string + 'f) \<Rightarrow> nat \<Rightarrow> array_elem list \<Rightarrow> array_error + 'f list" where
  "parse_floats ParseFloat i [] = Inr []"
| "parse_floats ParseFloat i (v # es) =
     (case ParseFloat (case v of None \<Rightarrow> [] | Some t \<Rightarrow> t) of
        Inl err \<Rightarrow> Inl (ParsingElement i err)
      | Inr x \<Rightarrow> bind_sum (parse_floats ParseFloat (Suc i) es) (\<lambda>xs. Inr (x # xs)))"

definition Float32Array_scanBytes :: "(string \<Rightarrow> string + 'f) \<Rightarrow> 'f list option \<Rightarrow> string \<Rightarrow> 'f list option array_result" where
  "Float32Array_scanBytes ParseFloat a src =
     bind_sum (scanLinearArray src (CHR '','')) (\<lambda>r. Inr
       (case r of
          Inl err \<Rightarrow> Inl err
        | Inr elems \<Rightarrow>
            if a \<noteq> None \<and> elems = [] then Inr (Some [])
            else bind_sum (parse_floats ParseFloat 0 elems) (\<lambda>b. Inr (Some b))))"

definition Float32Array_Scan :: "(string \<Rightarrow> string + 'f) \<Rightarrow> 'f list option \<Rightarrow> scan_source \<Rightarrow> 'f list option array_result" where
  "Float32Array_Scan ParseFloat a src =
     (case src of
        SrcBytes s \<Rightarrow> Float32Array_scanBytes ParseFloat a s
      | SrcString s \<Rightarrow> Float32Array_scanBytes ParseFloat a s
      | SrcNil \<Rightarrow> Inr (Inr None)
      | SrcOther \<Rightarrow> Inr (Inl CannotConvert))"

definition Float32Array_Value :: "('f \<Rightarrow> string) \<Rightarrow> 'f list option \<Rightarrow> string option" where
  "Float32Array_Value FormatFloat a =
     (case a of
        None \<Rightarrow> None
      | Some [] \<Rightarrow> Some ''{}''
      | Some (x # xs) \<Rightarrow> Some (foldl (\<lambda>b v. b @ '','' @ FormatFloat v) (''{'' @ FormatFloat x) xs @ ''}''))"

section \<open>No panics\<close>

text \<open>The dimensions below the current depth are open and may be zero, the others are closed and
  positive.\<close>

definition dims_inv :: "nat \<Rightarrow> nat list \<Rightarrow> bool" where
  "dims_inv depth dims \<longleftrightarrow> depth \<le> length dims \<and> (\<forall>k. depth \<le> k \<and> k < length dims \<longrightarrow> 0 < dims ! k)"

lemma dims_inv_open:
  "dims_inv depth dims \<Longrightarrow> depth < length dims \<Longrightarrow> dims_inv (Suc depth) (dims[depth := 0])"
  by (auto simp: dims_inv_def nth_list_update)

lemma dims_inv_count:
  "dims_inv depth dims \<Longrightarrow> dims_inv depth (dims[depth - 1 := Suc (dims ! (depth - 1))])"
  by (auto simp: dims_inv_def nth_list_update)

lemma dims_inv_close:
  "dims_inv depth dims \<Longrightarrow> 0 < depth \<Longrightarrow> dims_inv (depth - 1) (dims[depth - 1 := Suc (dims ! (depth - 1))])"
  by (auto simp: dims_inv_def nth_list_update)

lemma close_label_no_panic:
  "dims_inv 0 dims \<or> dims_inv depth dims \<and> s = [] \<Longrightarrow> \<exists>r. close_label s i depth dims elems = Inr r"
proof (induction s i depth dims elems rule: close_label.induct)
  case (1 i depth dims elems)
  then show ?case by (auto simp: finish_dims_def dims_inv_def in_set_conv_nth)
qed auto

lemma labels_no_panic:
  "dims_inv depth dims \<Longrightarrow> \<exists>r. element_label del s i depth dims elems = Inr r"
  "dims_inv depth dims \<Longrightarrow> \<exists>r. after_element del s i depth dims elems = Inr r"
proof (induction del s i depth dims elems and del s i depth dims elems
    rule: element_label_after_element.induct)
  case (2 del c cs i depth dims elems)
  consider "c = CHR ''{''" "depth = length dims" | "c = CHR ''{''" "depth < length dims" | "c = QUOTE"
    | "c \<noteq> CHR ''{''" "c \<noteq> QUOTE" using "2.prems" unfolding dims_inv_def by linarith
  then show ?case
  proof cases
    case 1
    with 2 show ?thesis by simp
  next
    case 2
    with "2.IH"(2) "2.prems" dims_inv_open show ?thesis by simp
  next
    case 3
    with 2 show ?thesis by (cases "quoted_elem cs (Suc i) False []") auto
  next
    case 4
    with 2 show ?thesis
      by (cases "bare_elem del (c # cs) i []") (auto simp del: bare_elem.simps)
  qed
next
  case (3 del i depth dims elems)
  then show ?case using close_label_no_panic [of dims depth "[]"] by simp
next
  case (4 del c cs i depth dims elems)
  have "\<not> length dims \<le> depth - 1" if "0 < depth" using "4.prems" that by (auto simp: dims_inv_def)
  moreover note dims_inv_count [OF "4.prems"] dims_inv_close [OF "4.prems"]
  ultimately show ?case using 4 by auto
qed simp_all

lemma open_label_no_panic: "\<exists>r. open_label del s i i = Inr r"
proof (induction s arbitrary: i)
  case Nil
  have "dims_inv i (replicate i 0)" by (simp add: dims_inv_def)
  from labels_no_panic(1) [OF this] show ?case by (simp del: element_label.simps)
next
  case (Cons c cs)
  have "dims_inv i (replicate i 0)" "dims_inv 0 []" by (simp_all add: dims_inv_def)
  with Cons labels_no_panic(1) [of i "replicate i 0"] close_label_no_panic [of "[]" i "c # cs"]
  show ?case by (auto simp del: close_label.simps element_label.simps)
qed

section \<open>Round trip\<close>

lemma escape_loop_simps:
  "escape_loop [] = []"
  "escape_loop (c # v) = (if special c then BACKSLASH # c # escape_loop v else c # escape_loop v)"
proof -
  show "escape_loop [] = []" by (subst escape_loop.simps) simp
  show "escape_loop (c # v) = (if special c then BACKSLASH # c # escape_loop v else c # escape_loop v)"
  proof (cases "special c")
    case False
    then show ?thesis
      using escape_loop.simps [of v] escape_loop.simps [of "c # v"]
      by (cases "dropWhile (\<lambda>c. \<not> special c) v") simp_all
  qed (subst escape_loop.simps, simp)
qed

lemma quoted_elem_escape:
  "quoted_elem (escape_loop v @ QUOTE # rest) i False elem =
     Some (elem @ v, rest, i + Suc (length (escape_loop v)))"
  by (induction v arbitrary: i elem) (auto simp: escape_loop_simps special_def)

definition quoted :: "string \<Rightarrow> string" where
  "quoted v = QUOTE # escape_loop v @ [QUOTE]"

lemma element_quoted:
  "element_label del (quoted v @ rest) i depth dims elems =
     after_element del rest (i + length (quoted v)) depth dims (elems @ [Some v])"
  using quoted_elem_escape [of v rest "Suc i" "[]"] by (simp add: quoted_def)

lemma after_element_tail:
  "length elems = Suc n \<Longrightarrow>
   after_element (CHR '','') (concat (map (\<lambda>v. CHR '','' # quoted v) xs) @ ''}'') i 1 [n] elems =
     Inr (Inr ([Suc (n + length xs)], elems @ map Some xs))"
proof (induction xs arbitrary: i n elems)
  case Nil
  then show ?case by (simp add: finish_dims_def)
next
  case (Cons x xs)
  from Cons.IH [of "elems @ [Some x]" "Suc n"] Cons.prems show ?case
    by (simp add: element_quoted del: element_label.simps)
qed

text \<open>Unquoted elements: texts without a bracket, quote or comma that are not NULL.\<close>

definition bare :: "string \<Rightarrow> bool" where
  "bare v \<longleftrightarrow> v \<noteq> [] \<and> v \<noteq> ''NULL'' \<and> (\<forall>c \<in> set v. c \<notin> {CHR ''{'', CHR ''}'', CHR '','', QUOTE})"

lemma bare_elem_stop:
  "\<forall>c \<in> set v. c \<noteq> del \<and> c \<noteq> CHR ''}'' \<Longrightarrow> d = del \<or> d = CHR ''}'' \<Longrightarrow>
   bare_elem del (v @ d # rest) i elem = Some (elem @ v, d # rest, i + length v)"
  by (induction v arbitrary: i elem) auto

lemma element_bare:
  assumes "bare v" and "d = CHR '','' \<or> d = CHR ''}''"
  shows "element_label (CHR '','') (v @ d # rest) i depth dims elems =
     after_element (CHR '','') (d # rest) (i + length v) depth dims (elems @ [Some v])"
proof -
  obtain c cs where v: "v = c # cs" using assms(1) by (cases v) (auto simp: bare_def)
  have "bare_elem (CHR '','') (v @ d # rest) i [] = Some ([] @ v, d # rest, i + length v)"
    using assms by (intro bare_elem_stop) (auto simp: bare_def)
  then show ?thesis using assms(1) unfolding v by (auto simp: bare_def simp del: bare_elem.simps after_element.simps)
qed

lemma after_element_bare:
  assumes "length elems = Suc n" and "\<forall>x \<in> set xs. bare x"
  shows "after_element (CHR '','') (concat (map (\<lambda>v. CHR '','' # v) xs) @ ''}'') i 1 [n] elems =
     Inr (Inr ([Suc (n + length xs)], elems @ map Some xs))"
  using assms
proof (induction xs arbitrary: i n elems)
  case Nil
  then show ?case by (simp add: finish_dims_def)
next
  case (Cons x xs)
  obtain d rest where d: "concat (map (\<lambda>v. CHR '','' # v) xs) @ ''}'' = d # rest" "d = CHR '','' \<or> d = CHR ''}''"
    by (cases xs) auto
  from Cons.IH [of "elems @ [Some x]" "Suc n"] Cons.prems show ?case
    using element_bare [of x d rest] d by (simp del: element_label.simps)
qed

lemma parseArray_bare:
  assumes "\<forall>v \<in> set (x # xs). bare v"
  shows "parseArray (CHR ''{'' # x @ concat (map (\<lambda>v. CHR '','' # v) xs) @ ''}'') (CHR '','') =
     Inr (Inr ([Suc (length xs)], map Some (x # xs)))"
proof -
  let ?rest = "concat (map (\<lambda>v. CHR '','' # v) xs) @ ''}''"
  obtain d rest where d: "?rest = d # rest" "d = CHR '','' \<or> d = CHR ''}''" by (cases xs) auto
  obtain c cs where x: "x = c # cs" "c \<noteq> CHR ''{''" "c \<noteq> CHR ''}''" using assms by (cases x) (auto simp: bare_def)
  have "open_label (CHR '','') (x @ ?rest) 1 1 = element_label (CHR '','') (x @ ?rest) 1 1 [0] []"
    using x by (simp del: element_label.simps)
  also have "\<dots> = Inr (Inr ([Suc (length xs)], map Some (x # xs)))"
    using after_element_bare [of "[Some x]" 0 xs] element_bare [of x d rest] d assms by (simp del: element_label.simps after_element.simps)
  finally show ?thesis by (simp add: parseArray_def)
qed

lemma Float32Array_Value_Cons:
  "Float32Array_Value fmt (Some (x # xs)) = Some (CHR ''{'' # fmt x @ concat (map (\<lambda>v. CHR '','' # v) (map fmt xs)) @ ''}'')"
proof -
  have "foldl (\<lambda>b v. b @ '','' @ fmt v) b xs = b @ concat (map (\<lambda>v. CHR '','' # v) (map fmt xs))" for b
    by (induction xs arbitrary: b) simp_all
  then show ?thesis by (simp add: Float32Array_Value_def)
qed

lemma parse_floats_inverse: "\<forall>x \<in> set xs. parse (fmt x) = Inr x \<Longrightarrow> parse_floats parse i (map Some (map fmt xs)) = Inr xs"
  by (induction xs arbitrary: i) simp_all

lemma StringArray_Value_Cons:
  "StringArray_Value (Some (x # xs)) =
     Some (CHR ''{'' # quoted x @ concat (map (\<lambda>v. CHR '','' # quoted v) xs) @ ''}'')"
proof -
  have "foldl (\<lambda>b v. appendArrayQuotedBytes (b @ '','') v) b xs =
      b @ concat (map (\<lambda>v. CHR '','' # quoted v) xs)" for b
    by (induction xs arbitrary: b) (simp_all add: appendArrayQuotedBytes_def quoted_def)
  then show ?thesis
    by (simp add: StringArray_Value_def appendArrayQuotedBytes_def [of "''{''"] quoted_def [of x])
qed

lemma parseArray_Value:
  "parseArray (CHR ''{'' # quoted x @ concat (map (\<lambda>v. CHR '','' # quoted v) xs) @ ''}'') (CHR '','') =
     Inr (Inr ([Suc (length xs)], map Some (x # xs)))"
proof -
  let ?rest = "concat (map (\<lambda>v. CHR '','' # quoted v) xs) @ ''}''"
  have "open_label (CHR '','') (quoted x @ ?rest) 1 1 = element_label (CHR '','') (quoted x @ ?rest) 1 1 [0] []"
    by (simp add: quoted_def del: element_label.simps)
  also have "\<dots> = Inr (Inr ([Suc (length xs)], map Some (x # xs)))"
    using after_element_tail [of "[Some x]" 0 xs "Suc (length (quoted x))"] by (simp add: element_quoted del: element_label.simps)
  finally show ?thesis by (simp add: parseArray_def)
qed

lemma all_elems_Some: "all_elems i (map Some xs) = Inr xs"
  by (induction xs arbitrary: i) simp_all

section \<open>Properties\<close>

text \<open>C10: reading back what was written. For every array of strings, with any characters in them,
  scanning the text that \<open>Value\<close> gives restores the array, whatever the variable held before.\<close>

theorem StringArray_roundtrip:
  "\<exists>t. StringArray_Value (Some xs) = Some t \<and> StringArray_Scan a (SrcString t) = Inr (Inr (Some xs))"
proof (cases xs)
  case Nil
  then show ?thesis
    by (simp add: StringArray_Value_def StringArray_Scan_def StringArray_scanBytes_def scanLinearArray_def
        parseArray_def finish_dims_def)
next
  case (Cons y ys)
  let ?t = "CHR ''{'' # quoted y @ concat (map (\<lambda>v. CHR '','' # quoted v) ys) @ ''}''"
  have "scanLinearArray ?t (CHR '','') = Inr (Inr (map Some xs))"
    by (simp only: scanLinearArray_def parseArray_Value bind_sum_simps) (simp add: Cons)
  then have "StringArray_scanBytes a ?t = Inr (Inr (Some xs))"
    by (simp add: StringArray_scanBytes_def all_elems_Some Cons)
  then show ?thesis by (simp add: Cons StringArray_Value_Cons StringArray_Scan_def)
qed

text \<open>C27: scanning never panics. On every input, also malformed, \<open>Scan\<close> returns a value or an error:
  no index is out of range and no dimension is zero when the dimensions are checked.\<close>

theorem StringArray_Scan_no_panic: "\<exists>r. StringArray_Scan a src = Inr r"
proof -
  have "\<exists>r. StringArray_scanBytes a s = Inr r" for s
  proof -
    have "\<exists>p. parseArray s (CHR '','') = Inr p"
      using open_label_no_panic [of "CHR '',''" s 0]
      by (cases s) (auto simp: parseArray_def simp del: open_label.simps)
    then obtain p where "parseArray s (CHR '','') = Inr p" by blast
    then obtain q where "scanLinearArray s (CHR '','') = Inr q" by (simp add: scanLinearArray_def)
    then show ?thesis by (simp add: StringArray_scanBytes_def)
  qed
  then show ?thesis by (auto simp: StringArray_Scan_def split: scan_source.split)
qed

text \<open>Floats read back. An array of floats is restored from the text that \<open>Value\<close> gives, provided that parsing inverts formatting for its
  elements and that their texts are numbers: not empty, not NULL and without the characters that have a meaning in arrays.\<close>

theorem Float32Array_roundtrip:
  assumes "\<forall>x \<in> set xs. ParseFloat (FormatFloat x) = Inr x" and "\<forall>x \<in> set xs. bare (FormatFloat x)"
  shows "\<exists>t. Float32Array_Value FormatFloat (Some xs) = Some t \<and> Float32Array_Scan ParseFloat a (SrcString t) = Inr (Inr (Some xs))"
proof (cases xs)
  case Nil
  then show ?thesis
    by (simp add: Float32Array_Value_def Float32Array_Scan_def Float32Array_scanBytes_def scanLinearArray_def parseArray_def finish_dims_def)
next
  case (Cons y ys)
  let ?t = "CHR ''{'' # FormatFloat y @ concat (map (\<lambda>v. CHR '','' # v) (map FormatFloat ys)) @ ''}''"
  have "parseArray ?t (CHR '','') = Inr (Inr ([Suc (length ys)], map Some (map FormatFloat xs)))"
    using parseArray_bare [of "FormatFloat y" "map FormatFloat ys"] assms(2) by (simp add: Cons)
  then have "scanLinearArray ?t (CHR '','') = Inr (Inr (map Some (map FormatFloat xs)))" by (simp only: scanLinearArray_def bind_sum_simps) simp
  then have "Float32Array_scanBytes ParseFloat a ?t = Inr (Inr (Some xs))"
    using parse_floats_inverse [OF assms(1), of 0] by (simp add: Float32Array_scanBytes_def Cons)
  then show ?thesis by (simp add: Cons Float32Array_Value_Cons Float32Array_Scan_def del: map_map)
qed

theorem Float32Array_roundtrip_witness:
  "\<exists>t. Float32Array_Value (\<lambda>b. if b then ''1.5'' else ''0'') (Some [True, False]) = Some t \<and>
     Float32Array_Scan (\<lambda>t. if t = ''1.5'' then Inr True else if t = ''0'' then Inr False else Inl ''invalid syntax'') None (SrcString t) =
       Inr (Inr (Some [True, False]))"
  by (rule Float32Array_roundtrip) (simp_all add: bare_def)

end
