(* ===== verification/Dsn.thy ===== *)
theory Dsn
  imports Prelude
begin

text \<open>
  Connection strings: \<open>internal/sqltooling/conn.go\<close>, which prints the \<open>key='value'\<close> form, and
  \<open>internal/rdb/internal/driver/dsn.go\<close>, which parses it to label metrics and spans with host,
  database and user.

  Texts are sequences of code points here (the scanner works on \<open>[]rune\<close>), so a Go string is its
  decoded form. The functions of \<open>net/url\<close> and \<open>net\<close> that \<open>parseURL\<close> and \<open>parseDSN\<close> call are the
  fields of the record \<open>url_lib\<close>.
\<close>

type_synonym rune = nat
type_synonym runes = "rune list"

definition lit :: "string \<Rightarrow> runes" where
  "lit s = map of_char s"

abbreviation (input) r_eq :: rune where "r_eq \<equiv> 61"
abbreviation (input) r_quote :: rune where "r_quote \<equiv> 39"
abbreviation (input) r_back :: rune where "r_back \<equiv> 92"
abbreviation (input) r_semi :: rune where "r_semi \<equiv> 59"
abbreviation (input) r_space :: rune where "r_space \<equiv> 32"

text \<open>\<open>unicode.IsSpace\<close>.\<close>

definition IsSpace :: "rune \<Rightarrow> bool" where
  "IsSpace r \<longleftrightarrow>
     (9 \<le> r \<and> r \<le> 13) \<or> r = 32 \<or> r = 0x85 \<or> r = 0xA0 \<or> r = 0x1680 \<or>
     (0x2000 \<le> r \<and> r \<le> 0x200a) \<or> r = 0x2028 \<or> r = 0x2029 \<or> r = 0x202f \<or> r = 0x205f \<or> r = 0x3000"

section \<open>Printing (conn.go)\<close>

text \<open>\<open>strings.Replace s old new n\<close> for a one-rune \<open>old\<close>: the first \<open>n\<close> occurrences.\<close>

fun Replace :: "rune \<Rightarrow> runes \<Rightarrow> nat \<Rightarrow> runes \<Rightarrow> runes" where
  "Replace old new n [] = []"
| "Replace old new n (r # rs) =
     (if r = old \<and> 0 < n then new @ Replace old new (n - 1) rs else r # Replace old new n rs)"

definition escapeForPostgres :: "runes \<Rightarrow> runes" where
  "escapeForPostgres v =
     Replace r_quote [r_back, r_quote] 100 (Replace r_back [r_back, r_back] 100 v)"

record ConnStringKV =
  cs_Host :: runes
  cs_Database :: runes
  cs_User :: runes
  cs_Password :: runes
  cs_Port :: int
  cs_SSLMode :: runes

definition kvPairs :: "ConnStringKV \<Rightarrow> (runes \<times> runes) list" where
  "kvPairs cs =
     [(lit ''host'', cs_Host cs),
      (lit ''database'', cs_Database cs),
      (lit ''user'', cs_User cs),
      (lit ''password'', cs_Password cs),
      (lit ''port'', lit (show_int (cs_Port cs))),
      (lit ''sslmode'', if cs_SSLMode cs = [] then lit ''disable'' else cs_SSLMode cs),
      (lit ''client_encoding'', lit ''UTF8'')]"

definition print_pair :: "runes \<times> runes \<Rightarrow> runes" where
  "print_pair p = fst p @ [r_eq, r_quote] @ escapeForPostgres (snd p) @ [r_quote]"

fun join_space :: "runes list \<Rightarrow> runes" where
  "join_space [] = []"
| "join_space [s] = s"
| "join_space (s # t # ss) = s @ [r_space] @ join_space (t # ss)"

definition KVConnectionString :: "ConnStringKV \<Rightarrow> runes" where
  "KVConnectionString cs = join_space (map print_pair (kvPairs cs))"

section \<open>Scanning (dsn.go)\<close>

text \<open>The scanner is the list of runes not read yet.\<close>

fun Next :: "runes \<Rightarrow> (rune \<times> bool) \<times> runes" where
  "Next [] = ((0, False), [])"
| "Next (r # rs) = ((r, True), rs)"

fun SkipSpaces :: "runes \<Rightarrow> (rune \<times> bool) \<times> runes" where
  "SkipSpaces [] = ((0, False), [])"
| "SkipSpaces (r # rs) = (if IsSpace r then SkipSpaces rs else ((r, True), rs))"

text \<open>The loop that collects a key from rune \<open>r\<close> on: the key, the current rune and whether there
  is one, the rest.\<close>

fun scan_key :: "rune \<Rightarrow> runes \<Rightarrow> runes \<Rightarrow> runes \<times> (rune \<times> bool) \<times> runes" where
  "scan_key r rs keyRunes =
     (if IsSpace r \<or> r = r_eq then (keyRunes, (r, True), rs)
      else (case rs of
              [] \<Rightarrow> (keyRunes @ [r], (0, False), [])
            | r' # rs' \<Rightarrow> scan_key r' rs' (keyRunes @ [r])))"

datatype dsn_error = MissingEquals runes | MissingAfterBackslash | UnterminatedQuote | WrongSchema

text \<open>The value loops: an unquoted value from rune \<open>r\<close> on, and a quoted one after its quote.\<close>

fun scan_bare :: "rune \<Rightarrow> runes \<Rightarrow> runes \<Rightarrow> dsn_error + (runes \<times> runes)" where
  "scan_bare r rs valRunes =
     (if IsSpace r \<or> r = r_semi then Inr (valRunes, rs)
      else if r = r_back then
        (case rs of
           [] \<Rightarrow> Inl MissingAfterBackslash
         | [r'] \<Rightarrow> Inr (valRunes @ [r'], [])
         | r' # r'' # rs'' \<Rightarrow> scan_bare r'' rs'' (valRunes @ [r']))
      else (case rs of
              [] \<Rightarrow> Inr (valRunes @ [r], [])
            | r' # rs' \<Rightarrow> scan_bare r' rs' (valRunes @ [r])))"

fun scan_quoted :: "runes \<Rightarrow> runes \<Rightarrow> dsn_error + (runes \<times> runes)" where
  "scan_quoted [] valRunes = Inl UnterminatedQuote"
| "scan_quoted (r # rs) valRunes =
     (if r = r_quote then Inr (valRunes, rs)
      else if r = r_back then
        (case rs of
           [] \<Rightarrow> Inl UnterminatedQuote
         | r' # rs' \<Rightarrow> scan_quoted rs' (valRunes @ [r']))
      else scan_quoted rs (valRunes @ [r]))"

type_synonym dsn_values = "runes \<rightharpoonup> runes"

text \<open>One pass of the loop of \<open>parseOpts\<close>: \<open>None\<close> when it breaks.\<close>

definition scan_pair :: "runes \<Rightarrow> (dsn_error + (runes \<times> runes \<times> runes)) option" where
  "scan_pair s =
     (case SkipSpaces s of
        ((_, False), _) \<Rightarrow> None
      | ((r, True), s1) \<Rightarrow>
          (let (keyRunes, (r1, ok1), s2) = scan_key r s1 [];
               ((r2, ok2), s3) = (if r1 \<noteq> r_eq then SkipSpaces s2 else ((r1, ok1), s2))
           in if r2 \<noteq> r_eq \<or> \<not> ok2 then Some (Inl (MissingEquals keyRunes))
              else (case SkipSpaces s3 of
                      ((_, False), s4) \<Rightarrow> Some (Inr (keyRunes, [], s4))
                    | ((r3, True), s4) \<Rightarrow>
                        (case (if r3 \<noteq> r_quote then scan_bare r3 s4 [] else scan_quoted s4 []) of
                           Inl e \<Rightarrow> Some (Inl e)
                         | Inr (valRunes, s5) \<Rightarrow> Some (Inr (keyRunes, valRunes, s5))))))"

lemma SkipSpaces_length: "SkipSpaces s = ((r, True), s') \<Longrightarrow> length s' < length s"
  by (induction s rule: SkipSpaces.induct) (auto split: if_splits)

lemma SkipSpaces_length_le: "SkipSpaces s = (x, s') \<Longrightarrow> length s' \<le> length s"
  by (induction s rule: SkipSpaces.induct) (auto split: if_splits)

lemma scan_key_length: "scan_key r rs acc = (k, x, s') \<Longrightarrow> length s' \<le> length rs"
  by (induction rs arbitrary: r acc) (auto split: if_splits simp: le_SucI)

lemma scan_bare_length: "scan_bare r rs acc = Inr (v, s') \<Longrightarrow> length s' \<le> length rs"
  by (induction r rs acc rule: scan_bare.induct)
    (subst (asm) scan_bare.simps, auto split: if_splits list.splits simp del: scan_bare.simps)

lemma scan_quoted_length: "scan_quoted rs acc = Inr (v, s') \<Longrightarrow> length s' \<le> length rs"
  by (induction rs acc rule: scan_quoted.induct)
    (auto split: if_splits list.splits)

lemma scan_pair_length:
  assumes "scan_pair s = Some (Inr (k, v, s'))"
  shows "length s' < length s"
proof -
  obtain r s1 where 1: "SkipSpaces s = ((r, True), s1)"
    using assms by (auto simp: scan_pair_def split: prod.splits bool.splits)
  obtain k1 r1 ok1 s2 where 2: "scan_key r s1 [] = (k1, (r1, ok1), s2)"
    by (metis surj_pair)
  obtain r2 ok2 s3 where 3: "(if r1 \<noteq> r_eq then SkipSpaces s2 else ((r1, ok1), s2)) = ((r2, ok2), s3)"
    by (metis surj_pair)
  obtain r3 ok3 s4 where 4: "SkipSpaces s3 = ((r3, ok3), s4)"
    by (metis surj_pair)
  have "length s' \<le> length s4"
    using assms unfolding scan_pair_def 1 2 prod.case bool.case Let_def 3 4
    by (auto split: if_splits bool.splits sum.splits simp del: scan_bare.simps
        dest: scan_bare_length scan_quoted_length)
  moreover have "length s3 \<le> length s2"
    using 3 by (auto split: if_splits dest: SkipSpaces_length_le)
  ultimately show ?thesis
    using SkipSpaces_length [OF 1] scan_key_length [OF 2] SkipSpaces_length_le [OF 4] by linarith
qed

text \<open>\<open>parseOpts\<close> with its map argument: the map as it is left, and the error.\<close>

function parseOpts :: "runes \<Rightarrow> dsn_values \<Rightarrow> dsn_values \<times> dsn_error option" where
  "parseOpts s ov =
     (case scan_pair s of
        None \<Rightarrow> (ov, None)
      | Some (Inl e) \<Rightarrow> (ov, Some e)
      | Some (Inr (k, v, s')) \<Rightarrow> parseOpts s' (ov(k \<mapsto> v)))"
  by pat_completeness auto
termination by (relation "measure (length \<circ> fst)") (auto dest: scan_pair_length)

declare parseOpts.simps [simp del] scan_key.simps [simp del] scan_bare.simps [simp del]

section \<open>URLs and the combined parser\<close>

record parsed_url =
  u_Scheme :: runes
  u_User :: "(runes \<times> runes option) option"
  u_Host :: runes
  u_Path :: runes
  u_Query :: "(runes \<times> runes) list"

text \<open>\<open>url.Parse\<close>, \<open>url.ParseQuery\<close> (the first value of every key) and \<open>net.SplitHostPort\<close>.\<close>

record url_lib =
  url_Parse :: "runes \<Rightarrow> parsed_url option"
  url_ParseQuery :: "runes \<Rightarrow> (runes \<times> runes) list option"
  net_SplitHostPort :: "runes \<Rightarrow> (runes \<times> runes) option"

definition accrue :: "runes \<Rightarrow> runes \<Rightarrow> dsn_values \<Rightarrow> dsn_values" where
  "accrue k v kvs = (if v \<noteq> [] then kvs(k \<mapsto> v) else kvs)"

definition parseURL :: "url_lib \<Rightarrow> runes \<Rightarrow> dsn_values option" where
  "parseURL L url =
     (case url_Parse L url of
        None \<Rightarrow> None
      | Some u \<Rightarrow>
          if u_Scheme u = [] then None
          else
            (let kvs1 = (case u_User u of
                           None \<Rightarrow> Map.empty
                         | Some (name, pw) \<Rightarrow>
                             accrue (lit ''password'') (case pw of None \<Rightarrow> [] | Some p \<Rightarrow> p)
                               (accrue (lit ''user'') name Map.empty));
                 kvs2 = (case net_SplitHostPort L (u_Host u) of
                           None \<Rightarrow> accrue (lit ''host'') (u_Host u) kvs1
                         | Some (h, p) \<Rightarrow> accrue (lit ''port'') p (accrue (lit ''host'') h kvs1));
                 kvs3 = (if u_Path u \<noteq> [] then accrue (lit ''database'') (tl (u_Path u)) kvs2 else kvs2)
             in Some (fold (\<lambda>(k, v). accrue k v) (u_Query u) kvs3)))"

text \<open>A map read as Go does: a missing key gives the empty text.\<close>

definition get :: "dsn_values \<Rightarrow> string \<Rightarrow> runes" where
  "get m k = (case m (lit k) of None \<Rightarrow> [] | Some v \<Rightarrow> v)"

definition dsn_values_of :: "url_lib \<Rightarrow> runes \<Rightarrow> dsn_values" where
  "dsn_values_of L dsn =
     (case parseURL L dsn of
        Some v \<Rightarrow> v
      | None \<Rightarrow>
          (case parseOpts dsn Map.empty of
             (v, None) \<Rightarrow> v
           | (_, Some _) \<Rightarrow>
               (case url_ParseQuery L dsn of
                  None \<Rightarrow> Map.empty
                | Some kvs \<Rightarrow> map_of kvs)))"

definition parseDSN :: "url_lib \<Rightarrow> runes \<Rightarrow> runes \<times> runes \<times> runes" where
  "parseDSN L dsn =
     (let v = dsn_values_of L dsn;
          host0 = (if get v ''host'' \<noteq> [] then get v ''host''
                   else if get v ''server'' \<noteq> [] then get v ''server'' else []);
          host = (if get v ''port'' \<noteq> [] then host0 @ lit '':'' @ get v ''port'' else host0);
          db = get v ''database'';
          user = (if get v ''user'' \<noteq> [] then get v ''user''
                  else if get v ''user id'' \<noteq> [] then get v ''user id'' else [])
      in (host, db, user))"

section \<open>What is printed is parsed back\<close>

text \<open>A text that \<open>escapeForPostgres\<close> escapes completely.\<close>

definition escapable :: "runes \<Rightarrow> bool" where
  "escapable v \<longleftrightarrow> count_list v r_back \<le> 100 \<and> count_list v r_quote \<le> 100"

lemma Replace_all:
  "count_list v old \<le> n \<Longrightarrow> Replace old new n v = concat (map (\<lambda>r. if r = old then new else [r]) v)"
  by (induction old new n v rule: Replace.induct) (auto split: if_splits)

lemma count_quote_doubled:
  "count_list (concat (map (\<lambda>r. if r = r_back then [r_back, r_back] else [r]) v)) r_quote
   = count_list v r_quote"
  by (induction v) auto

definition esc1 :: "rune \<Rightarrow> runes" where
  "esc1 r = (if r = r_back \<or> r = r_quote then [r_back, r] else [r])"

lemma escape_concat: "escapable v \<Longrightarrow> escapeForPostgres v = concat (map esc1 v)"
proof -
  assume "escapable v"
  then have "escapeForPostgres v =
      concat (map (\<lambda>r. if r = r_quote then [r_back, r_quote] else [r])
        (concat (map (\<lambda>r. if r = r_back then [r_back, r_back] else [r]) v)))"
    by (simp add: escapable_def escapeForPostgres_def Replace_all count_quote_doubled)
  also have "\<dots> = concat (map esc1 v)"
    by (induction v) (auto simp: esc1_def)
  finally show ?thesis .
qed

lemma scan_quoted_esc:
  "scan_quoted (concat (map esc1 v) @ r_quote # rest) acc = Inr (acc @ v, rest)"
  by (induction v arbitrary: acc) (auto simp: esc1_def)

text \<open>A key the scanner reads as it is.\<close>

definition plain_key :: "runes \<Rightarrow> bool" where
  "plain_key k \<longleftrightarrow> k \<noteq> [] \<and> (\<forall>r \<in> set k. \<not> IsSpace r \<and> r \<noteq> r_eq)"

lemma IsSpace_marks [simp]: "\<not> IsSpace r_eq" "\<not> IsSpace r_quote" "IsSpace r_space"
  by (simp_all add: IsSpace_def)

lemma scan_key_plain:
  assumes "\<forall>r' \<in> set (r # k). \<not> IsSpace r' \<and> r' \<noteq> r_eq"
  shows "scan_key r (k @ r_eq # rest) acc = (acc @ r # k, (r_eq, True), rest)"
  using assms
proof (induction k arbitrary: r acc)
  case Nil
  then show ?case by (simp add: scan_key.simps)
next
  case (Cons a k)
  then show ?case by (subst scan_key.simps) simp
qed

lemma scan_pair_printed:
  assumes "plain_key k" and "escapable v"
  shows "scan_pair (print_pair (k, v) @ rest) = Some (Inr (k, v, rest))"
proof -
  obtain r k' where k: "k = r # k'" using assms(1) by (cases k) (auto simp: plain_key_def)
  then have ok: "\<forall>r' \<in> set (r # k'). \<not> IsSpace r' \<and> r' \<noteq> r_eq" using assms(1) by (simp add: plain_key_def)
  then show ?thesis
    by (simp add: scan_pair_def print_pair_def k escape_concat assms(2) scan_key_plain scan_quoted_esc)
qed

lemma scan_pair_space: "scan_pair (r_space # s) = scan_pair s"
  by (simp add: scan_pair_def)

lemma parseOpts_space: "parseOpts (r_space # s) ov = parseOpts s ov"
  by (subst (1 2) parseOpts.simps) (simp add: scan_pair_space)

lemma parseOpts_printed:
  assumes "\<forall>(k, v) \<in> set kvs. plain_key k \<and> escapable v"
  shows "parseOpts (join_space (map print_pair kvs)) ov = (ov ++ map_of (rev kvs), None)"
  using assms
proof (induction kvs arbitrary: ov)
  case Nil
  then show ?case by (simp add: parseOpts.simps scan_pair_def)
next
  case (Cons p kvs)
  obtain k v where p: "p = (k, v)" by (cases p)
  have pair: "scan_pair (print_pair (k, v) @ rest) = Some (Inr (k, v, rest))" for rest
    using Cons.prems by (simp add: p scan_pair_printed)
  have step: "parseOpts (print_pair (k, v) @ rest) ov = parseOpts rest (ov(k \<mapsto> v))" for rest
    by (subst parseOpts.simps) (simp add: pair)
  have IH: "parseOpts (join_space (map print_pair kvs)) (ov(k \<mapsto> v)) = (ov(k \<mapsto> v) ++ map_of (rev kvs), None)"
    using Cons by simp
  have "parseOpts (join_space (map print_pair (p # kvs))) ov
      = parseOpts (join_space (map print_pair kvs)) (ov(k \<mapsto> v))"
    using step [of "[]"] step
    by (cases kvs) (simp_all add: p parseOpts_space)
  then show ?case by (simp add: IH p map_add_def fun_eq_iff split: option.split)
qed

lemma Replace_absent: "old \<notin> set v \<Longrightarrow> Replace old new n v = v"
  by (induction old new n v rule: Replace.induct) auto


lemma escapable_no_special: "r_back \<notin> set v \<Longrightarrow> r_quote \<notin> set v \<Longrightarrow> escapable v"
  by (simp add: escapable_def count_list_0_iff)

lemma show_int_escapable: "escapable (lit (show_int p))"
proof -
  have "\<forall>c \<in> set (show_int p). is_digit c \<or> c = CHR ''-''"
    using show_nat_digits by (auto simp: show_int_def list_all_iff)
  then have "\<forall>c \<in> set (show_int p). of_char c \<noteq> (r_back :: nat) \<and> of_char c \<noteq> (r_quote :: nat)"
    by (auto simp: is_digit_def)
  then show ?thesis by (intro escapable_no_special) (auto simp: lit_def)
qed

definition escapable_fields :: "ConnStringKV \<Rightarrow> bool" where
  "escapable_fields cs \<longleftrightarrow> escapable (cs_Host cs) \<and> escapable (cs_Database cs) \<and>
     escapable (cs_User cs) \<and> escapable (cs_SSLMode cs)"

lemma lit_escapable:
  "escapable (lit ''disable'')" "escapable (lit ''UTF8'')"
  by (simp_all add: escapable_def lit_def)

lemma keys_plain:
  "plain_key (lit ''host'')" "plain_key (lit ''database'')" "plain_key (lit ''user'')"
  "plain_key (lit ''password'')" "plain_key (lit ''port'')" "plain_key (lit ''sslmode'')"
  "plain_key (lit ''client_encoding'')"
  by (simp_all add: plain_key_def lit_def IsSpace_def)

lemma kvPairs_printable:
  "escapable_fields cs \<Longrightarrow> escapable (cs_Password cs) \<Longrightarrow>
   \<forall>(k, v) \<in> set (kvPairs cs). plain_key k \<and> escapable v"
  by (simp add: kvPairs_def escapable_fields_def keys_plain lit_escapable show_int_escapable)

lemma kvPairs_rev: "map_of (rev (kvPairs cs)) = map_of (kvPairs cs)"
proof (rule map_of_inject_set [THEN iffD2])
  have "distinct (map fst (kvPairs cs))" by (simp add: kvPairs_def lit_def)
  then show "distinct (map fst (kvPairs cs))" "distinct (map fst (rev (kvPairs cs)))"
    by (simp_all flip: rev_map)
qed simp

lemma kvPairs_get:
  "get (map_of (kvPairs cs)) ''host'' = cs_Host cs"
  "get (map_of (kvPairs cs)) ''database'' = cs_Database cs"
  "get (map_of (kvPairs cs)) ''user'' = cs_User cs"
  "get (map_of (kvPairs cs)) ''port'' = lit (show_int (cs_Port cs))"
  "get (map_of (kvPairs cs)) ''user id'' = []"
  by (simp_all add: kvPairs_def get_def lit_def)

lemma parseOpts_KV:
  assumes "escapable_fields cs" and "escapable (cs_Password cs)"
  shows "parseOpts (KVConnectionString cs) Map.empty = (map_of (kvPairs cs), None)"
  using parseOpts_printed [OF kvPairs_printable [OF assms], of Map.empty]
  by (simp add: KVConnectionString_def kvPairs_rev)

text \<open>C26: parsing the \<open>key='value'\<close> connection string that \<open>KVConnectionString\<close> prints gives
  back exactly its pairs, whatever quotes, backslashes, spaces or other runes the values hold, as
  long as no value has more than 100 quotes or 100 backslashes.\<close>

theorem KVConnectionString_roundtrip:
  assumes "\<forall>(k, v) \<in> set (kvPairs cs). count_list v r_back \<le> 100 \<and> count_list v r_quote \<le> 100"
  shows "parseOpts (KVConnectionString cs) Map.empty = (map_of (kvPairs cs), None)"
proof (rule parseOpts_KV)
  show "escapable_fields cs" "escapable (cs_Password cs)"
    using assms by (auto simp: kvPairs_def escapable_fields_def escapable_def split: if_splits)
qed

definition sample_cs :: ConnStringKV where
  "sample_cs = \<lparr>cs_Host = lit ''db.local'', cs_Database = lit ''it's'', cs_User = lit ''me'',
     cs_Password = [r_back, r_quote, r_space], cs_Port = 5432, cs_SSLMode = []\<rparr>"

lemma show_int_5432: "show_int 5432 = ''5432''"
  by (simp add: show_int_def show_nat.simps digit_char_def char_of_eq_iff take_bit_nat_eq_self_iff)

lemmas sample_simps = sample_cs_def kvPairs_def lit_def show_int_5432

theorem KVConnectionString_roundtrip_witness:
  "parseOpts (KVConnectionString sample_cs) Map.empty = (map_of (kvPairs sample_cs), None) \<and>
   map_of (kvPairs sample_cs) (lit ''password'') = Some [r_back, r_quote, r_space]"
proof
  show "parseOpts (KVConnectionString sample_cs) Map.empty = (map_of (kvPairs sample_cs), None)"
    by (rule KVConnectionString_roundtrip) (simp add: sample_simps)
  show "map_of (kvPairs sample_cs) (lit ''password'') = Some [r_back, r_quote, r_space]"
    by (simp add: sample_simps)
qed

text \<open>\<open>parseDSN\<close> reads host, database and user of a printed connection string. The string is
  not taken for a URL because it has no scheme.\<close>

theorem parseDSN_KV:
  assumes "\<forall>(k, v) \<in> set (kvPairs cs). count_list v r_back \<le> 100 \<and> count_list v r_quote \<le> 100"
    and "\<forall>u. url_Parse L (KVConnectionString cs) = Some u \<longrightarrow> u_Scheme u = []"
    and "cs_Host cs \<noteq> []"
  shows "parseDSN L (KVConnectionString cs)
    = (cs_Host cs @ lit '':'' @ lit (show_int (cs_Port cs)), cs_Database cs, cs_User cs)"
proof -
  have fields: "escapable_fields cs" "escapable (cs_Password cs)"
    using assms(1) by (auto simp: kvPairs_def escapable_fields_def escapable_def split: if_splits)
  have "parseURL L (KVConnectionString cs) = None"
    using assms(2) by (auto simp: parseURL_def split: option.split)
  then have "dsn_values_of L (KVConnectionString cs) = map_of (kvPairs cs)"
    by (simp add: dsn_values_of_def parseOpts_KV [OF fields])
  moreover have "lit (show_int (cs_Port cs)) \<noteq> []"
    by (simp add: lit_def show_int_def show_nat_nonempty)
  ultimately show ?thesis using assms(3) by (simp add: parseDSN_def kvPairs_get Let_def)
qed

text \<open>The library that takes no text for a URL, and a query parser that reads nothing.\<close>

definition no_urls :: url_lib where
  "no_urls = \<lparr>url_Parse = (\<lambda>_. None), url_ParseQuery = (\<lambda>_. None), net_SplitHostPort = (\<lambda>_. None)\<rparr>"

theorem parseDSN_KV_witness:
  "parseDSN no_urls (KVConnectionString sample_cs) = (lit ''db.local:5432'', lit ''it's'', lit ''me'')"
proof -
  have "parseDSN no_urls (KVConnectionString sample_cs)
    = (cs_Host sample_cs @ lit '':'' @ lit (show_int (cs_Port sample_cs)), cs_Database sample_cs, cs_User sample_cs)"
    by (rule parseDSN_KV) (simp_all add: sample_simps no_urls_def)
  also have "\<dots> = (lit ''db.local:5432'', lit ''it's'', lit ''me'')" by (simp add: sample_simps)
  finally show ?thesis .
qed

section \<open>The limit of the escaping\<close>

text \<open>A password that ends the quoted value early and goes on with a key of its own.\<close>

definition injection :: "runes \<Rightarrow> runes" where
  "injection evil = replicate 101 r_quote @ lit '' host='' @ [r_quote] @ evil"

definition injected_pairs :: "ConnStringKV \<Rightarrow> runes \<Rightarrow> (runes \<times> runes) list" where
  "injected_pairs cs evil =
     take 3 (kvPairs cs) @ [(lit ''password'', replicate 100 r_quote), (lit ''host'', evil)] @ drop 4 (kvPairs cs)"

lemma Replace_prefix:
  "Replace old new n (replicate n old @ v) = concat (replicate n new) @ Replace old new 0 v"
  by (induction n) auto

lemma Replace_0: "Replace old new 0 v = v"
  by (induction v) auto

lemma count_replicate: "count_list (replicate n x) y = (if x = y then n else 0)"
  by (induction n) auto

lemma escape_quotes: "escapeForPostgres (replicate 100 r_quote) = concat (replicate 100 [r_back, r_quote])"
  using Replace_prefix [of r_quote "[r_back, r_quote]" 100 "[]"]
  by (simp add: escapeForPostgres_def Replace_absent)

lemma escape_injection:
  assumes "r_back \<notin> set evil"
  shows "escapeForPostgres (injection evil)
    = concat (replicate 100 [r_back, r_quote]) @ [r_quote] @ lit '' host='' @ [r_quote] @ evil"
proof -
  have "r_back \<notin> set (injection evil)"
    using assms by (auto simp: injection_def lit_def)
  then have "Replace r_back [r_back, r_back] 100 (injection evil) = injection evil"
    by (rule Replace_absent)
  moreover have "injection evil = replicate 100 r_quote @ [r_quote] @ lit '' host='' @ [r_quote] @ evil"
    by (simp add: injection_def replicate_app_Cons_same flip: replicate_Suc)
  ultimately show ?thesis
    by (simp only: escapeForPostgres_def Replace_prefix Replace_0)
qed

lemma KV_injection:
  assumes "cs_Password cs = injection evil" and "r_back \<notin> set evil" and "r_quote \<notin> set evil"
  shows "KVConnectionString cs = join_space (map print_pair (injected_pairs cs evil))"
proof -
  have evil: "escapeForPostgres evil = evil"
    using assms(2,3) by (simp add: escapeForPostgres_def Replace_absent)
  have "print_pair (lit ''password'', injection evil)
      = print_pair (lit ''password'', replicate 100 r_quote) @ [r_space] @ print_pair (lit ''host'', evil)"
    unfolding print_pair_def fst_conv snd_conv escape_injection [OF assms(2)] escape_quotes evil
    by (simp add: lit_def)
  then show ?thesis
    by (simp add: KVConnectionString_def injected_pairs_def kvPairs_def assms(1))
qed

text \<open>The escaping stops after 100 replacements, so a password of more than 100 quotes is not
  escaped to its end and can set other connection parameters: this one replaces the host by any
  text without quotes and backslashes.\<close>

theorem escape_limit_injection:
  assumes "cs_Password cs = injection evil"
    and "r_back \<notin> set evil" and "r_quote \<notin> set evil"
    and "\<forall>v \<in> {cs_Host cs, cs_Database cs, cs_User cs, cs_SSLMode cs}.
           count_list v r_back \<le> 100 \<and> count_list v r_quote \<le> 100"
  shows "fst (parseOpts (KVConnectionString cs) Map.empty) (lit ''host'') = Some evil"
proof -
  have "\<forall>(k, v) \<in> set (injected_pairs cs evil). plain_key k \<and> escapable v"
    using assms(2-4)
    by (simp add: injected_pairs_def kvPairs_def keys_plain lit_escapable show_int_escapable
        escapable_no_special) (simp add: escapable_def count_replicate)
  from parseOpts_printed [OF this, of Map.empty] show ?thesis
    by (simp add: KV_injection [OF assms(1-3)] injected_pairs_def kvPairs_def map_add_def lit_def)
qed

theorem escape_limit_injection_witness:
  "fst (parseOpts (KVConnectionString (sample_cs\<lparr>cs_Password := injection (lit ''evil.example'')\<rparr>)) Map.empty)
     (lit ''host'') = Some (lit ''evil.example'')"
  by (rule escape_limit_injection) (simp_all add: sample_cs_def lit_def)

end
