(* ===== verification/Rdb_Tx.thy ===== *)
theory Rdb_Tx
  imports Status
begin

text \<open>
  Database transactions: \<open>internal/rdb/rdb.go\<close>, \<open>tx.go\<close>, \<open>retries.go\<close> and
  \<open>internal/rdb/internal/pgretries\<close>.

  The state of a program that uses the database is a record of the cells that
  \<open>var p []TxCallback\<close> allocates (a pointer is the index of its cell, so that contexts that share
  a pointer share the callbacks) and of everything else, of type \<open>'w\<close>. \<open>database/sql\<close> is
  the record \<open>sql\<close>, and \<open>retry.Do\<close> of \<open>github.com/kamilsk/retry\<close> is an argument \<open>run\<close> that gets
  the strategy and the action.
\<close>

section \<open>Which errors are retried (pgretries)\<close>

definition op_target :: "gerr \<Rightarrow> unit option" where
  "op_target e = (case e of OpErr _ _ _ \<Rightarrow> Some () | _ \<Rightarrow> None)"

definition retryable_codes :: "string list" where
  "retryable_codes = [''08006'', ''08000'', ''57P01'', ''57000'', ''57P02'', ''53300'', ''57P03'']"

text \<open>The last line compares with a pointer to a fresh \<open>pgconn.ConnectError\<close>, which no error is.\<close>

definition isRetryable :: "gerr \<Rightarrow> bool" where
  "isRetryable err =
     (if errors_Is ContextCanceled err \<or> errors_Is ContextDeadlineExceeded err then False
      else case errors_As dns_target err of
        Some r \<Rightarrow> \<not> str_contains r ''operation was canceled''
      | None \<Rightarrow>
          (case errors_As op_target err of
             Some _ \<Rightarrow> True
           | None \<Rightarrow>
               (case errors_As pg_target err of
                  Some c \<Rightarrow> c \<in> set retryable_codes
                | None \<Rightarrow> False)))"

text \<open>The first function of \<open>Strategy\<close>: whether attempt number \<open>attempt\<close> is made after \<open>err\<close>.\<close>

definition Strategy_allows :: "nat \<Rightarrow> gerr option \<Rightarrow> bool" where
  "Strategy_allows attempt err =
     (if attempt = 0 then True else (case err of None \<Rightarrow> False | Some e \<Rightarrow> isRetryable e))"

datatype how = Strategy | NoOp

section \<open>State\<close>

record 'w tx_state =
  cells :: "('w \<Rightarrow> 'w) list list"
  world :: 'w

record tx_context =
  TxKey :: "nat option"
  TxRollbackKey :: "nat option"
  afterCommitCallbacksKey :: "nat option"

text \<open>\<open>database/sql\<close>: a transaction is named by a number. \<open>ctx_Err\<close> is the state of the context
  that \<open>beginTx\<close> got.\<close>

record 'w sql =
  BeginTxx :: "'w \<Rightarrow> (gerr + nat) \<times> 'w"
  tx_Rollback :: "nat \<Rightarrow> 'w \<Rightarrow> gerr option \<times> 'w"
  tx_Commit :: "nat \<Rightarrow> 'w \<Rightarrow> gerr option \<times> 'w"
  ctx_Err :: "'w \<Rightarrow> gerr option"

type_synonym 'w action = "'w tx_state \<Rightarrow> gerr option \<times> 'w tx_state"
type_synonym 'w tx_body = "tx_context \<Rightarrow> nat \<Rightarrow> 'w action"

definition on_world :: "('w \<Rightarrow> 'a \<times> 'w) \<Rightarrow> 'w tx_state \<Rightarrow> 'a \<times> 'w tx_state" where
  "on_world f s = (let (x, w) = f (world s) in (x, s\<lparr>world := w\<rparr>))"

definition ErrTxDone :: sentinel where
  "ErrTxDone = NamedError ''sql: transaction has already been committed or rolled back''"

definition errTransactionAborted :: gerr where
  "errTransactionAborted = Sentinel (NamedError ''transaction was aborted'')"

definition is_context_error :: "gerr \<Rightarrow> bool" where
  "is_context_error e \<longleftrightarrow> errors_Is ContextCanceled e \<or> errors_Is ContextDeadlineExceeded e"

section \<open>Operations (tx.go, rdb.go)\<close>

definition IsInsideTx :: "tx_context \<Rightarrow> bool" where
  "IsInsideTx ctx \<longleftrightarrow> TxKey ctx \<noteq> None"

definition TxRollbackFunc :: "'w sql \<Rightarrow> tx_context \<Rightarrow> ('w \<Rightarrow> gerr option \<times> 'w) option" where
  "TxRollbackFunc db ctx = map_option (tx_Rollback db) (TxRollbackKey ctx)"

text \<open>The loop over the callbacks: the slice is read once, before the first call.\<close>

definition run_callbacks :: "nat \<Rightarrow> 'w tx_state \<Rightarrow> 'w tx_state" where
  "run_callbacks p s = s\<lparr>world := fold (\<lambda>cb. cb) (cells s ! p) (world s)\<rparr>"

definition RegisterAfterCommitCallback ::
    "tx_context \<Rightarrow> ('w \<Rightarrow> 'w) \<Rightarrow> 'w tx_state \<Rightarrow> 'w tx_state panics" where
  "RegisterAfterCommitCallback ctx f s =
     (case afterCommitCallbacksKey ctx of
        Some p \<Rightarrow> Inr (s\<lparr>cells := (cells s)[p := cells s ! p @ [f]]\<rparr>)
      | None \<Rightarrow> Inl ''afterCommitCallbacks array not found in context'')"

definition rollback_text :: string where
  "rollback_text = ''failed to rollback transaction after error''"

definition commit_text :: string where
  "commit_text = ''failed to commit transaction''"

definition timeout_text :: string where
  "timeout_text = ''failed to commit rollbacked transaction (timeout)''"

definition finish_failed :: "'w sql \<Rightarrow> nat \<Rightarrow> gerr \<Rightarrow> 'w action" where
  "finish_failed db tx err s =
     (if is_context_error err then (Some err, s)
      else
        (let (oe, s') = on_world (tx_Rollback db tx) s in
         case oe of
           None \<Rightarrow> (Some err, s')
         | Some e \<Rightarrow>
             if \<not> errors_Is ErrTxDone e then (Some (FmtWraps rollback_text [err, e]), s')
             else (case ctx_Err db (world s') of
                     Some c \<Rightarrow> (Some (FmtWraps rollback_text [err, c]), s')
                   | None \<Rightarrow> (Some err, s'))))"

definition finish_ok :: "'w sql \<Rightarrow> tx_context \<Rightarrow> nat \<Rightarrow> 'w action" where
  "finish_ok db ctx tx s =
     (let (oe, s') = on_world (tx_Commit db tx) s in
      case oe of
        Some e \<Rightarrow>
          if is_context_error e then (Some (FmtWrap commit_text e), s')
          else if errors_Is ErrTxDone e then
            (case ctx_Err db (world s') of
               Some c \<Rightarrow> (Some (FmtWrap commit_text c), s')
             | None \<Rightarrow> (Some (FmtWrap timeout_text (Joined [e, errTransactionAborted])), s'))
          else (Some (FmtWrap commit_text (Joined [e, errTransactionAborted])), s')
      | None \<Rightarrow>
          (case afterCommitCallbacksKey ctx of
             Some p \<Rightarrow> (None, run_callbacks p s')
           | None \<Rightarrow> (None, s')))"

definition finishTx :: "'w sql \<Rightarrow> tx_context \<Rightarrow> nat \<Rightarrow> gerr option \<Rightarrow> 'w action" where
  "finishTx db ctx tx err s =
     (case err of Some e \<Rightarrow> finish_failed db tx e s | None \<Rightarrow> finish_ok db ctx tx s)"

definition beginTx :: "'w sql \<Rightarrow> 'w tx_state \<Rightarrow> (gerr + nat) \<times> 'w tx_state" where
  "beginTx db s =
     (let (r, s') = on_world (BeginTxx db) s in
      case r of
        Inl e \<Rightarrow> (Inl (FmtWrap ''could not open transaction'' e), s')
      | Inr tx \<Rightarrow> (Inr tx, s'))"

record 'w TxOptions =
  ContinueActive :: bool
  FIsIdempotent :: bool
  F :: "'w tx_body"

text \<open>The function that \<open>WithTx\<close> gives to \<open>retry.Do\<close>.\<close>

definition attempt_tx :: "'w sql \<Rightarrow> tx_context \<Rightarrow> 'w TxOptions \<Rightarrow> 'w action" where
  "attempt_tx db ctx opts s =
     (let (r, s1) = beginTx db s in
      case r of
        Inl e \<Rightarrow> (Some e, s1)
      | Inr tx \<Rightarrow>
          (let (err, s2) = F opts (ctx\<lparr>TxRollbackKey := Some tx, TxKey := Some tx\<rparr>) tx s1
           in finishTx db ctx tx err s2))"

definition WithTx ::
    "(how \<Rightarrow> 'w action \<Rightarrow> 'w action) \<Rightarrow> 'w sql \<Rightarrow> tx_context \<Rightarrow> 'w TxOptions \<Rightarrow> 'w action" where
  "WithTx run db ctx opts s =
     (case TxKey ctx of
        Some tx \<Rightarrow>
          if \<not> ContinueActive opts
          then (Some (ErrNew ''failed to begin new tx, tx already exists''), s)
          else F opts ctx tx s
      | None \<Rightarrow>
          (let p = length (cells s);
               s0 = s\<lparr>cells := cells s @ [[]]\<rparr>;
               ctx' = ctx\<lparr>afterCommitCallbacksKey := Some p\<rparr>
           in run (if FIsIdempotent opts then Strategy else NoOp) (attempt_tx db ctx' opts) s0))"

section \<open>Queries\<close>

datatype executor = InTx nat | OnSession

definition TxExecutorFromCtx :: "tx_context \<Rightarrow> executor" where
  "TxExecutorFromCtx ctx = (case TxKey ctx of Some tx \<Rightarrow> InTx tx | None \<Rightarrow> OnSession)"

text \<open>The destination of \<open>DB.Get\<close>: whether it is a non-nil pointer, to a slice or not, of a type
  that implements \<open>sql.Scanner\<close> or not. The source asks the type \<open>reflect.Value\<close>, not the type of
  the destination, whether it implements \<open>sql.Scanner\<close>; it does not.\<close>

datatype destination = NotAPointer | NilPointer | PointerTo (is_slice: bool) (is_scanner: bool)

record ('q, 'r) db_calls =
  BindNamed :: "executor \<Rightarrow> string \<Rightarrow> 'q \<Rightarrow> gerr + (string \<times> 'q)"
  call_Select :: "executor \<Rightarrow> string \<Rightarrow> 'q \<Rightarrow> gerr option"
  call_Get :: "executor \<Rightarrow> string \<Rightarrow> 'q \<Rightarrow> gerr option"
  call_Exec :: "executor \<Rightarrow> string \<Rightarrow> 'q \<Rightarrow> gerr + 'r"

definition reflect_Value_is_scanner :: bool where
  "reflect_Value_is_scanner = False"

definition DB_Get ::
    "('q, 'r) db_calls \<Rightarrow> tx_context \<Rightarrow> destination \<Rightarrow> string \<Rightarrow> string \<Rightarrow> 'q \<Rightarrow> gerr option" where
  "DB_Get calls ctx dest name query arg =
     (let tx = TxExecutorFromCtx ctx in
      case BindNamed calls tx query arg of
        Inl err \<Rightarrow> Some err
      | Inr (q, args) \<Rightarrow>
          (case dest of
             PointerTo sl sc \<Rightarrow>
               if sl \<and> \<not> reflect_Value_is_scanner then call_Select calls tx q args else call_Get calls tx q args
           | _ \<Rightarrow> Some (ErrNew (''dest arg for '' @ name @ ''must be a non-nil pointer''))))"

definition DB_Exec ::
    "('q, 'r) db_calls \<Rightarrow> tx_context \<Rightarrow> string \<Rightarrow> 'q \<Rightarrow> gerr + 'r" where
  "DB_Exec calls ctx query arg =
     (let tx = TxExecutorFromCtx ctx in
      bind_sum (BindNamed calls tx query arg) (\<lambda>(q, args). call_Exec calls tx q args))"

text \<open>The methods of \<open>sqlxdbWrapper\<close>: the variable that the action assigns is part of the state of
  the action.\<close>

definition retried ::
    "(('r option \<times> 's \<Rightarrow> gerr option \<times> 'r option \<times> 's) \<Rightarrow> 'r option \<times> 's \<Rightarrow> gerr option \<times> 'r option \<times> 's)
     \<Rightarrow> ('s \<Rightarrow> (gerr option \<times> 'r option) \<times> 's) \<Rightarrow> 's \<Rightarrow> (gerr + 'r option) \<times> 's" where
  "retried run call s =
     (let (e, r, s') = run (\<lambda>(_, s). let ((e, r), s') = call s in (e, r, s')) (None, s)
      in case e of Some err \<Rightarrow> (Inl err, s') | None \<Rightarrow> (Inr r, s'))"

text \<open>The methods that return a value, and those that fill a destination, which is part of the
  state. \<open>call\<close> is the method of \<open>sqlx.DB\<close> with its arguments.\<close>

definition wrapper_QueryContext where "wrapper_QueryContext run call s = retried run call s"
definition wrapper_QueryxContext where "wrapper_QueryxContext run call s = retried run call s"
definition wrapper_ExecContext where "wrapper_ExecContext run call s = retried run call s"
definition wrapper_PrepareNamedContext where "wrapper_PrepareNamedContext run call s = retried run call s"

definition wrapper_SelectContext ::
    "(('s \<Rightarrow> gerr option \<times> 's) \<Rightarrow> 's \<Rightarrow> gerr option \<times> 's) \<Rightarrow> ('s \<Rightarrow> gerr option \<times> 's) \<Rightarrow> 's \<Rightarrow> gerr option \<times> 's" where
  "wrapper_SelectContext run call s = run call s"

definition wrapper_GetContext ::
    "(('s \<Rightarrow> gerr option \<times> 's) \<Rightarrow> 's \<Rightarrow> gerr option \<times> 's) \<Rightarrow> ('s \<Rightarrow> gerr option \<times> 's) \<Rightarrow> 's \<Rightarrow> gerr option \<times> 's" where
  "wrapper_GetContext run call s = run call s"

section \<open>What \<open>retry.Do\<close> promises\<close>

text \<open>\<open>n\<close> attempts, stopping at the first one that succeeds; \<open>last\<close> is the error before them.\<close>

fun attempts :: "nat \<Rightarrow> ('s \<Rightarrow> gerr option \<times> 's) \<Rightarrow> gerr option \<Rightarrow> 's \<Rightarrow> gerr option \<times> 's" where
  "attempts 0 act err s = (err, s)"
| "attempts (Suc n) act err s =
     (let (e, s') = act s in case e of None \<Rightarrow> (None, s') | Some _ \<Rightarrow> attempts n act e s')"

text \<open>A run of the action is one attempt and more attempts while they fail; it ends with the result
  of the last one, or with the context's error instead of a further one. With \<open>NoOp\<close> there is at
  most one.\<close>

definition honest_run :: "('s \<Rightarrow> gerr option \<times> 's) \<Rightarrow> 's \<Rightarrow> gerr option \<times> 's \<Rightarrow> bool" where
  "honest_run act s res \<longleftrightarrow>
     (\<exists>n. res = attempts (Suc n) act None s \<or>
          (\<exists>brk. fst (attempts n act (Some brk) s) \<noteq> None \<and> res = (Some brk, snd (attempts n act (Some brk) s))))"

definition honest_retries :: "(how \<Rightarrow> ('s \<Rightarrow> gerr option \<times> 's) \<Rightarrow> 's \<Rightarrow> gerr option \<times> 's) \<Rightarrow> bool" where
  "honest_retries run \<longleftrightarrow>
     (\<forall>act s. honest_run act s (run Strategy act s) \<and>
        (run NoOp act s = act s \<or> (\<exists>brk. run NoOp act s = (Some brk, s))))"

lemma attempts_success:
  "attempts n act err s = (None, s') \<Longrightarrow> err = None \<and> n = 0 \<and> s' = s \<or> (\<exists>s1. act s1 = (None, s'))"
proof (induction n arbitrary: err s)
  case (Suc n)
  then show ?case by (cases "act s") (fastforce split: option.splits)
qed simp

lemma honest_success:
  assumes "honest_run act s (None, s')"
  shows "\<exists>s1. act s1 = (None, s')"
proof -
  from assms obtain n where
    "(None, s') = attempts (Suc n) act None s \<or>
     (\<exists>brk. fst (attempts n act (Some brk) s) \<noteq> None \<and> (None, s') = (Some brk, snd (attempts n act (Some brk) s)))"
    unfolding honest_run_def by blast
  then have "attempts (Suc n) act None s = (None, s')"
    by (elim disjE exE conjE) (rule sym, assumption, simp)
  then show ?thesis using attempts_success [of "Suc n" act None s s'] by blast
qed

section \<open>The end of a transaction\<close>

lemma finish_failed_keeps:
  "\<exists>r w. finish_failed db tx e s = (Some r, s\<lparr>world := w\<rparr>) \<and> set (chain e) \<subseteq> set (chain r) \<and>
     w \<in> {world s, snd (tx_Rollback db tx (world s))}"
proof (cases "tx_Rollback db tx (world s)")
  case (Pair oe w)
  then show ?thesis
    by (cases "is_context_error e"; cases oe; cases "ctx_Err db w")
      (auto simp: finish_failed_def on_world_def intro: exI [of _ "world s"])
qed

lemma finish_ok_committed:
  assumes "tx_Commit db tx (world s) = (None, w)" and "afterCommitCallbacksKey ctx = Some p"
  shows "finish_ok db ctx tx s = (None, s\<lparr>world := fold (\<lambda>cb. cb) (cells s ! p) w\<rparr>)"
  using assms by (simp add: finish_ok_def on_world_def run_callbacks_def)

lemma finish_ok_failed:
  assumes "tx_Commit db tx (world s) = (Some e, w)"
  shows "\<exists>r. finish_ok db ctx tx s = (Some r, s\<lparr>world := w\<rparr>)"
  using assms by (cases "ctx_Err db w") (simp_all add: finish_ok_def on_world_def)

text \<open>C5: \<open>finishTx\<close> returns nil exactly when the body succeeded and the commit did. Then the callbacks
  registered in the transaction's context have run once, in the order of registration, after the
  commit; otherwise none has run. The error of a body is never lost: what \<open>finishTx\<close>
  returns wraps it, also when the rollback fails.\<close>

theorem finishTx_outcome:
  assumes "afterCommitCallbacksKey ctx = Some p"
  shows "case err of
      Some e \<Rightarrow> \<exists>r w. finishTx db ctx tx err s = (Some r, s\<lparr>world := w\<rparr>) \<and> set (chain e) \<subseteq> set (chain r) \<and>
                  w \<in> {world s, snd (tx_Rollback db tx (world s))}
    | None \<Rightarrow>
        (case tx_Commit db tx (world s) of
           (None, w) \<Rightarrow> finishTx db ctx tx err s = (None, s\<lparr>world := fold (\<lambda>cb. cb) (cells s ! p) w\<rparr>)
         | (Some e, w) \<Rightarrow> \<exists>r. finishTx db ctx tx err s = (Some r, s\<lparr>world := w\<rparr>))"
proof (cases err)
  case None
  obtain oe w where "tx_Commit db tx (world s) = (oe, w)" by fastforce
  then show ?thesis
    using finish_ok_failed [of db tx s _ w ctx] finish_ok_committed [of db tx s w, OF _ assms]
    by (cases oe) (simp_all add: None finishTx_def)
next
  case (Some e)
  then show ?thesis using finish_failed_keeps [of db tx e s] by (simp add: finishTx_def)
qed

text \<open>A database in which the first commit is refused because the server shuts down and every later
  one succeeds. The world counts the commits asked for and the callbacks run.\<close>

definition flaky_db :: "(nat \<times> nat) sql" where
  "flaky_db = \<lparr>BeginTxx = (\<lambda>w. (Inr 7, w)), tx_Rollback = (\<lambda>tx w. (None, w)),
     tx_Commit = (\<lambda>tx (n, m). (if n = 0 then Some (PgErr ''57P01'' ''terminating connection'') else None, (Suc n, m))),
     ctx_Err = (\<lambda>w. None)\<rparr>"

definition tx_ctx0 :: tx_context where
  "tx_ctx0 = \<lparr>TxKey = None, TxRollbackKey = None, afterCommitCallbacksKey = None\<rparr>"

definition count_callback :: "nat \<times> nat \<Rightarrow> nat \<times> nat" where
  "count_callback w = (fst w, Suc (snd w))"

theorem finishTx_outcome_witness:
  "finishTx flaky_db (tx_ctx0\<lparr>afterCommitCallbacksKey := Some 0\<rparr>) 7 None
     \<lparr>cells = [[count_callback, count_callback]], world = (1, 0)\<rparr>
   = (None, \<lparr>cells = [[count_callback, count_callback]], world = (2, 2)\<rparr>)"
  using finishTx_outcome [where ctx = "tx_ctx0\<lparr>afterCommitCallbacksKey := Some 0\<rparr>" and p = 0
      and err = None and db = flaky_db and tx = 7 and s = "\<lparr>cells = [[count_callback, count_callback]], world = (1, 0)\<rparr>"]
  by (simp add: flaky_db_def count_callback_def)

section \<open>Transactions with retries\<close>

lemma honest_attempt:
  assumes "honest_retries run" and "run (if idem then Strategy else NoOp) act si = (None, s')"
  shows "\<exists>s0. act s0 = (None, s') \<and> (idem \<or> s0 = si)"
proof (cases idem)
  case True
  have "honest_run act si (run Strategy act si)" using assms(1) by (simp add: honest_retries_def)
  then show ?thesis using honest_success [of act si s'] assms(2) True by auto
next
  case False
  have "run NoOp act si = act si \<or> (\<exists>brk. run NoOp act si = (Some brk, si))" using assms(1) by (simp add: honest_retries_def)
  then show ?thesis using assms(2) False by auto
qed


text \<open>One attempt without retries, up to three with them.\<close>

definition three_tries :: "how \<Rightarrow> ('s \<Rightarrow> gerr option \<times> 's) \<Rightarrow> 's \<Rightarrow> gerr option \<times> 's" where
  "three_tries h act s = (case h of NoOp \<Rightarrow> act s | Strategy \<Rightarrow> attempts 3 act None s)"

lemma three_tries_honest: "honest_retries three_tries"
  unfolding honest_retries_def honest_run_def three_tries_def
  by (auto simp del: attempts.simps intro!: exI [of _ 2] simp: numeral_3_eq_3 numeral_2_eq_2)

text \<open>A body that only registers the callback.\<close>

definition registering :: "bool \<Rightarrow> (nat \<times> nat) TxOptions" where
  "registering idem = \<lparr>ContinueActive = False, FIsIdempotent = idem,
     F = (\<lambda>ctx tx s. case RegisterAfterCommitCallback ctx count_callback s of
            Inr s' \<Rightarrow> (None, s') | Inl t \<Rightarrow> (Some (ErrNew t), s))\<rparr>"

lemmas tx_simps = WithTx_def three_tries_def attempt_tx_def beginTx_def on_world_def finishTx_def
  finish_ok_def run_callbacks_def RegisterAfterCommitCallback_def registering_def flaky_db_def
  tx_ctx0_def count_callback_def is_context_error_def errors_Is_chain ErrTxDone_def

lemma registering_once:
  "WithTx three_tries flaky_db tx_ctx0 (registering False) \<lparr>cells = [], world = (1, 0)\<rparr>
   = (None, \<lparr>cells = [[count_callback]], world = (2, 1)\<rparr>)"
  by (simp add: tx_simps fun_eq_iff)


text \<open>The list of callbacks is allocated once, before the retries, so the callbacks that a
  failed attempt registered run as well after the commit of a later attempt. Here a body
  registers one callback, the first commit is refused and the second one succeeds: the callback runs
  twice for one committed transaction.\<close>

theorem callbacks_of_failed_attempts_run:
  "WithTx three_tries flaky_db tx_ctx0 (registering True) \<lparr>cells = [], world = (0, 0)\<rparr>
   = (None, \<lparr>cells = [[count_callback, count_callback]], world = (2, 2)\<rparr>)"
  by (simp add: tx_simps fun_eq_iff numeral_3_eq_3)

section \<open>Which failures are retried\<close>

interpretation opt: error_search op_target
proof unfold_locales
  show "op_target (wrap_one w e) = None" for w e by (cases w) (simp_all add: op_target_def)
qed

lemma op_target_simps [simp]:
  "op_target (FmtWrap t e) = None" "op_target (Joined es) = None" "op_target (Sentinel sn) = None"
  by (simp_all add: op_target_def)

lemma isRetryable_cong:
  assumes "errors_Is ContextCanceled e = errors_Is ContextCanceled f"
    and "errors_Is ContextDeadlineExceeded e = errors_Is ContextDeadlineExceeded f"
    and "errors_As dns_target e = errors_As dns_target f"
    and "errors_As op_target e = errors_As op_target f"
    and "errors_As pg_target e = errors_As pg_target f"
  shows "isRetryable e = isRetryable f"
  unfolding isRetryable_def assms by (rule refl)

interpretation rty: error_classifier isRetryable
proof unfold_locales
  show "isRetryable (wrap_one w e) = isRetryable e" for w e
  proof (rule isRetryable_cong)
    show "errors_Is ContextCanceled (wrap_one w e) = errors_Is ContextCanceled e"
      "errors_Is ContextDeadlineExceeded (wrap_one w e) = errors_Is ContextDeadlineExceeded e"
      by (cases w; simp add: errors_Is_chain)+
  qed (rule dnt.classify_wrap opt.classify_wrap pgt.classify_wrap)+
qed

lemma isRetryable_aborted:
  "isRetryable (FmtWrap t (Joined [e, errTransactionAborted])) = isRetryable e"
proof -
  have As: "errors_As sel (FmtWrap t (Joined [e, errTransactionAborted])) = errors_As sel e"
    if "sel (FmtWrap t (Joined [e, errTransactionAborted])) = None"
      "sel (Joined [e, errTransactionAborted]) = None" "sel errTransactionAborted = None" for sel :: "gerr \<Rightarrow> 'a option"
    using that by (cases "first_some (map sel (chain e))")
      (simp_all add: errors_As_chain errTransactionAborted_def first_some_append)
  show ?thesis
    by (rule isRetryable_cong; (rule As)?) (simp_all add: errors_Is_chain errTransactionAborted_def)
qed

lemma isRetryable_context: "is_context_error e \<Longrightarrow> \<not> isRetryable e"
  by (auto simp: is_context_error_def isRetryable_def)

lemma isRetryable_fmt: "isRetryable (FmtWrap t e) = isRetryable e"
  using rty.classify_wrap [of "ViaFmt t" e] by simp

text \<open>A refused commit is retried exactly when the driver's error is retryable, except that a
  transaction that the driver has already ended because its context is done is never retried; the
  context's error is what is returned then.\<close>

theorem commit_failure_retried:
  assumes "tx_Commit db tx (world s) = (Some e, w)"
    and "\<forall>c. ctx_Err db w = Some c \<longrightarrow> errors_Is ContextCanceled c \<or> errors_Is ContextDeadlineExceeded c"
  shows "\<exists>r. fst (finishTx db ctx tx None s) = Some r \<and>
     (isRetryable r \<longleftrightarrow> isRetryable e \<and> \<not> (errors_Is ErrTxDone e \<and> ctx_Err db w \<noteq> None))"
proof (cases "is_context_error e")
  case True
  then show ?thesis
    using assms by (simp add: finishTx_def finish_ok_def on_world_def isRetryable_fmt isRetryable_context)
next
  case False
  show ?thesis
  proof (cases "ctx_Err db w")
    case None
    then show ?thesis using False assms(1)
      by (simp add: finishTx_def finish_ok_def on_world_def isRetryable_aborted)
  next
    case (Some c)
    then have "is_context_error c" using assms(2) by (simp add: is_context_error_def)
    then show ?thesis using False assms(1) Some
      by (simp add: finishTx_def finish_ok_def on_world_def isRetryable_aborted [simplified isRetryable_fmt] isRetryable_fmt
          isRetryable_context)
  qed
qed

theorem commit_failure_retried_witness:
  "\<exists>r. fst (finishTx flaky_db tx_ctx0 7 None \<lparr>cells = [], world = (0, 0)\<rparr>) = Some r \<and> isRetryable r"
proof -
  have "\<exists>r. fst (finishTx flaky_db tx_ctx0 7 None \<lparr>cells = [], world = (0, 0)\<rparr>) = Some r \<and>
     (isRetryable r \<longleftrightarrow> isRetryable (PgErr ''57P01'' ''terminating connection'') \<and>
        \<not> (errors_Is ErrTxDone (PgErr ''57P01'' ''terminating connection'') \<and> ctx_Err flaky_db (1, 0) \<noteq> None))"
    by (rule commit_failure_retried) (simp_all add: flaky_db_def)
  moreover have "isRetryable (PgErr ''57P01'' ''terminating connection'')"
    by (simp add: isRetryable_def errors_Is_chain errors_As_chain op_target_def retryable_codes_def)
  ultimately show ?thesis by (simp add: flaky_db_def)
qed

end
