(* ===== verification/Threads.thy ===== *)
theory Threads
  imports Go_Error "HOL-Library.Sublist"
begin

text \<open>
  Conversation threads of a chat export:
  \<open>app/telegramsearch/internal/pkg/controllers/controllerv1/story_dump_chat_history.go\<close>.

  A message is a record of the fields of \<open>serializedChatMessage\<close>. Decoding the export
  (\<open>json.Unmarshal\<close>), filling the template and formatting dates are arguments; the storage is
  the function \<open>create\<close> with the state it changes. Log lines are left out.
\<close>

section \<open>Data\<close>

record serializedChatMessage =
  ID :: int
  msg_Type :: string
  DateUnix :: string
  FromId :: string
  TextEntities :: "string list"
  Reply :: int

type_synonym thread = "serializedChatMessage list"
type_synonym foundThreads = "thread list"

definition ChatMessageTypeMessage :: string where
  "ChatMessageTypeMessage = ''message''"

section \<open>Operations\<close>

definition getText :: "serializedChatMessage \<Rightarrow> string" where
  "getText s = join '' '' (TextEntities s)"

definition thread_String :: "thread \<Rightarrow> string" where
  "thread_String t = join (CHR 0x0A # ''---->'') (map getText t)"

definition ForEmbedding :: "thread \<Rightarrow> string" where
  "ForEmbedding t = join [CHR 0x0A, CHR 0x0A] (map getText t)"

record response =
  resp_Text :: string
  resp_Date :: string

record template_data =
  ChatID :: string
  ConversationStartedAt :: string
  ConversationStarter :: string
  WithAnswers :: bool
  Responses :: "response list"

definition processTemplate :: "(template_data \<Rightarrow> gerr + string) \<Rightarrow> template_data \<Rightarrow> gerr + string" where
  "processTemplate execute d =
     (case execute d of
        Inl err \<Rightarrow> Inl (FmtWrap ''unable to parse data into template'' err)
      | Inr s \<Rightarrow> Inr s)"

text \<open>\<open>fmt\<close> is \<open>time.Unix(i, 0).Format("02 Jan 06 15:04")\<close>. A date that is no number and an empty
  thread panic.\<close>

definition showDate :: "(int \<Rightarrow> string) \<Rightarrow> serializedChatMessage \<Rightarrow> string panics" where
  "showDate fmt m =
     (case ParseInt64 (DateUnix m) of None \<Rightarrow> Inl ''strconv.ParseInt'' | Some i \<Rightarrow> Inr (fmt i))"

fun showResponses :: "(int \<Rightarrow> string) \<Rightarrow> serializedChatMessage list \<Rightarrow> response list panics" where
  "showResponses fmt [] = Inr []"
| "showResponses fmt (m # ms) =
     bind_sum (showDate fmt m) (\<lambda>d.
     bind_sum (showResponses fmt ms) (\<lambda>rs. Inr (\<lparr>resp_Text = getText m, resp_Date = d\<rparr> # rs)))"

definition ForShowingToTheUser ::
    "(template_data \<Rightarrow> gerr + string) \<Rightarrow> (int \<Rightarrow> string) \<Rightarrow> thread \<Rightarrow> string \<Rightarrow> (gerr + string) panics" where
  "ForShowingToTheUser execute fmt t locality =
     (case t of
        [] \<Rightarrow> Inl ''index out of range''
      | first # rest \<Rightarrow>
          bind_sum (showDate fmt first) (\<lambda>started.
          bind_sum (showResponses fmt rest) (\<lambda>rs.
            Inr (processTemplate execute
              \<lparr>ChatID = locality, ConversationStartedAt = started, ConversationStarter = getText first,
               WithAnswers = (length t > 1), Responses = rs\<rparr>))))"

text \<open>The loop of \<open>findThreads\<close>: the threads, the index of the next one, and the thread of every
  message placed so far.\<close>

type_synonym find_state = "foundThreads \<times> nat \<times> (int \<rightharpoonup> nat)"

definition find_step :: "serializedChatMessage \<Rightarrow> find_state \<Rightarrow> find_state" where
  "find_step v st =
     (case st of (r, threadIdx, mapMsgToThreadIdx) \<Rightarrow>
        if Reply v = 0 then
          (let r' = r @ [[]]
           in (r'[threadIdx := r' ! threadIdx @ [v]], threadIdx + 1, mapMsgToThreadIdx(ID v \<mapsto> threadIdx)))
        else
          (case mapMsgToThreadIdx (Reply v) of
             None \<Rightarrow> st
           | Some place \<Rightarrow> (r[place := r ! place @ [v]], threadIdx, mapMsgToThreadIdx(ID v \<mapsto> place))))"

definition findThreads :: "serializedChatMessage list \<Rightarrow> foundThreads" where
  "findThreads input = fst (fold find_step input ([], 0, Map.empty))"

text \<open>\<open>unmarshal\<close> decodes the messages of the export.\<close>

definition threadsHighMem ::
    "(string \<Rightarrow> gerr + serializedChatMessage list) \<Rightarrow> string \<Rightarrow> gerr + foundThreads" where
  "threadsHighMem unmarshal history =
     (case unmarshal history of
        Inl err \<Rightarrow> Inl err
      | Inr messages \<Rightarrow>
          Inr (filter (\<lambda>t. length t > 1)
                (findThreads (filter (\<lambda>m. msg_Type m = ChatMessageTypeMessage) messages))))"

text \<open>The tasks of the pool in the order in which they reach the storage, which is any order of the
  threads (\<open>ord\<close>); \<open>wait\<close> combines their errors.\<close>

fun run_tasks :: "('t \<Rightarrow> 's \<Rightarrow> gerr option \<times> 's) \<Rightarrow> 't list \<Rightarrow> 's \<Rightarrow> gerr option list \<times> 's" where
  "run_tasks task [] s = ([], s)"
| "run_tasks task (t # ts) s =
     (let (e, s1) = task t s; (es, s2) = run_tasks task ts s1 in (e # es, s2))"

definition DumpChatHistory ::
    "(string \<Rightarrow> gerr + serializedChatMessage list) \<Rightarrow> (foundThreads \<Rightarrow> foundThreads) \<Rightarrow>
     (gerr option list \<Rightarrow> gerr option) \<Rightarrow> (string \<Rightarrow> thread \<Rightarrow> 's \<Rightarrow> gerr option \<times> 's) \<Rightarrow>
     string \<Rightarrow> string \<Rightarrow> 's \<Rightarrow> gerr option \<times> 's" where
  "DumpChatHistory unmarshal ord wait create chatID history s =
     (case threadsHighMem unmarshal history of
        Inl err \<Rightarrow> (Some (FmtWrap ''unable to get threads'' err), s)
      | Inr threads \<Rightarrow>
          (let (errs, s') = run_tasks (create chatID) (ord threads) s in (wait errs, s')))"

section \<open>The specification of threads\<close>

text \<open>In an export, \<open>v\<close> answers the earlier message \<open>u\<close>.\<close>

definition answers :: "serializedChatMessage list \<Rightarrow> serializedChatMessage \<Rightarrow> serializedChatMessage \<Rightarrow> bool" where
  "answers ms v u \<longleftrightarrow> Reply v \<noteq> 0 \<and> Reply v = ID u \<and> (\<exists>i j. i < j \<and> j < length ms \<and> ms ! i = u \<and> ms ! j = v)"

definition belongs :: "serializedChatMessage list \<Rightarrow> serializedChatMessage \<Rightarrow> serializedChatMessage \<Rightarrow> bool" where
  "belongs ms s v \<longleftrightarrow> (answers ms)\<^sup>*\<^sup>* v s"

definition thread_starts :: "serializedChatMessage list \<Rightarrow> serializedChatMessage list" where
  "thread_starts ms = filter (\<lambda>v. Reply v = 0) ms"

definition spec_threads :: "serializedChatMessage list \<Rightarrow> foundThreads" where
  "spec_threads ms = map (\<lambda>s. filter (belongs ms s) ms) (thread_starts ms)"

lemma answersI:
  "Reply v \<noteq> 0 \<Longrightarrow> Reply v = ID u \<Longrightarrow> i < j \<Longrightarrow> j < length ms \<Longrightarrow> ms ! i = u \<Longrightarrow> ms ! j = v \<Longrightarrow> answers ms v u"
  by (auto simp: answers_def)

lemma answersE:
  assumes "answers ms v u"
  obtains i j where "Reply v \<noteq> 0" "Reply v = ID u" "i < j" "j < length ms" "ms ! i = u" "ms ! j = v"
  using assms by (auto simp: answers_def)

lemma answers_snoc_old:
  assumes "u \<in> set ms" and "v \<notin> set ms"
  shows "answers (ms @ [v]) u w \<longleftrightarrow> answers ms u w"
proof
  assume "answers (ms @ [v]) u w"
  then show "answers ms u w"
  proof (rule answersE)
    fix i j assume *: "Reply u \<noteq> 0" "Reply u = ID w" "i < j" "j < length (ms @ [v])" "(ms @ [v]) ! i = w"
      "(ms @ [v]) ! j = u"
    then have "j < length ms" using assms by (cases "j = length ms") auto
    then show ?thesis using * by (intro answersI [of u w i j]) (simp_all add: nth_append)
  qed
next
  assume "answers ms u w"
  then show "answers (ms @ [v]) u w"
  proof (rule answersE)
    fix i j assume *: "Reply u \<noteq> 0" "Reply u = ID w" "i < j" "j < length ms" "ms ! i = w" "ms ! j = u"
    then show ?thesis by (intro answersI [of u w i j]) (simp_all add: nth_append)
  qed
qed

lemma answers_snoc_new:
  assumes "v \<notin> set ms"
  shows "answers (ms @ [v]) v w \<longleftrightarrow> Reply v \<noteq> 0 \<and> Reply v = ID w \<and> w \<in> set ms"
proof
  assume "answers (ms @ [v]) v w"
  then show "Reply v \<noteq> 0 \<and> Reply v = ID w \<and> w \<in> set ms"
    by (rule answersE) (auto simp: nth_append)
next
  assume *: "Reply v \<noteq> 0 \<and> Reply v = ID w \<and> w \<in> set ms"
  then obtain i where "i < length ms" "ms ! i = w" by (auto simp: in_set_conv_nth)
  then show "answers (ms @ [v]) v w"
    using * by (intro answersI [of v w i "length ms"]) (simp_all add: nth_append)
qed

lemma answers_earlier: "answers ms u w \<Longrightarrow> w \<in> set ms"
  by (auto simp: answers_def)

lemma belongs_snoc_old:
  assumes "u \<in> set ms" and "v \<notin> set ms"
  shows "belongs (ms @ [v]) s u \<longleftrightarrow> belongs ms s u"
proof
  assume "belongs (ms @ [v]) s u"
  then show "belongs ms s u" unfolding belongs_def
    using assms(1)
  proof (induction rule: converse_rtranclp_induct)
    case (step y z)
    then have "answers ms y z" using answers_snoc_old assms(2) by blast
    then show ?case using step answers_earlier by (meson converse_rtranclp_into_rtranclp)
  qed simp
next
  assume "belongs ms s u"
  then show "belongs (ms @ [v]) s u" unfolding belongs_def
    using assms(1)
  proof (induction rule: converse_rtranclp_induct)
    case (step y z)
    then have "answers (ms @ [v]) y z" using answers_snoc_old assms(2) by blast
    then show ?case using step answers_earlier by (meson converse_rtranclp_into_rtranclp)
  qed simp
qed

lemma belongs_snoc_new:
  assumes "v \<notin> set ms"
  shows "belongs (ms @ [v]) s v \<longleftrightarrow>
    s = v \<or> Reply v \<noteq> 0 \<and> (\<exists>u \<in> set ms. ID u = Reply v \<and> belongs ms s u)"
proof -
  have "belongs (ms @ [v]) s v \<longleftrightarrow> s = v \<or> (\<exists>u. answers (ms @ [v]) v u \<and> belongs (ms @ [v]) s u)"
    unfolding belongs_def by (auto elim: converse_rtranclpE intro: converse_rtranclp_into_rtranclp)
  also have "\<dots> \<longleftrightarrow> s = v \<or> (\<exists>u. Reply v \<noteq> 0 \<and> Reply v = ID u \<and> u \<in> set ms \<and> belongs ms s u)"
    using belongs_snoc_old [OF _ assms] by (auto simp: answers_snoc_new [OF assms])
  also have "\<dots> \<longleftrightarrow> s = v \<or> Reply v \<noteq> 0 \<and> (\<exists>u \<in> set ms. ID u = Reply v \<and> belongs ms s u)"
    by metis
  finally show ?thesis .
qed

lemma belongs_in: "belongs ms s u \<Longrightarrow> u \<in> set ms \<Longrightarrow> s \<in> set ms"
  unfolding belongs_def by (induction rule: converse_rtranclp_induct) (auto dest: answers_earlier)

section \<open>The loop meets the specification\<close>

definition find_inv :: "serializedChatMessage list \<Rightarrow> find_state \<Rightarrow> bool" where
  "find_inv ms st \<longleftrightarrow>
     (case st of (r, n, m) \<Rightarrow>
        r = spec_threads ms \<and> n = length (thread_starts ms) \<and>
        (\<forall>k p. m k = Some p \<longleftrightarrow>
           p < length (thread_starts ms) \<and> (\<exists>u \<in> set ms. ID u = k \<and> belongs ms (thread_starts ms ! p) u)))"

lemma starts_snoc:
  "thread_starts (ms @ [v]) = (if Reply v = 0 then thread_starts ms @ [v] else thread_starts ms)"
  by (simp add: thread_starts_def)

lemma starts_sub: "p < length (thread_starts ms) \<Longrightarrow> thread_starts ms ! p \<in> set ms"
  by (metis (no_types, lifting) filter_is_subset nth_mem subsetD thread_starts_def)

lemma length_spec [simp]: "length (spec_threads ms) = length (thread_starts ms)"
  by (simp add: spec_threads_def)

lemma spec_nth:
  "p < length (thread_starts ms) \<Longrightarrow> spec_threads ms ! p = filter (belongs ms (thread_starts ms ! p)) ms"
  by (simp add: spec_threads_def)

lemma filter_belongs_snoc:
  assumes "v \<notin> set ms" and "s \<in> set ms"
  shows "filter (belongs (ms @ [v]) s) (ms @ [v]) =
    filter (belongs ms s) ms @ (if Reply v \<noteq> 0 \<and> (\<exists>u \<in> set ms. ID u = Reply v \<and> belongs ms s u) then [v] else [])"
proof -
  have "filter (belongs (ms @ [v]) s) ms = filter (belongs ms s) ms"
    using belongs_snoc_old [OF _ assms(1)] by (intro filter_cong) auto
  moreover have "belongs (ms @ [v]) s v \<longleftrightarrow> Reply v \<noteq> 0 \<and> (\<exists>u \<in> set ms. ID u = Reply v \<and> belongs ms s u)"
    using belongs_snoc_new [OF assms(1), of s] assms by auto
  ultimately show ?thesis by simp
qed

lemma spec_snoc_start:
  assumes "v \<notin> set ms" and "Reply v = 0"
  shows "spec_threads (ms @ [v]) = spec_threads ms @ [[v]]"
proof -
  have "filter (belongs (ms @ [v]) v) ms = []"
    using belongs_snoc_old [OF _ assms(1)] belongs_in assms(1) by (auto simp: filter_empty_conv)
  moreover have "belongs (ms @ [v]) v v" by (simp add: belongs_def)
  moreover have "map (\<lambda>s. filter (belongs (ms @ [v]) s) (ms @ [v])) (thread_starts ms) = spec_threads ms"
    unfolding spec_threads_def using filter_belongs_snoc [OF assms(1)] assms(2)
    by (intro map_cong) (auto simp: thread_starts_def)
  ultimately show ?thesis using assms(2)
    by (simp add: spec_threads_def starts_snoc)
qed

lemma spec_snoc_answer:
  assumes "v \<notin> set ms" and "Reply v \<noteq> 0"
    and m: "\<forall>p. m (Reply v) = Some p \<longleftrightarrow>
       p < length (thread_starts ms) \<and> (\<exists>u \<in> set ms. ID u = Reply v \<and> belongs ms (thread_starts ms ! p) u)"
  shows "spec_threads (ms @ [v]) =
    (case m (Reply v) of None \<Rightarrow> spec_threads ms | Some p \<Rightarrow> (spec_threads ms)[p := spec_threads ms ! p @ [v]])"
proof (rule nth_equalityI)
  show "length (spec_threads (ms @ [v])) = length (case m (Reply v) of None \<Rightarrow> spec_threads ms
      | Some p \<Rightarrow> (spec_threads ms)[p := spec_threads ms ! p @ [v]])"
    using assms(2) by (simp add: starts_snoc split: option.split)
next
  fix q assume "q < length (spec_threads (ms @ [v]))"
  then have q: "q < length (thread_starts ms)" using assms(2) by (simp add: starts_snoc)
  have "spec_threads (ms @ [v]) ! q = spec_threads ms ! q @ (if m (Reply v) = Some q then [v] else [])"
    using q assms(2) m filter_belongs_snoc [OF assms(1) starts_sub [OF q]]
    by (simp add: spec_nth starts_snoc)
  then show "spec_threads (ms @ [v]) ! q = (case m (Reply v) of None \<Rightarrow> spec_threads ms
      | Some p \<Rightarrow> (spec_threads ms)[p := spec_threads ms ! p @ [v]]) ! q"
    using q by (auto simp: nth_list_update split: option.split)
qed

lemma find_inv_start:
  assumes inv: "find_inv ms (r, n, m)" and new: "v \<notin> set ms" "\<forall>u \<in> set ms. ID u \<noteq> ID v" and start: "Reply v = 0"
  shows "find_inv (ms @ [v]) (find_step v (r, n, m))"
proof -
  have r: "r = spec_threads ms" and n: "n = length (thread_starts ms)"
    and m: "\<And>k p. m k = Some p \<longleftrightarrow>
      p < length (thread_starts ms) \<and> (\<exists>u \<in> set ms. ID u = k \<and> belongs ms (thread_starts ms ! p) u)"
    using inv by (auto simp: find_inv_def)
  have step: "find_step v (r, n, m) = (spec_threads (ms @ [v]), Suc n, m(ID v \<mapsto> n))"
    by (simp add: find_step_def start r n spec_snoc_start [OF new(1) start] Let_def nth_append list_update_append)
  have "(m(ID v \<mapsto> n)) k = Some p \<longleftrightarrow> p < Suc n \<and>
      (\<exists>u \<in> set (ms @ [v]). ID u = k \<and> belongs (ms @ [v]) ((thread_starts ms @ [v]) ! p) u)" for k p
  proof (cases "k = ID v")
    case True
    have "belongs (ms @ [v]) s v \<longleftrightarrow> s = v" for s
      using belongs_snoc_new [OF new(1), of s] start by auto
    then have "(\<exists>u \<in> set (ms @ [v]). ID u = k \<and> belongs (ms @ [v]) s u) \<longleftrightarrow> s = v" for s
      using True new(2) by auto
    moreover have "p < Suc n \<Longrightarrow> (thread_starts ms @ [v]) ! p = v \<longleftrightarrow> p = n"
      using starts_sub [of p ms] new(1) n by (auto simp: nth_append)
    ultimately show ?thesis using True by auto
  next
    case False
    have "(\<exists>u \<in> set (ms @ [v]). ID u = k \<and> belongs (ms @ [v]) s u) \<longleftrightarrow> (\<exists>u \<in> set ms. ID u = k \<and> belongs ms s u)" for s
      using False belongs_snoc_old [OF _ new(1)] by auto
    moreover have "\<not> belongs ms v u" if "u \<in> set ms" for u
      using belongs_in that new(1) by blast
    ultimately show ?thesis using False m [of k p] n by (auto simp: nth_append less_Suc_eq)
  qed
  then show ?thesis unfolding step by (simp add: find_inv_def starts_snoc start n)
qed

lemma find_inv_answer:
  assumes inv: "find_inv ms (r, n, m)" and new: "v \<notin> set ms" "\<forall>u \<in> set ms. ID u \<noteq> ID v" and answer: "Reply v \<noteq> 0"
  shows "find_inv (ms @ [v]) (find_step v (r, n, m))"
proof -
  have r: "r = spec_threads ms" and n: "n = length (thread_starts ms)"
    and m: "\<And>k p. m k = Some p \<longleftrightarrow>
      p < length (thread_starts ms) \<and> (\<exists>u \<in> set ms. ID u = k \<and> belongs ms (thread_starts ms ! p) u)"
    using inv by (auto simp: find_inv_def)
  define m' where "m' = (case m (Reply v) of None \<Rightarrow> m | Some p \<Rightarrow> m(ID v \<mapsto> p))"
  have step: "find_step v (r, n, m) = (spec_threads (ms @ [v]), n, m')"
  proof -
    have "spec_threads (ms @ [v]) = (case m (Reply v) of None \<Rightarrow> spec_threads ms
        | Some p \<Rightarrow> (spec_threads ms)[p := spec_threads ms ! p @ [v]])"
      using m by (intro spec_snoc_answer [OF new(1) answer]) blast
    then show ?thesis by (cases "m (Reply v)") (simp_all add: find_step_def answer r m'_def)
  qed
  have "m' k = Some p \<longleftrightarrow> p < n \<and> (\<exists>u \<in> set (ms @ [v]). ID u = k \<and> belongs (ms @ [v]) (thread_starts ms ! p) u)" for k p
  proof (cases "k = ID v")
    case True
    have "m (ID v) = None" using m [of "ID v"] new(2) by (cases "m (ID v)") auto
    then have "m' k = Some p \<longleftrightarrow> m (Reply v) = Some p"
      using True by (auto simp: m'_def split: option.split)
    moreover have "p < n \<Longrightarrow> (\<exists>u \<in> set (ms @ [v]). ID u = k \<and> belongs (ms @ [v]) (thread_starts ms ! p) u)
        \<longleftrightarrow> (\<exists>u \<in> set ms. ID u = Reply v \<and> belongs ms (thread_starts ms ! p) u)"
      using True new answer n starts_sub [of p ms] belongs_snoc_new [OF new(1), of "thread_starts ms ! p"] by auto
    ultimately show ?thesis using m [of "Reply v" p] n by auto
  next
    case False
    have "m' k = m k" using False by (simp add: m'_def split: option.split)
    moreover have "(\<exists>u \<in> set (ms @ [v]). ID u = k \<and> belongs (ms @ [v]) s u) \<longleftrightarrow> (\<exists>u \<in> set ms. ID u = k \<and> belongs ms s u)" for s
      using False belongs_snoc_old [OF _ new(1)] by auto
    ultimately show ?thesis using m [of k p] n by simp
  qed
  then show ?thesis unfolding step by (simp add: find_inv_def starts_snoc answer n)
qed

lemma find_inv_fold:
  "distinct (map ID ms) \<Longrightarrow> find_inv ms (fold find_step ms ([], 0, Map.empty))"
proof (induction ms rule: rev_induct)
  case Nil
  then show ?case by (simp add: find_inv_def spec_threads_def thread_starts_def)
next
  case (snoc v ms)
  obtain r n m where st: "fold find_step ms ([], 0, Map.empty) = (r, n, m)" by (metis surj_pair)
  have "find_inv ms (r, n, m)" using snoc st by simp
  moreover have "ID v \<notin> ID ` set ms" using snoc.prems by simp
  then have "\<forall>u \<in> set ms. ID u \<noteq> ID v" by (metis image_eqI)
  moreover from this have "v \<notin> set ms" by blast
  ultimately show ?case
    using find_inv_start find_inv_answer by (cases "Reply v = 0") (simp_all add: st)
qed

lemma findThreads_spec_threads: "distinct (map ID ms) \<Longrightarrow> findThreads ms = spec_threads ms"
  using find_inv_fold [of ms] by (auto simp: findThreads_def find_inv_def split: prod.splits)

text \<open>C2: in an export without repeated message ids, \<open>findThreads\<close> returns one thread for every
  message that answers nothing, in the order of the export, and a thread holds exactly the
  messages from which its start is reached by following answers to earlier messages, also in the
  order of the export. Answers to deleted messages, and the answers to those, are in no
  thread.\<close>

theorem findThreads_exact:
  assumes "distinct (map ID ms)"
  shows "findThreads ms = map (\<lambda>s. filter (\<lambda>v. (answers ms)\<^sup>*\<^sup>* v s) ms) (filter (\<lambda>v. Reply v = 0) ms)"
  using findThreads_spec_threads [OF assms] by (simp add: spec_threads_def thread_starts_def belongs_def [abs_def])

definition sample_msg :: "int \<Rightarrow> int \<Rightarrow> serializedChatMessage" where
  "sample_msg i r = \<lparr>ID = i, msg_Type = ''message'', DateUnix = ''0'', FromId = ''u'', TextEntities = [''hi''], Reply = r\<rparr>"

definition sample_chat :: "serializedChatMessage list" where
  "sample_chat = [sample_msg 1 0, sample_msg 2 0, sample_msg 3 1, sample_msg 4 9, sample_msg 5 3, sample_msg 6 4]"

theorem findThreads_exact_witness:
  "findThreads sample_chat =
     map (\<lambda>s. filter (\<lambda>v. (answers sample_chat)\<^sup>*\<^sup>* v s) sample_chat) (filter (\<lambda>v. Reply v = 0) sample_chat) \<and>
   findThreads sample_chat = [[sample_msg 1 0, sample_msg 3 1, sample_msg 5 3], [sample_msg 2 0]]"
proof
  show "findThreads sample_chat =
     map (\<lambda>s. filter (\<lambda>v. (answers sample_chat)\<^sup>*\<^sup>* v s) sample_chat) (filter (\<lambda>v. Reply v = 0) sample_chat)"
    by (rule findThreads_exact) (simp add: sample_chat_def sample_msg_def)
  show "findThreads sample_chat = [[sample_msg 1 0, sample_msg 3 1, sample_msg 5 3], [sample_msg 2 0]]"
    by (simp add: sample_chat_def findThreads_def find_step_def sample_msg_def)
qed

section \<open>Threads of any export\<close>

text \<open>A conversation: it starts with a message that answers nothing, and every other message
  answers an earlier one of the same conversation.\<close>

definition conversation :: "thread \<Rightarrow> bool" where
  "conversation t \<longleftrightarrow> t \<noteq> [] \<and> Reply (hd t) = 0 \<and>
     (\<forall>i < length t. 0 < i \<longrightarrow> Reply (t ! i) \<noteq> 0 \<and> (\<exists>j < i. ID (t ! j) = Reply (t ! i)))"

lemma conversation_start: "Reply v = 0 \<Longrightarrow> conversation [v]"
  by (simp add: conversation_def)

lemma conversation_answer:
  assumes "conversation t" and "Reply v \<noteq> 0" and "u \<in> set t" and "ID u = Reply v"
  shows "conversation (t @ [v])"
proof -
  obtain j where "j < length t" "t ! j = u" using assms(3) by (auto simp: in_set_conv_nth)
  then have "\<exists>j < length t. ID (t ! j) = Reply v" using assms(4) by blast
  moreover have "\<exists>j < i. ID ((t @ [v]) ! j) = Reply (t ! i)" if "0 < i" "i < length t" for i
  proof -
    obtain j where "j < i" "ID (t ! j) = Reply (t ! i)"
      using assms(1) \<open>0 < i\<close> \<open>i < length t\<close> by (auto simp: conversation_def)
    then show ?thesis using \<open>i < length t\<close> by (intro exI [of _ j]) (simp add: nth_append)
  qed
  ultimately show ?thesis using assms(1,2) by (auto simp: conversation_def nth_append less_Suc_eq)
qed

definition placed_inv :: "serializedChatMessage list \<Rightarrow> find_state \<Rightarrow> bool" where
  "placed_inv ms st \<longleftrightarrow>
     (case st of (r, n, m) \<Rightarrow>
        n = length r \<and> (\<forall>t \<in> set r. conversation t \<and> subseq t ms) \<and>
        (\<forall>k p. m k = Some p \<longrightarrow> p < length r \<and> (\<exists>u \<in> set (r ! p). ID u = k)))"

lemma subseq_snoc: "subseq t ms \<Longrightarrow> subseq t (ms @ [v])" "subseq t ms \<Longrightarrow> subseq (t @ [v]) (ms @ [v])"
  by (simp_all add: list_emb_append_mono subseq_rev_drop_many)

lemma placed_inv_step: 
  assumes inv: "placed_inv ms (r, n, m)"
  shows "placed_inv (ms @ [v]) (find_step v (r, n, m))"
proof (cases "Reply v = 0")
  case True
  have n: "n = length r" and r: "\<And>t. t \<in> set r \<Longrightarrow> conversation t \<and> subseq t ms"
    and m: "\<And>k p. m k = Some p \<Longrightarrow> p < length r \<and> (\<exists>u \<in> set (r ! p). ID u = k)"
    using inv by (auto simp: placed_inv_def)
  have "find_step v (r, n, m) = (r @ [[v]], Suc n, m(ID v \<mapsto> n))"
    by (simp add: find_step_def True n Let_def)
  moreover have "\<forall>t \<in> set (r @ [[v]]). conversation t \<and> subseq t (ms @ [v])"
    using r conversation_start [OF True] subseq_snoc(1) subseq_snoc(2) [of "[]"] by auto
  moreover have "p < Suc n \<and> (\<exists>u \<in> set ((r @ [[v]]) ! p). ID u = k)" if "(m(ID v \<mapsto> n)) k = Some p" for k p
    using that m [of k p] by (cases "k = ID v") (auto simp: n nth_append)
  ultimately show ?thesis by (simp add: placed_inv_def n)
next
  case False
  have n: "n = length r" and r: "\<And>t. t \<in> set r \<Longrightarrow> conversation t \<and> subseq t ms"
    and m: "\<And>k p. m k = Some p \<Longrightarrow> p < length r \<and> (\<exists>u \<in> set (r ! p). ID u = k)"
    using inv by (auto simp: placed_inv_def)
  show ?thesis
  proof (cases "m (Reply v)")
    case None
    then show ?thesis using False n r m by (auto simp: placed_inv_def find_step_def subseq_snoc)
  next
    case (Some p)
    then obtain u where p: "p < length r" and u: "u \<in> set (r ! p)" "ID u = Reply v" using m by blast
    have "conversation (r ! p @ [v]) \<and> subseq (r ! p @ [v]) (ms @ [v])"
      using conversation_answer [OF _ False u] r [OF nth_mem [OF p]] subseq_snoc(2) [of "r ! p" ms v] by blast
    moreover have "conversation t \<and> subseq t (ms @ [v])" if "t \<in> set r" for t
      using r [OF that] subseq_snoc(1) [of t ms v] by simp
    ultimately have "\<forall>t \<in> set (r[p := r ! p @ [v]]). conversation t \<and> subseq t (ms @ [v])"
      using set_update_subset_insert [of r p "r ! p @ [v]"] by blast
    moreover have "q < length r \<and> (\<exists>u \<in> set (r[p := r ! p @ [v]] ! q). ID u = k)"
      if "(m(ID v \<mapsto> p)) k = Some q" for k q
      using that m [of k q] p by (cases "k = ID v"; cases "p = q") auto
    ultimately show ?thesis using False Some n by (simp add: placed_inv_def find_step_def)
  qed
qed

lemma placed_inv_fold: "placed_inv ms (fold find_step ms ([], 0, Map.empty))"
proof (induction ms rule: rev_induct)
  case (snoc v ms)
  then show ?case
    by (cases "fold find_step ms ([], 0, Map.empty)") (simp add: placed_inv_step)
qed (simp add: placed_inv_def)

lemma findThreads_conversations: "t \<in> set (findThreads ms) \<Longrightarrow> conversation t \<and> subseq t ms"
  using placed_inv_fold [of ms] by (auto simp: placed_inv_def findThreads_def split: prod.splits)

text \<open>C28: whatever the export holds, repeated ids included, every thread that is stored has at
  least two messages, all of type \<open>message\<close> and in the order of the export; the first one answers nothing and
  every other one answers an earlier message of the same thread.\<close>

theorem stored_threads_are_conversations:
  assumes "unmarshal history = Inr ms" and "threadsHighMem unmarshal history = Inr ts" and "t \<in> set ts"
  shows "2 \<le> length t \<and> Reply (hd t) = 0 \<and> subseq t (filter (\<lambda>m. msg_Type m = ChatMessageTypeMessage) ms) \<and>
    (\<forall>i. 0 < i \<and> i < length t \<longrightarrow> Reply (t ! i) \<noteq> 0 \<and> (\<exists>j < i. ID (t ! j) = Reply (t ! i)))"
  using assms findThreads_conversations [of t "filter (\<lambda>m. msg_Type m = ChatMessageTypeMessage) ms"]
  by (auto simp: threadsHighMem_def conversation_def)

theorem stored_threads_are_conversations_witness:
  "threadsHighMem (\<lambda>_. Inr sample_chat) ''export'' = Inr [[sample_msg 1 0, sample_msg 3 1, sample_msg 5 3]] \<and>
   subseq [sample_msg 1 0, sample_msg 3 1, sample_msg 5 3]
     (filter (\<lambda>m. msg_Type m = ChatMessageTypeMessage) sample_chat)"
proof
  show eq: "threadsHighMem (\<lambda>_. Inr sample_chat) ''export'' = Inr [[sample_msg 1 0, sample_msg 3 1, sample_msg 5 3]]"
    by (simp add: threadsHighMem_def sample_chat_def findThreads_def find_step_def sample_msg_def ChatMessageTypeMessage_def)
  show "subseq [sample_msg 1 0, sample_msg 3 1, sample_msg 5 3]
     (filter (\<lambda>m. msg_Type m = ChatMessageTypeMessage) sample_chat)"
    using stored_threads_are_conversations [OF _ eq] by simp
qed

end
