(* ===== verification/Completion.thy ===== *)
theory Completion
  imports Threads "HOL-Library.Multiset"
begin

text \<open>
  Answering questions: the stories \<open>TryCompletion\<close>, \<open>TryEmbedding\<close>, \<open>ExplainMessage\<close>, \<open>Help\<close> and
  \<open>News\<close> of \<open>controllerv1\<close> and the message handler of \<open>bottransport\<close>.

  The record \<open>env\<close> holds what these call: the OpenAI client, the similarity search of the
  storage, the pool of package \<open>conc\<close> (in which order its tasks end and how it combines their errors),
  \<open>slices.SortFunc\<close>, \<open>json.Unmarshal\<close>, the formatting of dates and the two texts with a format verb.
  Searches run concurrently and add to one slice under a lock, so a run is the sequence of the tasks in the
  order in which they take the lock.
\<close>

section \<open>Data\<close>

record RespSimilaritySearch =
  Message :: string
  TelegramChatID :: string
  ss_ConversationStarter :: string
  MostRecentMessageAt :: go_time

record SourcedMessage =
  URL :: string
  sm_MostRecentMessageAt :: go_time
  FirstLetters :: string

type_synonym ExplainedMessage = "SourcedMessage list"
type_synonym cache = "int \<rightharpoonup> ExplainedMessage"

record RespTryCompletion =
  Response :: string
  UsedConversations :: "RespSimilaritySearch list"

record 'v env =
  CreateEmbeddings :: "string \<Rightarrow> gerr + 'v list"
  FetchSimilaritySearch :: "'v \<Rightarrow> go_time \<times> go_time \<Rightarrow> gerr + RespSimilaritySearch list"
  CreateChatCompletion :: "string \<Rightarrow> string list \<Rightarrow> gerr + string"
  task_order :: "(go_time \<times> go_time) list \<Rightarrow> (go_time \<times> go_time) list"
  pool_Wait :: "gerr option list \<Rightarrow> gerr option"
  SortFunc :: "RespSimilaritySearch list \<Rightarrow> RespSimilaritySearch list"
  unmarshal_starter :: "string \<Rightarrow> gerr + serializedChatMessage list"
  NoResultsAnswer :: string
  NoExplainedAnswer :: string
  HelpText :: string
  NewsText :: string
  stale_text :: "go_time \<Rightarrow> string"
  fresh_text :: "nat \<Rightarrow> string"
  StaleThreshold :: go_duration
  format_date :: "go_time \<Rightarrow> string"
  explain_intro :: string
  explain_outro :: string

section \<open>Time ranges\<close>

definition minusDay :: go_duration where
  "minusDay = - (24 * 3600 * 1000000000)"

definition completion_bounds :: "go_time \<Rightarrow> go_time list" where
  "completion_bounds now =
     [now + 365 * 10 * minusDay, now + 365 * 3 * minusDay, now + 365 * 2 * minusDay, now + 365 * minusDay,
      now + 180 * minusDay, now + 30 * minusDay, now + 7 * minusDay, now]"

definition embedding_bounds :: "go_time \<Rightarrow> go_time list" where
  "embedding_bounds now =
     [now + 365 * 3 * minusDay, now + 365 * minusDay, now + 30 * minusDay, now + 7 * minusDay, now]"

text \<open>The loop over the bounds: a task for every bound and the one before.\<close>

definition ranges :: "go_time list \<Rightarrow> (go_time \<times> go_time) list" where
  "ranges bounds = zip bounds (tl bounds)"

section \<open>The searches\<close>

text \<open>The results so far and whether \<open>cancel\<close> was called.\<close>

type_synonym search_state = "RespSimilaritySearch list \<times> bool"

definition add_then_check :: "nat \<Rightarrow> RespSimilaritySearch \<Rightarrow> search_state \<Rightarrow> search_state" where
  "add_then_check maxResults x st =
     (case st of (sr, cancelled) \<Rightarrow> (sr @ [x], cancelled \<or> length (sr @ [x]) = maxResults))"

definition check_then_add :: "nat \<Rightarrow> RespSimilaritySearch \<Rightarrow> search_state \<Rightarrow> search_state" where
  "check_then_add maxResults x st =
     (case st of (sr, cancelled) \<Rightarrow> (sr @ [x], cancelled \<or> length sr = maxResults))"

definition search_task ::
    "(RespSimilaritySearch \<Rightarrow> search_state \<Rightarrow> search_state) \<Rightarrow> nat \<Rightarrow>
     ('i \<Rightarrow> gerr + RespSimilaritySearch list) \<Rightarrow> 'i \<Rightarrow> search_state \<Rightarrow> gerr option \<times> search_state" where
  "search_task add maxResults fetch i st =
     (case fetch i of
        Inl err \<Rightarrow>
          if errors_Is ContextCanceled err then
            (if length (fst st) = maxResults then None else Some err, st)
          else (Some err, st)
      | Inr found \<Rightarrow> (None, fold add found st))"

section \<open>The cache of explanations\<close>

definition first_letters :: "string \<Rightarrow> string" where
  "first_letters text =
     (let s1 = (if length text > 60 then
                  (case index_byte text (CHR ''.'') of
                     Some lastDot \<Rightarrow> take (lastDot + 1) text
                   | None \<Rightarrow> text)
                else text)
      in if length s1 > 120 then take 100 s1 else s1)"

text \<open>The loop over the conversations: \<open>Inl\<close> is the panic of \<open>s[0]\<close> on an empty list.\<close>

fun cache_sources ::
    "(string \<Rightarrow> gerr + serializedChatMessage list) \<Rightarrow> RespSimilaritySearch list \<Rightarrow> (gerr + SourcedMessage list) panics" where
  "cache_sources unmarshal [] = Inr (Inr [])"
| "cache_sources unmarshal (conv # convs) =
     (case unmarshal (ss_ConversationStarter conv) of
        Inl err \<Rightarrow> Inr (Inl (FmtWrap ''failed to unmarshal conversation starter'' err))
      | Inr [] \<Rightarrow> Inl ''index out of range [0] with length 0''
      | Inr (s0 # _) \<Rightarrow>
          bind_sum (cache_sources unmarshal convs) (\<lambda>rest.
            Inr (bind_sum rest (\<lambda>srcs.
              Inr (\<lparr>URL = ''https://t.me/'' @ TelegramChatID conv @ ''/'' @ show_int (ID s0),
                    sm_MostRecentMessageAt = MostRecentMessageAt conv,
                    FirstLetters = first_letters (getText s0)\<rparr> # srcs)))))"

definition saveCacheItem ::
    "(string \<Rightarrow> gerr + serializedChatMessage list) \<Rightarrow> int \<Rightarrow> RespSimilaritySearch list \<Rightarrow> cache \<Rightarrow>
     (gerr option \<times> cache) panics" where
  "saveCacheItem unmarshal senderID conversations c =
     bind_sum (cache_sources unmarshal (take 15 conversations)) (\<lambda>res.
       Inr (case res of
              Inl err \<Rightarrow> (Some err, c)
            | Inr srcs \<Rightarrow> (None, c(senderID \<mapsto> srcs))))"

definition ForHuman :: "'v env \<Rightarrow> SourcedMessage \<Rightarrow> string" where
  "ForHuman E m = format_date E (sm_MostRecentMessageAt m) @ '': '' @ URL m @ [CHR 0x0A] @ FirstLetters m"

definition ForUser :: "'v env \<Rightarrow> ExplainedMessage \<Rightarrow> string" where
  "ForUser E e =
     explain_intro E @ [CHR 0x0A] @ join [CHR 0x0A, CHR 0x0A] (map (ForHuman E) e) @ [CHR 0x0A, CHR 0x0A] @ explain_outro E"

definition ExplainMessage :: "'v env \<Rightarrow> int \<Rightarrow> cache \<Rightarrow> string" where
  "ExplainMessage E senderID c =
     (case c senderID of None \<Rightarrow> NoExplainedAnswer E | Some v \<Rightarrow> ForUser E v)"

section \<open>The stories\<close>

text \<open>The answer of the model with the remark on stale or few conversations.\<close>

definition user_response :: "'v env \<Rightarrow> go_time \<Rightarrow> RespSimilaritySearch list \<Rightarrow> string \<Rightarrow> string" where
  "user_response E now results completion =
     (let notStaleAfter = now - StaleThreshold E;
          onlyStaleResponses = list_all (\<lambda>x. \<not> notStaleAfter < MostRecentMessageAt x) results
      in if onlyStaleResponses then completion @ [CHR 0x0A] @ stale_text E notStaleAfter
         else if length results < 3 then completion @ [CHR 0x0A] @ fresh_text E (length results)
         else completion)"

definition no_results :: "'v env \<Rightarrow> RespTryCompletion" where
  "no_results E = \<lparr>Response = NoResultsAnswer E, UsedConversations = []\<rparr>"

text \<open>What follows the searches.\<close>

definition complete ::
    "'v env \<Rightarrow> go_time \<Rightarrow> int \<Rightarrow> string \<Rightarrow> RespSimilaritySearch list \<Rightarrow> cache \<Rightarrow>
     ((gerr + RespTryCompletion) \<times> cache) panics" where
  "complete E now senderID query found c =
     (if found = [] then Inr (Inr (no_results E), c)
      else
        (let results = rev (SortFunc E found)
         in case CreateChatCompletion E query (map Message results) of
              Inl err \<Rightarrow> Inr (Inl (FmtWrap ''failed to create completion'' err), c)
            | Inr completion \<Rightarrow>
                bind_sum (saveCacheItem (unmarshal_starter E) senderID results c) (\<lambda>(_, c').
                  Inr (Inr \<lparr>Response = user_response E now results completion, UsedConversations = results\<rparr>, c'))))"

definition TryCompletion ::
    "'v env \<Rightarrow> go_time \<Rightarrow> int \<Rightarrow> string \<Rightarrow> cache \<Rightarrow> ((gerr + RespTryCompletion) \<times> cache) panics" where
  "TryCompletion E now senderID query c =
     (case CreateEmbeddings E query of
        Inl err \<Rightarrow> Inr (Inl (FmtWrap ''create embeddings'' err), c)
      | Inr [] \<Rightarrow> Inl ''index out of range [0] with length 0''
      | Inr (emb # _) \<Rightarrow>
          (let (errs, found, _) =
                 run_tasks (search_task (add_then_check 20) 20 (FetchSimilaritySearch E emb))
                   (task_order E (ranges (completion_bounds now))) ([], False)
           in case pool_Wait E errs of
                None \<Rightarrow> complete E now senderID query found c
              | Some err \<Rightarrow>
                  if \<not> errors_Is ContextCanceled err then Inr (Inl err, c)
                  else complete E now senderID query found c))"

definition TryEmbedding :: "'v env \<Rightarrow> go_time \<Rightarrow> string \<Rightarrow> (gerr + string list) panics" where
  "TryEmbedding E now input =
     (case CreateEmbeddings E input of
        Inl err \<Rightarrow> Inr (Inl err)
      | Inr [] \<Rightarrow> Inl ''index out of range [0] with length 0''
      | Inr (emb # _) \<Rightarrow>
          (let (errs, found, _) =
                 run_tasks (search_task (check_then_add 30) 30 (FetchSimilaritySearch E emb))
                   (task_order E (ranges (embedding_bounds now))) ([], False)
           in case pool_Wait E errs of
                Some err \<Rightarrow> Inr (Inl err)
              | None \<Rightarrow> Inr (Inr (map Message found))))"

definition Help :: "'v env \<Rightarrow> string" where "Help E = HelpText E"
definition News :: "'v env \<Rightarrow> string" where "News E = NewsText E"

section \<open>The bot\<close>

record tg_message =
  m_private :: bool
  m_text :: string
  m_sender :: int
  m_mentions :: "bool list"
  m_reply_to :: "string option"

text \<open>What the handler sends: nothing, a message to the sender, or a reply to the message or to the
  one it replies to.\<close>

datatype bot_action = Nothing | SendToSender string | ReplyToMessage string | ReplyToQuoted string

text \<open>The handler of \<open>telebot.OnText\<close>. \<open>m_mentions\<close> tells of every entity whether it is a
  mention; \<open>m.ReplyTo.Text\<close> panics when the message is no reply.\<close>

definition answer_with ::
    "(string \<Rightarrow> bot_action) \<Rightarrow> ((gerr + RespTryCompletion) \<times> cache) panics \<Rightarrow> (bot_action \<times> cache) panics" where
  "answer_with act res =
     bind_sum res (\<lambda>(r, c). Inr (case r of Inl _ \<Rightarrow> (Nothing, c) | Inr resp \<Rightarrow> (act (Response resp), c)))"

definition OnText :: "'v env \<Rightarrow> go_time \<Rightarrow> tg_message \<Rightarrow> cache \<Rightarrow> (bot_action \<times> cache) panics" where
  "OnText E now m c =
     (if \<not> m_private m then
        (case m_mentions m of
           True # _ \<Rightarrow>
             (case m_reply_to m of
                None \<Rightarrow> Inl ''invalid memory address or nil pointer dereference''
              | Some prompt \<Rightarrow> answer_with ReplyToQuoted (TryCompletion E now 0 prompt c))
         | _ \<Rightarrow> Inr (Nothing, c))
      else if m_text m = ''/explain'' then Inr (SendToSender (ExplainMessage E (m_sender m) c), c)
      else if m_text m = ''/help'' then Inr (SendToSender (Help E), c)
      else if m_text m = ''/news'' then Inr (SendToSender (News E), c)
      else answer_with ReplyToMessage (TryCompletion E now (m_sender m) (m_text m) c))"

section \<open>What the libraries promise\<close>

text \<open>The pool's \<open>Wait\<close> returns nil when no task failed, and otherwise an error that wraps those
  of the tasks.\<close>

definition pool_law :: "(gerr option list \<Rightarrow> gerr option) \<Rightarrow> bool" where
  "pool_law wait \<longleftrightarrow>
     (\<forall>es. (wait es = None \<longleftrightarrow> (\<forall>e \<in> set es. e = None)) \<and>
        (\<forall>w t. wait es = Some w \<longrightarrow> (errors_Is t w \<longleftrightarrow> (\<exists>e. Some e \<in> set es \<and> errors_Is t e))))"

definition sort_law :: "(RespSimilaritySearch list \<Rightarrow> RespSimilaritySearch list) \<Rightarrow> bool" where
  "sort_law srt \<longleftrightarrow>
     (\<forall>xs. mset (srt xs) = mset xs \<and> sorted_wrt (\<lambda>a b. MostRecentMessageAt a \<le> MostRecentMessageAt b) (srt xs))"

lemma errors_Join_None: "errors_Join es = None \<longleftrightarrow> (\<forall>e \<in> set es. e = None)"
  by (induction es) (auto simp: errors_Join_def Let_def split: option.splits)

lemma errors_Join_law: "pool_law errors_Join"
  unfolding pool_law_def
proof (intro allI conjI impI)
  show "errors_Join es = None \<longleftrightarrow> (\<forall>e \<in> set es. e = None)" for es by (rule errors_Join_None)
  show "errors_Is t w \<longleftrightarrow> (\<exists>e. Some e \<in> set es \<and> errors_Is t e)" if "errors_Join es = Some w" for es w t
  proof -
    have set: "set [e. Some e \<leftarrow> es] = {e. Some e \<in> set es}" by (auto split: option.splits)
    have "w = Joined [e. Some e \<leftarrow> es]"
      using that unfolding errors_Join_def Let_def by (simp split: if_splits)
    then show ?thesis using set by (simp add: errors_Is_chain)
  qed
qed

lemma sort_key_law: "sort_law (sort_key MostRecentMessageAt)"
  unfolding sort_law_def
proof (intro allI conjI)
  fix xs
  show "mset (sort_key MostRecentMessageAt xs) = mset xs" by simp
  show "sorted_wrt (\<lambda>a b. MostRecentMessageAt a \<le> MostRecentMessageAt b) (sort_key MostRecentMessageAt xs)"
    using sorted_sort_key [of MostRecentMessageAt xs] by (simp add: sorted_map)
qed

section \<open>The time ranges\<close>

text \<open>The ranges of \<open>TryCompletion\<close> follow each other without a gap or an overlap: an instant of
  the last ten years (of 365 days) lies in exactly one of them, any other instant in none. So a
  conversation is found by at most one of the concurrent searches.\<close>

theorem completion_ranges_partition:
  "length (filter (\<lambda>(l, r). l \<le> t \<and> t < r) (ranges (completion_bounds now)))
   = (if now + 3650 * minusDay \<le> t \<and> t < now then 1 else 0)"
  by (auto simp: ranges_def completion_bounds_def minusDay_def)

lemma completion_range_of:
  assumes "now + 3650 * minusDay \<le> t" and "t < now"
  shows "\<exists>lr \<in> set (ranges (completion_bounds now)). fst lr \<le> t \<and> t < snd lr"
  using assms by (auto simp: ranges_def completion_bounds_def minusDay_def)

lemma completion_range_inside:
  "lr \<in> set (ranges (completion_bounds now)) \<Longrightarrow> now + 3650 * minusDay \<le> fst lr \<and> snd lr \<le> now"
  by (auto simp: ranges_def completion_bounds_def minusDay_def)

lemma completion_bounds_sorted: "sorted (completion_bounds now)"
  by (simp add: completion_bounds_def minusDay_def)

lemma ranges_simps [simp]: "ranges [] = []" "ranges [a] = []" "ranges (a # b # bounds) = (a, b) # ranges (b # bounds)"
  by (simp_all add: ranges_def)

text \<open>Keys that are dated are found in one range only.\<close>

lemma distinct_over_ranges:
  assumes "sorted bounds" and "\<And>lr x. x \<in> set (R lr) \<Longrightarrow> fst lr \<le> date (key x) \<and> date (key x) < snd lr"
    and "\<And>lr. distinct (map key (R lr))"
  shows "distinct (map key (concat (map R (ranges bounds)))) \<and>
    (\<forall>x \<in> set (concat (map R (ranges bounds))). hd bounds \<le> date (key x))"
  using assms(1)
proof (induction bounds rule: induct_list012)
  case (3 a b bounds)
  then have rest: "distinct (map key (concat (map R (ranges (b # bounds)))))"
      "\<forall>x \<in> set (concat (map R (ranges (b # bounds)))). b \<le> date (key x)" "a \<le> b"
    by simp_all
  have here: "a \<le> date (key x)" "date (key x) < b" if "x \<in> set (R (a, b))" for x
    using assms(2) [OF that] by simp_all
  have "key x \<noteq> key y" if "x \<in> set (R (a, b))" "y \<in> set (concat (map R (ranges (b # bounds))))" for x y
    using here(2) [OF that(1)] rest(2) that(2) by fastforce
  then have "distinct (map key (R (a, b) @ concat (map R (ranges (b # bounds)))))"
    using rest(1) assms(3) by (auto simp del: set_concat)
  moreover have "\<forall>x \<in> set (R (a, b) @ concat (map R (ranges (b # bounds)))). a \<le> date (key x)"
    using here(1) rest(2,3) by (force simp del: set_concat)
  ultimately show ?case by simp
qed simp_all

section \<open>The searches together\<close>

lemma mset_concat_map: "mset (concat (map f xs)) = sum_mset (image_mset (\<lambda>x. mset (f x)) (mset xs))"
  by (induction xs) auto

lemma fold_add_then_check: "fst (fold (add_then_check n) found st) = fst st @ found"
  by (induction found arbitrary: st) (auto simp: add_then_check_def split: prod.split)

lemma fold_check_then_add: "fst (fold (check_then_add n) found st) = fst st @ found"
  by (induction found arbitrary: st) (auto simp: check_then_add_def split: prod.split)

text \<open>An accumulator that keeps everything: what both ways of adding a result have in common.\<close>

locale collector =
  fixes add :: "RespSimilaritySearch \<Rightarrow> search_state \<Rightarrow> search_state"
  assumes add_all: "fst (fold add found st) = fst st @ found"
begin

lemma run_ok:
  assumes "\<forall>i \<in> set order. fetch i = Inr (f i)"
  shows "set (fst (run_tasks (search_task add n fetch) order st)) \<subseteq> {None} \<and>
    fst (snd (run_tasks (search_task add n fetch) order st)) = fst st @ concat (map f order)"
  using assms
proof (induction order arbitrary: st)
  case (Cons i order)
  then show ?case
    by (simp add: search_task_def add_all split: prod.split) (metis (no_types, lifting) append.assoc fst_conv snd_conv add_all)
qed simp

text \<open>Searches that succeed or are cancelled.\<close>

lemma run_cancelled_or_ok:
  assumes "\<forall>i \<in> set order. fetch i = Inr (f i) \<or> f i = [] \<and> (\<exists>e. fetch i = Inl e \<and> errors_Is ContextCanceled e)"
  shows "(\<forall>e. Some e \<in> set (fst (run_tasks (search_task add n fetch) order st)) \<longrightarrow> errors_Is ContextCanceled e) \<and>
    fst (snd (run_tasks (search_task add n fetch) order st)) = fst st @ concat (map f order)"
  using assms
proof (induction order arbitrary: st)
  case (Cons i order)
  obtain e st1 where step: "search_task add n fetch i st = (e, st1)" by (cases "search_task add n fetch i st")
  have "fst st1 = fst st @ f i" "\<forall>x. e = Some x \<longrightarrow> errors_Is ContextCanceled x"
    using Cons.prems step by (auto simp: search_task_def add_all split: if_splits)
  then show ?case using Cons.IH [of st1] Cons.prems by (auto simp: step split: prod.splits)
qed simp

lemma run_append:
  "run_tasks task (xs @ ys) st =
     (let (es, st1) = run_tasks task xs st; (es', st2) = run_tasks task ys st1 in (es @ es', st2))"
  by (induction xs arbitrary: st) (auto split: prod.splits)

lemma run_failed:
  assumes "\<forall>i \<in> set order. fetch i = Inl (e i)" and "length (fst st) \<noteq> n"
  shows "run_tasks (search_task add n fetch) order st = (map (Some \<circ> e) order, st)"
  using assms by (induction order) (auto simp: search_task_def)

lemma run_cancelled:
  assumes "\<forall>i \<in> set before. fetch i = Inr (f i)" and "fetch i = Inl e" and "errors_Is ContextCanceled e"
    and "length (concat (map f before)) \<noteq> n"
  shows "Some e \<in> set (fst (run_tasks (search_task add n fetch) (before @ i # after) ([], False)))"
proof -
  obtain es sr b where "run_tasks (search_task add n fetch) before ([], False) = (es, (sr, b))" by (metis surj_pair)
  moreover have "sr = concat (map f before)"
    using run_ok [OF assms(1), of n "([], False)"] calculation by simp
  ultimately show ?thesis using assms(2-4)
    by (auto simp: run_append search_task_def split: prod.split)
qed

end

interpretation atc: collector "add_then_check n" for n
  by unfold_locales (rule fold_add_then_check)

interpretation cta: collector "check_then_add n" for n
  by unfold_locales (rule fold_check_then_add)

text \<open>The results of the searches that succeed are passed on, in the order in which the searches end; those that are cancelled do not matter.\<close>

lemma searches_ok:
  assumes "pool_law (pool_Wait E)" and "CreateEmbeddings E query = Inr (emb # es)"
    and "\<And>i. FetchSimilaritySearch E emb i = Inr (f i) \<or> f i = [] \<and> (\<exists>e. FetchSimilaritySearch E emb i = Inl e \<and> errors_Is ContextCanceled e)"
  shows "TryCompletion E now senderID query c =
    complete E now senderID query (concat (map f (task_order E (ranges (completion_bounds now))))) c"
proof -
  define order where "order = task_order E (ranges (completion_bounds now))"
  obtain errs found b where run:
    "run_tasks (search_task (add_then_check 20) 20 (FetchSimilaritySearch E emb)) order ([], False) = (errs, found, b)"
    by (metis surj_pair)
  have errs: "\<forall>e. Some e \<in> set errs \<longrightarrow> errors_Is ContextCanceled e" and "found = concat (map f order)"
    using atc.run_cancelled_or_ok [of order "FetchSimilaritySearch E emb" f 20 20 "([], False)"] assms(3) run by simp_all
  moreover have "errors_Is ContextCanceled w" if "pool_Wait E errs = Some w" for w
  proof -
    have "\<exists>x \<in> set errs. x \<noteq> None" using assms(1) that unfolding pool_law_def by (metis option.distinct(1))
    then obtain e where "Some e \<in> set errs" by force
    then show ?thesis using assms(1) that errs unfolding pool_law_def by blast
  qed
  ultimately show ?thesis using assms(2) run by (simp add: TryCompletion_def order_def split: option.split)
qed

lemma complete_sources:
  assumes "sort_law (SortFunc E)" and "complete E now senderID query found c = Inr (Inr resp, c')"
  shows "mset (UsedConversations resp) = mset found \<and>
    sorted_wrt (\<lambda>a b. MostRecentMessageAt b \<le> MostRecentMessageAt a) (UsedConversations resp) \<and>
    (if UsedConversations resp = [] then Response resp = NoResultsAnswer E
     else \<exists>answer. CreateChatCompletion E query (map Message (UsedConversations resp)) = Inr answer \<and>
            Response resp = user_response E now (UsedConversations resp) answer)"
proof -
  have "mset (rev (SortFunc E found)) = mset found"
    "sorted_wrt (\<lambda>a b. MostRecentMessageAt b \<le> MostRecentMessageAt a) (rev (SortFunc E found))"
    using assms(1) by (simp_all add: sort_law_def sorted_wrt_rev)
  moreover have "found \<noteq> [] \<Longrightarrow> SortFunc E found \<noteq> []"
    using assms(1) by (metis mset_zero_iff sort_law_def)
  ultimately show ?thesis using assms(2)
    by (auto simp: complete_def no_results_def bind_sum_Inr_iff Let_def split: if_splits sum.splits)
qed

lemma mset_ordered:
  "mset order = mset rs \<Longrightarrow> mset (concat (map f order)) = mset (concat (map f rs))"
  by (simp add: mset_concat_map)

text \<open>C7: when every search succeeds, an answer of \<open>TryCompletion\<close> is based on all the
  conversations found, each once, the most recent first, whatever the order in which the searches end. These are the
  conversations the model is asked with and the ones that are returned.\<close>

theorem TryCompletion_sources:
  assumes "pool_law (pool_Wait E)" and "sort_law (SortFunc E)"
    and "mset (task_order E (ranges (completion_bounds now))) = mset (ranges (completion_bounds now))"
    and "CreateEmbeddings E query = Inr (emb # es)"
    and "\<forall>i. FetchSimilaritySearch E emb i = Inr (f i)"
    and "TryCompletion E now senderID query c = Inr (Inr resp, c')"
  shows "mset (UsedConversations resp) = mset (concat (map f (ranges (completion_bounds now)))) \<and>
    sorted_wrt (\<lambda>a b. MostRecentMessageAt b \<le> MostRecentMessageAt a) (UsedConversations resp) \<and>
    (if UsedConversations resp = [] then Response resp = NoResultsAnswer E
     else \<exists>answer. CreateChatCompletion E query (map Message (UsedConversations resp)) = Inr answer \<and>
            Response resp = user_response E now (UsedConversations resp) answer)"
proof -
  have "complete E now senderID query (concat (map f (task_order E (ranges (completion_bounds now))))) c = Inr (Inr resp, c')"
    using searches_ok [OF assms(1,4)] assms(5,6) by metis
  from complete_sources [OF assms(2) this] show ?thesis unfolding mset_ordered [OF assms(3)] .
qed

text \<open>An answer is given whenever the model answers and no conversation found is stored as an empty list.\<close>

lemma cache_sources_total:
  "\<forall>conv \<in> set convs. unmarshal (ss_ConversationStarter conv) \<noteq> Inr [] \<Longrightarrow> \<exists>res. cache_sources unmarshal convs = Inr res"
  by (induction unmarshal convs rule: cache_sources.induct) (auto split: sum.splits list.splits)

lemma complete_answers:
  assumes "sort_law (SortFunc E)" and "\<forall>ms. \<exists>answer. CreateChatCompletion E query ms = Inr answer"
    and "\<forall>conv \<in> set found. unmarshal_starter E (ss_ConversationStarter conv) \<noteq> Inr []"
  shows "\<exists>resp c'. complete E now senderID query found c = Inr (Inr resp, c')"
proof -
  let ?convs = "rev (SortFunc E found)"
  have "set ?convs = set found" using assms(1) by (metis set_rev set_mset_mset sort_law_def)
  then have "\<forall>conv \<in> set (take 15 ?convs). unmarshal_starter E (ss_ConversationStarter conv) \<noteq> Inr []"
    using assms(3) by (metis in_set_takeD)
  from cache_sources_total [OF this] obtain r where r: "cache_sources (unmarshal_starter E) (take 15 ?convs) = Inr r" by blast
  obtain answer where "CreateChatCompletion E query (map Message ?convs) = Inr answer" using assms(2) by blast
  with r show ?thesis by (auto simp: complete_def saveCacheItem_def Let_def split: prod.split)
qed

text \<open>An error of the storage can be hidden from the user. The first failing search cancels the
  others, the pool joins their errors, and \<open>TryCompletion\<close> ignores any error that wraps a
  cancellation: when all searches fail and one of them because of the cancellation, the user is told
  that nothing was found.\<close>

theorem TryCompletion_hides_failures:
  assumes "pool_law (pool_Wait E)"
    and "CreateEmbeddings E query = Inr (emb # es)"
    and "\<forall>i \<in> set (task_order E (ranges (completion_bounds now))). FetchSimilaritySearch E emb i = Inl (e i)"
    and "i \<in> set (task_order E (ranges (completion_bounds now)))" and "errors_Is ContextCanceled (e i)"
  shows "TryCompletion E now senderID query c = Inr (Inr (no_results E), c)"
proof -
  define order where "order = task_order E (ranges (completion_bounds now))"
  have run: "run_tasks (search_task (add_then_check 20) 20 (FetchSimilaritySearch E emb)) order ([], False)
      = (map (Some \<circ> e) order, [], False)"
    using assms(3) by (intro atc.run_failed) (simp_all add: order_def)
  have law: "pool_Wait E es' = None \<longleftrightarrow> (\<forall>x \<in> set es'. x = None)"
    "pool_Wait E es' = Some w \<Longrightarrow> errors_Is t w \<longleftrightarrow> (\<exists>x. Some x \<in> set es' \<and> errors_Is t x)" for es' w t
    using assms(1) by (auto simp: pool_law_def)
  have "pool_Wait E (map (Some \<circ> e) order) \<noteq> None"
  proof -
    have "Some (e i) \<in> set (map (Some \<circ> e) order)" using assms(4) by (metis comp_apply image_eqI list.set_map order_def)
    then show ?thesis unfolding law(1) by blast
  qed
  then obtain w where w: "pool_Wait E (map (Some \<circ> e) order) = Some w" by blast
  have "errors_Is ContextCanceled w" using assms(4,5) by (auto simp: law(2) [OF w] order_def)
  then show ?thesis
    using assms(2) run w by (simp add: TryCompletion_def complete_def flip: order_def)
qed

text \<open>\<open>TryEmbedding\<close> stops the remaining searches once it has enough results, but accepts
  their cancellation only while it has exactly 30 results. With any other number, in particular
  with more than 30, the cancellation is returned as its error and the results are lost.\<close>

theorem TryEmbedding_loses_results:
  assumes "pool_law (pool_Wait E)"
    and "CreateEmbeddings E input = Inr (emb # es)"
    and "task_order E (ranges (embedding_bounds now)) = before @ i # after"
    and "\<forall>j \<in> set before. FetchSimilaritySearch E emb j = Inr (f j)"
    and "length (concat (map f before)) \<noteq> 30"
    and "FetchSimilaritySearch E emb i = Inl e" and "errors_Is ContextCanceled e"
  shows "\<exists>err. TryEmbedding E now input = Inr (Inl err) \<and> errors_Is ContextCanceled err"
proof -
  define order where "order = task_order E (ranges (embedding_bounds now))"
  obtain errs found b where run:
    "run_tasks (search_task (check_then_add 30) 30 (FetchSimilaritySearch E emb)) order ([], False) = (errs, found, b)"
    by (metis surj_pair)
  have "Some e \<in> set errs"
    using cta.run_cancelled [OF assms(4,6,7,5), of 30 after] run by (simp add: order_def assms(3))
  then obtain w where "pool_Wait E errs = Some w" "errors_Is ContextCanceled w"
    using assms(1,7) unfolding pool_law_def by (metis option.exhaust)
  then show ?thesis using assms(2) run by (simp add: TryEmbedding_def flip: order_def)
qed

section \<open>The cache\<close>

lemma first_letters_length: "length (first_letters text) \<le> 120"
  by (auto simp: first_letters_def Let_def)

lemma first_letters_prefix: "prefix (first_letters text) text"
  by (auto simp: first_letters_def Let_def take_is_prefix intro: prefix_order.trans split: option.split)

definition source_of :: "RespSimilaritySearch \<Rightarrow> serializedChatMessage \<Rightarrow> SourcedMessage" where
  "source_of conv s0 =
     \<lparr>URL = ''https://t.me/'' @ TelegramChatID conv @ ''/'' @ show_int (ID s0),
      sm_MostRecentMessageAt = MostRecentMessageAt conv, FirstLetters = first_letters (getText s0)\<rparr>"

lemma cache_sources_ok:
  "cache_sources unmarshal convs = Inr (Inr srcs) \<Longrightarrow>
   list_all2 (\<lambda>conv src. \<exists>s0 ss. unmarshal (ss_ConversationStarter conv) = Inr (s0 # ss) \<and> src = source_of conv s0)
     convs srcs"
proof (induction unmarshal convs arbitrary: srcs rule: cache_sources.induct)
  case (2 unmarshal conv convs)
  then show ?case
    by (auto simp: bind_sum_Inr_iff source_of_def list_all2_Cons1 split: sum.splits list.splits)
qed simp

text \<open>What \<open>saveCacheItem\<close> stores for a sender are the sources of the first 15 conversations
  in their order: the link to the message that started the conversation and the beginning of its
  text, at most 120 bytes of it. The entries of other senders are kept, and when a conversation
  cannot be decoded the cache is left as it was.\<close>

theorem saveCacheItem_stores:
  assumes "saveCacheItem unmarshal senderID conversations c = Inr (err, c')"
  shows "case err of
      Some _ \<Rightarrow> c' = c
    | None \<Rightarrow> \<exists>srcs. c' = c(senderID \<mapsto> srcs) \<and>
        list_all2 (\<lambda>conv src. \<exists>s0 ss. unmarshal (ss_ConversationStarter conv) = Inr (s0 # ss) \<and>
             URL src = ''https://t.me/'' @ TelegramChatID conv @ ''/'' @ show_int (ID s0) \<and>
             prefix (FirstLetters src) (getText s0) \<and> length (FirstLetters src) \<le> 120)
          (take 15 conversations) srcs"
proof (cases err)
  case None
  obtain res where res: "cache_sources unmarshal (take 15 conversations) = Inr res"
      "(case res of Inl err \<Rightarrow> (Some err, c) | Inr srcs \<Rightarrow> (None, c(senderID \<mapsto> srcs))) = (err, c')"
    using assms by (auto simp: saveCacheItem_def bind_sum_Inr_iff)
  then obtain srcs where srcs: "cache_sources unmarshal (take 15 conversations) = Inr (Inr srcs)"
      "c' = c(senderID \<mapsto> srcs)"
    using None by (cases res) auto
  have "list_all2 (\<lambda>conv src. \<exists>s0 ss. unmarshal (ss_ConversationStarter conv) = Inr (s0 # ss) \<and>
             URL src = ''https://t.me/'' @ TelegramChatID conv @ ''/'' @ show_int (ID s0) \<and>
             prefix (FirstLetters src) (getText s0) \<and> length (FirstLetters src) \<le> 120)
          (take 15 conversations) srcs"
    by (rule list_all2_mono [OF cache_sources_ok [OF srcs(1)]])
      (auto simp: source_of_def first_letters_length first_letters_prefix)
  then show ?thesis using None srcs(2) by auto
next
  case (Some e)
  obtain res where "(case res of Inl err \<Rightarrow> (Some err, c) | Inr srcs \<Rightarrow> (None, c(senderID \<mapsto> srcs))) = (err, c')"
    using assms by (auto simp: saveCacheItem_def bind_sum_Inr_iff)
  then show ?thesis using Some by (cases res) auto
qed

section \<open>The bot\<close>

text \<open>In a group chat the bot answers only messages that begin with a mention; a mention in a
  message that replies to nothing makes the handler panic, whatever the rest of the message.\<close>

theorem mention_without_reply_panics:
  "OnText E now \<lparr>m_private = False, m_text = t, m_sender = u, m_mentions = True # ms, m_reply_to = None\<rparr> c
   = Inl ''invalid memory address or nil pointer dereference''"
  by (simp add: OnText_def)

section \<open>Witnesses\<close>

definition sample_result :: "string \<Rightarrow> go_time \<Rightarrow> RespSimilaritySearch" where
  "sample_result t d = \<lparr>Message = t, TelegramChatID = ''chat'', ss_ConversationStarter = ''[]'', MostRecentMessageAt = d\<rparr>"

text \<open>An environment in which every search finds one conversation dated at the start of its range.\<close>

definition sample_env :: "unit env" where
  "sample_env = \<lparr>CreateEmbeddings = (\<lambda>_. Inr [()]),
     FetchSimilaritySearch = (\<lambda>_ i. Inr [sample_result ''m'' (fst i)]),
     CreateChatCompletion = (\<lambda>q ms. Inr ''yes''), task_order = rev, pool_Wait = errors_Join,
     SortFunc = sort_key MostRecentMessageAt, unmarshal_starter = (\<lambda>_. Inr [sample_msg 1 0]),
     NoResultsAnswer = ''none'', NoExplainedAnswer = ''no'', HelpText = ''h'', NewsText = ''n'',
     stale_text = (\<lambda>_. ''stale''), fresh_text = (\<lambda>_. ''few''), StaleThreshold = 0, format_date = (\<lambda>_. ''d''),
     explain_intro = ''i'', explain_outro = ''o''\<rparr>"

lemma sample_answer:
  "\<exists>resp c'. TryCompletion sample_env 0 1 ''q'' Map.empty = Inr (Inr resp, c')"
proof -
  have "TryCompletion sample_env 0 1 ''q'' Map.empty = complete sample_env 0 1 ''q''
      (concat (map (\<lambda>i. [sample_result ''m'' (fst i)]) (task_order sample_env (ranges (completion_bounds 0))))) Map.empty"
    by (rule searches_ok [of _ _ "()" "[]"]) (simp_all add: sample_env_def errors_Join_law)
  then show ?thesis
    using complete_answers [of sample_env] by (simp add: sample_env_def sort_key_law)
qed

theorem TryCompletion_sources_witness:
  "\<exists>resp c'. TryCompletion sample_env 0 1 ''q'' Map.empty = Inr (Inr resp, c') \<and>
     size (mset (UsedConversations resp)) = 7"
proof -
  obtain resp c' where ok: "TryCompletion sample_env 0 1 ''q'' Map.empty = Inr (Inr resp, c')"
    using sample_answer by blast
  have "mset (UsedConversations resp) =
      mset (concat (map (\<lambda>i. [sample_result ''m'' (fst i)]) (ranges (completion_bounds 0))))"
    using TryCompletion_sources [OF _ _ _ _ _ ok, of "()" "[]" "\<lambda>i. [sample_result ''m'' (fst i)]"]
    by (simp add: sample_env_def errors_Join_law sort_key_law)
  then have "size (mset (UsedConversations resp)) = 7"
    by (simp add: ranges_def completion_bounds_def)
  then show ?thesis using ok by blast
qed

text \<open>A database that is down: one search gets its error, the others are cancelled.\<close>

definition broken_env :: "unit env" where
  "broken_env = sample_env\<lparr>FetchSimilaritySearch := (\<lambda>_ i. Inl (if snd i = 0 then PgErr ''57P01'' ''down'' else Sentinel ContextCanceled))\<rparr>"

theorem TryCompletion_hides_failures_witness:
  "TryCompletion broken_env 0 1 ''q'' Map.empty = Inr (Inr (no_results broken_env), Map.empty)"
proof (rule TryCompletion_hides_failures)
  show "pool_law (pool_Wait broken_env)" by (simp add: broken_env_def sample_env_def errors_Join_law)
  show "CreateEmbeddings broken_env ''q'' = Inr (() # [])" by (simp add: broken_env_def sample_env_def)
  show "\<forall>i \<in> set (task_order broken_env (ranges (completion_bounds 0))). FetchSimilaritySearch broken_env () i
     = Inl (if snd i = 0 then PgErr ''57P01'' ''down'' else Sentinel ContextCanceled)"
    by (simp add: broken_env_def)
  show "(365 * 10 * minusDay, 365 * 3 * minusDay) \<in> set (task_order broken_env (ranges (completion_bounds 0)))"
    by (simp add: broken_env_def sample_env_def ranges_def completion_bounds_def)
  show "errors_Is ContextCanceled (if snd (365 * 10 * minusDay, 365 * 3 * minusDay) = 0
      then PgErr ''57P01'' ''down'' else Sentinel ContextCanceled)"
    by (simp add: errors_Is_chain minusDay_def)
qed

text \<open>A first search that finds 31 conversations, and a second one that is cancelled.\<close>

definition many_env :: "unit env" where
  "many_env = sample_env\<lparr>task_order := (\<lambda>rs. rs),
     FetchSimilaritySearch := (\<lambda>_ i. if fst i = 365 * 3 * minusDay then Inr (replicate 31 (sample_result ''m'' 0))
        else Inl (Sentinel ContextCanceled))\<rparr>"

theorem TryEmbedding_loses_results_witness:
  "\<exists>err. TryEmbedding many_env 0 ''q'' = Inr (Inl err) \<and> errors_Is ContextCanceled err"
proof (rule TryEmbedding_loses_results)
  show "pool_law (pool_Wait many_env)" by (simp add: many_env_def sample_env_def errors_Join_law)
  show "CreateEmbeddings many_env ''q'' = Inr (() # [])" by (simp add: many_env_def sample_env_def)
  show "task_order many_env (ranges (embedding_bounds 0)) =
      [(365 * 3 * minusDay, 365 * minusDay)] @ (365 * minusDay, 30 * minusDay) #
      [(30 * minusDay, 7 * minusDay), (7 * minusDay, 0)]"
    by (simp add: many_env_def ranges_def embedding_bounds_def)
  show "\<forall>j \<in> set [(365 * 3 * minusDay, 365 * minusDay)]. FetchSimilaritySearch many_env () j
      = Inr (replicate 31 (sample_result ''m'' 0))"
    by (simp add: many_env_def)
  show "length (concat (map (\<lambda>_. replicate 31 (sample_result ''m'' 0)) [(365 * 3 * minusDay, 365 * minusDay)])) \<noteq> 30"
    by simp
  show "FetchSimilaritySearch many_env () (365 * minusDay, 30 * minusDay) = Inl (Sentinel ContextCanceled)"
    by (simp add: many_env_def minusDay_def)
  show "errors_Is ContextCanceled (Sentinel ContextCanceled)" by (simp add: errors_Is_chain)
qed

theorem saveCacheItem_stores_witness:
  "\<exists>srcs. saveCacheItem (\<lambda>_. Inr [sample_msg 1 0]) 5 [sample_result ''m'' 0] Map.empty = Inr (None, [5 \<mapsto> srcs]) \<and>
     length srcs = 1 \<and> prefix (FirstLetters (hd srcs)) ''hi''"
proof -
  obtain c' where save: "saveCacheItem (\<lambda>_. Inr [sample_msg 1 0]) 5 [sample_result ''m'' 0] Map.empty = Inr (None, c')"
    by (simp add: saveCacheItem_def)
  from saveCacheItem_stores [OF this] obtain srcs where "c' = [5 \<mapsto> srcs]"
    "list_all2 (\<lambda>conv src. prefix (FirstLetters src) (getText (sample_msg 1 0))) [sample_result ''m'' 0] srcs"
    by (auto simp: list_all2_Cons1)
  then show ?thesis using save by (auto simp: list_all2_Cons1 getText_def sample_msg_def)
qed

end
