(* ===== verification/Embeddings.thy ===== *)
theory Embeddings
  imports Threads
begin

text \<open>
  Generating embeddings: \<open>story_generate_embeddings.go\<close> of \<open>controllerv1\<close> and the queries it uses,
  \<open>req_chatthreads.go\<close> and \<open>req_embeddings.go\<close> of the storage.

  The two tables are a record: the rows of \<open>chatthreads\<close> in the order in which the database
  returns them, and the rows of \<open>embeddings\<close> by their key \<open>thread_id\<close>. The OpenAI client, JSON
  decoding and the template are the record \<open>gen_env\<close>. The story loops until there is nothing left
  to do and need not end, so it is a \<open>partial_function (option)\<close>.
\<close>

section \<open>The storage\<close>

record chat_thread_row =
  row_ChatID :: string
  row_ThreadID :: int
  row_Body :: string

record 'f embedding_row =
  er_ChatID :: string
  er_Message :: string
  er_Embedding :: "'f list"

record 'f tables =
  chatthreads :: "chat_thread_row list"
  embeddings :: "int \<rightharpoonup> 'f embedding_row"

text \<open>\<open>SELECT ... WHERE thread_id NOT IN (SELECT thread_id FROM embeddings) LIMIT 2000\<close>.\<close>

definition without_embedding :: "'f tables \<Rightarrow> chat_thread_row list" where
  "without_embedding db = filter (\<lambda>r. embeddings db (row_ThreadID r) = None) (chatthreads db)"

definition FetchChatThreadToGenerateEmbedding :: "'f tables \<Rightarrow> chat_thread_row list" where
  "FetchChatThreadToGenerateEmbedding db = take 2000 (without_embedding db)"

text \<open>\<open>INSERT ... ON CONFLICT (thread_id) DO UPDATE\<close>. A vector is given by its
  backing array, up to the capacity of the slice: \<open>req.Embedding[:2000]\<close> reaches beyond the length and panics only if the
  capacity is less than 2000. \<open>fail\<close> is the error of the database, if any.\<close>

definition UpsertEmbedding ::
    "('f tables \<Rightarrow> gerr option) \<Rightarrow> int \<Rightarrow> string \<Rightarrow> string \<Rightarrow> 'f list \<Rightarrow> 'f tables \<Rightarrow>
     (gerr option \<times> 'f tables) panics" where
  "UpsertEmbedding fail threadID chatID msg emb db =
     (if length emb < 2000 then Inl ''slice bounds out of range''
      else case fail db of
        Some err \<Rightarrow> Inr (Some err, db)
      | None \<Rightarrow>
          Inr (None, db\<lparr>embeddings := (embeddings db)(threadID \<mapsto>
             (case embeddings db threadID of
                None \<Rightarrow> \<lparr>er_ChatID = chatID, er_Message = msg, er_Embedding = take 2000 emb\<rparr>
              | Some old \<Rightarrow> old\<lparr>er_Message := msg, er_Embedding := take 2000 emb\<rparr>))\<rparr>))"

text \<open>\<open>INSERT INTO chatthreads\<close> with the next number of the serial key.\<close>

definition CreateChatThread ::
    "('f tables \<Rightarrow> gerr option) \<Rightarrow> (thread \<Rightarrow> gerr + string) \<Rightarrow> int \<Rightarrow> string \<Rightarrow> thread \<Rightarrow> 'f tables \<Rightarrow> gerr option \<times> 'f tables" where
  "CreateChatThread fail marshal nextID chatID body db =
     (case marshal body of
        Inl err \<Rightarrow> (Some err, db)
      | Inr b \<Rightarrow>
          (case fail db of
             Some err \<Rightarrow> (Some err, db)
           | None \<Rightarrow>
               (None, db\<lparr>chatthreads := chatthreads db @ [\<lparr>row_ChatID = chatID, row_ThreadID = nextID, row_Body = b\<rparr>]\<rparr>)))"

section \<open>The story\<close>

record 'f gen_env =
  gen_unmarshal :: "string \<Rightarrow> gerr + thread"
  gen_CreateEmbeddings :: "string \<Rightarrow> gerr + 'f list list"
  gen_template :: "template_data \<Rightarrow> gerr + string"
  gen_date :: "int \<Rightarrow> string"
  gen_Wait :: "gerr option list \<Rightarrow> gerr option"
  gen_fetch_error :: "'f tables \<Rightarrow> gerr option"
  gen_upsert_error :: "'f tables \<Rightarrow> gerr option"

text \<open>The task for one thread: its error, or the panic, and the tables. The error of
  \<open>CreateEmbeddings\<close> is overwritten before it is looked at; with it the response has no embeddings.\<close>

definition embed_thread ::
    "'f gen_env \<Rightarrow> chat_thread_row \<Rightarrow> 'f tables \<Rightarrow> gerr option panics \<times> 'f tables" where
  "embed_thread E row db =
     (case gen_unmarshal E (row_Body row) of
        Inl err \<Rightarrow> (Inr (Some err), db)
      | Inr t \<Rightarrow>
          if length t < 2 then (Inr None, db)
          else
            (let embs = (case gen_CreateEmbeddings E (ForEmbedding t) of Inl _ \<Rightarrow> [] | Inr es \<Rightarrow> es)
             in case ForShowingToTheUser (gen_template E) (gen_date E) t (row_ChatID row) of
                  Inl p \<Rightarrow> (Inl p, db)
                | Inr (Inl err) \<Rightarrow> (Inr (Some err), db)
                | Inr (Inr msg) \<Rightarrow>
                    (case embs of
                       [] \<Rightarrow> (Inr None, db)
                     | emb # _ \<Rightarrow>
                         (case UpsertEmbedding (gen_upsert_error E) (row_ThreadID row) (row_ChatID row) msg emb db of
                            Inl p \<Rightarrow> (Inl p, db)
                          | Inr (err, db') \<Rightarrow> (Inr err, db')))))"

fun embed_all ::
    "'f gen_env \<Rightarrow> chat_thread_row list \<Rightarrow> 'f tables \<Rightarrow> gerr option list panics \<times> 'f tables" where
  "embed_all E [] db = (Inr [], db)"
| "embed_all E (row # rows) db =
     (let (r, db1) = embed_thread E row db; (rs, db2) = embed_all E rows db1
      in (bind_sum r (\<lambda>e. bind_sum rs (\<lambda>es. Inr (e # es))), db2))"

partial_function (option) GenerateEmbeddings ::
    "'f gen_env \<Rightarrow> 'f tables \<Rightarrow> (gerr option panics \<times> 'f tables) option" where
  "GenerateEmbeddings E db =
     (if gen_fetch_error E db \<noteq> None then Some (Inr (gen_fetch_error E db), db)
      else if FetchChatThreadToGenerateEmbedding db = [] then Some (Inr None, db)
      else
        (case embed_all E (FetchChatThreadToGenerateEmbedding db) db of
           (Inl p, db') \<Rightarrow> Some (Inl p, db')
         | (Inr errs, db') \<Rightarrow>
             (case gen_Wait E errs of
                Some err \<Rightarrow> Some (Inr (Some err), db')
              | None \<Rightarrow> GenerateEmbeddings E db')))"

section \<open>What a round does\<close>

text \<open>A row that gets its embedding, whatever is in the tables; a row that is passed over.\<close>

definition embeddable :: "'f gen_env \<Rightarrow> chat_thread_row \<Rightarrow> bool" where
  "embeddable E row \<longleftrightarrow>
     (\<exists>t emb embs msg. gen_unmarshal E (row_Body row) = Inr t \<and> 2 \<le> length t \<and>
        gen_CreateEmbeddings E (ForEmbedding t) = Inr (emb # embs) \<and> 2000 \<le> length emb \<and>
        ForShowingToTheUser (gen_template E) (gen_date E) t (row_ChatID row) = Inr (Inr msg))"

definition passed_over :: "'f gen_env \<Rightarrow> chat_thread_row \<Rightarrow> bool" where
  "passed_over E row \<longleftrightarrow>
     (\<exists>t. gen_unmarshal E (row_Body row) = Inr t \<and>
        (length t < 2 \<or>
         (\<exists>msg. ForShowingToTheUser (gen_template E) (gen_date E) t (row_ChatID row) = Inr (Inr msg)) \<and>
         ((\<exists>err. gen_CreateEmbeddings E (ForEmbedding t) = Inl err) \<or> gen_CreateEmbeddings E (ForEmbedding t) = Inr [])))"

text \<open>The database never fails.\<close>

definition healthy :: "'f gen_env \<Rightarrow> bool" where
  "healthy E \<longleftrightarrow> (\<forall>db. gen_fetch_error E db = None \<and> gen_upsert_error E db = None)"

text \<open>Nil errors give a nil result of the pool.\<close>

definition quiet_wait :: "(gerr option list \<Rightarrow> gerr option) \<Rightarrow> bool" where
  "quiet_wait wait \<longleftrightarrow> (\<forall>es. (\<forall>e \<in> set es. e = None) \<longrightarrow> wait es = None)"

lemma embed_embeddable:
  assumes "healthy E" and "embeddable E row"
  shows "\<exists>er. embed_thread E row db = (Inr None, db\<lparr>embeddings := (embeddings db)(row_ThreadID row \<mapsto> er)\<rparr>)"
  using assms by (auto simp: embeddable_def embed_thread_def UpsertEmbedding_def healthy_def)

lemma embed_passed_over: "passed_over E row \<Longrightarrow> embed_thread E row db = (Inr None, db)"
  by (auto simp: passed_over_def embed_thread_def)

lemma embed_all_rows:
  assumes "healthy E" and "\<forall>row \<in> set rows. embeddable E row \<or> passed_over E row"
  shows "\<exists>m es. embed_all E rows db = (Inr es, db\<lparr>embeddings := m\<rparr>) \<and> (\<forall>e \<in> set es. e = None) \<and>
     (\<forall>k. embeddings db k \<noteq> None \<longrightarrow> m k \<noteq> None) \<and>
     (\<forall>k. m k \<noteq> None \<longrightarrow> embeddings db k \<noteq> None \<or> (\<exists>row \<in> set rows. embeddable E row \<and> row_ThreadID row = k)) \<and>
     (\<forall>row \<in> set rows. embeddable E row \<longrightarrow> m (row_ThreadID row) \<noteq> None)"
  using assms(2)
proof (induction rows arbitrary: db)
  case Nil
  then show ?case by (intro exI [of _ "embeddings db"] exI [of _ "[]"]) simp
next
  case (Cons row rows)
  obtain m1 where step: "embed_thread E row db = (Inr None, db\<lparr>embeddings := m1\<rparr>)"
    and m1: "\<forall>k. embeddings db k \<noteq> None \<longrightarrow> m1 k \<noteq> None"
      "\<forall>k. m1 k \<noteq> None \<longrightarrow> embeddings db k \<noteq> None \<or> embeddable E row \<and> row_ThreadID row = k"
      "embeddable E row \<longrightarrow> m1 (row_ThreadID row) \<noteq> None"
  proof (cases "embeddable E row")
    case True
    then show ?thesis using embed_embeddable [OF assms(1) True, of db] that by (force split: if_splits)
  next
    case False
    then have "embed_thread E row db = (Inr None, db\<lparr>embeddings := embeddings db\<rparr>)"
      using Cons.prems by (simp add: embed_passed_over)
    then show ?thesis using that False by blast
  qed
  obtain m es where rest: "embed_all E rows (db\<lparr>embeddings := m1\<rparr>) = (Inr es, db\<lparr>embeddings := m\<rparr>)"
      "\<forall>e \<in> set es. e = None" "\<forall>k. m1 k \<noteq> None \<longrightarrow> m k \<noteq> None"
      "\<forall>k. m k \<noteq> None \<longrightarrow> m1 k \<noteq> None \<or> (\<exists>row \<in> set rows. embeddable E row \<and> row_ThreadID row = k)"
      "\<forall>row \<in> set rows. embeddable E row \<longrightarrow> m (row_ThreadID row) \<noteq> None"
    using Cons.IH [of "db\<lparr>embeddings := m1\<rparr>"] Cons.prems by auto
  show ?case
    by (intro exI [of _ m] exI [of _ "None # es"])
      (use step rest m1 in \<open>simp; metis\<close>)
qed

lemma fetched_rows:
  "set (FetchChatThreadToGenerateEmbedding db) \<subseteq> set (without_embedding db)"
  "set (without_embedding db) \<subseteq> set (chatthreads db)"
  by (auto simp: FetchChatThreadToGenerateEmbedding_def without_embedding_def dest: in_set_takeD)

lemma fetch_none_iff: "FetchChatThreadToGenerateEmbedding db = [] \<longleftrightarrow> without_embedding db = []"
  by (simp add: FetchChatThreadToGenerateEmbedding_def)

text \<open>A round in which no row fails.\<close>

lemma embed_round:
  assumes "healthy E" and "quiet_wait (gen_Wait E)" and "\<forall>row \<in> set (chatthreads db). embeddable E row \<or> passed_over E row"
  shows "\<exists>m es. embed_all E (FetchChatThreadToGenerateEmbedding db) db = (Inr es, db\<lparr>embeddings := m\<rparr>) \<and>
    gen_Wait E es = None \<and> (\<forall>k. embeddings db k \<noteq> None \<longrightarrow> m k \<noteq> None) \<and>
    (\<forall>k. m k \<noteq> None \<longrightarrow> embeddings db k \<noteq> None \<or>
       (\<exists>row \<in> set (FetchChatThreadToGenerateEmbedding db). embeddable E row \<and> row_ThreadID row = k)) \<and>
    (\<forall>row \<in> set (FetchChatThreadToGenerateEmbedding db). embeddable E row \<longrightarrow> m (row_ThreadID row) \<noteq> None)"
proof -
  have "\<forall>row \<in> set (FetchChatThreadToGenerateEmbedding db). embeddable E row \<or> passed_over E row"
    using assms(3) fetched_rows [of db] by blast
  from embed_all_rows [OF assms(1) this, of db] obtain m es
    where all: "embed_all E (FetchChatThreadToGenerateEmbedding db) db = (Inr es, db\<lparr>embeddings := m\<rparr>)"
      "\<forall>e \<in> set es. e = None" and m: "\<forall>k. embeddings db k \<noteq> None \<longrightarrow> m k \<noteq> None"
      "\<forall>k. m k \<noteq> None \<longrightarrow> embeddings db k \<noteq> None \<or>
         (\<exists>row \<in> set (FetchChatThreadToGenerateEmbedding db). embeddable E row \<and> row_ThreadID row = k)"
      "\<forall>row \<in> set (FetchChatThreadToGenerateEmbedding db). embeddable E row \<longrightarrow> m (row_ThreadID row) \<noteq> None"
    by (elim exE conjE) (rule that)
  have "gen_Wait E es = None" using assms(2) all(2) by (simp add: quiet_wait_def)
  with all(1) m show ?thesis by (intro exI [of _ m] exI [of _ es] conjI)
qed

lemma both_rows_exclusive: "\<not> (embeddable E row \<and> passed_over E row)"
  by (auto simp: embeddable_def passed_over_def)

lemma without_embedding_shrinks:
  assumes "\<forall>k. embeddings db k \<noteq> None \<longrightarrow> m k \<noteq> None" and "row \<in> set (without_embedding db)"
    and "m (row_ThreadID row) \<noteq> None"
  shows "length (without_embedding (db\<lparr>embeddings := m\<rparr>)) < length (without_embedding db)"
proof -
  have "filter (\<lambda>r. m (row_ThreadID r) = None) (without_embedding db) = without_embedding (db\<lparr>embeddings := m\<rparr>)"
    using assms(1) by (auto simp: without_embedding_def intro!: filter_cong)
  then show ?thesis
    using length_filter_less [OF assms(2), of "\<lambda>r. m (row_ThreadID r) = None"] assms(3) by simp
qed


text \<open>\<open>GenerateEmbeddings\<close> never ends when a stored thread is passed over: one without an
  answer, or one for which the model returns no embedding or an error, which the story ignores. Such a thread
  is fetched again in every round.\<close>

theorem GenerateEmbeddings_loops:
  assumes "healthy E" and "quiet_wait (gen_Wait E)" and "\<forall>row \<in> set (chatthreads db). embeddable E row \<or> passed_over E row"
    and "row \<in> set (chatthreads db)" and "passed_over E row"
    and "embeddings db (row_ThreadID row) = None" and "distinct (map row_ThreadID (chatthreads db))"
  shows "GenerateEmbeddings E db = None"
proof (rule ccontr)
  assume "GenerateEmbeddings E db \<noteq> None"
  then obtain res where res: "GenerateEmbeddings E db = Some res" by blast
  show False using assms
  proof (induction E db res rule: GenerateEmbeddings.raw_induct)
    case (1 gen E db res)
    have fetched: "FetchChatThreadToGenerateEmbedding db \<noteq> []"
      using "1.prems" by (auto simp: fetch_none_iff without_embedding_def filter_empty_conv)
    from embed_round [OF "1.prems"(1,2,3)] obtain m es
      where all: "embed_all E (FetchChatThreadToGenerateEmbedding db) db = (Inr es, db\<lparr>embeddings := m\<rparr>)"
        "gen_Wait E es = None"
        and m: "\<forall>k. m k \<noteq> None \<longrightarrow> embeddings db k \<noteq> None \<or>
         (\<exists>row \<in> set (FetchChatThreadToGenerateEmbedding db). embeddable E row \<and> row_ThreadID row = k)"
      by (elim exE conjE) (rule that)
    have "gen E (db\<lparr>embeddings := m\<rparr>) = Some res"
      using "1.hyps" "1.prems"(1) all fetched by (simp add: healthy_def)
    moreover have "r = row" if "r \<in> set (chatthreads db)" "row_ThreadID r = row_ThreadID row" for r
      using that "1.prems"(4,7) by (auto simp: distinct_map inj_on_def)
    then have "m (row_ThreadID row) = None"
      using m "1.prems"(5,6) both_rows_exclusive fetched_rows [of db] by blast
    ultimately show ?case
      using "1.IH" [of E "db\<lparr>embeddings := m\<rparr>" res] "1.prems" by simp
  qed (rule res)
qed

section \<open>Witnesses\<close>

text \<open>A chat with one answered question, and a model that answers or not.\<close>

definition sample_gen :: "(string \<Rightarrow> gerr + nat list list) \<Rightarrow> nat gen_env" where
  "sample_gen model = \<lparr>gen_unmarshal = (\<lambda>_. Inr [sample_msg 1 0, sample_msg 2 1]),
     gen_CreateEmbeddings = model, gen_template = (\<lambda>d. Inr (ConversationStarter d)), gen_date = (\<lambda>_. ''d''),
     gen_Wait = errors_Join, gen_fetch_error = (\<lambda>_. None), gen_upsert_error = (\<lambda>_. None)\<rparr>"

definition sample_tables :: "nat tables" where
  "sample_tables = \<lparr>chatthreads = [\<lparr>row_ChatID = ''c'', row_ThreadID = 1, row_Body = ''b''\<rparr>], embeddings = Map.empty\<rparr>"

lemma errors_Join_quiet: "quiet_wait errors_Join"
proof -
  have "[e. Some e \<leftarrow> es] = []" if "\<forall>e \<in> set es. e = None" for es :: "gerr option list"
    using that by (induction es) auto
  then show ?thesis by (simp add: quiet_wait_def errors_Join_def)
qed

lemma ParseInt64_0: "ParseInt64 ''0'' = Some 0"
  by (simp add: ParseInt64_def is_digit_def parse_digits_def digit_value_def)

lemma sample_shown:
  "ForShowingToTheUser (gen_template (sample_gen model)) (gen_date (sample_gen model))
     [sample_msg 1 0, sample_msg 2 1] c = Inr (Inr ''hi'')"
  by (simp add: ForShowingToTheUser_def sample_gen_def showDate_def sample_msg_def ParseInt64_0 processTemplate_def
      getText_def)


theorem GenerateEmbeddings_loops_witness:
  "GenerateEmbeddings (sample_gen (\<lambda>_. Inl (ErrNew ''quota exceeded''))) sample_tables = None"
proof (rule GenerateEmbeddings_loops)
  let ?E = "sample_gen (\<lambda>_. Inl (ErrNew ''quota exceeded''))"
  show "healthy ?E" by (simp add: healthy_def sample_gen_def)
  show "quiet_wait (gen_Wait ?E)" by (simp add: sample_gen_def errors_Join_quiet)
  have passed: "passed_over ?E \<lparr>row_ChatID = ''c'', row_ThreadID = 1, row_Body = ''b''\<rparr>"
    using sample_shown [of "\<lambda>_. Inl (ErrNew ''quota exceeded'')"]
    by (simp add: passed_over_def) (simp add: sample_gen_def)
  then show "passed_over ?E \<lparr>row_ChatID = ''c'', row_ThreadID = 1, row_Body = ''b''\<rparr>" .
  show "\<forall>row \<in> set (chatthreads sample_tables). embeddable ?E row \<or> passed_over ?E row"
    using passed by (simp add: sample_tables_def)
qed (simp_all add: sample_tables_def)

end
