(* ===== verification/Concurrent.thy ===== *)
theory Concurrent
  imports Go_Error
begin

text \<open>
  Shared containers: \<open>internal/concurrent\<close> (maps, values and caches behind a lock) and the per-key
  semaphores of \<open>internal/ratetooling\<close>.

  Every method takes its lock once, so a run of concurrent callers is a sequence of method calls. The exception is
  \<open>TimeoutCache.Get\<close>, which reads, fetches and writes in three steps; it is modelled both as one
  call and as those steps.
\<close>

section \<open>Map\<close>

type_synonym ('k, 'v) Map = "'k \<rightharpoonup> 'v"

definition NewMap :: "('k, 'v) Map" where "NewMap = Map.empty"

definition Map_Get :: "'k \<Rightarrow> ('k, 'v) Map \<Rightarrow> 'v option" where "Map_Get k c = c k"

definition Map_Add :: "'k \<Rightarrow> 'v \<Rightarrow> ('k, 'v) Map \<Rightarrow> ('k, 'v) Map" where
  "Map_Add k v c = c(k \<mapsto> v)"

definition Map_Set :: "('k, 'v) Map \<Rightarrow> ('k, 'v) Map \<Rightarrow> ('k, 'v) Map" where
  "Map_Set m c = m"

definition InitBulk :: "'k list \<Rightarrow> 'v list \<Rightarrow> ('k, 'v) Map \<Rightarrow> ('k, 'v) Map panics" where
  "InitBulk keys vals c =
     (if length keys \<noteq> length vals
      then Inl (''keys and values length mismatch: '' @ show_nat (length keys) @ '' != '' @ show_nat (length vals))
      else Inr (fold (\<lambda>i m. m(keys ! i \<mapsto> vals ! i)) [0..<length keys] Map.empty))"

definition Map_Remove :: "'k \<Rightarrow> ('k, 'v) Map \<Rightarrow> ('k, 'v) Map" where
  "Map_Remove k c = c(k := None)"

definition Map_Len :: "('k, 'v) Map \<Rightarrow> nat" where
  "Map_Len c = card (dom c)"

text \<open>Go lists the entries of a map in any order: \<open>keys\<close> is that order.\<close>

definition Map_GetAll :: "'k list \<Rightarrow> ('k, 'v) Map \<Rightarrow> 'v list" where
  "Map_GetAll keys c = List.map_filter c keys"

section \<open>MapWithConstructor and Value\<close>

definition MapWithConstructor_Get ::
    "('s \<Rightarrow> 'v \<times> 's) \<Rightarrow> 'k \<Rightarrow> ('k, 'v) Map \<times> 's \<Rightarrow> 'v \<times> ('k, 'v) Map \<times> 's" where
  "MapWithConstructor_Get constructor key st =
     (case st of (cache, s) \<Rightarrow>
        (case cache key of
           Some v \<Rightarrow> (v, cache, s)
         | None \<Rightarrow> (let (v, s') = constructor s in (v, cache(key \<mapsto> v), s'))))"

definition Value_Get :: "'v \<Rightarrow> 'v" where "Value_Get v = v"
definition Value_Update :: "('v \<Rightarrow> 'v) \<Rightarrow> 'v \<Rightarrow> 'v" where "Value_Update f v = f v"

section \<open>TimeoutCache\<close>

record 'v cacheValue =
  cv_val :: 'v
  cv_validUntil :: go_time

type_synonym ('k, 'v) TimeoutCache = "('k, 'v cacheValue) Map"

text \<open>\<open>now\<close> and \<open>validUntil\<close> are what the clock functions return in this call, \<open>fetched\<close> what the
  fetcher returns if it is called; the last component tells whether it was.\<close>

definition TimeoutCache_Get ::
    "go_time \<Rightarrow> go_time \<Rightarrow> 'k \<Rightarrow> gerr + 'v \<Rightarrow> ('k, 'v) TimeoutCache \<Rightarrow> (gerr + 'v) \<times> ('k, 'v) TimeoutCache \<times> bool" where
  "TimeoutCache_Get now validUntil key fetched c =
     (case (case Map_Get key c of Some value \<Rightarrow> if now < cv_validUntil value then Some (cv_val value) else None | None \<Rightarrow> None) of
        Some val \<Rightarrow> (Inr val, c, False)
      | None \<Rightarrow>
          (case fetched of
             Inl err \<Rightarrow> (Inl err, c, True)
           | Inr val \<Rightarrow> (Inr val, Map_Add key \<lparr>cv_val = val, cv_validUntil = validUntil\<rparr> c, True)))"

definition SingleTimeoutCache_Get ::
    "go_time \<Rightarrow> go_time \<Rightarrow> go_duration \<Rightarrow> gerr + 'v \<Rightarrow> (unit, 'v) TimeoutCache \<Rightarrow> (gerr + 'v) \<times> (unit, 'v) TimeoutCache \<times> bool" where
  "SingleTimeoutCache_Get now now' ttl fetched c = TimeoutCache_Get now (now' + ttl) () fetched c"

section \<open>Semaphores per key\<close>

text \<open>A limiter: the semaphore of a key is the weight it has left. \<open>Exec\<close> creates it on first use,
  acquires one unit, runs and releases. Its steps interleave with those of other callers.\<close>

record semaphore_limiter =
  sl_RequestsInFlight :: int
  sl_container :: "string \<rightharpoonup> int"
  sl_running :: "string \<Rightarrow> nat"

definition NewSemaphoreBasedLimiter :: "int \<Rightarrow> semaphore_limiter" where
  "NewSemaphoreBasedLimiter n = \<lparr>sl_RequestsInFlight = n, sl_container = Map.empty, sl_running = (\<lambda>_. 0)\<rparr>"

definition getSemaphore :: "string \<Rightarrow> semaphore_limiter \<Rightarrow> semaphore_limiter" where
  "getSemaphore key p =
     (case sl_container p key of
        Some _ \<Rightarrow> p
      | None \<Rightarrow> p\<lparr>sl_container := (sl_container p)(key \<mapsto> sl_RequestsInFlight p)\<rparr>)"

inductive exec_step :: "semaphore_limiter \<Rightarrow> semaphore_limiter \<Rightarrow> bool" where
  get: "exec_step p (getSemaphore key p)"
| acquire: "sl_container p key = Some left \<Longrightarrow> 1 \<le> left \<Longrightarrow>
    exec_step p (p\<lparr>sl_container := (sl_container p)(key \<mapsto> left - 1),
                   sl_running := (sl_running p)(key := Suc (sl_running p key))\<rparr>)"
| release: "sl_container p key = Some left \<Longrightarrow> sl_running p key = Suc k \<Longrightarrow>
    exec_step p (p\<lparr>sl_container := (sl_container p)(key \<mapsto> left + 1),
                   sl_running := (sl_running p)(key := k)\<rparr>)"

inductive_cases exec_stepE: "exec_step p p'"

definition semaphore_inv :: "semaphore_limiter \<Rightarrow> bool" where
  "semaphore_inv p \<longleftrightarrow>
     (\<forall>key. case sl_container p key of
        None \<Rightarrow> sl_running p key = 0
      | Some left \<Rightarrow> 0 \<le> left \<and> left + int (sl_running p key) = sl_RequestsInFlight p)"

lemma semaphore_inv_step:
  "exec_step p p' \<Longrightarrow> 0 \<le> sl_RequestsInFlight p \<Longrightarrow> semaphore_inv p \<Longrightarrow>
   semaphore_inv p' \<and> sl_RequestsInFlight p' = sl_RequestsInFlight p"
  by (induction rule: exec_step.induct)
    (force simp: semaphore_inv_def getSemaphore_def split: option.splits if_splits)+

lemma semaphore_inv_reachable:
  assumes "exec_step\<^sup>*\<^sup>* (NewSemaphoreBasedLimiter n) p" and "0 \<le> n"
  shows "semaphore_inv p \<and> sl_RequestsInFlight p = n"
  using assms
proof (induction rule: rtranclp_induct)
  case base
  then show ?case by (simp add: semaphore_inv_def NewSemaphoreBasedLimiter_def)
next
  case (step q r)
  then show ?case using semaphore_inv_step [of q r] by simp
qed

text \<open>C38: However the callers of \<open>Exec\<close> interleave, at most \<open>RequestsInFlight\<close> of them run for one
  key at a time, and keys do not take units from each other: a caller can go on with a key
  exactly when fewer than that run for it.\<close>

theorem semaphore_limit:
  assumes "0 \<le> n" and "exec_step\<^sup>*\<^sup>* (NewSemaphoreBasedLimiter n) p"
  shows "int (sl_running p key) \<le> n \<and>
    (sl_container p key = Some left \<longrightarrow> (1 \<le> left \<longleftrightarrow> int (sl_running p key) < n))"
proof -
  have "semaphore_inv p" "sl_RequestsInFlight p = n" using semaphore_inv_reachable assms by blast+
  then show ?thesis using assms(1) by (auto simp: semaphore_inv_def split: option.splits dest!: spec [of _ key])
qed

theorem semaphore_limit_witness:
  "\<exists>p. exec_step\<^sup>*\<^sup>* (NewSemaphoreBasedLimiter 1) p \<and> sl_running p ''k'' = 1 \<and> int (sl_running p ''k'') \<le> 1"
proof -
  let ?p0 = "NewSemaphoreBasedLimiter 1" let ?p1 = "getSemaphore ''k'' ?p0"
  let ?p2 = "?p1\<lparr>sl_container := (sl_container ?p1)(''k'' \<mapsto> 1 - 1),
                   sl_running := (sl_running ?p1)(''k'' := Suc (sl_running ?p1 ''k''))\<rparr>"
  have "exec_step ?p1 ?p2"
    by (rule exec_step.acquire) (simp_all add: getSemaphore_def NewSemaphoreBasedLimiter_def)
  then have r: "exec_step\<^sup>*\<^sup>* ?p0 ?p2"
    by (meson exec_step.get r_into_rtranclp rtranclp.rtrancl_into_rtrancl)
  moreover have "int (sl_running ?p2 ''k'') \<le> 1"
    using semaphore_limit [OF zero_le_one r, of "''k''"] by blast
  moreover have "sl_running ?p2 ''k'' = 1"
    by (simp add: getSemaphore_def NewSemaphoreBasedLimiter_def)
  ultimately show ?thesis by blast
qed

section \<open>The cache refines the history of fetches\<close>

text \<open>What a cache needs of its store.\<close>

locale keyed_store =
  fixes get :: "'k \<Rightarrow> 's \<Rightarrow> 'x option" and add :: "'k \<Rightarrow> 'x \<Rightarrow> 's \<Rightarrow> 's"
  assumes get_add: "get k' (add k x s) = (if k' = k then Some x else get k' s)"

text \<open>The abstract cache keeps every successful fetch, the newest first: its key, until when it is
  valid, and the value. It answers from the newest fetch of the key while that is valid.\<close>

type_synonym ('k, 'v) fetch_log = "('k \<times> go_time \<times> 'v) list"

definition newest :: "'k \<Rightarrow> ('k, 'v) fetch_log \<Rightarrow> (go_time \<times> 'v) option" where
  "newest key log = map_of log key"

definition spec_Get ::
    "go_time \<Rightarrow> go_time \<Rightarrow> 'k \<Rightarrow> gerr + 'v \<Rightarrow> ('k, 'v) fetch_log \<Rightarrow> (gerr + 'v) \<times> ('k, 'v) fetch_log \<times> bool" where
  "spec_Get now validUntil key fetched log =
     (case newest key log of
        Some (until, v) \<Rightarrow>
          if now < until then (Inr v, log, False)
          else (case fetched of Inl err \<Rightarrow> (Inl err, log, True) | Inr v' \<Rightarrow> (Inr v', (key, validUntil, v') # log, True))
      | None \<Rightarrow>
          (case fetched of Inl err \<Rightarrow> (Inl err, log, True) | Inr v' \<Rightarrow> (Inr v', (key, validUntil, v') # log, True)))"

text \<open>A run: the calls with what their clocks and fetchers return, and the answers.\<close>

type_synonym ('k, 'v) cache_call = "go_time \<times> go_time \<times> 'k \<times> (gerr + 'v)"

fun cache_run ::
    "(go_time \<Rightarrow> go_time \<Rightarrow> 'k \<Rightarrow> gerr + 'v \<Rightarrow> 's \<Rightarrow> (gerr + 'v) \<times> 's \<times> bool) \<Rightarrow> ('k, 'v) cache_call list \<Rightarrow> 's \<Rightarrow>
     ((gerr + 'v) \<times> bool) list" where
  "cache_run get [] s = []"
| "cache_run get ((now, until, k, f) # calls) s =
     (let (r, s', fetched) = get now until k f s in (r, fetched) # cache_run get calls s')"

definition cached_get ::
    "('k \<Rightarrow> 's \<Rightarrow> 'v cacheValue option) \<Rightarrow> ('k \<Rightarrow> 'v cacheValue \<Rightarrow> 's \<Rightarrow> 's) \<Rightarrow>
     go_time \<Rightarrow> go_time \<Rightarrow> 'k \<Rightarrow> gerr + 'v \<Rightarrow> 's \<Rightarrow> (gerr + 'v) \<times> 's \<times> bool" where
  "cached_get get add now validUntil key fetched c =
     (case (case get key c of Some x \<Rightarrow> if now < cv_validUntil x then Some (cv_val x) else None | None \<Rightarrow> None) of
        Some v \<Rightarrow> (Inr v, c, False)
      | None \<Rightarrow>
          (case fetched of
             Inl err \<Rightarrow> (Inl err, c, True)
           | Inr v \<Rightarrow> (Inr v, add key \<lparr>cv_val = v, cv_validUntil = validUntil\<rparr> c, True)))"

locale cache_store = keyed_store get add
  for get :: "'k \<Rightarrow> 's \<Rightarrow> 'v cacheValue option" and add :: "'k \<Rightarrow> 'v cacheValue \<Rightarrow> 's \<Rightarrow> 's"
begin

definition agrees :: "'s \<Rightarrow> ('k, 'v) fetch_log \<Rightarrow> bool" where
  "agrees c log \<longleftrightarrow> (\<forall>k. map_option (\<lambda>x. (cv_validUntil x, cv_val x)) (get k c) = newest k log)"

lemma agrees_add: "agrees c log \<Longrightarrow> agrees (add k \<lparr>cv_val = v, cv_validUntil = u\<rparr> c) ((k, u, v) # log)"
  by (simp add: agrees_def get_add newest_def)

lemma step_agrees:
  assumes "agrees c log" and "cached_get get add now u k f c = (r, c', b)"
  shows "\<exists>log'. spec_Get now u k f log = (r, log', b) \<and> agrees c' log'"
proof -
  have "newest k log = map_option (\<lambda>x. (cv_validUntil x, cv_val x)) (get k c)"
    using assms(1) by (simp add: agrees_def)
  then show ?thesis using assms agrees_add [OF assms(1)]
    by (auto simp: cached_get_def spec_Get_def split: option.splits sum.splits if_splits)
qed

lemma run_agrees: "agrees c log \<Longrightarrow> cache_run (cached_get get add) calls c = cache_run spec_Get calls log"
proof (induction calls arbitrary: c log)
  case (Cons call calls)
  obtain now u k f where call: "call = (now, u, k, f)" by (metis surj_pair)
  obtain r c' b where "cached_get get add now u k f c = (r, c', b)" by (metis surj_pair)
  with step_agrees [OF Cons.prems this] Cons.IH show ?case by (auto simp: call)
qed simp

end

interpretation ms: cache_store Map_Get Map_Add
  by unfold_locales (simp add: Map_Get_def Map_Add_def)

lemma TimeoutCache_cached: "TimeoutCache_Get = cached_get Map_Get Map_Add"
  by (intro ext) (simp add: TimeoutCache_Get_def cached_get_def)

text \<open>C21: \<open>TimeoutCache\<close> implements the cache that remembers all successful fetches: for every
  sequence of calls, whatever the clock says and the fetchers return, both give the same answers and
  call the fetcher in the same calls. So an answer is the last value fetched for the key as long as it is valid, and
  errors are never remembered.\<close>

theorem TimeoutCache_refines:
  "cache_run TimeoutCache_Get calls (NewMap :: ('k, 'v cacheValue) Map) = cache_run spec_Get calls ([] :: ('k, 'v) fetch_log)"
  unfolding TimeoutCache_cached
  by (rule ms.run_agrees) (simp add: ms.agrees_def NewMap_def Map_Get_def newest_def)

section \<open>Maps\<close>

lemma InitBulk_fold:
  "length ks = length vs \<Longrightarrow>
   fold (\<lambda>i m. m(ks ! i \<mapsto> vs ! i)) [0..<length ks] m0 = m0 ++ map_of (rev (zip ks vs))"
proof (induction ks arbitrary: vs rule: rev_induct)
  case (snoc k ks)
  obtain v vs' where vs: "vs = vs' @ [v]" "length ks = length vs'"
    using snoc.prems by (cases vs rule: rev_cases) auto
  have "fold (\<lambda>i m. m((ks @ [k]) ! i \<mapsto> vs ! i)) [0..<length ks] m0
      = fold (\<lambda>i m. m(ks ! i \<mapsto> vs' ! i)) [0..<length ks] m0"
    by (rule fold_cong) (auto simp: vs nth_append)
  also have "\<dots> = m0 ++ map_of (rev (zip ks vs'))" by (rule snoc.IH [OF vs(2)])
  finally have "fold (\<lambda>i m. m((ks @ [k]) ! i \<mapsto> vs ! i)) [0..<length (ks @ [k])] m0
      = (m0 ++ map_of (rev (zip ks vs')))((ks @ [k]) ! length ks \<mapsto> vs ! length ks)"
    by simp
  also have "(ks @ [k]) ! length ks = k" by simp
  also have "vs ! length ks = v" using vs by simp
  also have "(m0 ++ map_of (rev (zip ks vs')))(k \<mapsto> v) = m0 ++ map_of (rev (zip (ks @ [k]) vs))"
    using vs by simp
  finally show ?case .
qed simp

text \<open>After \<open>InitBulk\<close> a map holds exactly the given pairs, the last one for repeated keys,
  and nothing it held before; it panics exactly when the lists differ in length.\<close>

theorem InitBulk_lookup:
  "InitBulk ks vs c =
     (if length ks = length vs then Inr (map_of (rev (zip ks vs)))
      else Inl (''keys and values length mismatch: '' @ show_nat (length ks) @ '' != '' @ show_nat (length vs)))"
  using InitBulk_fold [of ks vs Map.empty] by (simp add: InitBulk_def)

end
