(* ===== verification/Snake_Case.thy ===== *)
theory Snake_Case
  imports Prelude
begin

text \<open>
  Names in snake case: \<open>internal/encodingtooling/cameltosnake.go\<close>, which maps the fields of Go
  structs to columns, and \<open>internal/logfmt/logfmt.go\<close>, which rewrites the keys of log fields.

  Both work on runes. The first uses the classification of package \<open>unicode\<close>, which is an
  argument here; the second knows ASCII letters and digits only, and its texts are lists of code points.
\<close>

section \<open>CamelToSnake\<close>

record 'c unicode =
  uc_IsUpper :: "'c \<Rightarrow> bool"
  uc_IsLower :: "'c \<Rightarrow> bool"
  uc_ToLower :: "'c \<Rightarrow> 'c"
  uc_underscore :: 'c

datatype edge = NoEdge | Lower | Upper

text \<open>What is written before an upper case letter: on a rising edge, and before a falling edge, which
  the next rune tells.\<close>

definition separator :: "'c unicode \<Rightarrow> edge \<Rightarrow> 'c list \<Rightarrow> 'c list" where
  "separator U prev rest =
     (case prev of
        Lower \<Rightarrow> [uc_underscore U]
      | Upper \<Rightarrow> (case rest of nxt # _ \<Rightarrow> if uc_IsLower U nxt then [uc_underscore U] else [] | [] \<Rightarrow> [])
      | NoEdge \<Rightarrow> [])"

fun camel_loop :: "'c unicode \<Rightarrow> edge \<Rightarrow> 'c list \<Rightarrow> 'c list" where
  "camel_loop U prev [] = []"
| "camel_loop U prev (cur # rest) =
     (if uc_IsUpper U cur then separator U prev rest @ uc_ToLower U cur # camel_loop U Upper rest
      else cur # camel_loop U Lower rest)"

definition CamelToSnake :: "'c unicode \<Rightarrow> 'c list \<Rightarrow> 'c list" where
  "CamelToSnake U s = camel_loop U NoEdge s"

text \<open>What package \<open>unicode\<close> guarantees.\<close>

definition unicode_law :: "'c unicode \<Rightarrow> bool" where
  "unicode_law U \<longleftrightarrow> (\<forall>c. \<not> uc_IsUpper U (uc_ToLower U c)) \<and> \<not> uc_IsUpper U (uc_underscore U) \<and>
     (\<forall>c. uc_IsUpper U c \<longrightarrow> uc_ToLower U c \<noteq> uc_underscore U)"

definition ascii_upper :: "char \<Rightarrow> bool" where
  "ascii_upper c \<longleftrightarrow> 65 \<le> (of_char c :: nat) \<and> of_char c \<le> (90 :: nat)"

definition ascii_lower :: "char \<Rightarrow> bool" where
  "ascii_lower c \<longleftrightarrow> 97 \<le> (of_char c :: nat) \<and> of_char c \<le> (122 :: nat)"

definition ascii_ToLower :: "char \<Rightarrow> char" where
  "ascii_ToLower c = (if ascii_upper c then char_of (of_char c + 32 :: nat) else c)"

definition ascii :: "char unicode" where
  "ascii = \<lparr>uc_IsUpper = ascii_upper, uc_IsLower = ascii_lower, uc_ToLower = ascii_ToLower, uc_underscore = CHR ''_''\<rparr>"

lemma ascii_ToLower_upper:
  "ascii_upper c \<Longrightarrow> of_char (ascii_ToLower c) = (of_char c + 32 :: nat)"
  by (simp add: ascii_ToLower_def ascii_upper_def)

lemma ascii_law: "unicode_law ascii"
proof -
  have "\<not> ascii_upper (ascii_ToLower c)" for c
    using ascii_ToLower_upper [of c] by (cases "ascii_upper c") (simp_all add: ascii_upper_def ascii_ToLower_def)
  moreover have "ascii_ToLower c \<noteq> CHR ''_''" if "ascii_upper c" for c
  proof
    assume "ascii_ToLower c = CHR ''_''"
    then show False using ascii_ToLower_upper [OF that] that by (simp add: ascii_upper_def)
  qed
  ultimately show ?thesis by (simp add: unicode_law_def ascii_def ascii_upper_def)
qed

lemma separator_cases: "separator U prev rest = [] \<or> separator U prev rest = [uc_underscore U]"
  by (auto simp: separator_def split: edge.split list.split)

lemma camel_loop_letters:
  assumes "unicode_law U"
  shows "filter (\<lambda>c. c \<noteq> uc_underscore U) (camel_loop U prev s) =
    map (\<lambda>c. if uc_IsUpper U c then uc_ToLower U c else c) (filter (\<lambda>c. c \<noteq> uc_underscore U) s)"
  using assms
proof (induction U prev s rule: camel_loop.induct)
  case (2 U prev cur rest)
  then show ?case using separator_cases [of U prev rest]
    by (cases "uc_IsUpper U cur") (auto simp: unicode_law_def)
qed simp

lemma camel_loop_lower:
  assumes "unicode_law U"
  shows "\<forall>c \<in> set (camel_loop U prev s). \<not> uc_IsUpper U c"
proof (induction s arbitrary: prev)
  case (Cons cur rest)
  have "\<not> uc_IsUpper U (uc_underscore U)" "\<not> uc_IsUpper U (uc_ToLower U cur)"
    using assms by (simp_all add: unicode_law_def)
  then show ?case using separator_cases [of U prev rest] Cons.IH by (cases "uc_IsUpper U cur") auto
qed simp

lemma camel_loop_idle: "\<forall>c \<in> set s. \<not> uc_IsUpper U c \<Longrightarrow> camel_loop U prev s = s"
  by (induction s arbitrary: prev) auto

text \<open>A column name is the field's name in lower case with underscores added: it has no upper case
  letter, without its underscores it is the lower cased name without its underscores, and a name that
  is already in lower case is left alone, so that converting twice changes nothing.\<close>

theorem CamelToSnake_shape:
  assumes "unicode_law U"
  shows "(\<forall>c \<in> set (CamelToSnake U s). \<not> uc_IsUpper U c) \<and>
    filter (\<lambda>c. c \<noteq> uc_underscore U) (CamelToSnake U s) =
      map (\<lambda>c. if uc_IsUpper U c then uc_ToLower U c else c) (filter (\<lambda>c. c \<noteq> uc_underscore U) s) \<and>
    CamelToSnake U (CamelToSnake U s) = CamelToSnake U s"
  using camel_loop_lower [OF assms] camel_loop_letters [OF assms]
  by (simp add: CamelToSnake_def camel_loop_idle)

lemma ascii_sample: "CamelToSnake ascii ''MyURLField'' = ''my_url_field''"
  by (simp add: CamelToSnake_def separator_def ascii_def ascii_upper_def ascii_lower_def ascii_ToLower_def char_of_eq_iff
      take_bit_nat_eq_self_iff)

theorem CamelToSnake_shape_witness:
  "CamelToSnake ascii ''MyURLField'' = ''my_url_field'' \<and>
   CamelToSnake ascii (CamelToSnake ascii ''MyURLField'') = CamelToSnake ascii ''MyURLField''"
  using CamelToSnake_shape [OF ascii_law, of "''MyURLField''"] ascii_sample by blast

section \<open>toSnakeCase\<close>

abbreviation (input) us :: nat where "us \<equiv> 95"

definition isUpper :: "nat \<Rightarrow> bool" where "isUpper r \<longleftrightarrow> 65 \<le> r \<and> r \<le> 90"

definition isLowerAlphaNum :: "nat \<Rightarrow> bool" where
  "isLowerAlphaNum r \<longleftrightarrow> (97 \<le> r \<and> r \<le> 122) \<or> (48 \<le> r \<and> r \<le> 57)"

text \<open>The first loop with the rune before, the flag and the buffer: the new flag and what is written. The source looks at the byte before;
  a byte of a longer rune is no ASCII letter.\<close>

definition case_step :: "nat option \<Rightarrow> bool \<Rightarrow> nat list \<Rightarrow> nat \<Rightarrow> bool \<times> nat list" where
  "case_step prev capitalSequence buf r =
     (if isUpper r then
        (let cap = (if buf \<noteq> [] \<and> (case prev of Some q \<Rightarrow> isUpper q | None \<Rightarrow> False) then True else capitalSequence)
         in (cap, (if \<not> cap then [us] else []) @ [r - 65 + 97]))
      else (False, (if capitalSequence then [us] else []) @ [if isLowerAlphaNum r then r else us]))"

fun case_loop :: "nat option \<Rightarrow> bool \<Rightarrow> nat list \<Rightarrow> nat list \<Rightarrow> nat list" where
  "case_loop prev capitalSequence buf [] = buf"
| "case_loop prev capitalSequence buf (r # rest) =
     (let (cap, out) = case_step prev capitalSequence buf r in case_loop (Some r) cap (buf @ out) rest)"

definition trim_us :: "nat list \<Rightarrow> nat list" where
  "trim_us s = rev (dropWhile (\<lambda>r. r = us) (rev (dropWhile (\<lambda>r. r = us) s)))"

fun squeeze :: "bool \<Rightarrow> nat list \<Rightarrow> nat list" where
  "squeeze rep [] = []"
| "squeeze rep (r # rest) =
     (if r = us \<and> rep then squeeze rep rest
      else if r = us then r # squeeze True rest
      else if \<not> isLowerAlphaNum r then us # squeeze True rest
      else r # squeeze False rest)"

definition toSnakeCase :: "nat list \<Rightarrow> nat list" where
  "toSnakeCase s = squeeze False (trim_us (case_loop None False [] s))"

text \<open>The rewriting of one key: the literal as it stands in the source, with its quotes. \<open>None\<close>: the
  file need not be rewritten because of it.\<close>

definition quote :: nat where "quote = 34"

definition trim_quotes :: "nat list \<Rightarrow> nat list" where
  "trim_quotes s = rev (dropWhile (\<lambda>r. r = quote) (rev (dropWhile (\<lambda>r. r = quote) s)))"

definition rewrite_key :: "nat list \<Rightarrow> nat list option" where
  "rewrite_key zapFieldKey =
     (if zapFieldKey = [] then None
      else let formatted = toSnakeCase (trim_quotes zapFieldKey)
           in if formatted = zapFieldKey then None else Some (quote # formatted @ [quote]))"

subsection \<open>The shape of a key\<close>

definition letter_or_us :: "nat \<Rightarrow> bool" where
  "letter_or_us r \<longleftrightarrow> isLowerAlphaNum r \<or> r = us"

text \<open>Words of lower case letters and digits with single underscores between them.\<close>

definition snake :: "nat list \<Rightarrow> bool" where
  "snake s \<longleftrightarrow> (\<forall>r \<in> set s. letter_or_us r) \<and> (s \<noteq> [] \<longrightarrow> hd s \<noteq> us \<and> last s \<noteq> us) \<and>
     successively (\<lambda>a b. \<not> (a = us \<and> b = us)) s"

lemma case_step_letters: "\<forall>x \<in> set (snd (case_step prev cap buf r)). letter_or_us x"
  by (auto simp: case_step_def Let_def letter_or_us_def isLowerAlphaNum_def isUpper_def)

lemma case_loop_letters:
  "\<forall>r \<in> set buf. letter_or_us r \<Longrightarrow> \<forall>r \<in> set (case_loop prev cap buf s). letter_or_us r"
proof (induction s arbitrary: prev cap buf)
  case (Cons r s)
  obtain c out where step: "case_step prev cap buf r = (c, out)" by fastforce
  then have "\<forall>x \<in> set (buf @ out). letter_or_us x"
    using Cons.prems case_step_letters [of prev cap buf r] by auto
  from Cons.IH [OF this, of "Some r" c] show ?case by (simp add: step)
qed simp

lemma trim_us_ends: "trim_us s \<noteq> [] \<Longrightarrow> hd (trim_us s) \<noteq> us \<and> last (trim_us s) \<noteq> us"
proof -
  assume ne: "trim_us s \<noteq> []"
  define t where "t = dropWhile (\<lambda>r. r = us) s"
  have tr: "trim_us s = rev (dropWhile (\<lambda>r. r = us) (rev t))" by (simp add: trim_us_def t_def)
  have last: "last (trim_us s) \<noteq> us"
    using ne hd_dropWhile [of "\<lambda>r. r = us" "rev t"] by (simp add: tr last_rev)
  obtain w where "t = trim_us s @ w"
    using takeWhile_dropWhile_id [of "\<lambda>r. r = us" "rev t"] by (metis rev_append rev_rev_ident tr)
  then have "hd (trim_us s) = hd t" "t \<noteq> []" using ne by auto
  then show ?thesis using last hd_dropWhile [of "\<lambda>r. r = us" s] by (simp add: t_def)
qed

lemma trim_us_set: "set (trim_us s) \<subseteq> set s"
proof
  fix x assume "x \<in> set (trim_us s)"
  then have "x \<in> set (dropWhile (\<lambda>r. r = us) (rev (dropWhile (\<lambda>r. r = us) s)))"
    by (simp add: trim_us_def)
  from set_dropWhileD [OF this] have "x \<in> set (dropWhile (\<lambda>r. r = us) s)" by simp
  from set_dropWhileD [OF this] show "x \<in> set s" .
qed

lemma trim_us_idle: "(s \<noteq> [] \<Longrightarrow> hd s \<noteq> us \<and> last s \<noteq> us) \<Longrightarrow> trim_us s = s"
proof (cases "s = []")
  case False
  assume "s \<noteq> [] \<Longrightarrow> hd s \<noteq> us \<and> last s \<noteq> us"
  with False have "hd s \<noteq> us" "hd (rev s) \<noteq> us" by (simp_all add: hd_rev)
  then have "dropWhile (\<lambda>r. r = us) s = s" "dropWhile (\<lambda>r. r = us) (rev s) = rev s"
    by (simp_all only: dropWhile_eq_self_iff) simp_all
  then show ?thesis by (simp only: trim_us_def rev_rev_ident)
qed (simp add: trim_us_def)

lemma us_no_letter [simp]: "\<not> isLowerAlphaNum us"
  by (simp add: isLowerAlphaNum_def)

lemma squeeze_ends: "s \<noteq> [] \<Longrightarrow> last s \<noteq> us \<Longrightarrow> (\<forall>r \<in> set s. letter_or_us r) \<Longrightarrow>
   squeeze rep s \<noteq> [] \<and> last (squeeze rep s) = last s"
proof (induction rep s rule: squeeze.induct)
  case (2 rep r rest)
  then show ?case by (cases "rest = []") (auto simp: letter_or_us_def)
qed simp

lemma squeeze_successively:
  "\<forall>r \<in> set s. letter_or_us r \<Longrightarrow> successively (\<lambda>a b. \<not> (a = us \<and> b = us)) (squeeze rep s) \<and>
   (rep \<longrightarrow> squeeze rep s \<noteq> [] \<longrightarrow> hd (squeeze rep s) \<noteq> us)"
proof (induction rep s rule: squeeze.induct)
  case (2 rep r rest)
  then show ?case
    by (cases "squeeze True rest"; cases "squeeze False rest") (auto simp: letter_or_us_def)
qed simp

lemma squeeze_letters: "\<forall>r \<in> set s. letter_or_us r \<Longrightarrow> \<forall>r \<in> set (squeeze rep s). letter_or_us r"
  by (induction rep s rule: squeeze.induct) (auto simp: letter_or_us_def)

lemma squeeze_hd: "s \<noteq> [] \<Longrightarrow> hd s \<noteq> us \<Longrightarrow> (\<forall>r \<in> set s. letter_or_us r) \<Longrightarrow> hd (squeeze rep s) = hd s"
  by (cases s) (auto simp: letter_or_us_def)

lemma toSnakeCase_snake: "snake (toSnakeCase s)"
proof -
  define t where "t = trim_us (case_loop None False [] s)"
  have let_t: "\<forall>r \<in> set t. letter_or_us r"
    using case_loop_letters [of "[]" None False s] trim_us_set by (auto simp: t_def)
  have ends: "t \<noteq> [] \<Longrightarrow> hd t \<noteq> us \<and> last t \<noteq> us" unfolding t_def by (rule trim_us_ends)
  have "squeeze False t \<noteq> [] \<Longrightarrow> t \<noteq> []" by auto
  then have "squeeze False t \<noteq> [] \<longrightarrow> hd (squeeze False t) \<noteq> us \<and> last (squeeze False t) \<noteq> us"
    using ends squeeze_hd [OF _ _ let_t] squeeze_ends [OF _ _ let_t] by metis
  then show ?thesis
    using squeeze_letters [OF let_t] squeeze_successively [OF let_t] by (simp add: snake_def toSnakeCase_def t_def)
qed

lemma case_step_idle: "letter_or_us r \<Longrightarrow> case_step prev False buf r = (False, [r])"
  by (auto simp: case_step_def letter_or_us_def isLowerAlphaNum_def isUpper_def)

lemma case_loop_idle:
  "\<forall>r \<in> set s. letter_or_us r \<Longrightarrow> case_loop prev False buf s = buf @ s"
  by (induction s arbitrary: prev buf) (simp_all add: case_step_idle)

lemma squeeze_idle:
  "successively (\<lambda>a b. \<not> (a = us \<and> b = us)) s \<Longrightarrow> (\<forall>r \<in> set s. letter_or_us r) \<Longrightarrow> (rep \<longrightarrow> s \<noteq> [] \<longrightarrow> hd s \<noteq> us) \<Longrightarrow>
   squeeze rep s = s"
proof (induction rep s rule: squeeze.induct)
  case (2 rep r rest)
  then show ?case by (cases rest) (auto simp: letter_or_us_def)
qed simp

lemma toSnakeCase_idle: "snake s \<Longrightarrow> toSnakeCase s = s"
  unfolding snake_def toSnakeCase_def by (simp add: case_loop_idle trim_us_idle squeeze_idle)

text \<open>Every key becomes a snake case name (words of lower case ASCII letters and digits with single
  underscores between them, possibly the empty name), and such names are left as they are.\<close>

theorem toSnakeCase_normalizes:
  "snake (toSnakeCase s) \<and> (toSnakeCase s = s \<longleftrightarrow> snake s) \<and> toSnakeCase (toSnakeCase s) = toSnakeCase s"
  using toSnakeCase_snake [of s] toSnakeCase_idle by metis

text \<open>The formatter compares the new key, which has no quotes, with the literal, which has them; so it
  takes every file with a log key for changed and rewrites it.\<close>

theorem rewrite_key_always:
  "rewrite_key (quote # k @ [quote]) = Some (quote # toSnakeCase (trim_quotes (quote # k @ [quote])) @ [quote])"
proof -
  have "quote \<notin> set (toSnakeCase s)" for s
    using toSnakeCase_snake [of s] by (auto simp: snake_def letter_or_us_def isLowerAlphaNum_def quote_def)
  then have "toSnakeCase s \<noteq> quote # k @ [quote]" for s by (metis list.set_intros(1))
  then show ?thesis by (simp add: rewrite_key_def Let_def)
qed

end
