(* ===== verification/Sql_Query.thy ===== *)
theory Sql_Query
  imports Snake_Case
begin

text \<open>
  Statements with the columns of a struct: \<open>internal/sqltooling/query.go\<close>.

  A struct type is the list of its fields, each with its name, its \<open>db\<close> tag (empty when there is none)
  and, when the field is a struct itself, its fields. Names, tags and queries are ASCII texts.
\<close>

datatype sfield = SField (sf_name: string) (sf_tag: string) (sf_struct: "sfield list option")

definition EmbeddedStructurePrefix :: string where
  "EmbeddedStructurePrefix = ''pg''"

definition dquote :: string where "dquote = [CHR 0x22]"

text \<open>\<open>None\<close> is the nil that stands for no result; the fields of another type are \<open>Inl\<close> the panic.\<close>

definition structHasFields :: "sfield list option \<Rightarrow> bool panics" where
  "structHasFields st =
     (case st of
        None \<Rightarrow> Inr False
      | Some fs \<Rightarrow> if fs = [] then Inl ''Got struct without fields?'' else Inr True)"

definition is_embedded :: "sfield \<Rightarrow> bool" where
  "is_embedded f \<longleftrightarrow> sf_struct f \<noteq> None \<and> has_prefix (map ascii_ToLower (sf_name f)) EmbeddedStructurePrefix"

definition own_column :: "string \<Rightarrow> bool \<Rightarrow> string \<Rightarrow> string" where
  "own_column tableName recusionStarted dbTag =
     (if recusionStarted then dbTag
      else let col = dquote @ dbTag @ dquote
           in if tableName \<noteq> [] then dquote @ tableName @ dquote @ ''.'' @ col else col)"

function ColumnsFromStruct :: "sfield list \<Rightarrow> string \<Rightarrow> bool \<Rightarrow> string list panics" where
  "ColumnsFromStruct [] tableName rec = Inr []"
| "ColumnsFromStruct (f # fs) tableName rec =
     bind_sum
       (if is_embedded f then
          if sf_tag f = [] then Inl ''you must provide embedded structure with 'db' tag''
          else if sf_tag f = ''-'' then Inr []
          else bind_sum (case sf_struct f of Some gs \<Rightarrow> ColumnsFromStruct gs [] True | None \<Rightarrow> Inr [])
                 (\<lambda>cs. Inr (map (\<lambda>c. dquote @ sf_tag f @ ''.'' @ c @ dquote) cs))
        else if sf_tag f = ''-'' then Inr []
        else let dbTag = (if sf_tag f = [] then CamelToSnake ascii (sf_name f) else sf_tag f)
             in if dbTag = [] then Inl [] else Inr [own_column tableName rec dbTag])
       (\<lambda>here. bind_sum (ColumnsFromStruct fs tableName rec) (\<lambda>rest. Inr (here @ rest)))"
  by pat_completeness auto
termination
proof (relation "measure (\<lambda>(fs, t, r). size_list size fs)", goal_cases)
  case (2 f fs tableName rec gs)
  then show ?case by (cases f) auto
qed auto

section \<open>Queries\<close>

definition selectStart :: string where "selectStart = ''SELECT *''"
definition returningStart :: string where "returningStart = ''RETURNING *''"

definition is_space :: "char \<Rightarrow> bool" where
  "is_space c \<longleftrightarrow> c \<in> {CHR '' '', CHR 0x09, CHR 0x0A, CHR 0x0B, CHR 0x0C, CHR 0x0D}"

definition trim_right :: "(char \<Rightarrow> bool) \<Rightarrow> string \<Rightarrow> string" where
  "trim_right P s = rev (dropWhile P (rev s))"

definition TrimSpace :: "string \<Rightarrow> string" where
  "TrimSpace s = trim_right is_space (dropWhile is_space s)"

text \<open>\<open>strings.Replace\<close> with the limit 1.\<close>

fun replace_first :: "string \<Rightarrow> string \<Rightarrow> string \<Rightarrow> string" where
  "replace_first old new [] = (if old = [] then new else [])"
| "replace_first old new (c # s) =
     (if has_prefix (c # s) old then new @ drop (length old) (c # s) else c # replace_first old new s)"

definition addNameToQuery :: "string \<Rightarrow> string \<Rightarrow> string panics" where
  "addNameToQuery name query =
     (if name = [] then Inl ''name must be specified''
      else if CHR 0x0A \<in> set name then Inl ''name cannot contain new lines''
      else Inr (''-- '' @ name @ [CHR 0x0A] @ query))"

definition isColumnForEmbeddedStruct :: "string \<Rightarrow> bool" where
  "isColumnForEmbeddedStruct c \<longleftrightarrow> CHR ''.'' \<in> set c \<and> has_prefix c dquote"

definition makeColumnsForStructureEmbedding :: "string list \<Rightarrow> string list" where
  "makeColumnsForStructureEmbedding columns =
     map (\<lambda>c. butlast (tl c) @ '' '' @ c) (filter isColumnForEmbeddedStruct columns)"

definition overwriteForStructureEmbedding :: "string list \<Rightarrow> string \<Rightarrow> string" where
  "overwriteForStructureEmbedding columns query =
     (if \<not> list_ex isColumnForEmbeddedStruct columns then query
      else replace_first selectStart (''SELECT '' @ join '', '' (makeColumnsForStructureEmbedding columns)) query)"

definition ColumnsForEmbeddedStructs :: "sfield list \<Rightarrow> (string list \<times> string list) panics" where
  "ColumnsForEmbeddedStructs st =
     bind_sum (ColumnsFromStruct st [] False) (\<lambda>outer. Inr (outer, makeColumnsForStructureEmbedding outer))"

definition newQuery :: "string \<Rightarrow> string \<Rightarrow> sfield list option \<Rightarrow> string panics" where
  "newQuery name query0 st =
     (let query = trim_right (\<lambda>c. c = CHR '';'') (TrimSpace query0)
      in bind_sum (structHasFields st) (\<lambda>hasFields.
           if \<not> hasFields then addNameToQuery name query
           else
             (case st of None \<Rightarrow> addNameToQuery name query | Some fs \<Rightarrow>
                bind_sum (ColumnsFromStruct fs [] False) (\<lambda>columns.
                  if str_contains query returningStart
                  then addNameToQuery name (replace_first returningStart (''RETURNING '' @ join '', '' columns) query)
                  else addNameToQuery name
                    (''SELECT '' @ join '', '' columns @ '' FROM ('' @ overwriteForStructureEmbedding columns query @ '') w'')))))"

record Stmt =
  stmt_Query :: string
  stmt_Name :: string

definition NewStmt :: "string \<Rightarrow> string \<Rightarrow> sfield list option \<Rightarrow> Stmt panics" where
  "NewStmt name query st = bind_sum (newQuery name query st) (\<lambda>q. Inr \<lparr>stmt_Query = q, stmt_Name = name\<rparr>)"

section \<open>The columns of a struct\<close>

text \<open>The columns by a closed formula, for structs that are declared properly: embedded structs have a
  tag, and no name or tag gives an empty column.\<close>

fun well_declared :: "sfield \<Rightarrow> bool" where
  "well_declared (SField name tag st) \<longleftrightarrow>
     tag = ''-'' \<or>
     (if is_embedded (SField name tag st) then tag \<noteq> [] \<and> (case st of Some gs \<Rightarrow> list_all well_declared gs | None \<Rightarrow> True)
      else tag \<noteq> [] \<or> CamelToSnake ascii name \<noteq> [])"

definition column_tag :: "sfield \<Rightarrow> string" where
  "column_tag f = (if sf_tag f = [] then CamelToSnake ascii (sf_name f) else sf_tag f)"

fun field_columns :: "string \<Rightarrow> bool \<Rightarrow> sfield \<Rightarrow> string list" where
  "field_columns table rec (SField name tag st) =
     (if tag = ''-'' then []
      else if is_embedded (SField name tag st) then
        (case st of
           None \<Rightarrow> []
         | Some gs \<Rightarrow> map (\<lambda>c. dquote @ tag @ ''.'' @ c @ dquote) (concat (map (field_columns [] True) gs)))
      else [own_column table rec (column_tag (SField name tag st))])"

lemma well_declared_no_tag: "well_declared f \<Longrightarrow> is_embedded f \<Longrightarrow> sf_tag f \<noteq> []"
  by (cases f) auto

lemma ColumnsFromStruct_formula:
  "list_all well_declared fs \<Longrightarrow> ColumnsFromStruct fs table rec = Inr (concat (map (field_columns table rec) fs))"
proof (induction fs table rec rule: ColumnsFromStruct.induct)
  case (2 f fs table rec)
  obtain name tag st where f: "f = SField name tag st" by (cases f)
  have wf: "well_declared (SField name tag st)" using "2.prems" by (simp add: f)
  have rest: "ColumnsFromStruct fs table rec = Inr (concat (map (field_columns table rec) fs))"
    using 2 by simp
  show ?case
  proof (cases "is_embedded f \<and> tag \<noteq> ''-''")
    case True
    then obtain gs where st: "st = Some gs" by (cases st) (simp_all add: is_embedded_def f)
    have gs: "list_all well_declared gs" and tag: "tag \<noteq> []" using wf True by (simp_all add: f st)
    have "ColumnsFromStruct gs [] True = Inr (concat (map (field_columns [] True) gs))"
      by (rule "2.IH"(1)) (use True tag gs in \<open>simp_all add: f st\<close>)
    then show ?thesis
      unfolding ColumnsFromStruct.simps(2) rest using True tag by (simp add: f st del: ColumnsFromStruct.simps)
  next
    case False
    then show ?thesis
      unfolding ColumnsFromStruct.simps(2) rest using wf
      by (cases "tag = ''-''") (simp_all add: f column_tag_def Let_def del: ColumnsFromStruct.simps)
  qed
qed simp

lemma addNameToQuery_ok:
  "name \<noteq> [] \<Longrightarrow> CHR 0x0A \<notin> set name \<Longrightarrow> addNameToQuery name q = Inr (''-- '' @ name @ [CHR 0x0A] @ q)"
  by (simp add: addNameToQuery_def)

text \<open>The statement of a properly declared struct. With a one-line name, \<open>NewStmt\<close> does not panic; the
  query begins with a comment that holds the name, and selects from the given query exactly the columns
  of the fields that are not excluded, in their order, those of embedded structs qualified by the tag of
  the struct (when the query does not return rows of an insert or update).\<close>

theorem NewStmt_columns:
  assumes "name \<noteq> []" and "CHR 0x0A \<notin> set name" and "fs \<noteq> []" and "list_all well_declared fs"
    and "\<not> str_contains (trim_right (\<lambda>c. c = CHR '';'') (TrimSpace query)) returningStart"
  shows "NewStmt name query (Some fs) =
    Inr \<lparr>stmt_Query = ''-- '' @ name @ [CHR 0x0A] @ ''SELECT '' @ join '', '' (concat (map (field_columns [] False) fs)) @
           '' FROM ('' @ overwriteForStructureEmbedding (concat (map (field_columns [] False) fs))
             (trim_right (\<lambda>c. c = CHR '';'') (TrimSpace query)) @ '') w'',
         stmt_Name = name\<rparr>"
  using assms
  by (simp add: NewStmt_def newQuery_def structHasFields_def Let_def ColumnsFromStruct_formula addNameToQuery_ok)

definition sample_struct :: "sfield list" where
  "sample_struct = [SField ''PGUser'' ''users'' (Some [SField ''UserName'' [] None]), SField ''Skip'' ''-'' None]"

lemma sample_declared: "list_all well_declared sample_struct"
  by (simp add: sample_struct_def is_embedded_def has_prefix_def EmbeddedStructurePrefix_def CamelToSnake_def)

theorem NewStmt_columns_witness:
  "\<exists>q. NewStmt ''Q'' ''SELECT * FROM users;'' (Some sample_struct) = Inr \<lparr>stmt_Query = q, stmt_Name = ''Q''\<rparr> \<and>
     has_prefix q (''-- Q'' @ [CHR 0x0A])"
proof -
  have no_ret: "\<not> str_contains (trim_right (\<lambda>c. c = CHR '';'') (TrimSpace ''SELECT * FROM users;'')) returningStart"
    by (simp add: trim_right_def TrimSpace_def is_space_def returningStart_def has_prefix_def)
  show ?thesis
    using NewStmt_columns [of "''Q''" sample_struct "''SELECT * FROM users;''", OF _ _ _ sample_declared no_ret]
    by (auto simp: sample_struct_def has_prefix_def)
qed

end
