(* ===== verification/Sql_Driver.thy ===== *)
theory Sql_Driver
  imports Dsn Go_Error
begin

text \<open>
  The SQL driver wrapper (\<open>internal/rdb/internal/driver\<close>): every call of a database driver is
  put between two calls of a hook, and the hook of the program logs the call.

  A value of a Go interface type is the record of its methods. An interface that a driver need not
  implement (a type assertion with \<open>ok\<close>) is an optional method. Methods are functions on the state
  \<open>'s\<close> they act on: the native driver acts on \<open>'w\<close>, the wrapped one on \<open>'h \<times> 'w\<close>, where \<open>'h\<close>
  is the state of the hook. Values \<open>'v\<close> and results \<open>'r\<close> are those of the native driver.

  A context holds the data of package \<open>sqldata\<close>, the identifier of the connection and the
  start time of a query; \<open>sc_base\<close> stands for everything else that it holds.
\<close>

section \<open>Query data in contexts (package sqldata)\<close>

datatype ActionEnum =
    ActionNone
  | ActionPrepare
  | ActionQuery
  | ActionExec
  | ActionTx
  | ActionBegin
  | ActionCommit
  | ActionRollback

definition action_text :: "ActionEnum \<Rightarrow> string" where
  "action_text a =
     (case a of ActionNone \<Rightarrow> [] | ActionPrepare \<Rightarrow> ''prepare'' | ActionQuery \<Rightarrow> ''query''
      | ActionExec \<Rightarrow> ''exec'' | ActionTx \<Rightarrow> ''tx'' | ActionBegin \<Rightarrow> ''begin''
      | ActionCommit \<Rightarrow> ''commit'' | ActionRollback \<Rightarrow> ''rollback'')"

text \<open>An argument as the hook sees it: a plain value, or a value with its name and position.\<close>

datatype 'v sql_arg = PlainValue 'v | NamedValue string nat 'v

type_synonym 'v named_value = "string \<times> nat \<times> 'v"

record 'v sql_data =
  sd_Operation :: string
  sd_Action :: ActionEnum
  sd_Stmt :: string
  sd_Args :: "'v sql_arg list"

definition zero_data :: "'v sql_data" where
  "zero_data = \<lparr>sd_Operation = [], sd_Action = ActionNone, sd_Stmt = [], sd_Args = []\<rparr>"

record 'v sctx =
  sc_data :: "'v sql_data option"
  sc_connID :: "string option"
  sc_start :: "go_time option"
  sc_base :: nat

type_synonym 'v data_option = "'v sql_data \<Rightarrow> 'v sql_data"

definition data_Operation :: "string \<Rightarrow> 'v data_option" where "data_Operation o' = sd_Operation_update (\<lambda>_. o')"
definition data_Action :: "ActionEnum \<Rightarrow> 'v data_option" where "data_Action a = sd_Action_update (\<lambda>_. a)"

definition data_Stmt :: "string \<Rightarrow> 'v sql_arg list \<Rightarrow> 'v data_option" where
  "data_Stmt stmt args d = d\<lparr>sd_Stmt := stmt, sd_Args := args\<rparr>"

definition data_FromContext :: "'v sctx \<Rightarrow> 'v sql_data" where
  "data_FromContext ctx = (case sc_data ctx of Some d \<Rightarrow> d | None \<Rightarrow> zero_data)"

definition data_NewContext :: "'v sctx \<Rightarrow> 'v data_option list \<Rightarrow> 'v sctx" where
  "data_NewContext ctx opts = ctx\<lparr>sc_data := Some (fold (\<lambda>o' d. o' d) opts (data_FromContext ctx))\<rparr>"

text \<open>\<open>context.Background()\<close> and \<open>context.TODO()\<close>.\<close>

definition Background :: "'v sctx" where
  "Background = \<lparr>sc_data = None, sc_connID = None, sc_start = None, sc_base = 0\<rparr>"

section \<open>Interfaces of package database/sql/driver\<close>

record 's tx_if =
  t_Commit :: "'s \<Rightarrow> gerr option \<times> 's"
  t_Rollback :: "'s \<Rightarrow> gerr option \<times> 's"

record ('s, 'v, 'r) stmt_if =
  s_Close :: "'s \<Rightarrow> gerr option \<times> 's"
  s_NumInput :: int
  s_Exec :: "'v list \<Rightarrow> 's \<Rightarrow> (gerr + 'r) \<times> 's"
  s_Query :: "'v list \<Rightarrow> 's \<Rightarrow> (gerr + 'r) \<times> 's"
  s_ExecContext :: "('v sctx \<Rightarrow> 'v named_value list \<Rightarrow> 's \<Rightarrow> (gerr + 'r) \<times> 's) option"
  s_QueryContext :: "('v sctx \<Rightarrow> 'v named_value list \<Rightarrow> 's \<Rightarrow> (gerr + 'r) \<times> 's) option"
  s_ColumnConverter :: "(nat \<Rightarrow> 'v \<Rightarrow> gerr + 'v) option"
  s_CheckNamedValue :: "('v named_value \<Rightarrow> gerr + 'v named_value) option"

record ('s, 'v, 'r) conn_if =
  c_Ping :: "('v sctx \<Rightarrow> 's \<Rightarrow> gerr option \<times> 's) option"
  c_Exec :: "(string \<Rightarrow> 'v list \<Rightarrow> 's \<Rightarrow> (gerr + 'r) \<times> 's) option"
  c_ExecContext :: "('v sctx \<Rightarrow> string \<Rightarrow> 'v named_value list \<Rightarrow> 's \<Rightarrow> (gerr + 'r) \<times> 's) option"
  c_Query :: "(string \<Rightarrow> 'v list \<Rightarrow> 's \<Rightarrow> (gerr + 'r) \<times> 's) option"
  c_QueryContext :: "('v sctx \<Rightarrow> string \<Rightarrow> 'v named_value list \<Rightarrow> 's \<Rightarrow> (gerr + 'r) \<times> 's) option"
  c_Prepare :: "string \<Rightarrow> 's \<Rightarrow> (gerr + ('s, 'v, 'r) stmt_if) \<times> 's"
  c_PrepareContext :: "('v sctx \<Rightarrow> string \<Rightarrow> 's \<Rightarrow> (gerr + ('s, 'v, 'r) stmt_if) \<times> 's) option"
  c_Close :: "'s \<Rightarrow> gerr option \<times> 's"
  c_Begin :: "'s \<Rightarrow> (gerr + 's tx_if) \<times> 's"
  c_BeginTx :: "('v sctx \<Rightarrow> bool \<Rightarrow> 's \<Rightarrow> (gerr + 's tx_if) \<times> 's) option"
  c_CheckNamedValue :: "('v named_value \<Rightarrow> gerr + 'v named_value) option"
  c_ResetSession :: "('v sctx \<Rightarrow> 's \<Rightarrow> gerr option \<times> 's) option"

text \<open>\<open>driver.ErrSkip\<close>, and the default converter of arguments, a function of the library.\<close>

definition ErrSkip :: gerr where "ErrSkip = Sentinel (NamedError ''driver: skip fast-path; continue as if unimplemented'')"

section \<open>Hooks\<close>

record ('h, 'v) hook =
  hk_Before :: "'v sctx \<Rightarrow> 'h \<Rightarrow> 'v sctx \<times> 'h"
  hk_After :: "'v sctx \<Rightarrow> gerr option \<Rightarrow> 'h \<Rightarrow> 'h"

definition ConnIDFromContext :: "'v sctx \<Rightarrow> string" where
  "ConnIDFromContext ctx = (case sc_connID ctx of Some v \<Rightarrow> v | None \<Rightarrow> [])"

definition connIDHook :: "string \<Rightarrow> ('h, 'v) hook \<Rightarrow> ('h, 'v) hook" where
  "connIDHook connID hook' =
     \<lparr>hk_Before = (\<lambda>ctx. hk_Before hook' (ctx\<lparr>sc_connID := Some connID\<rparr>)),
      hk_After = hk_After hook'\<rparr>"

text \<open>\<open>hooks.Compose\<close>: the hooks run in the same order before and after a call.\<close>

fun composed_Before :: "('h, 'v) hook list \<Rightarrow> 'v sctx \<Rightarrow> 'h \<Rightarrow> 'v sctx \<times> 'h" where
  "composed_Before [] ctx h = (ctx, h)"
| "composed_Before (k # ks) ctx h = (let (ctx', h') = hk_Before k ctx h in composed_Before ks ctx' h')"

definition composed_After :: "('h, 'v) hook list \<Rightarrow> 'v sctx \<Rightarrow> gerr option \<Rightarrow> 'h \<Rightarrow> 'h" where
  "composed_After ks ctx err = fold (\<lambda>k. hk_After k ctx err) ks"

definition Compose :: "('h, 'v) hook list \<Rightarrow> ('h, 'v) hook" where
  "Compose ks = \<lparr>hk_Before = composed_Before ks, hk_After = composed_After ks\<rparr>"

text \<open>A call between the two calls of the hook. The call gets the context that the hook returned,
  and so does \<open>post\<close>, which makes the wrapper of a successful result.\<close>

definition err_of :: "gerr + 'a \<Rightarrow> gerr option" where
  "err_of res = (case res of Inl e \<Rightarrow> Some e | Inr _ \<Rightarrow> None)"

definition around_with ::
    "('h, 'v) hook \<Rightarrow> 'v sctx \<Rightarrow> ('v sctx \<Rightarrow> 'w \<Rightarrow> (gerr + 'a) \<times> 'w) \<Rightarrow> ('v sctx \<Rightarrow> 'a \<Rightarrow> 'b) \<Rightarrow>
     'h \<times> 'w \<Rightarrow> (gerr + 'b) \<times> 'h \<times> 'w" where
  "around_with H ctx call post = (\<lambda>(h, w).
     let (ctx', h1) = hk_Before H ctx h;
         (res, w') = call ctx' w;
         h2 = hk_After H ctx' (err_of res) h1
     in (map_sum id (post ctx') res, h2, w'))"

definition around ::
    "('h, 'v) hook \<Rightarrow> 'v sctx \<Rightarrow> ('v sctx \<Rightarrow> 'w \<Rightarrow> (gerr + 'a) \<times> 'w) \<Rightarrow>
     'h \<times> 'w \<Rightarrow> (gerr + 'a) \<times> 'h \<times> 'w" where
  "around H ctx call = around_with H ctx call (\<lambda>_ x. x)"

text \<open>A method of the native driver on the state of the wrapped one.\<close>

definition on_world :: "('w \<Rightarrow> 'a \<times> 'w) \<Rightarrow> 'h \<times> 'w \<Rightarrow> 'a \<times> 'h \<times> 'w" where
  "on_world f = (\<lambda>(h, w). let (a, w') = f w in (a, h, w'))"

definition valuesToInterfaces :: "'v list \<Rightarrow> 'v sql_arg list" where
  "valuesToInterfaces args = map PlainValue args"

definition namedValuesToInterfaces :: "'v named_value list \<Rightarrow> 'v sql_arg list" where
  "namedValuesToInterfaces args = map (\<lambda>(name, ord, v). NamedValue name ord v) args"

section \<open>Statements\<close>

record ('h, 'w, 'v, 'r) wrStmt =
  ws_name :: string
  ws_parent :: "('w, 'v, 'r) stmt_if"
  ws_query :: string
  ws_wrapper :: "('h, 'v) hook"

definition stmt_context :: "('h, 'w, 'v, 'r) wrStmt \<Rightarrow> 'v sctx \<Rightarrow> 'v sql_arg list \<Rightarrow> ActionEnum \<Rightarrow> 'v sctx" where
  "stmt_context s ctx list a = data_NewContext ctx [data_Stmt (ws_query s) list, data_Action a, data_Operation (ws_name s)]"

definition wrStmt_Exec :: "('h, 'w, 'v, 'r) wrStmt \<Rightarrow> 'v list \<Rightarrow> 'h \<times> 'w \<Rightarrow> (gerr + 'r) \<times> 'h \<times> 'w" where
  "wrStmt_Exec s args =
     around (ws_wrapper s) (stmt_context s Background (valuesToInterfaces args) ActionExec)
       (\<lambda>_. s_Exec (ws_parent s) args)"

definition wrStmt_Query :: "('h, 'w, 'v, 'r) wrStmt \<Rightarrow> 'v list \<Rightarrow> 'h \<times> 'w \<Rightarrow> (gerr + 'r) \<times> 'h \<times> 'w" where
  "wrStmt_Query s args =
     around (ws_wrapper s) (stmt_context s Background (valuesToInterfaces args) ActionQuery)
       (\<lambda>_. s_Query (ws_parent s) args)"

definition wrStmt_ExecContext ::
    "('h, 'w, 'v, 'r) wrStmt \<Rightarrow> ('v sctx \<Rightarrow> 'v named_value list \<Rightarrow> 'w \<Rightarrow> (gerr + 'r) \<times> 'w) \<Rightarrow>
     'v sctx \<Rightarrow> 'v named_value list \<Rightarrow> 'h \<times> 'w \<Rightarrow> (gerr + 'r) \<times> 'h \<times> 'w" where
  "wrStmt_ExecContext s execContext ctx args =
     around (ws_wrapper s) (stmt_context s ctx (namedValuesToInterfaces args) ActionExec)
       (\<lambda>ctx'. execContext ctx' args)"

definition wrStmt_QueryContext ::
    "('h, 'w, 'v, 'r) wrStmt \<Rightarrow> ('v sctx \<Rightarrow> 'v named_value list \<Rightarrow> 'w \<Rightarrow> (gerr + 'r) \<times> 'w) \<Rightarrow>
     'v sctx \<Rightarrow> 'v named_value list \<Rightarrow> 'h \<times> 'w \<Rightarrow> (gerr + 'r) \<times> 'h \<times> 'w" where
  "wrStmt_QueryContext s queryContext ctx args =
     around (ws_wrapper s) (stmt_context s ctx (namedValuesToInterfaces args) ActionQuery)
       (\<lambda>ctx'. queryContext ctx' args)"

text \<open>\<open>wrapStmt\<close>: of the optional interfaces the wrapped statement has those that the native one has;
  the sixteen cases of the switch are the sixteen sets of them.\<close>

definition wrapStmt ::
    "('w, 'v, 'r) stmt_if \<Rightarrow> string \<Rightarrow> string \<Rightarrow> ('h, 'v) hook \<Rightarrow> ('h \<times> 'w, 'v, 'r) stmt_if" where
  "wrapStmt stmt query name wrapper =
     (let s = \<lparr>ws_name = name, ws_parent = stmt, ws_query = query, ws_wrapper = wrapper\<rparr>
      in \<lparr>s_Close = on_world (s_Close stmt),
          s_NumInput = s_NumInput stmt,
          s_Exec = wrStmt_Exec s,
          s_Query = wrStmt_Query s,
          s_ExecContext = map_option (wrStmt_ExecContext s) (s_ExecContext stmt),
          s_QueryContext = map_option (wrStmt_QueryContext s) (s_QueryContext stmt),
          s_ColumnConverter = s_ColumnConverter stmt,
          s_CheckNamedValue = s_CheckNamedValue stmt\<rparr>)"

section \<open>Transactions\<close>

record ('h, 'w, 'v) wrTx =
  wt_parent :: "'w tx_if"
  wt_ctx :: "'v sctx"
  wt_txctx :: "'v sctx"
  wt_wrapper :: "('h, 'v) hook"

definition wrTx_end ::
    "('h, 'w, 'v) wrTx \<Rightarrow> ActionEnum \<Rightarrow> ('w \<Rightarrow> gerr option \<times> 'w) \<Rightarrow> 'h \<times> 'w \<Rightarrow> gerr option \<times> 'h \<times> 'w" where
  "wrTx_end t a f = (\<lambda>(h, w).
     let (ctx, h1) = hk_Before (wt_wrapper t) (data_NewContext (wt_ctx t) [data_Action a]) h;
         (err, w') = f w;
         h2 = hk_After (wt_wrapper t) ctx err h1;
         h3 = hk_After (wt_wrapper t) (wt_txctx t) err h2
     in (err, h3, w'))"

definition wrTx_Commit :: "('h, 'w, 'v) wrTx \<Rightarrow> 'h \<times> 'w \<Rightarrow> gerr option \<times> 'h \<times> 'w" where
  "wrTx_Commit t = wrTx_end t ActionCommit (t_Commit (wt_parent t))"

definition wrTx_Rollback :: "('h, 'w, 'v) wrTx \<Rightarrow> 'h \<times> 'w \<Rightarrow> gerr option \<times> 'h \<times> 'w" where
  "wrTx_Rollback t = wrTx_end t ActionRollback (t_Rollback (wt_parent t))"

definition tx_of :: "('h, 'w, 'v) wrTx \<Rightarrow> ('h \<times> 'w) tx_if" where
  "tx_of t = \<lparr>t_Commit = wrTx_Commit t, t_Rollback = wrTx_Rollback t\<rparr>"

section \<open>Connections\<close>

record ('h, 'w, 'v, 'r) wrConn =
  wc_parent :: "('w, 'v, 'r) conn_if"
  wc_wrapper :: "('h, 'v) hook"

definition wrConn_Ping :: "('h, 'w, 'v, 'r) wrConn \<Rightarrow> 'v sctx \<Rightarrow> 'h \<times> 'w \<Rightarrow> gerr option \<times> 'h \<times> 'w" where
  "wrConn_Ping c ctx =
     (case c_Ping (wc_parent c) of Some ping \<Rightarrow> on_world (ping ctx) | None \<Rightarrow> (\<lambda>s. (None, s)))"

definition skipped :: "'s \<Rightarrow> (gerr + 'a) \<times> 's" where
  "skipped s = (Inl ErrSkip, s)"

definition wrConn_Exec :: "('h, 'w, 'v, 'r) wrConn \<Rightarrow> string \<Rightarrow> 'v list \<Rightarrow> 'h \<times> 'w \<Rightarrow> (gerr + 'r) \<times> 'h \<times> 'w" where
  "wrConn_Exec c query args =
     (case c_Exec (wc_parent c) of
        Some exec \<Rightarrow>
          around (wc_wrapper c)
            (data_NewContext Background [data_Stmt query (valuesToInterfaces args), data_Action ActionExec])
            (\<lambda>_. exec query args)
      | None \<Rightarrow> skipped)"

definition wrConn_ExecContext ::
    "('h, 'w, 'v, 'r) wrConn \<Rightarrow> 'v sctx \<Rightarrow> string \<Rightarrow> 'v named_value list \<Rightarrow> 'h \<times> 'w \<Rightarrow> (gerr + 'r) \<times> 'h \<times> 'w" where
  "wrConn_ExecContext c ctx query args =
     (case c_ExecContext (wc_parent c) of
        Some execContext \<Rightarrow>
          around (wc_wrapper c)
            (data_NewContext ctx [data_Stmt query (namedValuesToInterfaces args), data_Action ActionExec])
            (\<lambda>execCtx. execContext execCtx query args)
      | None \<Rightarrow> skipped)"

definition wrConn_Query :: "('h, 'w, 'v, 'r) wrConn \<Rightarrow> string \<Rightarrow> 'v list \<Rightarrow> 'h \<times> 'w \<Rightarrow> (gerr + 'r) \<times> 'h \<times> 'w" where
  "wrConn_Query c query args =
     (case c_Query (wc_parent c) of
        Some queryer \<Rightarrow>
          around (wc_wrapper c)
            (data_NewContext Background [data_Stmt query (valuesToInterfaces args), data_Action ActionQuery])
            (\<lambda>_. queryer query args)
      | None \<Rightarrow> skipped)"

definition wrConn_QueryContext ::
    "('h, 'w, 'v, 'r) wrConn \<Rightarrow> 'v sctx \<Rightarrow> string \<Rightarrow> 'v named_value list \<Rightarrow> 'h \<times> 'w \<Rightarrow> (gerr + 'r) \<times> 'h \<times> 'w" where
  "wrConn_QueryContext c qCtx query args =
     (case c_QueryContext (wc_parent c) of
        Some queryerContext \<Rightarrow>
          around (wc_wrapper c)
            (data_NewContext qCtx [data_Stmt query (namedValuesToInterfaces args), data_Action ActionQuery])
            (\<lambda>qCtx'. queryerContext qCtx' query args)
      | None \<Rightarrow> skipped)"

definition queryNameNotDerivedFromContext :: string where
  "queryNameNotDerivedFromContext = ''query name is not derived from context''"

definition wrConn_Prepare ::
    "('h, 'w, 'v, 'r) wrConn \<Rightarrow> string \<Rightarrow> 'h \<times> 'w \<Rightarrow> (gerr + ('h \<times> 'w, 'v, 'r) stmt_if) \<times> 'h \<times> 'w" where
  "wrConn_Prepare c query =
     around_with (wc_wrapper c) (data_NewContext Background [data_Stmt query [], data_Action ActionPrepare])
       (\<lambda>_. c_Prepare (wc_parent c) query)
       (\<lambda>_ stmt. wrapStmt stmt query queryNameNotDerivedFromContext (wc_wrapper c))"

definition wrConn_PrepareContext ::
    "('h, 'w, 'v, 'r) wrConn \<Rightarrow> 'v sctx \<Rightarrow> string \<Rightarrow> 'h \<times> 'w \<Rightarrow> (gerr + ('h \<times> 'w, 'v, 'r) stmt_if) \<times> 'h \<times> 'w" where
  "wrConn_PrepareContext c ctx query =
     around_with (wc_wrapper c) (data_NewContext ctx [data_Stmt query [], data_Action ActionPrepare])
       (\<lambda>ctx'. case c_PrepareContext (wc_parent c) of
          Some prepCtx \<Rightarrow> prepCtx ctx' query
        | None \<Rightarrow> c_Prepare (wc_parent c) query)
       (\<lambda>ctx' stmt.
          let op = sd_Operation (data_FromContext ctx');
              qName = if op \<noteq> [] then op else queryNameNotDerivedFromContext
          in wrapStmt stmt query qName (wc_wrapper c))"

definition wrConn_BeginTx ::
    "('h, 'w, 'v, 'r) wrConn \<Rightarrow> 'v sctx \<Rightarrow> bool \<Rightarrow> 'h \<times> 'w \<Rightarrow> (gerr + ('h \<times> 'w) tx_if) \<times> 'h \<times> 'w" where
  "wrConn_BeginTx c ctx opts = (\<lambda>(h, w).
     let H = wc_wrapper c;
         (txctx, h1) = hk_Before H (data_NewContext ctx [data_Action ActionTx]) h;
         (beginctx, h2) = hk_Before H (data_NewContext ctx [data_Action ActionBegin]) h1;
         (res, w') = (case c_BeginTx (wc_parent c) of
             Some connBeginTx \<Rightarrow> connBeginTx txctx opts w
           | None \<Rightarrow> c_Begin (wc_parent c) w);
         h3 = hk_After H beginctx (err_of res) h2
     in case res of
          Inl err \<Rightarrow> (Inl err, hk_After H txctx (Some err) h3, w')
        | Inr tx \<Rightarrow>
            (Inr (tx_of \<lparr>wt_parent = tx, wt_ctx = ctx, wt_txctx = txctx, wt_wrapper = H\<rparr>), h3, w'))"

text \<open>The zero value of \<open>driver.TxOptions\<close> is \<open>False\<close>.\<close>

definition wrConn_Begin :: "('h, 'w, 'v, 'r) wrConn \<Rightarrow> 'h \<times> 'w \<Rightarrow> (gerr + ('h \<times> 'w) tx_if) \<times> 'h \<times> 'w" where
  "wrConn_Begin c = wrConn_BeginTx c Background False"

definition wrConn_CheckNamedValue ::
    "('v \<Rightarrow> gerr + 'v) \<Rightarrow> ('h, 'w, 'v, 'r) wrConn \<Rightarrow> 'v named_value \<Rightarrow> gerr + 'v named_value" where
  "wrConn_CheckNamedValue conv c nv =
     (case c_CheckNamedValue (wc_parent c) of
        Some check \<Rightarrow> check nv
      | None \<Rightarrow> (case nv of (name, ord, v) \<Rightarrow> map_sum id (\<lambda>v'. (name, ord, v')) (conv v)))"

text \<open>The methods of a \<open>*wrConn\<close>. \<open>conv\<close> is \<open>driver.DefaultParameterConverter\<close>.\<close>

definition wr_conn :: "('v \<Rightarrow> gerr + 'v) \<Rightarrow> ('h, 'w, 'v, 'r) wrConn \<Rightarrow> ('h \<times> 'w, 'v, 'r) conn_if" where
  "wr_conn conv c =
     \<lparr>c_Ping = Some (wrConn_Ping c),
      c_Exec = Some (wrConn_Exec c),
      c_ExecContext = Some (wrConn_ExecContext c),
      c_Query = Some (wrConn_Query c),
      c_QueryContext = Some (wrConn_QueryContext c),
      c_Prepare = wrConn_Prepare c,
      c_PrepareContext = Some (wrConn_PrepareContext c),
      c_Close = on_world (c_Close (wc_parent c)),
      c_Begin = wrConn_Begin c,
      c_BeginTx = Some (wrConn_BeginTx c),
      c_CheckNamedValue = Some (wrConn_CheckNamedValue conv c),
      c_ResetSession = None\<rparr>"

text \<open>\<open>wrapConn\<close>. The structs with a named value checker embed it beside the \<open>*wrConn\<close>, whose
  method \<open>CheckNamedValue\<close> has the same depth; by the rules for promoted methods neither of the two
  is a method of the struct.\<close>

definition wrapConn ::
    "('v \<Rightarrow> gerr + 'v) \<Rightarrow> string \<Rightarrow> ('w, 'v, 'r) conn_if \<Rightarrow> ('h, 'v) hook \<Rightarrow> ('h \<times> 'w, 'v, 'r) conn_if" where
  "wrapConn conv connID parent w =
     (let c = wr_conn conv \<lparr>wc_parent = parent, wc_wrapper = connIDHook connID w\<rparr>
      in case (c_CheckNamedValue parent, c_ResetSession parent) of
           (None, None) \<Rightarrow> c
         | (Some n, None) \<Rightarrow> c\<lparr>c_CheckNamedValue := None\<rparr>
         | (None, Some s) \<Rightarrow> c\<lparr>c_ResetSession := Some (\<lambda>ctx. on_world (s ctx))\<rparr>
         | (Some n, Some s) \<Rightarrow>
             c\<lparr>c_CheckNamedValue := None, c_ResetSession := Some (\<lambda>ctx. on_world (s ctx))\<rparr>)"

text \<open>The dynamic type of a connection, as far as \<open>unwrapConn\<close> looks at it.\<close>

datatype 'c conn_value =
    NativeConn 'c
  | PlainWrConn "'c conn_value"
  | WithNameValueChecker "'c conn_value"
  | WithSessionResetter "'c conn_value"
  | WithBoth "'c conn_value"

fun unwrapConn :: "'c conn_value \<Rightarrow> 'c conn_value" where
  "unwrapConn (WithSessionResetter parent) = unwrapConn parent"
| "unwrapConn (WithNameValueChecker parent) = unwrapConn parent"
| "unwrapConn (WithBoth parent) = unwrapConn parent"
| "unwrapConn c = c"

section \<open>Drivers and connectors\<close>

record ('s, 'v, 'r) driver_if =
  dr_Open :: "string \<Rightarrow> 's \<Rightarrow> (gerr + ('s, 'v, 'r) conn_if) \<times> 's"
  dr_OpenConnector :: "(string \<Rightarrow> gerr + ('v sctx \<Rightarrow> 's \<Rightarrow> ((gerr + ('s, 'v, 'r) conn_if) \<times> 's) panics)) option"

type_synonym ('s, 'v, 'r) connector = "'v sctx \<Rightarrow> 's \<Rightarrow> ((gerr + ('s, 'v, 'r) conn_if) \<times> 's) panics"
type_synonym ('s, 'v, 'r) AfterConnQuery = "'v sctx \<Rightarrow> ('s, 'v, 'r) conn_if \<Rightarrow> 's \<Rightarrow> (gerr option \<times> 's) panics"

definition dummyAfterConnQuery :: "('s, 'v, 'r) AfterConnQuery" where
  "dummyAfterConnQuery ctx conn s = Inr (None, s)"

text \<open>\<open>wrDriver.Open\<close> and \<open>wrDriver.Connect\<close>. The identifiers of connections are random numbers,
  given here.\<close>

definition wrDriver_Open ::
    "('v \<Rightarrow> gerr + 'v) \<Rightarrow> string \<Rightarrow> ('w, 'v, 'r) driver_if \<Rightarrow> ('h, 'v) hook \<Rightarrow> string \<Rightarrow>
     'h \<times> 'w \<Rightarrow> (gerr + ('h \<times> 'w, 'v, 'r) conn_if) \<times> 'h \<times> 'w" where
  "wrDriver_Open conv connID parent wrapper name = (\<lambda>(h, w).
     case dr_Open parent name w of
       (Inl err, w') \<Rightarrow> (Inl err, h, w')
     | (Inr c, w') \<Rightarrow> (Inr (wrapConn conv connID c wrapper), h, w'))"

definition wrDriver_Connect ::
    "('v \<Rightarrow> gerr + 'v) \<Rightarrow> string \<Rightarrow> ('h \<times> 'w, 'v, 'r) AfterConnQuery \<Rightarrow> ('h, 'v) hook \<Rightarrow>
     ('w, 'v, 'r) connector \<Rightarrow> ('h \<times> 'w, 'v, 'r) connector" where
  "wrDriver_Connect conv connID connHook wrapper connector ctx = (\<lambda>(h, w).
     bind_sum (connector ctx w) (\<lambda>r. case r of
       (Inl err, w') \<Rightarrow> Inr (Inl err, h, w')
     | (Inr c, w') \<Rightarrow>
         (let result = wr_conn conv \<lparr>wc_parent = c, wc_wrapper = connIDHook connID wrapper\<rparr>
          in bind_sum (connHook ctx result (h, w')) (\<lambda>hr. case hr of
               (Some err, s) \<Rightarrow> Inr (Inl err, s)
             | (None, s) \<Rightarrow> Inr (Inr result, s)))))"

definition wrDriver_OpenConnector ::
    "('v \<Rightarrow> gerr + 'v) \<Rightarrow> string \<Rightarrow> ('h \<times> 'w, 'v, 'r) AfterConnQuery \<Rightarrow> ('h, 'v) hook \<Rightarrow>
     (string \<Rightarrow> gerr + ('w, 'v, 'r) connector) \<Rightarrow> string \<Rightarrow> gerr + ('h \<times> 'w, 'v, 'r) connector" where
  "wrDriver_OpenConnector conv connID connHook wrapper openConnector name =
     (case openConnector name of
        Inl err \<Rightarrow> Inl err
      | Inr connector \<Rightarrow> Inr (wrDriver_Connect conv connID connHook wrapper connector))"

definition wrapDriver ::
    "('v \<Rightarrow> gerr + 'v) \<Rightarrow> string \<Rightarrow> ('w, 'v, 'r) driver_if \<Rightarrow> ('h, 'v) hook \<Rightarrow>
     ('h \<times> 'w, 'v, 'r) AfterConnQuery option \<Rightarrow> ('h \<times> 'w, 'v, 'r) driver_if" where
  "wrapDriver conv connID d w conn =
     (let connHook = (case conn of None \<Rightarrow> dummyAfterConnQuery | Some f \<Rightarrow> f)
      in \<lparr>dr_Open = wrDriver_Open conv connID d w,
          dr_OpenConnector = map_option (wrDriver_OpenConnector conv connID connHook w) (dr_OpenConnector d)\<rparr>)"

text \<open>\<open>WithSearchPath\<close>: the query that runs on a new connection.\<close>

definition WithSearchPath :: "string \<Rightarrow> ('s, 'v, 'r) AfterConnQuery" where
  "WithSearchPath path ctx conn s =
     (case c_ExecContext conn of
        Some exec \<Rightarrow> (let (res, s') = exec ctx (''SET search_path TO '' @ path) [] s in Inr (err_of res, s'))
      | None \<Rightarrow> Inl ''cannot apply search path - connection does not support ExecContext'')"

subsection \<open>Names of wrapped drivers\<close>

definition maxWrappedDriversCount :: nat where "maxWrappedDriversCount = 1000"

definition wrapped_name :: "string \<Rightarrow> nat \<Rightarrow> string" where
  "wrapped_name driverName i = driverName @ ''-hooksql-'' @ show_nat i"

definition ErrNoSlots :: string where
  "ErrNoSlots = ''unable to register driver, all slots have been taken. You might want to increase `maxWrappedDriversCount`''"

text \<open>\<open>WrapDriverByName\<close> on the list of registered drivers; \<open>opened\<close> is what \<open>sql.Open\<close> and
  closing its result give for the driver's name.\<close>

definition WrapDriverByName :: "(string \<Rightarrow> gerr + 'd) \<Rightarrow> ('d \<Rightarrow> 'd) \<Rightarrow>
    string \<Rightarrow> (string \<times> 'd) list \<Rightarrow> (gerr + string) \<times> (string \<times> 'd) list" where
  "WrapDriverByName opened wrap driverName drivers =
     (case opened driverName of
        Inl err \<Rightarrow> (Inl err, drivers)
      | Inr dri \<Rightarrow>
          (case find (\<lambda>i. wrapped_name driverName i \<notin> fst ` set drivers) [0..<maxWrappedDriversCount] of
             Some i \<Rightarrow> (Inr (wrapped_name driverName i), (wrapped_name driverName i, wrap dri) # drivers)
           | None \<Rightarrow> (Inl (ErrNew ErrNoSlots), drivers)))"

section \<open>The logging hook\<close>

datatype log_level = DebugLevel | InfoLevel | WarnLevel | ErrorLevel

datatype 'v sql_log_field =
    SqlOperation string
  | QueryText string
  | DurationMs int
  | DatabaseName runes
  | DbHost runes
  | SqlArgs "'v list"
  | ErrorField gerr

record 'v sql_log_line =
  ll_level :: log_level
  ll_msg :: string
  ll_fields :: "'v sql_log_field list"

record LoggerHook =
  lh_host :: runes
  lh_db :: runes
  lh_logLevel :: log_level

definition NewLogger :: "log_level \<Rightarrow> runes \<Rightarrow> runes \<Rightarrow> LoggerHook" where
  "NewLogger logLevel host db = \<lparr>lh_host = host, lh_db = db, lh_logLevel = logLevel\<rparr>"

definition pg_code :: "gerr \<Rightarrow> string option" where
  "pg_code e = (case e of PgErr c t \<Rightarrow> Some c | _ \<Rightarrow> None)"

definition isSyntaxError :: "gerr option \<Rightarrow> bool" where
  "isSyntaxError err =
     (case err of None \<Rightarrow> False | Some e \<Rightarrow> errors_As pg_code e = Some ''42601'')"

definition Milliseconds :: "go_duration \<Rightarrow> int" where
  "Milliseconds d = sgn d * (\<bar>d\<bar> div 1000000)"

definition arg_value :: "'v sql_arg \<Rightarrow> 'v" where
  "arg_value a = (case a of PlainValue v \<Rightarrow> v | NamedValue n i v \<Rightarrow> v)"

definition query_fields :: "LoggerHook \<Rightarrow> go_time \<Rightarrow> 'v sctx \<Rightarrow> gerr option \<Rightarrow> 'v sql_log_field list" where
  "query_fields l now ctx err =
     (let data = data_FromContext ctx
      in (if sd_Operation data \<noteq> [] then [SqlOperation (sd_Operation data)] else []) @
         (if sd_Stmt data \<noteq> [] \<and> (sd_Operation data = [] \<or> isSyntaxError err) then [QueryText (sd_Stmt data)] else []) @
         (case sc_start ctx of Some t \<Rightarrow> [DurationMs (Milliseconds (time_Sub now t))] | None \<Rightarrow> []) @
         (if lh_db l \<noteq> [] then [DatabaseName (lh_db l)] else []) @
         (if lh_host l \<noteq> [] then [DbHost (lh_host l)] else []) @
         (if sd_Args data \<noteq> [] then [SqlArgs (map arg_value (sd_Args data))] else []))"

text \<open>The line that \<open>LoggerHook.After\<close> writes, if any; \<open>ctx_err\<close> is \<open>ctx.Err()\<close>, which stays set
  once it is set.\<close>

definition after_line ::
    "LoggerHook \<Rightarrow> go_time \<Rightarrow> gerr option \<Rightarrow> 'v sctx \<Rightarrow> gerr option \<Rightarrow> 'v sql_log_line option" where
  "after_line l now ctx_err ctx err =
     (let logMsg = ''rdb.sql:'' @ action_text (sd_Action (data_FromContext ctx));
          flds = query_fields l now ctx err
      in case (err, ctx_err) of
           (None, None) \<Rightarrow>
             Some \<lparr>ll_level = (case lh_logLevel l of
                     ErrorLevel \<Rightarrow> WarnLevel | WarnLevel \<Rightarrow> WarnLevel | InfoLevel \<Rightarrow> InfoLevel | DebugLevel \<Rightarrow> DebugLevel),
                   ll_msg = logMsg, ll_fields = flds\<rparr>
         | (_, Some _) \<Rightarrow> None
         | (Some e, None) \<Rightarrow> Some \<lparr>ll_level = ErrorLevel, ll_msg = logMsg, ll_fields = flds @ [ErrorField e]\<rparr>)"

text \<open>The hook on the lines written so far. The environment gives the clock and the errors of
  contexts at the successive calls of the hook.\<close>

record log_env =
  le_now :: "nat \<Rightarrow> go_time"
  le_ctx_err :: "nat \<Rightarrow> gerr option"

record 'v log_state =
  ls_calls :: nat
  ls_lines :: "'v sql_log_line list"

definition LoggerHook_Before :: "log_env \<Rightarrow> LoggerHook \<Rightarrow> 'v sctx \<Rightarrow> 'v log_state \<Rightarrow> 'v sctx \<times> 'v log_state" where
  "LoggerHook_Before env l ctx st =
     (ctx\<lparr>sc_start := Some (le_now env (ls_calls st))\<rparr>, st\<lparr>ls_calls := Suc (ls_calls st)\<rparr>)"

definition LoggerHook_After :: "log_env \<Rightarrow> LoggerHook \<Rightarrow> 'v sctx \<Rightarrow> gerr option \<Rightarrow> 'v log_state \<Rightarrow> 'v log_state" where
  "LoggerHook_After env l ctx err st =
     (let n = ls_calls st
      in case after_line l (le_now env n) (le_ctx_err env n) ctx err of
           Some line \<Rightarrow> \<lparr>ls_calls = Suc n, ls_lines = ls_lines st @ [line]\<rparr>
         | None \<Rightarrow> st\<lparr>ls_calls := Suc n\<rparr>)"

definition logger_hook :: "log_env \<Rightarrow> LoggerHook \<Rightarrow> ('v log_state, 'v) hook" where
  "logger_hook env l = \<lparr>hk_Before = LoggerHook_Before env l, hk_After = LoggerHook_After env l\<rparr>"

section \<open>Opening a database\<close>

record ('h, 's, 'v, 'r) openOptions =
  oo_searchPath :: "('s, 'v, 'r) AfterConnQuery option"
  oo_dbname :: runes
  oo_hostname :: runes
  oo_logging :: bool
  oo_loggingLevel :: log_level
  oo_hooks :: "('h, 'v) hook list"

type_synonym ('h, 's, 'v, 'r) OpenOption = "('h, 's, 'v, 'r) openOptions \<Rightarrow> ('h, 's, 'v, 'r) openOptions"

definition WithDbName :: "runes \<Rightarrow> ('h, 's, 'v, 'r) OpenOption" where "WithDbName dbname = oo_dbname_update (\<lambda>_. dbname)"
definition WithHostname :: "runes \<Rightarrow> ('h, 's, 'v, 'r) OpenOption" where "WithHostname hostname = oo_hostname_update (\<lambda>_. hostname)"

definition WithLogging :: "log_level \<Rightarrow> ('h, 's, 'v, 'r) OpenOption" where
  "WithLogging lvl o' = o'\<lparr>oo_logging := True, oo_loggingLevel := lvl\<rparr>"

definition WithDSNParsedInfo :: "url_lib \<Rightarrow> runes \<Rightarrow> ('h, 's, 'v, 'r) OpenOption" where
  "WithDSNParsedInfo L dsn o' =
     (case parseDSN L dsn of (host, dbname, _) \<Rightarrow> o'\<lparr>oo_hostname := host, oo_dbname := dbname\<rparr>)"

definition apply_options :: "url_lib \<Rightarrow> runes \<Rightarrow> ('h, 's, 'v, 'r) OpenOption list \<Rightarrow> ('h, 's, 'v, 'r) openOptions" where
  "apply_options L dsn opts =
     (case parseDSN L dsn of (host, dbname, _) \<Rightarrow>
        fold (\<lambda>opt o'. opt o') opts
          \<lparr>oo_searchPath = None, oo_dbname = dbname, oo_hostname = host, oo_logging = False,
           oo_loggingLevel = DebugLevel, oo_hooks = []\<rparr>)"

definition wrapper_hook :: "log_env \<Rightarrow> ('v log_state, 's, 'v, 'r) openOptions \<Rightarrow> ('v log_state, 'v) hook" where
  "wrapper_hook env options =
     (let hs = (if oo_logging options
                then [logger_hook env (NewLogger (oo_loggingLevel options) (oo_hostname options) (oo_dbname options))]
                else []) @ oo_hooks options
      in case hs of [k] \<Rightarrow> k | _ \<Rightarrow> Compose hs)"

text \<open>\<open>Open\<close>: the registered drivers are of the type \<open>'d\<close>, \<open>opened\<close> and \<open>openDB\<close> are calls of
  \<open>sql.Open\<close>, and \<open>wrap\<close> is \<open>Wrap\<close> with the given hook.\<close>

definition driver_Open ::
    "url_lib \<Rightarrow> log_env \<Rightarrow> (string \<Rightarrow> gerr + 'd) \<Rightarrow>
     (('v log_state, 'v) hook \<Rightarrow> ('s, 'v, 'r) AfterConnQuery option \<Rightarrow> 'd \<Rightarrow> 'd) \<Rightarrow>
     (string \<Rightarrow> runes \<Rightarrow> (string \<times> 'd) list \<Rightarrow> gerr + 'db) \<Rightarrow>
     string \<Rightarrow> runes \<Rightarrow> ('v log_state, 's, 'v, 'r) OpenOption list \<Rightarrow> (string \<times> 'd) list \<Rightarrow>
     (gerr + 'db) \<times> (string \<times> 'd) list" where
  "driver_Open L env opened wrap openDB driverName dsn opts drivers =
     (let options = apply_options L dsn opts
      in case WrapDriverByName opened (wrap (wrapper_hook env options) (oo_searchPath options)) driverName drivers of
           (Inl err, drivers') \<Rightarrow> (Inl err, drivers')
         | (Inr dn, drivers') \<Rightarrow> (openDB dn dsn drivers', drivers'))"

section \<open>Sessions\<close>

text \<open>What a client does with one connection, in the way of package \<open>database/sql\<close>: it uses the
  methods with a context where the connection has them, and ends every transaction it has begun once.\<close>

datatype 'v cmd =
    PingCmd
  | ExecCmd string "'v named_value list"
  | QueryCmd string "'v named_value list"
  | PreparedExec string "'v named_value list"
  | TxCmd bool "'v cmd list"

definition done_with :: "gerr option \<Rightarrow> gerr + 'r option" where
  "done_with err = (case err of None \<Rightarrow> Inr None | Some e \<Rightarrow> Inl e)"

definition exec_prepared ::
    "('s, 'v, 'r) stmt_if \<Rightarrow> 'v sctx \<Rightarrow> 'v named_value list \<Rightarrow> 's \<Rightarrow> (gerr + 'r option) list \<times> 's" where
  "exec_prepared stmt ctx args s =
     (let (res, s1) = (case s_ExecContext stmt of
             Some f \<Rightarrow> f ctx args s
           | None \<Rightarrow> s_Exec stmt (map (\<lambda>(_, _, v). v) args) s);
          (cerr, s2) = s_Close stmt s1
      in ([map_sum id Some res, done_with cerr], s2))"

definition optional_call :: "('s \<Rightarrow> (gerr + 'r) \<times> 's) option \<Rightarrow> 's \<Rightarrow> (gerr + 'r option) list \<times> 's" where
  "optional_call f s = (let (res, s') = (case f of Some g \<Rightarrow> g s | None \<Rightarrow> skipped s) in ([map_sum id Some res], s'))"

fun run_cmd :: "('s, 'v, 'r) conn_if \<Rightarrow> 'v sctx \<Rightarrow> 'v cmd \<Rightarrow> 's \<Rightarrow> (gerr + 'r option) list \<times> 's"
  and run_cmds :: "('s, 'v, 'r) conn_if \<Rightarrow> 'v sctx \<Rightarrow> 'v cmd list \<Rightarrow> 's \<Rightarrow> (gerr + 'r option) list \<times> 's" where
  "run_cmd c ctx PingCmd s =
     (let (err, s') = (case c_Ping c of Some f \<Rightarrow> f ctx s | None \<Rightarrow> (None, s)) in ([done_with err], s'))"
| "run_cmd c ctx (ExecCmd q args) s = optional_call (map_option (\<lambda>f. f ctx q args) (c_ExecContext c)) s"
| "run_cmd c ctx (QueryCmd q args) s = optional_call (map_option (\<lambda>f. f ctx q args) (c_QueryContext c)) s"
| "run_cmd c ctx (PreparedExec q args) s =
     (let (res, s') = (case c_PrepareContext c of Some f \<Rightarrow> f ctx q s | None \<Rightarrow> c_Prepare c q s)
      in case res of Inl e \<Rightarrow> ([Inl e], s') | Inr stmt \<Rightarrow> exec_prepared stmt ctx args s')"
| "run_cmd c ctx (TxCmd commit cmds) s =
     (let (res, s') = (case c_BeginTx c of Some f \<Rightarrow> f ctx False s | None \<Rightarrow> c_Begin c s)
      in case res of
           Inl e \<Rightarrow> ([Inl e], s')
         | Inr tx \<Rightarrow>
             (let (rs, s1) = run_cmds c ctx cmds s';
                  (err, s2) = (if commit then t_Commit tx s1 else t_Rollback tx s1)
              in (rs @ [done_with err], s2)))"
| "run_cmds c ctx [] s = ([], s)"
| "run_cmds c ctx (cmd # cmds) s =
     (let (rs, s1) = run_cmd c ctx cmd s; (rs', s2) = run_cmds c ctx cmds s1 in (rs @ rs', s2))"

subsection \<open>Every call of a hook is ended once\<close>

datatype 'v hook_event = Began "'v sctx" | Ended "'v sctx" "gerr option"

text \<open>A hook together with the record of its calls: \<open>Began\<close> with the context it returned.\<close>

definition traced :: "('h, 'v) hook \<Rightarrow> ('h \<times> 'v hook_event list, 'v) hook" where
  "traced H =
     \<lparr>hk_Before = (\<lambda>ctx (h, t). let (ctx', h') = hk_Before H ctx h in (ctx', h', t @ [Began ctx'])),
      hk_After = (\<lambda>ctx err (h, t). (hk_After H ctx err h, t @ [Ended ctx err]))\<rparr>"

text \<open>The contexts that have begun and not ended; \<open>None\<close> if one ends that has not begun.\<close>

fun pending :: "'v sctx list \<Rightarrow> 'v hook_event list \<Rightarrow> 'v sctx list option" where
  "pending p [] = Some p"
| "pending p (Began ctx # t) = pending (ctx # p) t"
| "pending p (Ended ctx err # t) = (if ctx \<in> set p then pending (remove1 ctx p) t else None)"

lemma pending_append: "pending p (t @ u) = Option.bind (pending p t) (\<lambda>q. pending q u)"
  by (induction p t rule: pending.induct) auto

text \<open>A step of the wrapped connection is neat when it adds a part to the record in which all that begins
  ends. \<open>open_with\<close> is the part of a transaction's start, which leaves one context open.\<close>

definition neat :: "(('h \<times> 'v hook_event list) \<times> 'w \<Rightarrow> 'a \<times> ('h \<times> 'v hook_event list) \<times> 'w) \<Rightarrow> bool" where
  "neat f \<longleftrightarrow> (\<forall>h t w a h' t' w'. f ((h, t), w) = (a, (h', t'), w') \<longrightarrow>
     (\<exists>u. t' = t @ u \<and> (\<forall>p. pending p u = Some p)))"

lemma neatI:
  assumes "\<And>h t w a h' t' w'. f ((h, t), w) = (a, (h', t'), w') \<Longrightarrow> \<exists>u. t' = t @ u \<and> (\<forall>p. pending p u = Some p)"
  shows "neat f"
  using assms unfolding neat_def by blast

lemma neatD:
  assumes "neat f" and "f ((h, t), w) = (a, (h', t'), w')"
  obtains u where "t' = t @ u" and "\<And>p. pending p u = Some p"
  using assms unfolding neat_def by blast

lemma neat_around_with: "neat (around_with (connIDHook i (traced H)) ctx call post)"
  by (rule neatI)
    (auto simp: around_with_def connIDHook_def traced_def split: prod.splits)

lemma neat_around: "neat (around (connIDHook i (traced H)) ctx call)"
  unfolding around_def by (rule neat_around_with)

lemma neat_skipped: "neat skipped"
  by (rule neatI) (simp add: skipped_def)

lemma neat_on_world: "neat (on_world f)"
  by (rule neatI) (auto simp: on_world_def split: prod.splits)

lemma neat_same: "neat (Pair a)"
  by (rule neatI) simp

text \<open>Steps in sequence.\<close>

lemma neat_bind:
  assumes "neat f" and "\<And>a. neat (g a)"
  shows "neat (\<lambda>s. let (a, s') = f s in g a s')"
proof (rule neatI)
  fix h t w a h' t' w'
  assume run: "(let (a, s') = f ((h, t), w) in g a s') = (a, (h', t'), w')"
  obtain b h1 t1 w1 where f: "f ((h, t), w) = (b, (h1, t1), w1)" by (metis prod.exhaust)
  then have g: "g b ((h1, t1), w1) = (a, (h', t'), w')" using run by simp
  from neatD [OF assms(1) f] obtain u where u: "t1 = t @ u" "\<And>p. pending p u = Some p" by blast
  from neatD [OF assms(2) g] obtain v where v: "t' = t1 @ v" "\<And>p. pending p v = Some p" by blast
  show "\<exists>u. t' = t @ u \<and> (\<forall>p. pending p u = Some p)"
    by (rule exI [of _ "u @ v"]) (simp add: u v pending_append)
qed

lemma map_sum_Inr_iff: "map_sum f g x = Inr y \<longleftrightarrow> (\<exists>z. x = Inr z \<and> y = g z)"
  by (cases x) auto

lemma neat_map: "neat f \<Longrightarrow> neat (\<lambda>s. case f s of (a, s') \<Rightarrow> (k a, s'))"
  using neat_bind [of f "\<lambda>a s. (k a, s)"] by (simp add: Let_def neat_same)

definition traced_conn ::
    "('v \<Rightarrow> gerr + 'v) \<Rightarrow> string \<Rightarrow> ('w, 'v, 'r) conn_if \<Rightarrow> ('h, 'v) hook \<Rightarrow> (('h \<times> 'v hook_event list) \<times> 'w, 'v, 'r) conn_if" where
  "traced_conn conv connID parent H = wr_conn conv \<lparr>wc_parent = parent, wc_wrapper = connIDHook connID (traced H)\<rparr>"

lemmas wrConn_calls = wrConn_Ping_def wrConn_ExecContext_def wrConn_QueryContext_def wrConn_PrepareContext_def

lemma optional_call_alt:
  "optional_call k = (\<lambda>s. case (case k of Some f' \<Rightarrow> f' | None \<Rightarrow> skipped) s of (res, s') \<Rightarrow> Pair [map_sum id Some res] s')"
  by (rule ext) (simp add: optional_call_def Let_def split: option.splits)

lemma neat_optional_call: "(\<And>f. g = Some f \<Longrightarrow> neat f) \<Longrightarrow> neat (optional_call g)"
  unfolding optional_call_def Let_def by (cases g) (auto intro: neat_map neat_skipped)

lemma neat_exec_prepared: "neat (exec_prepared (wrapStmt stmt q name (connIDHook i (traced H))) ctx args)"
proof -
  let ?S = "wrapStmt stmt q name (connIDHook i (traced H))"
  have "neat (s_Exec ?S vs)" for vs
    by (simp add: wrapStmt_def wrStmt_Exec_def neat_around Let_def)
  moreover have "neat (f ctx args)" if "s_ExecContext ?S = Some f" for f
    using that by (auto simp: wrapStmt_def wrStmt_ExecContext_def neat_around Let_def)
  ultimately have "neat (case s_ExecContext ?S of Some f \<Rightarrow> f ctx args | None \<Rightarrow> s_Exec ?S (map (\<lambda>(_, _, v). v) args))"
    by (auto split: option.splits)
  moreover have "neat (s_Close ?S)" by (simp add: wrapStmt_def neat_on_world Let_def)
  moreover have "exec_prepared ?S ctx args = (\<lambda>s.
      let (res, s1) = (case s_ExecContext ?S of Some f \<Rightarrow> f ctx args | None \<Rightarrow> s_Exec ?S (map (\<lambda>(_, _, v). v) args)) s
      in (\<lambda>s1. let (cerr, s2) = s_Close ?S s1 in ([map_sum id Some res, done_with cerr], s2)) s1)"
    by (rule ext) (simp add: exec_prepared_def split: option.splits)
  ultimately show ?thesis
    by (simp only:) (intro neat_bind neat_same)
qed

lemma BeginTx_events:
  assumes "wrConn_BeginTx \<lparr>wc_parent = P, wc_wrapper = connIDHook i (traced H)\<rparr> ctx opts ((h, t), w) = (res, (h1, t1), w1)"
  shows "(\<forall>e. res = Inl e \<longrightarrow> (\<exists>u. t1 = t @ u \<and> (\<forall>p. pending p u = Some p))) \<and>
    (\<forall>tx. res = Inr tx \<longrightarrow> (\<exists>tc u. t1 = t @ u \<and> (\<forall>p. pending p u = Some (tc # p)) \<and>
       (\<forall>h t w a h' t' w'. t_Commit tx ((h, t), w) = (a, (h', t'), w') \<or> t_Rollback tx ((h, t), w) = (a, (h', t'), w') \<longrightarrow>
         (\<exists>u. t' = t @ u \<and> (\<forall>p. pending (tc # p) u = Some p)))))"
  using assms
  by (cases "c_BeginTx P")
    (auto simp: wrConn_BeginTx_def connIDHook_def traced_def tx_of_def wrTx_Commit_def wrTx_Rollback_def
      wrTx_end_def Let_def split: prod.splits sum.splits)

lemma neat_tx:
  assumes "neat (run_cmds (traced_conn conv i P H) ctx cmds)"
  shows "neat (run_cmd (traced_conn conv i P H) ctx (TxCmd commit cmds))"
proof (rule neatI)
  let ?C = "traced_conn conv i P H"
  let ?W = "\<lparr>wc_parent = P, wc_wrapper = connIDHook i (traced H)\<rparr>"
  fix h t w a h' t' w'
  assume run: "run_cmd ?C ctx (TxCmd commit cmds) ((h, t), w) = (a, (h', t'), w')"
  obtain res h1 t1 w1 where b: "wrConn_BeginTx ?W ctx False ((h, t), w) = (res, (h1, t1), w1)" by (metis prod.exhaust)
  have C: "c_BeginTx ?C = Some (wrConn_BeginTx ?W)" by (simp add: traced_conn_def wr_conn_def)
  show "\<exists>u. t' = t @ u \<and> (\<forall>p. pending p u = Some p)"
  proof (cases res)
    case (Inl e)
    then show ?thesis using run b C BeginTx_events [OF b] by simp
  next
    case (Inr tx)
    obtain rs h2 t2 w2 where c: "run_cmds ?C ctx cmds ((h1, t1), w1) = (rs, (h2, t2), w2)" by (metis prod.exhaust)
    have e: "\<exists>err. t_Commit tx ((h2, t2), w2) = (err, (h', t'), w') \<or> t_Rollback tx ((h2, t2), w2) = (err, (h', t'), w')"
      using run b C Inr c by (cases commit) (auto split: prod.splits)
    from BeginTx_events [OF b] Inr obtain tc u1 where u1: "t1 = t @ u1" "\<forall>p. pending p u1 = Some (tc # p)"
      and ends: "\<forall>h t w a h' t' w'. t_Commit tx ((h, t), w) = (a, (h', t'), w') \<or> t_Rollback tx ((h, t), w) = (a, (h', t'), w') \<longrightarrow>
         (\<exists>u. t' = t @ u \<and> (\<forall>p. pending (tc # p) u = Some p))"
      by blast
    from neatD [OF assms c] obtain u2 where u2: "t2 = t1 @ u2" "\<And>p. pending p u2 = Some p" by blast
    from e ends obtain u3 where u3: "t' = t2 @ u3" "\<forall>p. pending (tc # p) u3 = Some p" by blast
    show ?thesis
      by (rule exI [of _ "u1 @ u2 @ u3"]) (simp add: u1 u2 u3 pending_append)
  qed
qed

lemma neat_prepared: "neat (run_cmd (traced_conn conv i P H) ctx (PreparedExec q args))"
proof (rule neatI)
  let ?C = "traced_conn conv i P H"
  let ?W = "\<lparr>wc_parent = P, wc_wrapper = connIDHook i (traced H)\<rparr>"
  fix h t w a h' t' w'
  assume run: "run_cmd ?C ctx (PreparedExec q args) ((h, t), w) = (a, (h', t'), w')"
  obtain res h1 t1 w1 where b: "wrConn_PrepareContext ?W ctx q ((h, t), w) = (res, (h1, t1), w1)" by (metis prod.exhaust)
  have C: "c_PrepareContext ?C = Some (wrConn_PrepareContext ?W)" by (simp add: traced_conn_def wr_conn_def)
  have "neat (wrConn_PrepareContext ?W ctx q)" by (simp add: wrConn_PrepareContext_def neat_around_with)
  from neatD [OF this b] obtain u1 where u1: "t1 = t @ u1" "\<And>p. pending p u1 = Some p" by blast
  show "\<exists>u. t' = t @ u \<and> (\<forall>p. pending p u = Some p)"
  proof (cases res)
    case (Inl e)
    then show ?thesis using run b C u1 by auto
  next
    case (Inr stmt)
    from b Inr obtain native name where stmt: "stmt = wrapStmt native q name (connIDHook i (traced H))"
      by (auto simp: wrConn_PrepareContext_def around_with_def Let_def map_sum_Inr_iff split: prod.splits)
    have e: "exec_prepared stmt ctx args ((h1, t1), w1) = (a, (h', t'), w')" using run b C Inr by simp
    from neatD [OF neat_exec_prepared e [unfolded stmt]] obtain u2
      where u2: "t' = t1 @ u2" "\<And>p. pending p u2 = Some p" by blast
    show ?thesis by (rule exI [of _ "u1 @ u2"]) (simp add: u1 u2 pending_append)
  qed
qed

lemma neat_run_cmds:
  "(\<And>cmd. cmd \<in> set cmds \<Longrightarrow> neat (run_cmd C ctx cmd)) \<Longrightarrow> neat (run_cmds C ctx cmds)"
proof (induction cmds)
  case (Cons cmd cmds)
  have "run_cmds C ctx (cmd # cmds) = (\<lambda>s. let (rs, s1) = run_cmd C ctx cmd s in
      (\<lambda>s1. case run_cmds C ctx cmds s1 of (rs', s2) \<Rightarrow> (rs @ rs', s2)) s1)"
    by (rule ext) (simp add: Let_def)
  moreover have "neat (run_cmd C ctx cmd)" "neat (run_cmds C ctx cmds)" using Cons by simp_all
  ultimately show ?case by (simp only:) (intro neat_bind neat_map)
next
  case Nil
  have "run_cmds C ctx [] = Pair []" by (rule ext) simp
  then show ?case by (simp add: neat_same)
qed

lemma neat_run_cmd: "neat (run_cmd (traced_conn conv i P H) ctx cmd)"
proof (induction cmd)
  case PingCmd
  let ?W = "\<lparr>wc_parent = P, wc_wrapper = connIDHook i (traced H)\<rparr>"
  have "run_cmd (traced_conn conv i P H) ctx PingCmd = (\<lambda>s. case wrConn_Ping ?W ctx s of (err, s') \<Rightarrow> ([done_with err], s'))"
    by (rule ext) (simp add: traced_conn_def wr_conn_def)
  moreover have "neat (wrConn_Ping ?W ctx)"
    by (cases "c_Ping P") (simp_all add: wrConn_Ping_def neat_on_world neat_same)
  ultimately show ?case by (simp add: neat_map)
next
  case (ExecCmd q args)
  have "run_cmd (traced_conn conv i P H) ctx (ExecCmd q args) =
      optional_call (Some (wrConn_ExecContext \<lparr>wc_parent = P, wc_wrapper = connIDHook i (traced H)\<rparr> ctx q args))"
    by (rule ext) (simp add: traced_conn_def wr_conn_def)
  then show ?case
    by (cases "c_ExecContext P") (auto intro!: neat_optional_call simp: wrConn_ExecContext_def neat_around neat_skipped)
next
  case (QueryCmd q args)
  have "run_cmd (traced_conn conv i P H) ctx (QueryCmd q args) =
      optional_call (Some (wrConn_QueryContext \<lparr>wc_parent = P, wc_wrapper = connIDHook i (traced H)\<rparr> ctx q args))"
    by (rule ext) (simp add: traced_conn_def wr_conn_def)
  then show ?case
    by (cases "c_QueryContext P") (auto intro!: neat_optional_call simp: wrConn_QueryContext_def neat_around neat_skipped)
next
  case (PreparedExec q args)
  show ?case by (rule neat_prepared)
next
  case (TxCmd commit cmds)
  then show ?case by (intro neat_tx neat_run_cmds)
qed

text \<open>C14: Whatever a client does with a wrapped connection, with any hook and any native driver, every
  call of \<open>Before\<close> is matched by exactly one call of \<open>After\<close> with the context that \<open>Before\<close>
  returned, also when calls fail, and no call of \<open>After\<close> comes without its \<open>Before\<close>.\<close>

theorem hooks_are_paired:
  "\<exists>rs h' t' w'. run_cmds (traced_conn conv connID P H) ctx cmds ((h, []), w) = (rs, (h', t'), w') \<and> pending [] t' = Some []"
proof -
  obtain rs h' t' w' where run: "run_cmds (traced_conn conv connID P H) ctx cmds ((h, []), w) = (rs, (h', t'), w')"
    by (metis prod.exhaust)
  have "neat (run_cmds (traced_conn conv connID P H) ctx cmds)" by (intro neat_run_cmds neat_run_cmd)
  from neatD [OF this run] have "pending [] t' = Some []" by (metis append_Nil)
  with run show ?thesis by blast
qed

subsection \<open>The wrapper is transparent\<close>

text \<open>A native driver that looks only at what a context held before the wrapper.\<close>

definition blind :: "('v sctx \<Rightarrow> 'a) option \<Rightarrow> bool" where
  "blind f \<longleftrightarrow> (\<forall>g ctx ctx'. f = Some g \<longrightarrow> sc_base ctx = sc_base ctx' \<longrightarrow> g ctx = g ctx')"

definition blind_conn :: "('w, 'v, 'r) conn_if \<Rightarrow> bool" where
  "blind_conn P \<longleftrightarrow>
     blind (c_ExecContext P) \<and> blind (c_QueryContext P) \<and> blind (c_PrepareContext P) \<and> blind (c_BeginTx P) \<and>
     (\<forall>ctx q w stmt w'.
        (case c_PrepareContext P of Some f \<Rightarrow> f ctx q w | None \<Rightarrow> c_Prepare P q w) = (Inr stmt, w') \<longrightarrow>
        blind (s_ExecContext stmt))"

lemma blindD: "blind (Some f) \<Longrightarrow> sc_base ctx = sc_base ctx' \<Longrightarrow> f ctx = f ctx'"
  unfolding blind_def by blast

text \<open>A step of the wrapped connection does to the native state, and returns up to \<open>R\<close>, what a step of
  the native connection does and returns.\<close>

definition simulates :: "('a \<Rightarrow> 'b \<Rightarrow> bool) \<Rightarrow> ('h \<times> 'w \<Rightarrow> 'a \<times> 'h \<times> 'w) \<Rightarrow> ('w \<Rightarrow> 'b \<times> 'w) \<Rightarrow> bool" where
  "simulates R f g \<longleftrightarrow> (\<forall>h w. \<exists>a b h' w'. f (h, w) = (a, h', w') \<and> g w = (b, w') \<and> R a b)"

lemma simulates_bind:
  assumes f: "simulates R f g" and k: "\<And>a b. R a b \<Longrightarrow> simulates S (k a) (l b)"
  shows "simulates S (\<lambda>s. case f s of (a, s') \<Rightarrow> k a s') (\<lambda>s. case g s of (b, s') \<Rightarrow> l b s')"
  unfolding simulates_def
proof (intro allI)
  fix h w
  from f obtain a b h' w' where 1: "f (h, w) = (a, h', w')" "g w = (b, w')" "R a b" unfolding simulates_def by blast
  from k [OF 1(3)] obtain c d h'' w'' where "k a (h', w') = (c, h'', w'')" "l b w' = (d, w'')" "S c d"
    unfolding simulates_def by blast
  with 1 show "\<exists>a b h'' w''. (case f (h, w) of (a, s') \<Rightarrow> k a s') = (a, h'', w'') \<and>
      (case g w of (b, s') \<Rightarrow> l b s') = (b, w'') \<and> S a b" by simp
qed

lemma simulates_ret: "R a b \<Longrightarrow> simulates R (Pair a) (Pair b)"
  by (simp add: simulates_def)

lemma simulates_on_world: "simulates (=) (on_world f) f"
  by (auto simp: simulates_def on_world_def split: prod.splits)

lemma simulates_skipped: "simulates (=) skipped skipped"
  by (simp add: simulates_def skipped_def)

lemma run_cmds_alt:
  "run_cmds c ctx [] = Pair []"
  "run_cmds c ctx (cmd # cmds) = (\<lambda>s. case run_cmd c ctx cmd s of (rs, s1) \<Rightarrow>
     (\<lambda>s1. case run_cmds c ctx cmds s1 of (rs', s2) \<Rightarrow> Pair (rs @ rs') s2) s1)"
  by (rule ext; simp)+

lemma run_cmds_simulates:
  "(\<And>cmd. cmd \<in> set cmds \<Longrightarrow> simulates (=) (run_cmd C ctx cmd) (run_cmd P ctx cmd)) \<Longrightarrow>
   simulates (=) (run_cmds C ctx cmds) (run_cmds P ctx cmds)"
proof (induction cmds)
  case Nil
  then show ?case by (simp add: run_cmds_alt(1) simulates_ret)
next
  case (Cons cmd cmds)
  have 1: "simulates (=) (run_cmd C ctx cmd) (run_cmd P ctx cmd)" using Cons.prems by simp
  have 2: "simulates (=) (run_cmds C ctx cmds) (run_cmds P ctx cmds)" using Cons by simp
  show ?case
    unfolding run_cmds_alt(2)
    by (rule simulates_bind [OF 1], rule simulates_bind [OF 2]) (simp add: simulates_ret)
qed

text \<open>What the transparency of the wrapper needs of a hook: it adds to contexts and hides nothing.\<close>

locale base_hook =
  fixes H :: "('h, 'v) hook"
  assumes keeps_base: "sc_base (fst (hk_Before H ctx h)) = sc_base ctx"
begin

lemma around_with_simulates:
  assumes "\<And>ctx'. sc_base ctx' = sc_base ctx \<Longrightarrow> call ctx' = g"
    and "\<And>ctx' x w w'. g w = (Inr x, w') \<Longrightarrow> R (post ctx' x) x"
  shows "simulates (rel_sum (=) R) (around_with H (data_NewContext ctx opts) call post) g"
  unfolding simulates_def
proof (intro allI)
  fix h w
  obtain ctx' h1 where b: "hk_Before H (data_NewContext ctx opts) h = (ctx', h1)" by force
  obtain res w' where g: "g w = (res, w')" by force
  have "call ctx' = g"
    using keeps_base [of "data_NewContext ctx opts" h] b by (intro assms(1)) (simp add: data_NewContext_def)
  moreover have "rel_sum (=) R (map_sum id (post ctx') res) res" using assms(2) g by (cases res) auto
  ultimately show "\<exists>a b h' w'. around_with H (data_NewContext ctx opts) call post (h, w) = (a, h', w') \<and>
      g w = (b, w') \<and> rel_sum (=) R a b"
    using b g by (simp add: around_with_def)
qed

lemma around_simulates:
  assumes "\<And>ctx'. sc_base ctx' = sc_base ctx \<Longrightarrow> call ctx' = g"
  shows "simulates (=) (around H (data_NewContext ctx opts) call) g"
  using around_with_simulates [of ctx call g "(=)" "\<lambda>_ x. x" opts] assms
  by (simp add: around_def sum.rel_eq)

lemma exec_prepared_simulates:
  assumes "blind (s_ExecContext stmt)"
  shows "simulates (=) (exec_prepared (wrapStmt stmt q name H) ctx args) (exec_prepared stmt ctx args)"
proof -
  let ?S = "wrapStmt stmt q name H"
  have call: "simulates (=) (case s_ExecContext ?S of Some f \<Rightarrow> f ctx args | None \<Rightarrow> s_Exec ?S vs)
      (case s_ExecContext stmt of Some f \<Rightarrow> f ctx args | None \<Rightarrow> s_Exec stmt vs)" for vs
    using assms
    by (cases "s_ExecContext stmt")
      (auto simp: wrapStmt_def Let_def wrStmt_Exec_def wrStmt_ExecContext_def stmt_context_def
        intro!: around_simulates dest!: blindD)
  have close: "simulates (=) (s_Close ?S) (s_Close stmt)"
    by (simp add: wrapStmt_def Let_def simulates_on_world)
  have unfold: "exec_prepared st ctx args =
      (\<lambda>s. case (case s_ExecContext st of Some f \<Rightarrow> f ctx args | None \<Rightarrow> s_Exec st (map (\<lambda>(_, _, v). v) args)) s of
        (res, s1) \<Rightarrow> (\<lambda>s1. case s_Close st s1 of (cerr, s2) \<Rightarrow> Pair [map_sum id Some res, done_with cerr] s2) s1)"
    for st :: "('s, 'v, 'r) stmt_if"
    by (rule ext) (simp add: exec_prepared_def Let_def split: option.splits)
  show ?thesis
    unfolding unfold by (rule simulates_bind [OF call], rule simulates_bind [OF close]) (simp add: simulates_ret)
qed

definition same_tx :: "('h \<times> 'w) tx_if \<Rightarrow> 'w tx_if \<Rightarrow> bool" where
  "same_tx tx ntx \<longleftrightarrow> simulates (=) (t_Commit tx) (t_Commit ntx) \<and> simulates (=) (t_Rollback tx) (t_Rollback ntx)"

lemma wrTx_simulates: "same_tx (tx_of \<lparr>wt_parent = ntx, wt_ctx = ctx, wt_txctx = txctx, wt_wrapper = H\<rparr>) ntx"
  by (auto simp: same_tx_def tx_of_def wrTx_Commit_def wrTx_Rollback_def wrTx_end_def simulates_def Let_def split: prod.splits)

definition conn_of :: "('v \<Rightarrow> gerr + 'v) \<Rightarrow> ('w, 'v, 'r) conn_if \<Rightarrow> ('h \<times> 'w, 'v, 'r) conn_if" where
  "conn_of conv P = wr_conn conv \<lparr>wc_parent = P, wc_wrapper = H\<rparr>"

lemma BeginTx_simulates:
  assumes "blind (c_BeginTx P)"
  shows "simulates (rel_sum (=) same_tx) (wrConn_BeginTx \<lparr>wc_parent = P, wc_wrapper = H\<rparr> ctx opts)
    (case c_BeginTx P of Some f \<Rightarrow> f ctx opts | None \<Rightarrow> c_Begin P)"
  unfolding simulates_def
proof (intro allI)
  fix h w
  obtain txctx h1 where b1: "hk_Before H (data_NewContext ctx [data_Action ActionTx]) h = (txctx, h1)" by force
  obtain bc h2 where b2: "hk_Before H (data_NewContext ctx [data_Action ActionBegin]) h1 = (bc, h2)" by force
  let ?g = "case c_BeginTx P of Some f \<Rightarrow> f ctx opts | None \<Rightarrow> c_Begin P"
  obtain res w' where g: "?g w = (res, w')" by force
  have "sc_base txctx = sc_base ctx"
    using keeps_base [of "data_NewContext ctx [data_Action ActionTx]" h] b1 by (simp add: data_NewContext_def)
  then have g': "(case c_BeginTx P of Some f \<Rightarrow> f txctx opts w | None \<Rightarrow> c_Begin P w) = (res, w')"
    using g assms by (auto split: option.splits dest!: blindD)
  show "\<exists>a b h' w'. wrConn_BeginTx \<lparr>wc_parent = P, wc_wrapper = H\<rparr> ctx opts (h, w) = (a, h', w') \<and>
      ?g w = (b, w') \<and> rel_sum (=) same_tx a b"
    using b1 b2 g g' by (cases "c_BeginTx P"; cases res) (simp_all add: wrConn_BeginTx_def wrTx_simulates)
qed

lemma optional_call_simulates:
  assumes "simulates (=) f (case g of Some f' \<Rightarrow> f' | None \<Rightarrow> skipped)"
  shows "simulates (=) (optional_call (Some f)) (optional_call g)"
  unfolding optional_call_alt option.case
  by (rule simulates_bind [OF assms]) (simp add: simulates_ret)

lemma conn_of_methods:
  "c_Ping (conn_of conv P) = Some (wrConn_Ping \<lparr>wc_parent = P, wc_wrapper = H\<rparr>)"
  "c_ExecContext (conn_of conv P) = Some (wrConn_ExecContext \<lparr>wc_parent = P, wc_wrapper = H\<rparr>)"
  "c_QueryContext (conn_of conv P) = Some (wrConn_QueryContext \<lparr>wc_parent = P, wc_wrapper = H\<rparr>)"
  "c_PrepareContext (conn_of conv P) = Some (wrConn_PrepareContext \<lparr>wc_parent = P, wc_wrapper = H\<rparr>)"
  "c_BeginTx (conn_of conv P) = Some (wrConn_BeginTx \<lparr>wc_parent = P, wc_wrapper = H\<rparr>)"
  by (simp_all add: conn_of_def wr_conn_def)

lemma ping_simulates:
  "simulates (=) (wrConn_Ping \<lparr>wc_parent = P, wc_wrapper = H\<rparr> ctx) (case c_Ping P of Some f \<Rightarrow> f ctx | None \<Rightarrow> Pair None)"
  by (cases "c_Ping P") (simp_all add: wrConn_Ping_def simulates_on_world simulates_ret)

lemma exec_simulates:
  assumes "blind (c_ExecContext P)"
  shows "simulates (=) (wrConn_ExecContext \<lparr>wc_parent = P, wc_wrapper = H\<rparr> ctx q args)
    (case map_option (\<lambda>f. f ctx q args) (c_ExecContext P) of Some f \<Rightarrow> f | None \<Rightarrow> skipped)"
  using assms
  by (cases "c_ExecContext P") (auto simp: wrConn_ExecContext_def simulates_skipped intro!: around_simulates dest!: blindD)

lemma query_simulates:
  assumes "blind (c_QueryContext P)"
  shows "simulates (=) (wrConn_QueryContext \<lparr>wc_parent = P, wc_wrapper = H\<rparr> ctx q args)
    (case map_option (\<lambda>f. f ctx q args) (c_QueryContext P) of Some f \<Rightarrow> f | None \<Rightarrow> skipped)"
  using assms
  by (cases "c_QueryContext P") (auto simp: wrConn_QueryContext_def simulates_skipped intro!: around_simulates dest!: blindD)

lemma prepare_simulates:
  assumes "blind_conn P"
  shows "simulates (rel_sum (=) (\<lambda>stmt native. \<forall>args. simulates (=) (exec_prepared stmt ctx args) (exec_prepared native ctx args)))
    (wrConn_PrepareContext \<lparr>wc_parent = P, wc_wrapper = H\<rparr> ctx q)
    (case c_PrepareContext P of Some f \<Rightarrow> f ctx q | None \<Rightarrow> c_Prepare P q)"
  unfolding wrConn_PrepareContext_def wrConn.select_convs
proof (rule around_with_simulates)
  fix ctx' :: "'v sctx" assume "sc_base ctx' = sc_base ctx"
  then show "(case c_PrepareContext P of Some prepCtx \<Rightarrow> prepCtx ctx' q | None \<Rightarrow> c_Prepare P q) =
      (case c_PrepareContext P of Some f \<Rightarrow> f ctx q | None \<Rightarrow> c_Prepare P q)"
    using assms by (auto simp: blind_conn_def split: option.splits dest!: blindD)
next
  fix ctx' :: "'v sctx" and stmt w w'
  assume "(case c_PrepareContext P of Some f \<Rightarrow> f ctx q | None \<Rightarrow> c_Prepare P q) w = (Inr stmt, w')"
  then have "(case c_PrepareContext P of Some f \<Rightarrow> f ctx q w | None \<Rightarrow> c_Prepare P q w) = (Inr stmt, w')"
    by (auto split: option.splits)
  then have "blind (s_ExecContext stmt)" using assms unfolding blind_conn_def by blast
  then show "\<forall>args. simulates (=) (exec_prepared
      (let op = sd_Operation (data_FromContext ctx'); qName = if op \<noteq> [] then op else queryNameNotDerivedFromContext
       in wrapStmt stmt q qName H) ctx args) (exec_prepared stmt ctx args)"
    by (simp add: Let_def exec_prepared_simulates)
qed

lemma run_prepared_simulates:
  assumes "blind_conn P"
  shows "simulates (=) (run_cmd (conn_of conv P) ctx (PreparedExec q args)) (run_cmd P ctx (PreparedExec q args))"
proof -
  have C: "run_cmd (conn_of conv P) ctx (PreparedExec q args) =
      (\<lambda>s. case wrConn_PrepareContext \<lparr>wc_parent = P, wc_wrapper = H\<rparr> ctx q s of (res, s') \<Rightarrow>
        (case res of Inl e \<Rightarrow> Pair [Inl e] | Inr stmt \<Rightarrow> exec_prepared stmt ctx args) s')"
    by (rule ext) (auto simp: conn_of_methods split: prod.splits sum.splits)
  have N: "run_cmd P ctx (PreparedExec q args) =
      (\<lambda>s. case (case c_PrepareContext P of Some f \<Rightarrow> f ctx q | None \<Rightarrow> c_Prepare P q) s of (res, s') \<Rightarrow>
        (case res of Inl e \<Rightarrow> Pair [Inl e] | Inr stmt \<Rightarrow> exec_prepared stmt ctx args) s')"
    by (rule ext) (auto split: prod.splits sum.splits option.splits)
  show ?thesis
    unfolding C N
    by (rule simulates_bind [OF prepare_simulates [OF assms]])
      (auto elim!: rel_sum.cases intro: simulates_ret)
qed

lemma run_tx_simulates:
  assumes "blind (c_BeginTx P)" and body: "simulates (=) (run_cmds (conn_of conv P) ctx cmds) (run_cmds P ctx cmds)"
  shows "simulates (=) (run_cmd (conn_of conv P) ctx (TxCmd commit cmds)) (run_cmd P ctx (TxCmd commit cmds))"
proof -
  have C: "run_cmd (conn_of conv P) ctx (TxCmd commit cmds) =
      (\<lambda>s. case wrConn_BeginTx \<lparr>wc_parent = P, wc_wrapper = H\<rparr> ctx False s of (res, s') \<Rightarrow>
        (case res of Inl e \<Rightarrow> Pair [Inl e] | Inr tx \<Rightarrow> (\<lambda>s'. case run_cmds (conn_of conv P) ctx cmds s' of (rs, s1) \<Rightarrow>
          (\<lambda>s1. case (if commit then t_Commit tx else t_Rollback tx) s1 of (err, s2) \<Rightarrow> Pair (rs @ [done_with err]) s2) s1)) s')"
    by (rule ext) (auto simp: conn_of_methods split: prod.splits sum.splits)
  have N: "run_cmd P ctx (TxCmd commit cmds) =
      (\<lambda>s. case (case c_BeginTx P of Some f \<Rightarrow> f ctx False | None \<Rightarrow> c_Begin P) s of (res, s') \<Rightarrow>
        (case res of Inl e \<Rightarrow> Pair [Inl e] | Inr tx \<Rightarrow> (\<lambda>s'. case run_cmds P ctx cmds s' of (rs, s1) \<Rightarrow>
          (\<lambda>s1. case (if commit then t_Commit tx else t_Rollback tx) s1 of (err, s2) \<Rightarrow> Pair (rs @ [done_with err]) s2) s1)) s')"
    by (rule ext) (auto split: prod.splits sum.splits option.splits)
  have fin: "simulates (=) (if commit then t_Commit tx else t_Rollback tx) (if commit then t_Commit ntx else t_Rollback ntx)"
    if "same_tx tx ntx" for tx ntx using that by (simp add: same_tx_def)
  have "simulates (=) (\<lambda>s'. case run_cmds (conn_of conv P) ctx cmds s' of (rs, s1) \<Rightarrow>
        (\<lambda>s1. case (if commit then t_Commit tx else t_Rollback tx) s1 of (err, s2) \<Rightarrow> Pair (rs @ [done_with err]) s2) s1)
      (\<lambda>s'. case run_cmds P ctx cmds s' of (rs, s1) \<Rightarrow>
        (\<lambda>s1. case (if commit then t_Commit ntx else t_Rollback ntx) s1 of (err, s2) \<Rightarrow> Pair (rs @ [done_with err]) s2) s1)"
    if "same_tx tx ntx" for tx ntx
    by (rule simulates_bind [OF body], rule simulates_bind [OF fin [OF that]]) (simp add: simulates_ret)
  then show ?thesis
    unfolding C N
    by (intro simulates_bind [OF BeginTx_simulates [OF assms(1)]])
      (auto elim!: rel_sum.cases intro: simulates_ret)
qed

lemma run_cmd_simulates:
  assumes "blind_conn P"
  shows "simulates (=) (run_cmd (conn_of conv P) ctx cmd) (run_cmd P ctx cmd)"
proof (induction cmd)
  case PingCmd
  have "run_cmd (conn_of conv P) ctx PingCmd = (\<lambda>s. case wrConn_Ping \<lparr>wc_parent = P, wc_wrapper = H\<rparr> ctx s of (err, s') \<Rightarrow> Pair [done_with err] s')"
    "run_cmd P ctx PingCmd = (\<lambda>s. case (case c_Ping P of Some f \<Rightarrow> f ctx | None \<Rightarrow> Pair None) s of (err, s') \<Rightarrow> Pair [done_with err] s')"
    by (rule ext; simp add: conn_of_methods split: option.splits)+
  then show ?case by (simp only:) (rule simulates_bind [OF ping_simulates], simp add: simulates_ret)
next
  case (ExecCmd q args)
  show ?case
    using optional_call_simulates [OF exec_simulates [of P ctx q args]] assms
    by (simp add: simulates_def conn_of_methods blind_conn_def)
next
  case (QueryCmd q args)
  show ?case
    using optional_call_simulates [OF query_simulates [of P ctx q args]] assms
    by (simp add: simulates_def conn_of_methods blind_conn_def)
next
  case (PreparedExec q args)
  show ?case by (rule run_prepared_simulates [OF assms])
next
  case (TxCmd commit cmds)
  then show ?case using assms by (intro run_tx_simulates run_cmds_simulates) (simp_all add: blind_conn_def)
qed

end

lemma base_hook_connIDHook: "base_hook H \<Longrightarrow> base_hook (connIDHook i H)"
  by (simp add: base_hook_def connIDHook_def)

interpretation lg: base_hook "logger_hook env l" for env :: log_env and l :: LoggerHook
  by unfold_locales (simp add: logger_hook_def LoggerHook_Before_def)

interpretation ci: base_hook "connIDHook i (logger_hook env l)" for i :: string and env :: log_env and l :: LoggerHook
  by (rule base_hook_connIDHook) (rule lg.base_hook_axioms)

text \<open>C6: Logging changes nothing for the client. Whatever a client does with a connection, it gets through the
  wrapped connection the results it gets from the native one, in the same order, and leaves the
  database in the same state, for every native driver that does not look at the values the wrapper
  adds to contexts.\<close>

theorem logged_session_transparent:
  assumes "blind_conn P"
  shows "\<exists>rs st' w'.
    run_cmds (wr_conn conv \<lparr>wc_parent = P, wc_wrapper = connIDHook i (logger_hook env l)\<rparr>) ctx cmds (st, w) = (rs, st', w') \<and>
    run_cmds P ctx cmds w = (rs, w')"
proof -
  have "simulates (=) (run_cmds (ci.conn_of i env l conv P) ctx cmds) (run_cmds P ctx cmds)"
    by (intro run_cmds_simulates ci.run_cmd_simulates assms)
  then show ?thesis unfolding simulates_def ci.conn_of_def by blast
qed

text \<open>A native driver that counts its calls, refuses one statement, and has transactions.\<close>

definition sample_tx :: "nat tx_if" where
  "sample_tx = \<lparr>t_Commit = (\<lambda>n. (None, n + 100)), t_Rollback = (\<lambda>n. (None, n))\<rparr>"

definition sample_conn :: "(nat, nat, nat) conn_if" where
  "sample_conn =
     \<lparr>c_Ping = None, c_Exec = None,
      c_ExecContext = Some (\<lambda>ctx q args n. if q = ''bad'' then (Inl (PgErr ''42601'' ''syntax error''), n) else (Inr n, n + 1)),
      c_Query = None, c_QueryContext = None,
      c_Prepare = (\<lambda>q n. (Inl (ErrNew ''unsupported''), n)), c_PrepareContext = None,
      c_Close = (\<lambda>n. (None, n)), c_Begin = (\<lambda>n. (Inr sample_tx, n)), c_BeginTx = None,
      c_CheckNamedValue = None, c_ResetSession = None\<rparr>"

definition sample_session :: "nat cmd list" where
  "sample_session = [TxCmd True [ExecCmd ''insert'' [], ExecCmd ''bad'' []], QueryCmd ''select'' []]"

theorem logged_session_transparent_witness:
  "blind_conn sample_conn \<and>
   run_cmds sample_conn Background sample_session 5 =
     ([Inr (Some 5), Inl (PgErr ''42601'' ''syntax error''), Inr None, Inl ErrSkip], 106) \<and>
   (\<exists>st'. run_cmds (wr_conn Inr \<lparr>wc_parent = sample_conn,
        wc_wrapper = connIDHook ''c1'' (logger_hook \<lparr>le_now = (\<lambda>_. 0), le_ctx_err = (\<lambda>_. None)\<rparr>
          (NewLogger DebugLevel [] []))\<rparr>) Background sample_session (\<lparr>ls_calls = 0, ls_lines = []\<rparr>, 5) =
     ([Inr (Some 5), Inl (PgErr ''42601'' ''syntax error''), Inr None, Inl ErrSkip], st', 106))"
proof -
  have b: "blind_conn sample_conn" by (simp add: blind_conn_def blind_def sample_conn_def)
  have r: "run_cmds sample_conn Background sample_session 5 =
     ([Inr (Some 5), Inl (PgErr ''42601'' ''syntax error''), Inr None, Inl ErrSkip], 106)"
    by (simp add: sample_session_def sample_conn_def sample_tx_def optional_call_def skipped_def done_with_def)
  show ?thesis
    using b r logged_session_transparent [OF b, of Inr "''c1''"
        "\<lparr>le_now = (\<lambda>_. 0), le_ctx_err = (\<lambda>_. None)\<rparr>" "NewLogger DebugLevel [] []" Background sample_session
        "\<lparr>ls_calls = 0, ls_lines = []\<rparr>" 5]
    by auto
qed

section \<open>Names of drivers, log lines, connections\<close>

lemma wrapped_name_inject [simp]: "wrapped_name d i = wrapped_name d j \<longleftrightarrow> i = j"
  by (auto simp: wrapped_name_def dest: arg_cong [where f = parse_digits] simp: parse_show_nat)

text \<open>The name a wrapped driver gets is not taken and is registered for it, with all other drivers left as they
  were; \<open>WrapDriverByName\<close> fails exactly when the driver cannot be opened or all of the 1000
  names are taken, and then registers nothing.\<close>

theorem WrapDriverByName_fresh:
  "(case WrapDriverByName opened wrap d drivers of
      (Inr name, drivers') \<Rightarrow>
        name \<notin> fst ` set drivers \<and> (\<exists>dri. opened d = Inr dri \<and> drivers' = (name, wrap dri) # drivers)
    | (Inl _, drivers') \<Rightarrow>
        drivers' = drivers \<and> ((\<exists>e. opened d = Inl e) \<or> wrapped_name d ` {..<1000} \<subseteq> fst ` set drivers))"
proof (cases "opened d")
  case (Inr dri)
  show ?thesis
  proof (cases "find (\<lambda>i. wrapped_name d i \<notin> fst ` set drivers) [0..<maxWrappedDriversCount]")
    case None
    then have "wrapped_name d ` {..<1000} \<subseteq> fst ` set drivers"
      by (auto simp: find_None_iff maxWrappedDriversCount_def)
    then show ?thesis using Inr None by (simp add: WrapDriverByName_def)
  next
    case (Some i)
    then have "wrapped_name d i \<notin> fst ` set drivers" by (auto simp: find_Some_iff)
    then show ?thesis using Inr Some by (simp add: WrapDriverByName_def)
  qed
qed (simp add: WrapDriverByName_def)

text \<open>What the logging hook writes: nothing when the context has ended, otherwise one line, an error exactly
  for a failed call, which then carries the error; and the text of a query is in the line exactly when
  the query has no name or the database could not parse it.\<close>

theorem logged_lines:
  "(after_line l now ctx_err ctx err = None \<longleftrightarrow> ctx_err \<noteq> None) \<and>
   (\<forall>line. after_line l now ctx_err ctx err = Some line \<longrightarrow>
      (ll_level line = ErrorLevel \<longleftrightarrow> err \<noteq> None) \<and>
      (\<forall>e. ErrorField e \<in> set (ll_fields line) \<longleftrightarrow> err = Some e) \<and>
      (\<forall>q. QueryText q \<in> set (ll_fields line) \<longleftrightarrow>
         q \<noteq> [] \<and> q = sd_Stmt (data_FromContext ctx) \<and>
         (sd_Operation (data_FromContext ctx) = [] \<or> isSyntaxError err)))"
  by (cases err; cases ctx_err; cases "lh_logLevel l")
    (auto simp: after_line_def query_fields_def Let_def split: option.splits)

theorem logged_lines_witness:
  "after_line (NewLogger ErrorLevel [] []) 0 None Background None \<noteq> None \<and>
   after_line (NewLogger ErrorLevel [] []) 0 (Some (Sentinel ContextCanceled)) Background None = None"
  using logged_lines [of "NewLogger ErrorLevel [] []" 0 None Background None]
    logged_lines [of "NewLogger ErrorLevel [] []" 0 "Some (Sentinel ContextCanceled)" Background None]
  by auto

text \<open>A connection that checks named values itself has no such check any more once \<open>wrapConn\<close> has
  wrapped it, and a connection made by \<open>Connect\<close> has no session reset; so the pool calls neither.\<close>

theorem wrapped_conn_loses_methods:
  "(c_CheckNamedValue P \<noteq> None \<longleftrightarrow> c_CheckNamedValue (wrapConn conv i P H) = None) \<and>
   c_ResetSession (wr_conn conv c) = None"
  by (cases "c_CheckNamedValue P"; cases "c_ResetSession P") (simp_all add: wrapConn_def wr_conn_def Let_def)

text \<open>\<open>UnwrapConn\<close> does not unwrap the connections that \<open>Connect\<close> makes.\<close>

theorem unwrapConn_plain: "unwrapConn (PlainWrConn c) = PlainWrConn c \<and> unwrapConn (WithBoth (NativeConn d)) = NativeConn d"
  by simp

text \<open>When the query that follows the connection fails, \<open>Connect\<close> returns its error, and the native connection is left
  open: its \<open>Close\<close> is not called.\<close>

theorem Connect_leaks:
  assumes "connector ctx w = Inr (Inr c, w1)"
    and "connHook ctx (wr_conn conv \<lparr>wc_parent = c, wc_wrapper = connIDHook i H\<rparr>) (h, w1) = Inr (Some err, h2, w2)"
  shows "wrDriver_Connect conv i connHook H connector ctx (h, w) = Inr (Inl err, h2, w2)"
  using assms by (simp add: wrDriver_Connect_def Let_def)

end
