(* ===== verification/Http_Client.thy ===== *)
theory Http_Client
  imports Retries Snake_Case
begin

text \<open>
  The HTTP client of \<open>internal/resttooling\<close>: the round trippers of \<open>roundtripper\<close>, the options that put them
  on top of each other, request identifiers (\<open>requestid\<close>), the cache of transports, bearer tokens.

  A round tripper is a function of a request and of the state \<open>net\<close>, which holds the log, the reported metrics, the clock
  readings, the supply of random identifiers, the requests that reached the network and the state \<open>'w\<close>
  of the rest of the world. It returns a response and an error, each of which may be nil. The header of a
  request is a value here; the mutation of its map is seen by the caller only through the map it passed, which no
  code of the repository reads afterwards.

  Parameters: the network, \<open>retry.Do\<close> of package kamilsk/retry (the body of the repeated action is modelled in \<open>Retries\<close>),
  \<open>otelhttp.NewTransport\<close>, and \<open>Limiter.Wait\<close> of package \<open>rate\<close>.
\<close>

section \<open>Requests, responses, contexts\<close>

text \<open>\<open>http.CanonicalHeaderKey\<close> for keys made of letters, digits and hyphens.\<close>

definition ascii_ToUpper :: "char \<Rightarrow> char" where
  "ascii_ToUpper c = (if ascii_lower c then char_of (of_char c - 32 :: nat) else c)"

fun canonical :: "bool \<Rightarrow> string \<Rightarrow> string" where
  "canonical up [] = []"
| "canonical up (c # cs) = (if up then ascii_ToUpper c else ascii_ToLower c) # canonical (c = CHR ''-'') cs"

type_synonym header = "string \<rightharpoonup> string"

definition Header_Get :: "header \<Rightarrow> string \<Rightarrow> string" where
  "Header_Get h key = (case h (canonical True key) of Some v \<Rightarrow> v | None \<Rightarrow> [])"

definition Header_Set :: "header \<Rightarrow> string \<Rightarrow> string \<Rightarrow> header" where
  "Header_Set h key value = h(canonical True key \<mapsto> value)"

lemma Header_Get_Set: "Header_Get (Header_Set h k v) k = v"
  by (simp add: Header_Get_def Header_Set_def)

record req_ctx =
  rc_RequestID :: "string option"
  rc_slug :: "string option"
  rc_names :: "string list"
  rc_fields :: "(string \<times> string) list"

record http_req =
  hr_Method :: string
  hr_URL :: "string option"
  hr_RequestURI :: string
  hr_Header :: header
  hr_ctx :: req_ctx

record http_resp =
  hs_StatusCode :: nat
  hs_Status :: string
  hs_Header :: header

datatype http_log =
    OutgoingError "string list" gerr int
  | OutgoingFinished "string list" string "string option" int

record metricEvent =
  me_standID :: string
  me_duration :: go_duration
  me_uri :: string
  me_method :: string
  me_code :: string
  me_service :: string

record 'w net =
  n_log :: "http_log list"
  n_metrics :: "metricEvent list"
  n_now :: "nat \<Rightarrow> go_time"
  n_readings :: nat
  n_uuid :: "nat \<Rightarrow> string"
  n_uuids :: nat
  n_sent :: "http_req list"
  n_world :: 'w

type_synonym 'w round_tripper = "http_req \<Rightarrow> 'w net \<Rightarrow> (http_resp option \<times> gerr option) \<times> 'w net"

definition read_clock :: "'w net \<Rightarrow> go_time \<times> 'w net" where
  "read_clock s = (n_now s (n_readings s), s\<lparr>n_readings := Suc (n_readings s)\<rparr>)"

text \<open>The network: the last round tripper.\<close>

definition transport :: "(http_req \<Rightarrow> 'w \<Rightarrow> (http_resp option \<times> gerr option) \<times> 'w) \<Rightarrow> 'w round_tripper" where
  "transport network r s =
     (let (res, w') = network r (n_world s) in (res, s\<lparr>n_sent := n_sent s @ [r], n_world := w'\<rparr>))"

section \<open>Request identifiers (package requestid)\<close>

definition HeaderName :: string where "HeaderName = ''x-request-id''"

definition NewReqID :: "'w net \<Rightarrow> string \<times> 'w net" where
  "NewReqID s = (n_uuid s (n_uuids s), s\<lparr>n_uuids := Suc (n_uuids s)\<rparr>)"

definition requestid_FromContext :: "req_ctx \<Rightarrow> string option" where
  "requestid_FromContext ctx = rc_RequestID ctx"

definition FromContextOrNew :: "req_ctx \<Rightarrow> 'w net \<Rightarrow> string \<times> 'w net" where
  "FromContextOrNew ctx s =
     (case requestid_FromContext ctx of Some rid \<Rightarrow> (rid, s) | None \<Rightarrow> NewReqID s)"

definition WithRequestID :: "req_ctx \<Rightarrow> string \<Rightarrow> req_ctx" where
  "WithRequestID ctx rid =
     (if rc_RequestID ctx \<noteq> None then ctx else ctx\<lparr>rc_RequestID := Some rid\<rparr>)"

definition RequestIDFromRequestOrNew :: "http_req \<Rightarrow> 'w net \<Rightarrow> string \<times> http_req \<times> 'w net" where
  "RequestIDFromRequestOrNew r s =
     (case requestid_FromContext (hr_ctx r) of
        Some headerValue \<Rightarrow> (headerValue, r, s)
      | None \<Rightarrow>
          (let hv = Header_Get (hr_Header r) HeaderName;
               (headerValue, s') = (if hv = [] then NewReqID s else (hv, s))
           in (headerValue, r\<lparr>hr_ctx := WithRequestID (hr_ctx r) headerValue\<rparr>, s')))"

section \<open>Slugs and metrics descriptions (urislug.go)\<close>

definition URISlugToContext :: "req_ctx \<Rightarrow> string \<Rightarrow> req_ctx" where
  "URISlugToContext ctx slug = ctx\<lparr>rc_slug := Some slug\<rparr>"

definition URISlugFromContext :: "req_ctx \<Rightarrow> string" where
  "URISlugFromContext ctx = (case rc_slug ctx of Some v \<Rightarrow> v | None \<Rightarrow> [])"

record MetricEvent =
  ev_StandID :: string
  ev_Service :: string
  ev_Uri :: string

definition MetricFromContext :: "string \<Rightarrow> string \<Rightarrow> req_ctx \<Rightarrow> MetricEvent" where
  "MetricFromContext clientName standID ctx =
     \<lparr>ev_StandID = standID, ev_Service = clientName, ev_Uri = URISlugFromContext ctx\<rparr>"

section \<open>Round trippers (package roundtripper)\<close>

definition ctx_WithFields :: "req_ctx \<Rightarrow> (string \<times> string) list \<Rightarrow> req_ctx" where
  "ctx_WithFields ctx fs = ctx\<lparr>rc_fields := rc_fields ctx @ fs\<rparr>"

definition headersRoundTripper ::
    "(req_ctx \<Rightarrow> http_req \<Rightarrow> gerr + (string \<times> string) list) \<Rightarrow> 'w round_tripper \<Rightarrow> 'w round_tripper" where
  "headersRoundTripper setHeaders rt r s =
     (case setHeaders (hr_ctx r) r of
        Inl err \<Rightarrow> ((None, Some err), s)
      | Inr headers \<Rightarrow> rt (r\<lparr>hr_Header := fold (\<lambda>(k, v) h. Header_Set h k v) headers (hr_Header r)\<rparr>) s)"

definition requestIDRoundTripper :: "'w round_tripper \<Rightarrow> 'w round_tripper" where
  "requestIDRoundTripper rt r s =
     (let (reqID, s') = FromContextOrNew (hr_ctx r) s;
          ctx = ctx_WithFields (WithRequestID (hr_ctx r) reqID) [(''egress_request_id'', reqID)]
      in rt (r\<lparr>hr_Header := Header_Set (hr_Header r) HeaderName reqID, hr_ctx := ctx\<rparr>) s')"

definition logged_redirect :: "nat \<Rightarrow> bool" where
  "logged_redirect code \<longleftrightarrow> code \<in> {307, 308, 302, 301}"

definition duration_ms :: "go_duration \<Rightarrow> int" where
  "duration_ms d = sgn d * (\<bar>d\<bar> div 1000000)"

text \<open>A round tripper returns a response or an error. When it returns neither, the logging one would
  dereference a nil response; the model then logs an empty status.\<close>

definition loggingTripper :: "string \<Rightarrow> 'w round_tripper \<Rightarrow> 'w round_tripper" where
  "loggingTripper clientName rt r s =
     (let path = (case hr_URL r of Some p \<Rightarrow> p | None \<Rightarrow> ''unknown'');
          ctx0 = (hr_ctx r)\<lparr>rc_names := rc_names (hr_ctx r) @ [''http'', clientName]\<rparr>;
          ctx = ctx_WithFields ctx0 [(''egress_method'', hr_Method r), (''egress_path'', path), (''client_name'', clientName)];
          (startTime, s1) = read_clock s;
          ((resp, err), s2) = rt (r\<lparr>hr_ctx := ctx\<rparr>) s1;
          (now, s3) = read_clock s2;
          ms = duration_ms (time_Sub now startTime)
      in case err of
           Some e \<Rightarrow> ((None, Some e), s3\<lparr>n_log := n_log s3 @ [OutgoingError (rc_names ctx) e ms]\<rparr>)
         | None \<Rightarrow>
             (let line = (case resp of
                  Some a \<Rightarrow> OutgoingFinished (rc_names ctx) (hs_Status a)
                    (if logged_redirect (hs_StatusCode a) then Some (Header_Get (hs_Header a) ''Location'') else None) ms
                | None \<Rightarrow> OutgoingFinished (rc_names ctx) [] None ms)
              in ((resp, None), s3\<lparr>n_log := n_log s3 @ [line]\<rparr>)))"

definition metricsRoundTripper :: "(req_ctx \<Rightarrow> MetricEvent) \<Rightarrow> 'w round_tripper \<Rightarrow> 'w round_tripper" where
  "metricsRoundTripper eventDescription rt r s =
     (let (started, s1) = read_clock s;
          ((response, err), s2) = rt r s1;
          e = eventDescription (hr_ctx r);
          (now, s3) = read_clock s2;
          event = \<lparr>me_standID = ev_StandID e,
                   me_duration = time_Sub now started,
                   me_uri = (if ev_Uri e = [] then hr_RequestURI r else ev_Uri e),
                   me_method = hr_Method r,
                   me_code = (case response of None \<Rightarrow> ''network-err'' | Some a \<Rightarrow> show_nat (hs_StatusCode a)),
                   me_service = ev_Service e\<rparr>
      in ((response, err), s3\<lparr>n_metrics := n_metrics s3 @ [event]\<rparr>))"

definition DefaultSlug :: string where "DefaultSlug = ''default''"

text \<open>The limiter of a slug, or the default one; \<open>wait\<close> is \<open>Limiter.Wait\<close>.\<close>

definition rateLimiterRoundTripper ::
    "('l \<Rightarrow> req_ctx \<Rightarrow> 'w net \<Rightarrow> gerr option \<times> 'w net) \<Rightarrow> (string \<rightharpoonup> 'l) \<Rightarrow> (req_ctx \<Rightarrow> string) \<Rightarrow>
     'w round_tripper \<Rightarrow> 'w round_tripper" where
  "rateLimiterRoundTripper wait limiters uriSlug rt r s =
     (let limiter = (case limiters (uriSlug (hr_ctx r)) of Some l \<Rightarrow> Some l | None \<Rightarrow> limiters DefaultSlug)
      in case limiter of
           None \<Rightarrow> rt r s
         | Some l \<Rightarrow>
             (case wait l (hr_ctx r) s of
                (Some err, s') \<Rightarrow> ((None, Some (FmtWrap ''error while waiting for rate limiters'' err)), s')
              | (None, s') \<Rightarrow> rt r s'))"

text \<open>The timeout of one attempt: \<open>expires\<close> tells whether the deadline comes first. The request goes out in either
  case.\<close>

definition timeoutsRoundTripper :: "(http_req \<Rightarrow> 'w net \<Rightarrow> gerr option) \<Rightarrow> 'w round_tripper \<Rightarrow> 'w round_tripper" where
  "timeoutsRoundTripper expires rt r s =
     (let (res, s') = rt r s
      in (timeouts_RoundTrip (case expires r s of Some e \<Rightarrow> ContextDone e | None \<Rightarrow> RoundTripDone res), s'))"

text \<open>The handler of a mocked client runs in a goroutine of its own; \<open>cancelled\<close> tells whether the
  request's context ends first.\<close>

definition mockRoundTripper ::
    "(http_req \<Rightarrow> 'w net \<Rightarrow> http_resp \<times> 'w net) \<Rightarrow> (http_req \<Rightarrow> 'w net \<Rightarrow> gerr option) \<Rightarrow> 'w round_tripper" where
  "mockRoundTripper handler cancelled r s =
     (let (resp, s') = handler r s
      in case cancelled r s of Some e \<Rightarrow> ((None, Some e), s') | None \<Rightarrow> ((Some resp, None), s'))"

text \<open>The retrying round tripper over \<open>retry.Do\<close>: the repeated action acts on the last response and the state.\<close>

definition retry_action ::
    "(gerr option \<Rightarrow> http_req \<Rightarrow> gerr option) \<Rightarrow> (req_ctx \<Rightarrow> http_resp option \<Rightarrow> gerr option) \<Rightarrow> 'w round_tripper \<Rightarrow> http_req \<Rightarrow>
     http_resp option \<times> 'w net \<Rightarrow> gerr option \<times> http_resp option \<times> 'w net" where
  "retry_action checkNetworkError checkResponse rt r = (\<lambda>(_, s).
     let ((resp, err), s') = rt r s
     in case checkNetworkError err r of
          Some e \<Rightarrow> (Some e, resp, s')
        | None \<Rightarrow> (checkResponse (hr_ctx r) resp, resp, s'))"

definition retryableRoundTripper ::
    "((http_resp option \<times> 'w net \<Rightarrow> gerr option \<times> http_resp option \<times> 'w net) \<Rightarrow>
      http_resp option \<times> 'w net \<Rightarrow> gerr option \<times> http_resp option \<times> 'w net) \<Rightarrow>
     (gerr option \<Rightarrow> http_req \<Rightarrow> gerr option) \<Rightarrow> (req_ctx \<Rightarrow> http_resp option \<Rightarrow> gerr option) \<Rightarrow>
     'w round_tripper \<Rightarrow> 'w round_tripper" where
  "retryableRoundTripper retry_Do checkNetworkError checkResponse rt r s =
     (let (err, resp, s') = retry_Do (retry_action checkNetworkError checkResponse rt r) (None, s)
      in ((resp, err), s'))"

section \<open>Transports (transport.go)\<close>

text \<open>The configuration of a transport. \<open>ClientTimeout\<close> is a pointer: its address and the duration there.\<close>

record http_config =
  hc_ClientName :: string
  hc_RequestTimeout :: go_duration
  hc_ClientTimeout :: "(nat \<times> go_duration) option"
  hc_DialTimeout :: go_duration
  hc_DialKeepAlive :: go_duration
  hc_IdleConnTimeout :: go_duration
  hc_TLSHandshakeTimeout :: go_duration
  hc_ExpectContinueTimeout :: go_duration
  hc_ResponseHeaderTimeout :: go_duration
  hc_DisableKeepAlives :: bool
  hc_MaxIdleConns :: int
  hc_MaxIdleConnsPerHost :: int
  hc_MaxConnsPerHost :: int

definition zero_config :: http_config where
  "zero_config =
     \<lparr>hc_ClientName = [], hc_RequestTimeout = 0, hc_ClientTimeout = None, hc_DialTimeout = 0, hc_DialKeepAlive = 0,
      hc_IdleConnTimeout = 0, hc_TLSHandshakeTimeout = 0, hc_ExpectContinueTimeout = 0, hc_ResponseHeaderTimeout = 0,
      hc_DisableKeepAlives = False, hc_MaxIdleConns = 0, hc_MaxIdleConnsPerHost = 0, hc_MaxConnsPerHost = 0\<rparr>"

definition DefaultTransportConfig :: http_config where
  "DefaultTransportConfig =
     zero_config\<lparr>hc_DialTimeout := 60000000000, hc_DialKeepAlive := 300000000000, hc_MaxIdleConnsPerHost := 2,
       hc_ResponseHeaderTimeout := 0, hc_MaxIdleConns := 100, hc_IdleConnTimeout := 180000000000,
       hc_TLSHandshakeTimeout := 10000000000, hc_ExpectContinueTimeout := 1000000000\<rparr>"

text \<open>\<open>Resolve\<close> makes an \<open>http.Transport\<close> and is the parameter \<open>resolve\<close>; the cache is a package variable.\<close>

definition getHTTPRoundTripper ::
    "(http_config \<Rightarrow> 't) \<Rightarrow> http_config \<Rightarrow> (http_config \<rightharpoonup> 't) \<Rightarrow> 't \<times> (http_config \<rightharpoonup> 't)" where
  "getHTTPRoundTripper resolve conf0 cache =
     (let conf = (if conf0 = zero_config then DefaultTransportConfig else conf0)
      in case cache conf of
           Some tr \<Rightarrow> (tr, cache)
         | None \<Rightarrow> (resolve conf, cache(conf \<mapsto> resolve conf)))"

definition roundTripperCacheSize :: "(http_config \<rightharpoonup> 't) \<Rightarrow> nat" where
  "roundTripperCacheSize cache = card (dom cache)"

section \<open>Options (http.go, options.go)\<close>

text \<open>A client with the package's cache of transports.\<close>

record 'w client =
  cl_Transport :: "'w round_tripper"
  cl_cache :: "http_config \<rightharpoonup> 'w round_tripper"

type_synonym 'w OptionFunc = "'w client \<Rightarrow> 'w client"

record 'w optionsConfig =
  oc_HTTP2 :: "'w OptionFunc option"
  oc_OrderlessOptions :: "'w OptionFunc list"
  oc_RequestID :: "'w OptionFunc option"
  oc_Logging :: "'w OptionFunc option"
  oc_Retries :: "'w OptionFunc option"
  oc_Tracing :: "'w OptionFunc option"
  oc_Metrics :: "'w OptionFunc option"
  oc_Timeout :: "'w OptionFunc option"
  oc_Transport :: "'w OptionFunc option"

type_synonym 'w ClientOption = "'w optionsConfig \<Rightarrow> 'w optionsConfig"

definition empty_options :: "'w optionsConfig" where
  "empty_options =
     \<lparr>oc_HTTP2 = None, oc_OrderlessOptions = [], oc_RequestID = None, oc_Logging = None, oc_Retries = None,
      oc_Tracing = None, oc_Metrics = None, oc_Timeout = None, oc_Transport = None\<rparr>"

definition wrap_transport :: "('w round_tripper \<Rightarrow> 'w round_tripper) \<Rightarrow> 'w OptionFunc" where
  "wrap_transport f c = c\<lparr>cl_Transport := f (cl_Transport c)\<rparr>"

definition WithHTTP2Support :: "('w round_tripper \<Rightarrow> 'w round_tripper) \<Rightarrow> 'w ClientOption" where
  "WithHTTP2Support http2 cfg = cfg\<lparr>oc_HTTP2 := Some (wrap_transport http2)\<rparr>"

definition WithTimeout :: "(http_req \<Rightarrow> 'w net \<Rightarrow> gerr option) \<Rightarrow> 'w ClientOption" where
  "WithTimeout expires cfg = cfg\<lparr>oc_Timeout := Some (wrap_transport (timeoutsRoundTripper expires))\<rparr>"

definition WithMetrics :: "(req_ctx \<Rightarrow> MetricEvent) \<Rightarrow> 'w ClientOption" where
  "WithMetrics eventDescription cfg = cfg\<lparr>oc_Metrics := Some (wrap_transport (metricsRoundTripper eventDescription))\<rparr>"

definition WithRetries ::
    "((http_resp option \<times> 'w net \<Rightarrow> gerr option \<times> http_resp option \<times> 'w net) \<Rightarrow>
      http_resp option \<times> 'w net \<Rightarrow> gerr option \<times> http_resp option \<times> 'w net) \<Rightarrow>
     (gerr option \<Rightarrow> http_req \<Rightarrow> gerr option) \<Rightarrow> (req_ctx \<Rightarrow> http_resp option \<Rightarrow> gerr option) \<Rightarrow> 'w ClientOption" where
  "WithRetries retry_Do retryNetwork retryByResponse cfg =
     cfg\<lparr>oc_Retries := Some (wrap_transport (retryableRoundTripper retry_Do retryNetwork retryByResponse))\<rparr>"

definition option_WithRequestID :: "'w ClientOption" where
  "option_WithRequestID cfg = cfg\<lparr>oc_RequestID := Some (wrap_transport requestIDRoundTripper)\<rparr>"

definition option_WithLogging :: "string \<Rightarrow> 'w ClientOption" where
  "option_WithLogging clientName cfg = cfg\<lparr>oc_Logging := Some (wrap_transport (loggingTripper clientName))\<rparr>"

definition WithTracing :: "('w round_tripper \<Rightarrow> 'w round_tripper) \<Rightarrow> 'w ClientOption" where
  "WithTracing otel cfg = cfg\<lparr>oc_Tracing := Some (wrap_transport otel)\<rparr>"

definition span_name :: "string \<Rightarrow> http_req \<Rightarrow> string" where
  "span_name clientName r =
     (let slug = URISlugFromContext (hr_ctx r)
      in ''HTTP '' @ clientName @ '' '' @ (if slug = [] then hr_Method r else slug))"

definition WithHeadersFromContext ::
    "(req_ctx \<Rightarrow> http_req \<Rightarrow> gerr + (string \<times> string) list) \<Rightarrow> 'w ClientOption" where
  "WithHeadersFromContext setHeaders cfg =
     cfg\<lparr>oc_OrderlessOptions := oc_OrderlessOptions cfg @ [wrap_transport (headersRoundTripper setHeaders)]\<rparr>"

definition AuthorizationHeader :: string where "AuthorizationHeader = ''Authorization''"

definition WithHeaderForJWT :: "string \<Rightarrow> 'w ClientOption" where
  "WithHeaderForJWT token =
     WithHeadersFromContext (\<lambda>_ _. Inr (if token = [] then [] else [(AuthorizationHeader, ''Bearer '' @ token)]))"

definition option_WithTransport :: "(http_config \<Rightarrow> 'w round_tripper) \<Rightarrow> http_config \<Rightarrow> 'w ClientOption" where
  "option_WithTransport resolve conf cfg =
     cfg\<lparr>oc_Transport := Some (\<lambda>c.
       let (tr, cache') = getHTTPRoundTripper resolve conf (cl_cache c)
       in \<lparr>cl_Transport = tr, cl_cache = cache'\<rparr>)\<rparr>"

definition WithHTTPHandler ::
    "(http_req \<Rightarrow> 'w net \<Rightarrow> http_resp \<times> 'w net) \<Rightarrow> (http_req \<Rightarrow> 'w net \<Rightarrow> gerr option) \<Rightarrow> 'w ClientOption" where
  "WithHTTPHandler handler cancelled cfg =
     cfg\<lparr>oc_Transport := Some (wrap_transport (\<lambda>_. mockRoundTripper handler cancelled))\<rparr>"

definition getOptionsCfg :: "'w ClientOption list \<Rightarrow> 'w optionsConfig" where
  "getOptionsCfg options = fold (\<lambda>o' cfg. o' cfg) options empty_options"

definition apply_opt :: "'w OptionFunc option \<Rightarrow> 'w OptionFunc" where
  "apply_opt f c = (case f of Some g \<Rightarrow> g c | None \<Rightarrow> c)"

definition applyOptionsCfg :: "'w client \<Rightarrow> 'w optionsConfig \<Rightarrow> 'w client" where
  "applyOptionsCfg c0 cfg =
     (let c = apply_opt (oc_Transport cfg) c0;
          c = apply_opt (oc_Timeout cfg) c;
          c = apply_opt (oc_Metrics cfg) c;
          c = apply_opt (oc_Tracing cfg) c;
          c = apply_opt (oc_Retries cfg) c;
          c = apply_opt (oc_Logging cfg) c;
          c = apply_opt (oc_RequestID cfg) c;
          c = fold (\<lambda>o' c. o' c) (oc_OrderlessOptions cfg) c
      in apply_opt (oc_HTTP2 cfg) c)"

definition WrapHTTPClientWithOptions :: "'w client \<Rightarrow> 'w ClientOption list \<Rightarrow> 'w client" where
  "WrapHTTPClientWithOptions c options = applyOptionsCfg c (getOptionsCfg options)"

text \<open>A new client has a nil transport, given here as \<open>nil_rt\<close>, and the cache as it is.\<close>

definition NewHTTPClient ::
    "'w round_tripper \<Rightarrow> (http_config \<rightharpoonup> 'w round_tripper) \<Rightarrow> 'w ClientOption list \<Rightarrow> 'w client" where
  "NewHTTPClient nil_rt cache options =
     WrapHTTPClientWithOptions \<lparr>cl_Transport = nil_rt, cl_cache = cache\<rparr> options"

definition effective_config :: "http_config \<Rightarrow> http_config" where
  "effective_config config =
     (let config = (if hc_ClientName config = [] then config\<lparr>hc_ClientName := ''UNKNOWN CLIENT''\<rparr> else config)
      in if hc_ResponseHeaderTimeout config = 0 \<and> hc_RequestTimeout config \<noteq> 0
         then config\<lparr>hc_ResponseHeaderTimeout := hc_RequestTimeout config\<rparr> else config)"

definition NewHTTPClientFromConfig ::
    "'w round_tripper \<Rightarrow> (http_config \<Rightarrow> 'w round_tripper) \<Rightarrow> (go_duration \<Rightarrow> http_req \<Rightarrow> 'w net \<Rightarrow> gerr option) \<Rightarrow>
     (http_config \<rightharpoonup> 'w round_tripper) \<Rightarrow> http_config \<Rightarrow> 'w ClientOption list \<Rightarrow> 'w client" where
  "NewHTTPClientFromConfig nil_rt resolve expires cache config userOpts =
     (let timeout = (case hc_ClientTimeout config of
            Some (_, d) \<Rightarrow> if d > 0 then [WithTimeout (expires d)] else [] | None \<Rightarrow> []);
          config' = effective_config config
      in NewHTTPClient nil_rt cache
           (timeout @ [option_WithLogging (hc_ClientName config'), option_WithRequestID, option_WithTransport resolve config'] @ userOpts))"

text \<open>\<open>GetClientAddr\<close>: the first address of the header that proxies add to.\<close>

definition GetClientAddr :: "http_req \<Rightarrow> string" where
  "GetClientAddr req = hd (split_byte (CHR '','') (Header_Get (hr_Header req) ''X-Forwarded-For''))"

section \<open>Bearer tokens (oauth.go)\<close>

definition AuthPrefix :: string where "AuthPrefix = ''Bearer ''"
definition UnknownAddr :: string where "UnknownAddr = ''UNKNOWN''"

definition BearerPayload :: "string \<Rightarrow> string" where
  "BearerPayload token = AuthPrefix @ token"

definition SetBearerToken :: "string \<Rightarrow> http_req \<Rightarrow> http_req" where
  "SetBearerToken token req = req\<lparr>hr_Header := Header_Set (hr_Header req) AuthorizationHeader (BearerPayload token)\<rparr>"

definition loweredAuthPrefix :: string where "loweredAuthPrefix = map ascii_ToLower AuthPrefix"

definition getBearerTokenFromReq :: "http_req \<Rightarrow> gerr + string" where
  "getBearerTokenFromReq req =
     (let authHdr = Header_Get (hr_Header req) AuthorizationHeader;
          n = length loweredAuthPrefix
      in if authHdr = [] then Inl (Sentinel (NamedError ''no auth header supplied''))
         else if length authHdr \<le> n then Inl (ErrNew ''header is too short'')
         else if map ascii_ToLower (take n authHdr) \<noteq> loweredAuthPrefix then Inl (ErrNew ''header is malformed'')
         else Inr (drop n authHdr))"

definition getSourceAddr :: "http_req \<Rightarrow> string" where
  "getSourceAddr req =
     (let addr = Header_Get (hr_Header req) ''X-Forwarded-For'' in if addr = [] then UnknownAddr else addr)"

record BearerTokenReq =
  bt_TokenFromReq :: string
  bt_SourceAddr :: string

definition BearerTokenReqFromHTTP :: "http_req \<Rightarrow> gerr + BearerTokenReq" where
  "BearerTokenReqFromHTTP r =
     (case getBearerTokenFromReq r of
        Inl err \<Rightarrow> Inl (WrapWithInvalidInput err ''not authenticated'' [])
      | Inr tokenFromReq \<Rightarrow> Inr \<lparr>bt_TokenFromReq = tokenFromReq, bt_SourceAddr = getSourceAddr r\<rparr>)"

section \<open>The order of options\<close>

datatype 'w std_option =
    OHTTP2 "'w round_tripper \<Rightarrow> 'w round_tripper"
  | OTimeout "http_req \<Rightarrow> 'w net \<Rightarrow> gerr option"
  | OMetrics "req_ctx \<Rightarrow> MetricEvent"
  | ORetries "(http_resp option \<times> 'w net \<Rightarrow> gerr option \<times> http_resp option \<times> 'w net) \<Rightarrow>
      http_resp option \<times> 'w net \<Rightarrow> gerr option \<times> http_resp option \<times> 'w net"
      "gerr option \<Rightarrow> http_req \<Rightarrow> gerr option" "req_ctx \<Rightarrow> http_resp option \<Rightarrow> gerr option"
  | ORequestID
  | OLogging string
  | OTracing "'w round_tripper \<Rightarrow> 'w round_tripper"
  | OHeaders "req_ctx \<Rightarrow> http_req \<Rightarrow> gerr + (string \<times> string) list"
  | OTransport "http_config \<Rightarrow> 'w round_tripper" http_config

fun as_option :: "'w std_option \<Rightarrow> 'w ClientOption" where
  "as_option (OHTTP2 f) = WithHTTP2Support f"
| "as_option (OTimeout e) = WithTimeout e"
| "as_option (OMetrics d) = WithMetrics d"
| "as_option (ORetries f n c) = WithRetries f n c"
| "as_option ORequestID = option_WithRequestID"
| "as_option (OLogging name) = option_WithLogging name"
| "as_option (OTracing f) = WithTracing f"
| "as_option (OHeaders f) = WithHeadersFromContext f"
| "as_option (OTransport f conf) = option_WithTransport f conf"

fun option_kind :: "'w std_option \<Rightarrow> nat" where
  "option_kind (OHTTP2 f) = 0"
| "option_kind (OTimeout e) = 1"
| "option_kind (OMetrics d) = 2"
| "option_kind (ORetries f n c) = 3"
| "option_kind ORequestID = 4"
| "option_kind (OLogging name) = 5"
| "option_kind (OTracing f) = 6"
| "option_kind (OHeaders f) = 7"
| "option_kind (OTransport f conf) = 8"

lemmas option_defs = WithHTTP2Support_def WithTimeout_def WithMetrics_def WithRetries_def option_WithRequestID_def
  option_WithLogging_def WithTracing_def WithHeadersFromContext_def option_WithTransport_def

lemma options_commute:
  "option_kind a \<noteq> option_kind b \<Longrightarrow> as_option a (as_option b cfg) = as_option b (as_option a cfg)"
  by (cases a; cases b) (simp_all add: option_defs)

lemma getOptionsCfg_perm:
  assumes "distinct (map option_kind os)" and "mset os = mset os'"
  shows "getOptionsCfg (map as_option os) = getOptionsCfg (map as_option os')"
proof -
  have "as_option x \<circ> as_option y = as_option y \<circ> as_option x" if "x \<in> set os" "y \<in> set os" for x y
    using that assms(1) options_commute [of x y]
    by (cases "x = y") (auto simp: fun_eq_iff distinct_map inj_on_def)
  then have "fold as_option os = fold as_option os'"
    using assms(2) by (rule fold_multiset_equiv)
  then show ?thesis by (simp add: getOptionsCfg_def fold_map comp_def)
qed

lemma NewHTTPClient_perm:
  assumes "distinct (map option_kind os)" and "mset os = mset os'"
  shows "NewHTTPClient nil_rt cache (map as_option os) = NewHTTPClient nil_rt cache (map as_option os')"
  using getOptionsCfg_perm [OF assms] by (simp add: NewHTTPClient_def WrapHTTPClientWithOptions_def)

text \<open>The order in which options are given does not matter. Two lists of options of different kinds make the same
  client; the layers are put on each other in the order of \<open>applyOptionsCfg\<close>.\<close>

theorem options_order_irrelevant:
  assumes "distinct (map option_kind os)" and "mset os = mset os'"
  shows "NewHTTPClient nil_rt cache (map as_option os) = NewHTTPClient nil_rt cache (map as_option os')"
  using assms by (rule NewHTTPClient_perm)

definition no_transport :: "unit round_tripper" where
  "no_transport r s = ((None, Some (ErrNew ''nil pointer dereference'')), s)"

theorem options_order_irrelevant_witness:
  "NewHTTPClient no_transport Map.empty [option_WithLogging ''bus'', option_WithRequestID] =
   NewHTTPClient no_transport Map.empty [option_WithRequestID, option_WithLogging ''bus'']"
  using options_order_irrelevant [of "[OLogging ''bus'', ORequestID]" "[ORequestID, OLogging ''bus'']" no_transport Map.empty]
  by simp

section \<open>The way of a request through the layers\<close>

fun iterate_act :: "nat \<Rightarrow> ('s \<Rightarrow> 'e \<times> 's) \<Rightarrow> 's \<Rightarrow> 's" where
  "iterate_act 0 act st = st"
| "iterate_act (Suc n) act st = snd (act (iterate_act n act st))"

text \<open>What is known of \<open>retry.Do\<close>: it runs the action some number of times in sequence.\<close>

definition repeats :: "(('s \<Rightarrow> 'e \<times> 's) \<Rightarrow> 's \<Rightarrow> 'e \<times> 's) \<Rightarrow> bool" where
  "repeats retry_Do \<longleftrightarrow> (\<forall>act st. \<exists>k. snd (retry_Do act st) = iterate_act k act st)"

lemma read_clock_frame [frame_simps]:
  "read_clock s = (t, s') \<Longrightarrow> n_sent s' = n_sent s \<and> n_metrics s' = n_metrics s \<and> n_log s' = n_log s"
  by (auto simp: read_clock_def)

lemma metrics_transport:
  assumes "metricsRoundTripper d (transport network) r s = (res, s')"
  shows "n_sent s' = n_sent s @ [r] \<and> length (n_metrics s') = Suc (length (n_metrics s)) \<and> n_log s' = n_log s"
  using assms
  by (auto simp: metricsRoundTripper_def transport_def read_clock_def Let_def split: prod.splits)

lemma retried:
  "n_sent (snd (iterate_act k (retry_action cn cr (metricsRoundTripper d (transport network)) r) (resp, s))) = n_sent s @ replicate k r \<and>
   length (n_metrics (snd (iterate_act k (retry_action cn cr (metricsRoundTripper d (transport network)) r) (resp, s)))) =
     length (n_metrics s) + k \<and>
   n_log (snd (iterate_act k (retry_action cn cr (metricsRoundTripper d (transport network)) r) (resp, s))) = n_log s"
proof (induction k)
  case (Suc k)
  let ?act = "retry_action cn cr (metricsRoundTripper d (transport network)) r"
  obtain resp' s1 where st: "iterate_act k ?act (resp, s) = (resp', s1)" by force
  obtain res s2 where m: "metricsRoundTripper d (transport network) r s1 = (res, s2)" by (rule prod.exhaust)
  have "snd (snd (?act (resp', s1))) = s2"
    using m by (cases res) (simp add: retry_action_def split: option.splits)
  then show ?case
    using Suc.IH st metrics_transport [OF m] by (simp add: replicate_append_same)
qed simp

lemma retry_layer:
  assumes "repeats retry_Do"
    and "retryableRoundTripper retry_Do cn cr (metricsRoundTripper d (transport network)) r s = (res, s')"
  obtains k where "n_sent s' = n_sent s @ replicate k r" and "length (n_metrics s') = length (n_metrics s) + k"
    and "n_log s' = n_log s"
proof -
  let ?act = "retry_action cn cr (metricsRoundTripper d (transport network)) r"
  from assms(1) obtain k where k: "snd (retry_Do ?act (None, s)) = iterate_act k ?act (None, s)" unfolding repeats_def by blast
  have "s' = snd (iterate_act k ?act (None, s))"
    using assms(2) k by (auto simp: retryableRoundTripper_def split: prod.splits)
  then show thesis using that retried [of k cn cr d network r None s] by simp
qed

lemma logging_layer:
  assumes "loggingTripper name rt r s = (res, s')"
  obtains r1 s1 res1 s2 where "rt r1 s1 = (res1, s2)" and "hr_Header r1 = hr_Header r"
    and "rc_RequestID (hr_ctx r1) = rc_RequestID (hr_ctx r)"
    and "n_sent s1 = n_sent s" "n_metrics s1 = n_metrics s" "n_log s1 = n_log s"
    and "n_sent s' = n_sent s2" "n_metrics s' = n_metrics s2" "length (n_log s') = Suc (length (n_log s2))"
proof -
  obtain t s1 where c: "read_clock s = (t, s1)" by force
  let ?r = "r\<lparr>hr_ctx := ctx_WithFields ((hr_ctx r)\<lparr>rc_names := rc_names (hr_ctx r) @ [''http'', name]\<rparr>)
     [(''egress_method'', hr_Method r), (''egress_path'', case hr_URL r of Some p \<Rightarrow> p | None \<Rightarrow> ''unknown''), (''client_name'', name)]\<rparr>"
  obtain resp err s2 where rt: "rt ?r s1 = ((resp, err), s2)" by (metis prod.exhaust)
  obtain t' s3 where c': "read_clock s2 = (t', s3)" by force
  show thesis
  proof (rule that [OF rt])
    show "n_sent s' = n_sent s2" "n_metrics s' = n_metrics s2" "length (n_log s') = Suc (length (n_log s2))"
      using assms c rt c' read_clock_frame [OF c'] by (auto simp: loggingTripper_def Let_def split: option.splits)
  qed (use read_clock_frame [OF c] in \<open>simp_all add: ctx_WithFields_def\<close>)
qed

text \<open>The layers of a client with all the options below.\<close>

lemma client_layers:
  assumes "getHTTPRoundTripper resolve conf cache = (tr, cache')"
  shows "cl_Transport (NewHTTPClient nil_rt cache (map as_option
      [OTransport resolve conf, OMetrics d, ORetries retry_Do cn cr, OLogging name, ORequestID])) =
    requestIDRoundTripper (loggingTripper name (retryableRoundTripper retry_Do cn cr (metricsRoundTripper d tr)))"
  using assms
  by (simp add: NewHTTPClient_def WrapHTTPClientWithOptions_def applyOptionsCfg_def getOptionsCfg_def empty_options_def
      option_defs apply_opt_def wrap_transport_def)


text \<open>A network that answers the second request, and a loop that tries at most three times.\<close>

definition second_try :: "http_req \<Rightarrow> nat \<Rightarrow> (http_resp option \<times> gerr option) \<times> nat" where
  "second_try r n =
     (if n = 0 then ((None, Some (Sentinel (Errno ''ECONNRESET''))), 1)
      else ((Some \<lparr>hs_StatusCode = 200, hs_Status = ''200 OK'', hs_Header = Map.empty\<rparr>, None), Suc n))"

fun try_up_to :: "nat \<Rightarrow> ('s \<Rightarrow> gerr option \<times> 's) \<Rightarrow> 's \<Rightarrow> gerr option \<times> 's" where
  "try_up_to 0 act st = (Some (ErrNew ''no more attempts''), st)"
| "try_up_to (Suc n) act st = (case act st of (None, st') \<Rightarrow> (None, st') | (Some e, st') \<Rightarrow> try_up_to n act st')"

lemma iterate_act_shift: "iterate_act k act (snd (act st)) = iterate_act (Suc k) act st"
  by (induction k) simp_all

lemma try_up_to_repeats: "repeats (try_up_to n)"
  unfolding repeats_def
proof (intro allI)
  fix act :: "'s \<Rightarrow> gerr option \<times> 's" and st
  show "\<exists>k. snd (try_up_to n act st) = iterate_act k act st"
  proof (induction n arbitrary: st)
    case 0
    show ?case by (rule exI [of _ 0]) simp
  next
    case (Suc n)
    obtain e st' where act: "act st = (e, st')" by force
    show ?case
    proof (cases e)
      case None
      then show ?thesis using act by (intro exI [of _ 1]) simp
    next
      case (Some err)
      from Suc.IH [of st'] obtain k where "snd (try_up_to n act st') = iterate_act k act st'" by blast
      then show ?thesis using act Some iterate_act_shift [of k act st] by (intro exI [of _ "Suc k"]) simp
    qed
  qed
qed

definition sample_req :: http_req where
  "sample_req = \<lparr>hr_Method = ''GET'', hr_URL = Some ''/bus'', hr_RequestURI = [], hr_Header = Map.empty,
     hr_ctx = \<lparr>rc_RequestID = Some ''r-1'', rc_slug = None, rc_names = [], rc_fields = []\<rparr>\<rparr>"

definition sample_net :: "nat net" where
  "sample_net = \<lparr>n_log = [], n_metrics = [], n_now = int, n_readings = 0, n_uuid = show_nat, n_uuids = 0, n_sent = [], n_world = 0\<rparr>"

definition sample_options :: "nat std_option list" where
  "sample_options = [ORequestID, OLogging ''bus'', ORetries (try_up_to 3) (\<lambda>err _. err) (\<lambda>_ _. None),
     OMetrics (MetricFromContext ''bus'' ''cy''), OTransport (\<lambda>_. transport second_try) zero_config]"


section \<open>Request identifiers from the incoming to the outgoing request\<close>

text \<open>A service passes on the identifier of the request it serves: every outgoing request made with the context of
  an incoming one carries the identifier that \<open>RequestIDFromRequestOrNew\<close> returned for it, which is the one the client sent
  in the header, if it sent one.\<close>

theorem request_id_propagates:
  assumes "RequestIDFromRequestOrNew r s = (rid0, r', s1)"
    and "hr_ctx q = hr_ctx r'"
    and "requestIDRoundTripper (transport network) q s2 = (res, s3)"
  shows "\<exists>sent. n_sent s3 = n_sent s2 @ [sent] \<and> Header_Get (hr_Header sent) HeaderName = rid0 \<and>
    (rc_RequestID (hr_ctx r) = None \<and> Header_Get (hr_Header r) HeaderName \<noteq> [] \<longrightarrow> rid0 = Header_Get (hr_Header r) HeaderName) \<and>
    (\<forall>i. rc_RequestID (hr_ctx r) = Some i \<longrightarrow> rid0 = i)"
proof -
  have rid: "rc_RequestID (hr_ctx r') = Some rid0"
    using assms(1)
    by (auto simp: RequestIDFromRequestOrNew_def requestid_FromContext_def WithRequestID_def Let_def split: option.splits prod.splits)
  have "(rc_RequestID (hr_ctx r) = None \<and> Header_Get (hr_Header r) HeaderName \<noteq> [] \<longrightarrow> rid0 = Header_Get (hr_Header r) HeaderName) \<and>
    (\<forall>i. rc_RequestID (hr_ctx r) = Some i \<longrightarrow> rid0 = i)"
    using assms(1)
    by (auto simp: RequestIDFromRequestOrNew_def requestid_FromContext_def Let_def split: option.splits prod.splits if_splits)
  moreover have "\<exists>sent. n_sent s3 = n_sent s2 @ [sent] \<and> Header_Get (hr_Header sent) HeaderName = rid0"
    using assms(2,3) rid
    by (auto simp: requestIDRoundTripper_def FromContextOrNew_def requestid_FromContext_def transport_def Header_Get_Set Let_def split: prod.splits)
  ultimately show ?thesis by blast
qed

theorem request_id_propagates_witness:
  "\<exists>res s3 sent. requestIDRoundTripper (transport second_try) sample_req sample_net = (res, s3) \<and>
     n_sent s3 = [sent] \<and> Header_Get (hr_Header sent) HeaderName = ''r-1''"
proof -
  obtain res s3 where run: "requestIDRoundTripper (transport second_try) sample_req sample_net = (res, s3)" by (rule prod.exhaust)
  have "RequestIDFromRequestOrNew sample_req sample_net = (''r-1'', sample_req, sample_net)"
    by (simp add: RequestIDFromRequestOrNew_def requestid_FromContext_def sample_req_def)
  from request_id_propagates [OF this refl run] run show ?thesis by (auto simp: sample_net_def)
qed

section \<open>Bearer tokens and configurations\<close>

lemma lowered_prefix: "loweredAuthPrefix = ''bearer ''"
  by (simp add: loweredAuthPrefix_def AuthPrefix_def ascii_ToLower_def ascii_upper_def char_of_eq_iff take_bit_nat_eq_self_iff)

text \<open>The token that \<open>SetBearerToken\<close> puts into a request is read back; a request without a token in this form is
  rejected as invalid input.\<close>

theorem bearer_token_roundtrip:
  "(token \<noteq> [] \<longrightarrow> getBearerTokenFromReq (SetBearerToken token r) = Inr token) \<and>
   (\<forall>t. getBearerTokenFromReq r = Inr t \<longrightarrow>
      t \<noteq> [] \<and> (\<exists>p. map ascii_ToLower p = ''bearer '' \<and> Header_Get (hr_Header r) AuthorizationHeader = p @ t)) \<and>
   (\<forall>e. BearerTokenReqFromHTTP r = Inl e \<longrightarrow> IsInvalidInput (Some e))"
proof (intro conjI impI allI)
  assume "token \<noteq> []"
  then show "getBearerTokenFromReq (SetBearerToken token r) = Inr token"
    using lowered_prefix
    by (simp add: getBearerTokenFromReq_def SetBearerToken_def Header_Get_Set BearerPayload_def AuthPrefix_def loweredAuthPrefix_def Let_def)
next
  fix t assume t: "getBearerTokenFromReq r = Inr t"
  then show "t \<noteq> []" by (auto simp: getBearerTokenFromReq_def lowered_prefix Let_def split: if_splits)
  show "\<exists>p. map ascii_ToLower p = ''bearer '' \<and> Header_Get (hr_Header r) AuthorizationHeader = p @ t"
    using t unfolding lowered_prefix [symmetric]
    by (intro exI [of _ "take (length loweredAuthPrefix) (Header_Get (hr_Header r) AuthorizationHeader)"])
      (auto simp: getBearerTokenFromReq_def Let_def split: if_splits)
next
  fix e assume "BearerTokenReqFromHTTP r = Inl e"
  then show "IsInvalidInput (Some e)"
    by (auto simp: BearerTokenReqFromHTTP_def IsInvalidInput_def WrapWithInvalidInput_def IsSemanticError_def
        AsSemanticError_def wrapError_def sem_semantic_def split: sum.splits)
qed

theorem bearer_token_roundtrip_witness:
  "getBearerTokenFromReq (SetBearerToken ''t0ken'' sample_req) = Inr ''t0ken''"
  using bearer_token_roundtrip [of "''t0ken''" sample_req] by simp

text \<open>A client made from the zero configuration does not get the default transport: by the time the transport is looked up,
  the configuration has a client name and is not the zero one any more.\<close>

theorem zero_config_not_default:
  "cl_cache (NewHTTPClientFromConfig nil_rt resolve expires Map.empty zero_config []) =
     [zero_config\<lparr>hc_ClientName := ''UNKNOWN CLIENT''\<rparr> \<mapsto> resolve (zero_config\<lparr>hc_ClientName := ''UNKNOWN CLIENT''\<rparr>)]"
  by (simp add: NewHTTPClientFromConfig_def NewHTTPClient_def WrapHTTPClientWithOptions_def applyOptionsCfg_def getOptionsCfg_def
      empty_options_def option_defs apply_opt_def wrap_transport_def effective_config_def zero_config_def getHTTPRoundTripper_def Let_def)

end
