(* ===== verification/Http_Server.thy ===== *)
theory Http_Server
  imports Http_Client Rest_Errors
begin

text \<open>
  The server side of \<open>internal/resttooling\<close> and \<open>internal/openapiapp\<close>: middlewares, their composition,
  the handler of metrics, and what is reported to Sentry (\<open>internal/sentrytooling\<close>).

  A handler is a function on the state of one request being served, \<open>srv\<close>: the request, which middlewares overwrite,
  the response writer (headers, codes given to \<open>WriteHeader\<close>, body), the error slot of the
  context, the Sentry map of the context (\<open>None\<close> before \<open>InitCtx\<close>), and the lines logged. It returns or panics.
\<close>

section \<open>The state of a request\<close>

datatype srv_line =
    IncomingRequest
  | PanicLogged panic_value
  | FinishedWithPanic gerr
  | FinishedWithError app_log
  | FinishedSuccessfully
  | OtherError gerr

record 'w srv =
  sv_req :: http_req
  sv_headers :: "(string \<times> string) list"
  sv_codes :: "nat list"
  sv_body :: string
  sv_env :: request_env
  sv_sentry :: "(string \<rightharpoonup> string) option"
  sv_lines :: "srv_line list"
  sv_served :: "(string \<times> string \<times> nat) list"
  sv_net :: "'w net"

datatype outcome = HReturned | HPanicked panic_value

type_synonym 'w handler = "'w srv \<Rightarrow> outcome \<times> 'w srv"
type_synonym 'w middleware = "'w handler \<Rightarrow> 'w handler"

definition add_line :: "srv_line \<Rightarrow> 'w srv \<Rightarrow> 'w srv" where
  "add_line l s = s\<lparr>sv_lines := sv_lines s @ [l]\<rparr>"

text \<open>The code that \<open>loggingResponseWriter\<close> has recorded: the last one given to \<open>WriteHeader\<close> while it
  was in use, 200 if there was none.\<close>

definition recorded_status :: "'w srv \<Rightarrow> 'w srv \<Rightarrow> nat" where
  "recorded_status before after =
     (let codes = drop (length (sv_codes before)) (sv_codes after) in if codes = [] then 200 else last codes)"

section \<open>Routes and identifiers in paths\<close>

record UrlMethod =
  um_OperationID :: string
  um_Url :: string
  um_Method :: string

definition UrlMethodGetter :: "(string \<Rightarrow> string \<Rightarrow> string option) \<Rightarrow> string \<Rightarrow> http_req \<Rightarrow> UrlMethod" where
  "UrlMethodGetter FindRoute unknownOperation r =
     (case FindRoute (hr_Method r) (case hr_URL r of Some p \<Rightarrow> p | None \<Rightarrow> []) of
        None \<Rightarrow> \<lparr>um_OperationID = unknownOperation, um_Url = [], um_Method = hr_Method r\<rparr>
      | Some name \<Rightarrow> \<lparr>um_OperationID = name, um_Url = [], um_Method = hr_Method r\<rparr>)"

definition UrlStopList :: "string list" where
  "UrlStopList = [''/cable'', ''/healthz'', ''/metrics'']"

definition httpPathKeyToIdKey :: "(string \<times> string) list" where
  "httpPathKeyToIdKey =
     [(''projects'', ''project_id''), (''branches'', ''branch_id''), (''endpoints'', ''endpoint_id''), (''computes'', ''compute_id'')]"

fun IndexOf :: "'a list \<Rightarrow> 'a \<Rightarrow> nat option" where
  "IndexOf [] k = None"
| "IndexOf (x # xs) k = (if x = k then Some 0 else map_option Suc (IndexOf xs k))"

definition getIdFromHttpPathParts :: "string list \<Rightarrow> string \<Rightarrow> string option" where
  "getIdFromHttpPathParts parts key =
     (case IndexOf parts key of
        None \<Rightarrow> None
      | Some i \<Rightarrow> if i = length parts - 1 then None else Some (parts ! (i + 1)))"

definition getIdsFromHttpPath :: "string \<Rightarrow> (string \<times> string) list" where
  "getIdsFromHttpPath httpPath =
     (let parts = split_byte (CHR ''/'') httpPath
      in concat (map (\<lambda>(pathKey, idKey).
           case getIdFromHttpPathParts parts pathKey of Some i \<Rightarrow> [(idKey, i)] | None \<Rightarrow> []) httpPathKeyToIdKey))"

section \<open>Middlewares\<close>

abbreviation ErrAbortHandler :: sentinel where "ErrAbortHandler \<equiv> NamedError ''net/http: abort Handler''"

definition ReturnRequestIDHeader :: string where "ReturnRequestIDHeader = ''X-Yanakipre-Ret-Request-ID''"

definition req_path :: "http_req \<Rightarrow> string" where
  "req_path r = (case hr_URL r of Some p \<Rightarrow> p | None \<Rightarrow> [])"

text \<open>The part of \<open>LoggingMiddleware\<close> before the handler: \<open>None\<close> when the Sentry map is missing, whose type assertion
  then panics. \<open>trace_id\<close> is a new short identifier.\<close>

definition logging_prepare :: "string \<Rightarrow> (http_req \<Rightarrow> UrlMethod) \<Rightarrow> string \<Rightarrow> 'w srv \<Rightarrow> (string \<times> 'w srv) option" where
  "logging_prepare appName routeF trace_id s =
     (let (reqID, r, net') = RequestIDFromRequestOrNew (sv_req s) (sv_net s);
          httpPath = req_path r;
          ids = getIdsFromHttpPath httpPath
      in case sv_sentry s of
           None \<Rightarrow> None
         | Some m \<Rightarrow>
             (let m' = (m(''Request ID'' \<mapsto> reqID, ''HTTP Method'' \<mapsto> hr_Method r, ''HTTP Path'' \<mapsto> httpPath)) ++ map_of ids;
                  flds = [(''http_meth'', hr_Method r), (''http_path'', httpPath), (''route'', um_OperationID (routeF r)),
                          (''request_id'', reqID), (''trace_id'', trace_id)] @ ids;
                  ctx = ctx_WithFields ((hr_ctx r)\<lparr>rc_names := rc_names (hr_ctx r) @ [appName]\<rparr>) flds
              in Some (reqID, s\<lparr>sv_req := r\<lparr>hr_ctx := ctx\<rparr>, sv_net := net', sv_sentry := Some m',
                                sv_env := WithErrorPlaceholder (sv_env s)\<rparr>)))"

text \<open>The part that the deferred function guards: the handler, and the line about its result. The subject of the
  request adds a field to that line only.\<close>

definition logging_body :: "(field list \<Rightarrow> field list) \<Rightarrow> string \<Rightarrow> 'w handler \<Rightarrow> 'w handler" where
  "logging_body ord reqID next s0 =
     (let s = add_line IncomingRequest s0\<lparr>sv_headers := sv_headers s0 @ [(ReturnRequestIDHeader, reqID)]\<rparr>
      in case next s of
           (HPanicked v, s1) \<Rightarrow> (HPanicked v, s1)
         | (HReturned, s1) \<Rightarrow>
             (case ErrorMustFromContext (sv_env s1) of
                Inl text \<Rightarrow> (HPanicked (PanicOther text), s1)
              | Inr None \<Rightarrow> (HReturned, add_line FinishedSuccessfully s1)
              | Inr (Some err) \<Rightarrow> (HReturned, add_line (FinishedWithError (LogAppError ord err)) s1)))"

definition status_500 :: "field list" where
  "status_500 = [\<lparr>f_key = ''status'', f_value = Int64Type 500\<rparr>]"

definition LoggingMiddleware ::
    "(field list \<Rightarrow> field list) \<Rightarrow> string \<Rightarrow> (http_req \<Rightarrow> UrlMethod) \<Rightarrow> string \<Rightarrow> 'w middleware" where
  "LoggingMiddleware ord appName routeF trace_id next s =
     (case logging_prepare appName routeF trace_id s of
        None \<Rightarrow> (HPanicked (PanicError (ErrNew ''interface conversion: interface is nil, not sentry.Context'')), s)
      | Some (reqID, s0) \<Rightarrow>
          (case logging_body ord reqID next s0 of
             (HReturned, s1) \<Rightarrow> (HReturned, s1)
           | (HPanicked v, s1) \<Rightarrow>
               (let err = UnwrapPanic v
                in if errors_Is ErrAbortHandler err then (HPanicked v, s1)
                   else (HPanicked v,
                     add_line (FinishedWithPanic (WithFieldsErr (FmtWrap ''incoming request finished with error'' err) status_500))
                       (add_line (PanicLogged v) s1)))))"

definition MetricsMiddleware :: "string \<Rightarrow> (http_req \<Rightarrow> UrlMethod) \<Rightarrow> 'w middleware" where
  "MetricsMiddleware appName routeNameFunc next s =
     (if list_ex (\<lambda>stopUrl. has_prefix (req_path (sv_req s)) stopUrl) UrlStopList then next s
      else let routeName = um_OperationID (routeNameFunc (sv_req s))
           in case next s of
                (HPanicked v, s1) \<Rightarrow> (HPanicked v, s1)
              | (HReturned, s1) \<Rightarrow>
                  (HReturned, s1\<lparr>sv_served := sv_served s1 @ [(routeName, hr_Method (sv_req s1), recorded_status s s1)]\<rparr>))"

text \<open>\<open>sys\<close> selects the values of type \<open>*os.SyscallError\<close> and gives their text in lower case.\<close>

definition op_cause :: "gerr \<Rightarrow> gerr option" where
  "op_cause e = (case e of OpErr t b c \<Rightarrow> Some c | _ \<Rightarrow> None)"

definition broken_connection :: "(gerr \<Rightarrow> string option) \<Rightarrow> gerr \<Rightarrow> bool" where
  "broken_connection sys err =
     (case errors_As op_cause err of
        None \<Rightarrow> False
      | Some ne \<Rightarrow>
          (case errors_As sys ne of
             None \<Rightarrow> False
           | Some text \<Rightarrow> str_contains text ''broken pipe'' \<or> str_contains text ''connection reset by peer''))"

definition RecoveryMiddleware ::
    "(gerr \<Rightarrow> string option) \<Rightarrow> (gerr \<Rightarrow> 'w srv \<Rightarrow> 'w srv) \<Rightarrow> 'w middleware" where
  "RecoveryMiddleware sys errorHandler next s =
     (case next s of
        (HReturned, s1) \<Rightarrow> (HReturned, s1)
      | (HPanicked rvr, s1) \<Rightarrow>
          (let s2 = add_line (PanicLogged rvr) s1; err = UnwrapPanic rvr
           in if broken_connection sys err then (HReturned, s2)
              else if errors_Is ErrAbortHandler err then (HReturned, s2)
              else (HReturned, errorHandler (UnwrapPanic rvr) s2)))"

definition WithSecurityHeaders :: "(string \<times> string) list" where
  "WithSecurityHeaders =
     [(''X-Frame-Options'', ''SAMEORIGIN''), (''X-Content-Type-Options'', ''nosniff''),
      (''Referrer-Policy'', ''strict-origin-when-cross-origin''),
      (''Strict-Transport-Security'', ''max-age=63072000; includeSubDomains; preload'')]"

definition SecurityHeadersHandler :: "'w middleware" where
  "SecurityHeadersHandler next s = next (s\<lparr>sv_headers := sv_headers s @ WithSecurityHeaders\<rparr>)"

text \<open>The span that \<open>SentryMiddleware\<close> starts and finishes is left out.\<close>

definition SentryMiddleware :: "(http_req \<Rightarrow> UrlMethod) \<Rightarrow> 'w middleware" where
  "SentryMiddleware routeNameFunc next s =
     next (s\<lparr>sv_sentry := Some [''Route Name'' \<mapsto> um_OperationID (routeNameFunc (sv_req s))]\<rparr>)"

section \<open>Composition (openapiapp)\<close>

definition Middlewares :: "'w middleware option list \<Rightarrow> 'w middleware list" where
  "Middlewares mw = concat (map (\<lambda>m. case m of None \<Rightarrow> [] | Some f \<Rightarrow> [f]) mw)"

definition openapi_Wrap :: "'w handler \<Rightarrow> 'w middleware list \<Rightarrow> 'w handler" where
  "openapi_Wrap handler mw = fold (\<lambda>middleware result. middleware result) mw handler"

definition healthCheckHandler :: "(gerr + 'c) \<Rightarrow> ('c \<Rightarrow> gerr + string) \<Rightarrow> 'w handler" where
  "healthCheckHandler check marshal s =
     (case check of
        Inl err \<Rightarrow> (HReturned, add_line (OtherError (FmtWrap ''cannot get healthcheck'' err)) s)
      | Inr c \<Rightarrow>
          (case marshal c of
             Inl err \<Rightarrow> (HReturned, add_line (OtherError (FmtWrap ''cannot marshal healthcheck'' err)) s)
           | Inr bytes \<Rightarrow> (HReturned, s\<lparr>sv_codes := sv_codes s @ [200], sv_body := sv_body s @ bytes\<rparr>)))"

record openapi_config =
  oa_BaseURL :: string
  oa_Addr :: string
  oa_Name :: string
  oa_ReadHeaderTimeout :: go_duration

definition openapi_DefaultConfig :: "string \<Rightarrow> string \<Rightarrow> string \<Rightarrow> openapi_config" where
  "openapi_DefaultConfig baseURL addr name =
     \<lparr>oa_BaseURL = baseURL, oa_Addr = addr, oa_Name = name, oa_ReadHeaderTimeout = 1000000000\<rparr>"

definition openapi_Validate :: "openapi_config \<Rightarrow> gerr option" where
  "openapi_Validate c =
     (let errs = (if oa_Addr c = []
          then [Some (ErrNew ''using zero addr leads to binding to default port which is 80, be explicit if you want that'')] else [])
      in if errs \<noteq> [] then map_option (FmtWrap ''openapi config validation failed'') (errors_Join errs) else None)"

text \<open>The rules that \<open>New\<close> gives to the multiplexer: patterns with their handlers. \<open>StripPrefix\<close> is a function of the
  standard library.\<close>

definition openapi_New ::
    "(string \<Rightarrow> 'w middleware) \<Rightarrow> openapi_config \<Rightarrow> 'w handler \<Rightarrow> 'w middleware list \<Rightarrow> 'w handler \<Rightarrow> (string \<times> 'w handler) list" where
  "openapi_New StripPrefix cfg handler mv health =
     (let h = openapi_Wrap handler mv
      in [if oa_BaseURL cfg \<noteq> [] then (oa_BaseURL cfg @ ''/'', StripPrefix (oa_BaseURL cfg) h) else (''/'', h),
          (''/healthz'', health)])"

text \<open>The handler of metrics: the first middleware of the list is the innermost. \<open>tracing\<close> is the
  OpenTelemetry handler.\<close>

definition metrics_error :: "gerr \<Rightarrow> 'w srv \<Rightarrow> 'w srv" where
  "metrics_error _ s = s\<lparr>sv_codes := sv_codes s @ [500], sv_body := sv_body s @ ''500 internal server error''\<rparr>"

definition no_route :: "http_req \<Rightarrow> UrlMethod" where
  "no_route _ = \<lparr>um_OperationID = [], um_Url = [], um_Method = []\<rparr>"

definition NewMetricsHandler ::
    "(field list \<Rightarrow> field list) \<Rightarrow> (gerr \<Rightarrow> string option) \<Rightarrow> string \<Rightarrow> 'w middleware \<Rightarrow> 'w handler \<Rightarrow> 'w handler" where
  "NewMetricsHandler ord sys trace_id tracing prom =
     openapi_Wrap prom
       [LoggingMiddleware ord ''metrics-api'' no_route trace_id, tracing, SentryMiddleware no_route, RecoveryMiddleware sys metrics_error]"

section \<open>Authentication\<close>

datatype AuthMethod = AuthMethodUNKNOWN | AuthMethodCookie | AuthMethodToken | AuthMethodOAuth | AuthMethodJWT

definition AuthMethodFromContext :: "AuthMethod option \<Rightarrow> AuthMethod \<times> gerr option" where
  "AuthMethodFromContext v =
     (case v of
        None \<Rightarrow> (AuthMethodUNKNOWN, Some (Sentinel (NamedError ''authentication method not in context'')))
      | Some m \<Rightarrow> (m, None))"

definition ForbiddenRequestAuthentication_Auth :: "http_req \<Rightarrow> gerr + http_req" where
  "ForbiddenRequestAuthentication_Auth r =
     Inl (WrapWithAuthentication (Sentinel (NamedError ''ForbiddenRequestAuthentication''))
            ''supplied credentials do not pass authentication'' [])"

section \<open>Errors for Sentry\<close>

abbreviation errSkipSentry :: sentinel where "errSkipSentry \<equiv> NamedError ''this skips sentry''"

definition SkipSentry :: "gerr \<Rightarrow> gerr" where
  "SkipSentry err = Joined [err, Sentinel errSkipSentry]"

definition ogen_any :: "gerr \<Rightarrow> unit option" where
  "ogen_any e = (case e of OgenErr k t c \<Rightarrow> Some () | _ \<Rightarrow> None)"

definition status_code_of :: "gerr \<Rightarrow> code option" where
  "status_code_of e = (case e of StatusErr c b d \<Rightarrow> Some c | _ \<Rightarrow> None)"

definition shouldSkipSentry :: "gerr \<Rightarrow> bool" where
  "shouldSkipSentry err =
     (if errors_Is errSkipSentry err then True
      else if errors_As ogen_any err \<noteq> None then True
      else if errors_Is ContextCanceled err then True
      else if errors_Is ContextDeadlineExceeded err then True
      else if errors_Is (Errno ''ECONNRESET'') err then True
      else if errors_Is (Errno ''EPIPE'') err then True
      else case errors_As status_code_of err of
             Some c \<Rightarrow> c \<notin> {codes_Internal, codes_Unknown}
           | None \<Rightarrow>
               (case AsSemanticError (Some err) of
                  None \<Rightarrow> False
                | Some serr \<Rightarrow> sem_semantic serr \<notin> {SemanticInternal, SemanticUnknown}))"

text \<open>\<open>Report\<close>: what is captured by the hub of the context, or logged when there is none.\<close>

definition Report_to_hub :: "bool \<Rightarrow> gerr \<Rightarrow> gerr list \<times> gerr list" where
  "Report_to_hub has_hub err =
     (if shouldSkipSentry err then ([], [])
      else if has_hub then ([err], [])
      else ([], [FmtWrap ''could not get sentry hub from context'' err]))"

section \<open>A request through the middlewares\<close>

definition guarded ::
    "(field list \<Rightarrow> field list) \<Rightarrow> (gerr \<Rightarrow> string option) \<Rightarrow> (gerr \<Rightarrow> 'w srv \<Rightarrow> 'w srv) \<Rightarrow> string \<Rightarrow>
     (http_req \<Rightarrow> UrlMethod) \<Rightarrow> string \<Rightarrow> 'w handler \<Rightarrow> 'w handler" where
  "guarded ord sys eh appName route tid h =
     RecoveryMiddleware sys eh (SentryMiddleware route (LoggingMiddleware ord appName route tid h))"

text \<open>What the handler finds: an empty error slot, a Sentry map, and a request identifier that is also in the response.\<close>

definition prepared :: "'w srv \<Rightarrow> bool" where
  "prepared s0 \<longleftrightarrow>
     re_slot (sv_env s0) = Slot None \<and>
     (\<exists>i m. rc_RequestID (hr_ctx (sv_req s0)) = Some i \<and> last (sv_headers s0) = (ReturnRequestIDHeader, i) \<and>
        sv_sentry s0 = Some m \<and> m ''Request ID'' = Some i)"

text \<open>The end of a request, by the way its handler ended.\<close>

definition request_end ::
    "(field list \<Rightarrow> field list) \<Rightarrow> (gerr \<Rightarrow> string option) \<Rightarrow> (gerr \<Rightarrow> 'w srv \<Rightarrow> 'w srv) \<Rightarrow> outcome \<times> 'w srv \<Rightarrow> 'w srv" where
  "request_end ord sys eh res =
     (case (case res of
              (HReturned, s1) \<Rightarrow> (case ErrorMustFromContext (sv_env s1) of
                 Inl text \<Rightarrow> (HPanicked (PanicOther text), s1)
               | Inr err \<Rightarrow> (HReturned, add_line (case err of None \<Rightarrow> FinishedSuccessfully
                   | Some e \<Rightarrow> FinishedWithError (LogAppError ord e)) s1))
            | (HPanicked v, s1) \<Rightarrow> (HPanicked v, s1)) of
        (HReturned, s2) \<Rightarrow> s2
      | (HPanicked v, s2) \<Rightarrow>
          (let err = UnwrapPanic v;
               abort = errors_Is ErrAbortHandler err;
               lines = (if abort then [] else
                 [PanicLogged v, FinishedWithPanic (WithFieldsErr (FmtWrap ''incoming request finished with error'' err) status_500)]) @ [PanicLogged v];
               s3 = s2\<lparr>sv_lines := sv_lines s2 @ lines\<rparr>
           in if abort \<or> broken_connection sys err then s3 else eh err s3))"

lemma ids_keep_request_id: "map_of (getIdsFromHttpPath p) ''Request ID'' = None"
  by (auto simp: getIdsFromHttpPath_def httpPathKeyToIdKey_def map_of_eq_None_iff Let_def split: option.splits)

lemma logging_prepare_prepared:
  assumes "sv_sentry s = Some m"
  obtains i s0 where "logging_prepare appName route tid s = Some (i, s0)"
    and "prepared (add_line IncomingRequest s0\<lparr>sv_headers := sv_headers s0 @ [(ReturnRequestIDHeader, i)]\<rparr>)"
proof -
  obtain i r net' where rid: "RequestIDFromRequestOrNew (sv_req s) (sv_net s) = (i, r, net')" by (metis prod.exhaust)
  have "rc_RequestID (hr_ctx r) = Some i"
    using rid by (auto simp: RequestIDFromRequestOrNew_def requestid_FromContext_def WithRequestID_def Let_def split: option.splits prod.splits)
  then have "prepared (add_line IncomingRequest s0\<lparr>sv_headers := sv_headers s0 @ [(ReturnRequestIDHeader, i)]\<rparr>)"
    if "logging_prepare appName route tid s = Some (i, s0)" for s0
    using that assms rid
    by (auto simp: logging_prepare_def Let_def prepared_def add_line_def WithErrorPlaceholder_def ctx_WithFields_def
        map_add_def ids_keep_request_id)
  moreover have "\<exists>s0. logging_prepare appName route tid s = Some (i, s0)"
    using assms rid by (simp add: logging_prepare_def Let_def)
  ultimately show thesis using that by blast
qed

lemma guarded_request_ex:
  "\<exists>s0. prepared s0 \<and> guarded ord sys eh appName route tid h s = (HReturned, request_end ord sys eh (h s0))"
proof -
  let ?s = "s\<lparr>sv_sentry := Some [''Route Name'' \<mapsto> um_OperationID (route (sv_req s))]\<rparr>"
  obtain i s0 where p: "logging_prepare appName route tid ?s = Some (i, s0)"
    and prep: "prepared (add_line IncomingRequest s0\<lparr>sv_headers := sv_headers s0 @ [(ReturnRequestIDHeader, i)]\<rparr>)"
    by (rule logging_prepare_prepared [of ?s "[''Route Name'' \<mapsto> um_OperationID (route (sv_req s))]" appName route tid]) simp
  let ?s0 = "add_line IncomingRequest s0\<lparr>sv_headers := sv_headers s0 @ [(ReturnRequestIDHeader, i)]\<rparr>"
  obtain o1 s1 where h: "h ?s0 = (o1, s1)" by force
  have "guarded ord sys eh appName route tid h s = (HReturned, request_end ord sys eh (h ?s0))"
  proof (cases o1)
    case HReturned
    then show ?thesis
      using p h
      by (auto simp: guarded_def RecoveryMiddleware_def SentryMiddleware_def LoggingMiddleware_def logging_body_def
          request_end_def add_line_def Let_def split: option.splits sum.splits)
  next
    case (HPanicked v)
    then show ?thesis
      using p h
      by (simp add: guarded_def RecoveryMiddleware_def SentryMiddleware_def LoggingMiddleware_def logging_body_def
          request_end_def add_line_def Let_def)
  qed
  with prep show ?thesis by blast
qed

text \<open>C20: A request through recovery, Sentry and logging middlewares. The handler finds an empty error slot, a
  Sentry map and the request identifier; however it ends, the stack returns without a panic: a normal end is logged once,
  as an error if the handler left one in the slot; a panic is logged and given to the error handler,
  unless the connection is broken or the handler aborted the request.\<close>

theorem guarded_request:
  "\<exists>s0. prepared s0 \<and> guarded ord sys eh appName route tid h s = (HReturned, request_end ord sys eh (h s0))"
  by (rule guarded_request_ex)

text \<open>The handler of metrics never panics, whatever the handlers inside it do, and with a
  tracing handler that only adds spans a panic of the metrics handler is answered with code 500.\<close>

theorem NewMetricsHandler_recovers:
  "fst (NewMetricsHandler ord sys tid tracing prom s) = HReturned \<and>
   (\<exists>s0. prepared s0 \<and> (\<forall>v s1. prom s0 = (HPanicked v, s1) \<and> \<not> broken_connection sys (UnwrapPanic v) \<and>
       \<not> errors_Is ErrAbortHandler (UnwrapPanic v) \<longrightarrow>
       sv_codes (snd (NewMetricsHandler ord sys tid (\<lambda>h. h) prom s)) = sv_codes s1 @ [500]))"
proof
  show "fst (NewMetricsHandler ord sys tid tracing prom s) = HReturned"
    by (auto simp: NewMetricsHandler_def openapi_Wrap_def RecoveryMiddleware_def Let_def split: prod.splits outcome.splits)
  have "NewMetricsHandler ord sys tid (\<lambda>h. h) prom = guarded ord sys metrics_error ''metrics-api'' no_route tid prom"
    by (simp add: NewMetricsHandler_def openapi_Wrap_def guarded_def)
  moreover obtain s0 where "prepared s0"
    and "guarded ord sys metrics_error ''metrics-api'' no_route tid prom s = (HReturned, request_end ord sys metrics_error (prom s0))"
    using guarded_request_ex by blast
  ultimately show "\<exists>s0. prepared s0 \<and> (\<forall>v s1. prom s0 = (HPanicked v, s1) \<and> \<not> broken_connection sys (UnwrapPanic v) \<and>
       \<not> errors_Is ErrAbortHandler (UnwrapPanic v) \<longrightarrow>
       sv_codes (snd (NewMetricsHandler ord sys tid (\<lambda>h. h) prom s)) = sv_codes s1 @ [500])"
    by (intro exI [of _ s0]) (auto simp: request_end_def metrics_error_def Let_def)
qed

definition sample_srv :: "nat srv" where
  "sample_srv = \<lparr>sv_req = sample_req, sv_headers = [], sv_codes = [], sv_body = [],
     sv_env = \<lparr>re_slot = NoSlot, re_reported = [], re_logged = []\<rparr>, sv_sentry = None, sv_lines = [], sv_served = [], sv_net = sample_net\<rparr>"

definition failing_handler :: "nat handler" where
  "failing_handler s = (HPanicked (PanicOther ''collector failed''), s\<lparr>sv_codes := []\<rparr>)"

theorem NewMetricsHandler_recovers_witness:
  "sv_codes (snd (NewMetricsHandler (\<lambda>fs. fs) (\<lambda>_. None) ''t1'' (\<lambda>h. h) failing_handler sample_srv)) = [500]"
proof -
  have "\<not> broken_connection (\<lambda>_. None) (UnwrapPanic (PanicOther ''collector failed''))"
    "\<not> errors_Is ErrAbortHandler (UnwrapPanic (PanicOther ''collector failed''))"
    by (simp_all add: broken_connection_def UnwrapPanic_def WrapWithInternal_def wrapError_def errFmt_def errors_As_chain
        errors_Is_chain op_cause_def)
  then show ?thesis
    using NewMetricsHandler_recovers [of "\<lambda>fs. fs" "\<lambda>_. None" "''t1''" "\<lambda>h. h" failing_handler sample_srv]
    by (auto simp: failing_handler_def)
qed

text \<open>A handler that panics with \<open>http.ErrAbortHandler\<close> to make the server abort the response does not get
  that: the recovery middleware swallows the panic, and the server completes the response as if the handler had returned.
  The panic is logged all the same.\<close>

theorem abort_is_swallowed:
  assumes "next s = (HPanicked (PanicError (Sentinel ErrAbortHandler)), s1)"
  shows "RecoveryMiddleware sys eh next s = (HReturned, add_line (PanicLogged (PanicError (Sentinel ErrAbortHandler))) s1)"
  using assms by (simp add: RecoveryMiddleware_def UnwrapPanic_def errors_Is_chain Let_def)

section \<open>What is reported to Sentry\<close>

interpretation oga: error_search ogen_any
proof unfold_locales
  show "ogen_any (wrap_one w e) = None" for w e by (cases w) (simp_all add: ogen_any_def)
qed

interpretation sco: error_search status_code_of
proof unfold_locales
  show "status_code_of (wrap_one w e) = None" for w e by (cases w) (simp_all add: status_code_of_def)
qed

text \<open>Context added around an error does not change whether it is reported; an error marked by \<open>SkipSentry\<close> is not
  reported, whatever meaning it is given afterwards; and a plain semantic error is reported exactly when
  its meaning is internal or unknown.\<close>

theorem sentry_decision:
  "(shouldSkipSentry (wrap_all ws e) \<longleftrightarrow> shouldSkipSentry e) \<and>
   shouldSkipSentry (wrap_all ws (wrapError m (wrap_all vs (SkipSentry e)) text fs)) \<and>
   (shouldSkipSentry (wrap_all ws (newError m text fs)) \<longleftrightarrow> m \<notin> {SemanticInternal, SemanticUnknown})"
proof -
  have wrap: "shouldSkipSentry (wrap_all ws e) \<longleftrightarrow> shouldSkipSentry e" for ws e
    unfolding shouldSkipSentry_def AsSemanticError_def option.case
    by (simp only: isc.classify_wrap_all oga.classify_wrap_all sco.classify_wrap_all sem.classify_wrap_all)
  have "errors_Is errSkipSentry (wrapError m (wrap_all vs (SkipSentry e)) text fs) = errors_Is errSkipSentry (wrap_all vs (SkipSentry e))"
    by (simp add: errors_Is_chain wrapError_def errFmt_def)
  also have "\<dots> = errors_Is errSkipSentry (SkipSentry e)" by (rule isc.classify_wrap_all)
  also have "\<dots>" by (simp add: SkipSentry_def errors_Is_chain)
  finally have "shouldSkipSentry (wrapError m (wrap_all vs (SkipSentry e)) text fs)"
    unfolding shouldSkipSentry_def by simp
  moreover have "shouldSkipSentry (newError m text fs) \<longleftrightarrow> m \<notin> {SemanticInternal, SemanticUnknown}"
    by (simp add: shouldSkipSentry_def newError_def errFmt_def errors_Is_chain errors_As_chain ogen_any_def status_code_of_def
        AsSemanticError_def sem_semantic_def)
  ultimately show ?thesis using wrap by simp
qed

section \<open>Identifiers in paths\<close>

lemma IndexOf_first: "k \<notin> set xs \<Longrightarrow> IndexOf (xs @ k # ys) k = Some (length xs)"
  by (induction xs) auto

lemma IndexOf_None: "IndexOf xs k = None \<longleftrightarrow> k \<notin> set xs"
  by (induction xs) auto

text \<open>The identifier logged for a collection is the part of the path after the first occurrence of the collection's name,
  and there is none exactly when the name does not occur or its first occurrence ends the path.\<close>

theorem getIdFromHttpPathParts_spec:
  "getIdFromHttpPathParts parts key = Some i \<longleftrightarrow>
     (\<exists>xs ys. parts = xs @ key # i # ys \<and> key \<notin> set xs)"
proof
  assume some: "getIdFromHttpPathParts parts key = Some i"
  then have "key \<in> set parts" using IndexOf_None [of parts key] by (auto simp: getIdFromHttpPathParts_def split: option.splits)
  then obtain xs ys where parts: "parts = xs @ key # ys" "key \<notin> set xs" by (metis split_list_first)
  then show "\<exists>xs ys. parts = xs @ key # i # ys \<and> key \<notin> set xs"
    using some IndexOf_first [of key xs ys] by (cases ys) (auto simp: getIdFromHttpPathParts_def nth_append split: if_splits)
next
  assume "\<exists>xs ys. parts = xs @ key # i # ys \<and> key \<notin> set xs"
  then show "getIdFromHttpPathParts parts key = Some i"
    by (auto simp: getIdFromHttpPathParts_def IndexOf_first nth_append)
qed

end
