(* ===== verification/Token_Bucket.thy ===== *)
theory Token_Bucket
  imports Go_Error
begin

text \<open>
  The token bucket limiters: \<open>internal/resttooling/ratelimiter\<close> (buckets for groups of handlers) and
  \<open>internal/resttooling/dynamicratelimiter\<close> (a bucket for every key).

  A bucket is a \<open>rate.Limiter\<close> of package \<open>golang.org/x/time/rate\<close>, which is a parameter: \<open>mk\<close> makes one from the
  interval between tokens and the burst, \<open>allow\<close> asks it at an instant. Handlers of one group share
  a bucket, so the first manager maps a handler to the position of its bucket in a store. The hash of a configuration
  (package hashstructure) and the configuration getter are parameters too. Both managers are guarded
  by a lock, so a run is a sequence of calls.
\<close>

section \<open>Configurations\<close>

record RateLimitConfig =
  rl_Period :: go_duration
  rl_Requests :: "64 word"
  rl_Burst :: "64 word"

record RateLimitByHandlersConfig =
  bh_Handlers :: "string list"
  bh_Config :: RateLimitConfig

record RateLimitersConfig =
  rc_ByHandlers :: "RateLimitByHandlersConfig list"
  rc_WorkersCount :: "64 word"

text \<open>Division of durations truncates towards zero; the conversions to \<open>time.Duration\<close> and \<open>int\<close> keep the 64 bits.\<close>

definition go_div :: "int \<Rightarrow> int \<Rightarrow> int panics" where
  "go_div a b = (if b = 0 then Inl ''integer divide by zero'' else Inr (sgn a * sgn b * (\<bar>a\<bar> div \<bar>b\<bar>)))"

definition uint_div :: "64 word \<Rightarrow> 64 word \<Rightarrow> (64 word) panics" where
  "uint_div a b = (if b = 0 then Inl ''integer divide by zero'' else Inr (a div b))"

section \<open>Buckets for groups of handlers\<close>

definition AllHandlers :: string where "AllHandlers = ''all''"

record 'l managerImpl =
  mi_limiters :: "string \<rightharpoonup> nat"
  mi_buckets :: "'l list"
  mi_lastConfigHash :: "64 word"

definition group_limiter :: "(go_duration \<Rightarrow> int \<Rightarrow> 'l) \<Rightarrow> 64 word \<Rightarrow> RateLimitConfig \<Rightarrow> 'l panics" where
  "group_limiter mk workers cfg =
     bind_sum (uint_div (rl_Requests cfg) workers) (\<lambda>q.
       bind_sum (go_div (rl_Period cfg) (sint q)) (\<lambda>interval.
         Inr (mk interval (sint (rl_Burst cfg)))))"

fun build_groups ::
    "(go_duration \<Rightarrow> int \<Rightarrow> 'l) \<Rightarrow> 64 word \<Rightarrow> RateLimitByHandlersConfig list \<Rightarrow> (string \<rightharpoonup> nat) \<times> 'l list \<Rightarrow>
     ((string \<rightharpoonup> nat) \<times> 'l list) panics" where
  "build_groups mk workers [] st = Inr st"
| "build_groups mk workers (cfg # cfgs) (limiters, buckets) =
     bind_sum (group_limiter mk workers (bh_Config cfg)) (\<lambda>limiter.
       build_groups mk workers cfgs
         (fold (\<lambda>h m. m(h \<mapsto> length buckets)) (bh_Handlers cfg) limiters, buckets @ [limiter]))"

definition buildLimiters ::
    "(go_duration \<Rightarrow> int \<Rightarrow> 'l) \<Rightarrow> RateLimitersConfig \<Rightarrow> ((string \<rightharpoonup> nat) \<times> 'l list) panics" where
  "buildLimiters mk c = build_groups mk (rc_WorkersCount c) (rc_ByHandlers c) (Map.empty, [])"

definition v1_Allow :: "(go_time \<Rightarrow> 'l \<Rightarrow> bool \<times> 'l) \<Rightarrow> go_time \<Rightarrow> string \<Rightarrow> 'l managerImpl \<Rightarrow> bool \<times> 'l managerImpl" where
  "v1_Allow allow now handler m =
     (case (case mi_limiters m handler of Some i \<Rightarrow> Some i | None \<Rightarrow> mi_limiters m AllHandlers) of
        None \<Rightarrow> (True, m)
      | Some i \<Rightarrow>
          (let (ok, l) = allow now (mi_buckets m ! i)
           in (ok, m\<lparr>mi_buckets := (mi_buckets m)[i := l]\<rparr>)))"

definition v1_NewRateLimitManager ::
    "(go_duration \<Rightarrow> int \<Rightarrow> 'l) \<Rightarrow> (RateLimitersConfig \<Rightarrow> gerr + 64 word) \<Rightarrow> gerr + RateLimitersConfig \<Rightarrow>
     (gerr + 'l managerImpl) panics" where
  "v1_NewRateLimitManager mk hash got =
     (case got of
        Inl err \<Rightarrow> Inr (Inl err)
      | Inr cfg \<Rightarrow>
          (case hash cfg of
             Inl err \<Rightarrow> Inr (Inl (FmtWrap ''error while hashing rate limiters config'' err))
           | Inr h \<Rightarrow>
               bind_sum (buildLimiters mk cfg) (\<lambda>(limiters, buckets).
                 Inr (Inr \<lparr>mi_limiters = limiters, mi_buckets = buckets, mi_lastConfigHash = h\<rparr>))))"

text \<open>One tick of \<open>updateLimitersOnConfigChange\<close>: the manager afterwards, with the error that ends the loop.\<close>

definition v1_update_tick ::
    "(go_duration \<Rightarrow> int \<Rightarrow> 'l) \<Rightarrow> (RateLimitersConfig \<Rightarrow> gerr + 64 word) \<Rightarrow> gerr + RateLimitersConfig \<Rightarrow> 'l managerImpl \<Rightarrow>
     ('l managerImpl \<times> gerr option) panics" where
  "v1_update_tick mk hash got m =
     (case got of
        Inl err \<Rightarrow> Inr (m, Some err)
      | Inr cfg \<Rightarrow>
          (case hash cfg of
             Inl err \<Rightarrow> Inr (m, Some (FmtWrap ''error while hashing rate limiters config'' err))
           | Inr h \<Rightarrow>
               if h \<noteq> mi_lastConfigHash m
               then bind_sum (buildLimiters mk cfg) (\<lambda>(limiters, buckets).
                      Inr (\<lparr>mi_limiters = limiters, mi_buckets = buckets, mi_lastConfigHash = h\<rparr>, None))
               else Inr (m, None)))"

section \<open>A bucket for every key\<close>

record 'l dynamicManager =
  dm_limiters :: "string \<rightharpoonup> 'l"
  dm_config :: RateLimitConfig
  dm_lastConfigHash :: "64 word"

definition newLimiter :: "(go_duration \<Rightarrow> int \<Rightarrow> 'l) \<Rightarrow> RateLimitConfig \<Rightarrow> 'l panics" where
  "newLimiter mk cfg =
     bind_sum (go_div (rl_Period cfg) (sint (rl_Requests cfg))) (\<lambda>interval. Inr (mk interval (sint (rl_Burst cfg))))"

definition dynamic_Allow ::
    "(go_duration \<Rightarrow> int \<Rightarrow> 'l) \<Rightarrow> (go_time \<Rightarrow> 'l \<Rightarrow> bool \<times> 'l) \<Rightarrow> go_time \<Rightarrow> string \<Rightarrow> 'l dynamicManager \<Rightarrow>
     (bool \<times> 'l dynamicManager) panics" where
  "dynamic_Allow mk allow now key m =
     (if rl_Period (dm_config m) = 0 then Inr (True, m)
      else bind_sum (case dm_limiters m key of Some l \<Rightarrow> Inr l | None \<Rightarrow> newLimiter mk (dm_config m)) (\<lambda>limiter.
        let (ok, l') = allow now limiter
        in Inr (ok, m\<lparr>dm_limiters := (dm_limiters m)(key \<mapsto> l')\<rparr>)))"

definition dynamic_NewRateLimitManager ::
    "(RateLimitConfig \<Rightarrow> gerr + 64 word) \<Rightarrow> gerr + RateLimitConfig \<Rightarrow> gerr + 'l dynamicManager" where
  "dynamic_NewRateLimitManager hash got =
     (case got of
        Inl err \<Rightarrow> Inl err
      | Inr cfg \<Rightarrow>
          (case hash cfg of
             Inl err \<Rightarrow> Inl (FmtWrap ''error while hashing rate limiter config'' err)
           | Inr h \<Rightarrow> Inr \<lparr>dm_limiters = Map.empty, dm_config = cfg, dm_lastConfigHash = h\<rparr>))"

definition dynamic_update_tick ::
    "(RateLimitConfig \<Rightarrow> gerr + 64 word) \<Rightarrow> gerr + RateLimitConfig \<Rightarrow> 'l dynamicManager \<Rightarrow> 'l dynamicManager \<times> gerr option" where
  "dynamic_update_tick hash got m =
     (case got of
        Inl err \<Rightarrow> (m, Some err)
      | Inr cfg \<Rightarrow>
          (case hash cfg of
             Inl err \<Rightarrow> (m, Some (FmtWrap ''error while hashing rate limiter config'' err))
           | Inr h \<Rightarrow>
               if h \<noteq> dm_lastConfigHash m
               then (\<lparr>dm_limiters = Map.empty, dm_config = cfg, dm_lastConfigHash = h\<rparr>, None)
               else (m, None)))"

section \<open>When the limiters can be built\<close>

lemma sint_eq_0_iff: "sint (w :: 64 word) = 0 \<longleftrightarrow> w = 0"
  by (rule signed_eq_0_iff)

lemma group_limiter_panics_iff:
  "(\<exists>t. group_limiter mk workers cfg = Inl t) \<longleftrightarrow> workers = 0 \<or> rl_Requests cfg < workers"
proof (cases "workers = 0")
  case False
  then have "rl_Requests cfg div workers = 0 \<longleftrightarrow> rl_Requests cfg < workers"
    by (simp add: unat_eq_0 [symmetric] unat_div word_less_nat_alt div_eq_0_iff)
  then show ?thesis using False
    by (auto simp: group_limiter_def uint_div_def go_div_def sint_eq_0_iff)
qed (simp add: group_limiter_def uint_div_def)

lemma build_groups_panics_iff:
  "(\<exists>t. build_groups mk workers cfgs st = Inl t) \<longleftrightarrow>
   (\<exists>cfg \<in> set cfgs. workers = 0 \<or> rl_Requests (bh_Config cfg) < workers)"
proof (induction cfgs arbitrary: st)
  case (Cons cfg cfgs)
  obtain limiters buckets where st: "st = (limiters, buckets)" by force
  show ?case
  proof (cases "group_limiter mk workers (bh_Config cfg)")
    case (Inl t)
    then show ?thesis using group_limiter_panics_iff [of mk workers "bh_Config cfg"] st by auto
  next
    case (Inr l)
    then have "\<not> (workers = 0 \<or> rl_Requests (bh_Config cfg) < workers)"
      using group_limiter_panics_iff [of mk workers "bh_Config cfg"] by simp
    then show ?thesis using Inr st Cons.IH by simp
  qed
qed simp

text \<open>Building the limiters panics, dividing by zero, exactly when a group has fewer requests than there are workers (or
  there are no workers): such a configuration takes the program down at start, and every reload of it panics.\<close>

theorem buildLimiters_panics_iff:
  "(\<exists>t. buildLimiters mk c = Inl t) \<longleftrightarrow>
   (\<exists>cfg \<in> set (rc_ByHandlers c). rc_WorkersCount c = 0 \<or> rl_Requests (bh_Config cfg) < rc_WorkersCount c)"
  unfolding buildLimiters_def by (rule build_groups_panics_iff)

section \<open>Every bucket sees exactly its own requests\<close>

text \<open>The answers to a sequence of calls, and those of one bucket alone.\<close>

fun answers :: "(go_time \<Rightarrow> string \<Rightarrow> 'm \<Rightarrow> bool \<times> 'm) \<Rightarrow> (go_time \<times> string) list \<Rightarrow> 'm \<Rightarrow> bool list" where
  "answers call [] m = []"
| "answers call ((now, key) # calls) m = (let (a, m') = call now key m in a # answers call calls m')"

fun bucket_answers :: "(go_time \<Rightarrow> 'l \<Rightarrow> bool \<times> 'l) \<Rightarrow> go_time list \<Rightarrow> 'l \<Rightarrow> bool list" where
  "bucket_answers allow [] l = []"
| "bucket_answers allow (now # ts) l = (let (a, l') = allow now l in a # bucket_answers allow ts l')"

text \<open>A store of buckets with the bucket of every key.\<close>

locale bucket_store =
  fixes allow :: "go_time \<Rightarrow> 'l \<Rightarrow> bool \<times> 'l"
    and route :: "string \<Rightarrow> 'g option"
    and bucket :: "'m \<Rightarrow> 'g \<Rightarrow> 'l"
    and call :: "go_time \<Rightarrow> string \<Rightarrow> 'm \<Rightarrow> bool \<times> 'm"
    and ok :: "'m \<Rightarrow> bool"
  assumes unrouted: "ok m \<Longrightarrow> route k = None \<Longrightarrow> call now k m = (True, m)"
    and routed: "ok m \<Longrightarrow> route k = Some g \<Longrightarrow> call now k m = (a, m') \<Longrightarrow>
      allow now (bucket m g) = (a, bucket m' g) \<and> (\<forall>g'. g' \<noteq> g \<longrightarrow> bucket m' g' = bucket m g') \<and> ok m'"
begin

lemma length_answers: "length (answers call calls m) = length calls"
  by (induction calls arbitrary: m) (auto split: prod.splits)

lemma own_answers:
  assumes "ok m"
  shows "map snd (filter (\<lambda>((_, k), _). route k = Some g) (zip calls (answers call calls m))) =
    bucket_answers allow (map fst (filter (\<lambda>(_, k). route k = Some g) calls)) (bucket m g)"
  using assms
proof (induction calls arbitrary: m)
  case (Cons c calls)
  obtain now k where c: "c = (now, k)" by force
  obtain a m' where step: "call now k m = (a, m')" by force
  show ?case
  proof (cases "route k")
    case None
    then show ?thesis using unrouted [OF Cons.prems None, of now] step Cons c by simp
  next
    case (Some h)
    with routed [OF Cons.prems Some step] have "ok m'" "allow now (bucket m h) = (a, bucket m' h)"
      "h \<noteq> g \<Longrightarrow> bucket m' g = bucket m g" by auto
    then show ?thesis using Some step Cons.IH [of m'] c by auto
  qed
qed simp

lemma unrouted_answers:
  assumes "ok m"
  shows "list_all snd (filter (\<lambda>((_, k), _). route k = None) (zip calls (answers call calls m)))"
  using assms
proof (induction calls arbitrary: m)
  case (Cons c calls)
  obtain now k where c: "c = (now, k)" by force
  obtain a m' where step: "call now k m = (a, m')" by force
  show ?case
  proof (cases "route k")
    case None
    then show ?thesis using unrouted [OF Cons.prems None, of now] step Cons c by simp
  next
    case (Some h)
    with routed [OF Cons.prems Some step] show ?thesis using step Cons.IH [of m'] c by simp
  qed
qed simp

end

definition v1_route :: "(string \<rightharpoonup> nat) \<Rightarrow> string \<Rightarrow> nat option" where
  "v1_route limiters handler = (case limiters handler of Some i \<Rightarrow> Some i | None \<Rightarrow> limiters AllHandlers)"

definition v1_ok :: "(string \<rightharpoonup> nat) \<Rightarrow> 'l managerImpl \<Rightarrow> bool" where
  "v1_ok limiters m \<longleftrightarrow> mi_limiters m = limiters \<and> (\<forall>i \<in> ran limiters. i < length (mi_buckets m))"

lemma v1_route_bound: "v1_ok lm m \<Longrightarrow> v1_route lm k = Some i \<Longrightarrow> i < length (mi_buckets m)"
  by (auto simp: v1_ok_def v1_route_def ran_def split: option.splits)

interpretation v1: bucket_store allow "v1_route limiters" "\<lambda>m i. mi_buckets m ! i" "v1_Allow allow" "v1_ok limiters"
  for allow :: "go_time \<Rightarrow> 'l \<Rightarrow> bool \<times> 'l" and limiters :: "string \<rightharpoonup> nat"
proof unfold_locales
  fix m :: "'l managerImpl" and k now
  assume "v1_ok limiters m" "v1_route limiters k = None"
  then show "v1_Allow allow now k m = (True, m)" by (simp add: v1_Allow_def v1_ok_def v1_route_def split: option.splits)
next
  fix m m' :: "'l managerImpl" and k now g a
  assume ok: "v1_ok limiters m" and r: "v1_route limiters k = Some g" and "v1_Allow allow now k m = (a, m')"
  then have "allow now (mi_buckets m ! g) = (a, mi_buckets m' ! g)" "mi_buckets m' = (mi_buckets m)[g := mi_buckets m' ! g]"
    "mi_limiters m' = mi_limiters m"
    using v1_route_bound [OF ok r] by (auto simp: v1_Allow_def v1_ok_def v1_route_def split: prod.splits)
  moreover from this(2) have "length (mi_buckets m') = length (mi_buckets m)" by (metis length_list_update)
  ultimately show "allow now (mi_buckets m ! g) = (a, mi_buckets m' ! g) \<and>
      (\<forall>g'. g' \<noteq> g \<longrightarrow> mi_buckets m' ! g' = mi_buckets m ! g') \<and> v1_ok limiters m'"
    using ok by (auto simp: v1_ok_def) (metis nth_list_update_neq)
qed

text \<open>The group of a handler: the last one that lists it.\<close>

fun group_of :: "string \<Rightarrow> RateLimitByHandlersConfig list \<Rightarrow> nat option" where
  "group_of h [] = None"
| "group_of h (cfg # cfgs) =
     (case group_of h cfgs of Some i \<Rightarrow> Some (Suc i) | None \<Rightarrow> if h \<in> set (bh_Handlers cfg) then Some 0 else None)"

lemma fold_handlers: "fold (\<lambda>h m. m(h \<mapsto> n)) hs m0 h = (if h \<in> set hs then Some n else m0 h)"
  by (induction hs arbitrary: m0) auto

lemma build_groups_spec:
  assumes "build_groups mk workers cfgs (limiters, buckets) = Inr (limiters', buckets')"
  shows "(\<forall>h. limiters' h = (case group_of h cfgs of Some i \<Rightarrow> Some (length buckets + i) | None \<Rightarrow> limiters h)) \<and>
    (\<exists>ls. buckets' = buckets @ ls \<and> map Inr ls = map (\<lambda>cfg. group_limiter mk workers (bh_Config cfg)) cfgs)"
  using assms
proof (induction cfgs arbitrary: limiters buckets)
  case (Cons cfg cfgs)
  then obtain l where l: "group_limiter mk workers (bh_Config cfg) = Inr l"
    and rest: "build_groups mk workers cfgs
      (fold (\<lambda>h m. m(h \<mapsto> length buckets)) (bh_Handlers cfg) limiters, buckets @ [l]) = Inr (limiters', buckets')"
    by (auto simp: bind_sum_Inr_iff)
  from Cons.IH [OF rest] l show ?case
    by (auto simp: fold_handlers split: option.splits)
qed simp

text \<open>A manager made from a configuration routes every handler to the bucket of the last group that lists it, and any
  other handler to the group of \<open>all\<close>; for every sequence of calls, the answers to the calls routed to a group
  are those of a bucket of its own asked at the instants of these calls only, and calls
  routed to no group are allowed.\<close>

theorem group_buckets:
  assumes "v1_NewRateLimitManager mk hash (Inr c) = Inr (Inr m)"
  shows "v1_route (mi_limiters m) h =
      (case group_of h (rc_ByHandlers c) of Some i \<Rightarrow> Some i | None \<Rightarrow> group_of AllHandlers (rc_ByHandlers c)) \<and>
    (\<forall>i < length (rc_ByHandlers c). \<exists>l.
      group_limiter mk (rc_WorkersCount c) (bh_Config (rc_ByHandlers c ! i)) = Inr l \<and>
      map snd (filter (\<lambda>((_, k), _). v1_route (mi_limiters m) k = Some i) (zip calls (answers (v1_Allow allow) calls m))) =
      bucket_answers allow (map fst (filter (\<lambda>(_, k). v1_route (mi_limiters m) k = Some i) calls)) l) \<and>
    list_all snd (filter (\<lambda>((_, k), _). v1_route (mi_limiters m) k = None) (zip calls (answers (v1_Allow allow) calls m)))"
proof -
  obtain hh where m: "buildLimiters mk c = Inr (mi_limiters m, mi_buckets m)"
    using assms by (auto simp: v1_NewRateLimitManager_def bind_sum_Inr_iff split: sum.splits)
  from build_groups_spec [OF m [unfolded buildLimiters_def]] obtain ls
    where lim: "\<And>h. mi_limiters m h = group_of h (rc_ByHandlers c)"
      and ls: "mi_buckets m = ls" "map Inr ls = map (\<lambda>cfg. group_limiter mk (rc_WorkersCount c) (bh_Config cfg)) (rc_ByHandlers c)"
    by (auto split: option.splits)
  have len: "length ls = length (rc_ByHandlers c)" using ls(2) by (metis length_map)
  have "group_of h cfgs = Some i \<Longrightarrow> i < length cfgs" for h cfgs i
    by (induction cfgs arbitrary: i) (auto split: option.splits if_splits)
  then have ok: "v1_ok (mi_limiters m) m" using lim ls(1) len by (auto simp: v1_ok_def ran_def)
  have b: "group_limiter mk (rc_WorkersCount c) (bh_Config (rc_ByHandlers c ! i)) = Inr (mi_buckets m ! i)"
    if "i < length (rc_ByHandlers c)" for i
    using that ls len by (metis nth_map)
  show ?thesis
    using b v1.own_answers [OF ok] v1.unrouted_answers [OF ok] lim
    by (auto simp: v1_route_def [of "mi_limiters m" h] split: option.split)
qed

definition counting :: "go_time \<Rightarrow> int \<Rightarrow> bool \<times> int" where
  "counting now l = (0 < l, l - 1)"

definition two_groups :: RateLimitersConfig where
  "two_groups = \<lparr>rc_ByHandlers =
     [\<lparr>bh_Handlers = [''list'', ''get''], bh_Config = \<lparr>rl_Period = 1000000000, rl_Requests = 10, rl_Burst = 1\<rparr>\<rparr>,
      \<lparr>bh_Handlers = [''all''], bh_Config = \<lparr>rl_Period = 1000000000, rl_Requests = 4, rl_Burst = 2\<rparr>\<rparr>],
     rc_WorkersCount = 2\<rparr>"

definition sample_calls :: "(go_time \<times> string) list" where
  "sample_calls = [(0, ''get''), (1, ''put''), (2, ''list'')]"

theorem group_buckets_witness:
  "\<exists>m. v1_NewRateLimitManager (\<lambda>interval burst. burst) (\<lambda>_. Inr 0) (Inr two_groups) = Inr (Inr m) \<and>
     v1_route (mi_limiters m) ''get'' = Some 0 \<and> v1_route (mi_limiters m) ''put'' = Some 1 \<and>
     map snd (filter (\<lambda>((_, k), _). v1_route (mi_limiters m) k = Some 0)
       (zip sample_calls (answers (v1_Allow counting) sample_calls m))) = [True, False]"
proof -
  have "\<exists>m. v1_NewRateLimitManager (\<lambda>interval burst. burst) (\<lambda>_. Inr 0) (Inr two_groups) = Inr (Inr m)"
    by (simp add: v1_NewRateLimitManager_def buildLimiters_def two_groups_def group_limiter_def uint_div_def go_div_def)
  then obtain m where m: "v1_NewRateLimitManager (\<lambda>interval burst. burst) (\<lambda>_. Inr 0) (Inr two_groups) = Inr (Inr m)" ..
  note spec = group_buckets [OF m]
  have r: "v1_route (mi_limiters m) ''get'' = Some 0" "v1_route (mi_limiters m) ''put'' = Some 1" "v1_route (mi_limiters m) ''list'' = Some 0"
    using spec [of "''get''"] spec [of "''put''"] spec [of "''list''"] by (simp_all add: two_groups_def AllHandlers_def)
  have l: "group_limiter (\<lambda>interval burst. burst) (rc_WorkersCount two_groups) (bh_Config (rc_ByHandlers two_groups ! 0)) = Inr 1"
    "0 < length (rc_ByHandlers two_groups)"
    by (simp_all add: two_groups_def group_limiter_def uint_div_def go_div_def)
  obtain b where b: "group_limiter (\<lambda>interval burst. burst) (rc_WorkersCount two_groups) (bh_Config (rc_ByHandlers two_groups ! 0)) = Inr b"
    "map snd (filter (\<lambda>((_, k), _). v1_route (mi_limiters m) k = Some 0) (zip sample_calls (answers (v1_Allow counting) sample_calls m))) =
      bucket_answers counting (map fst (filter (\<lambda>(_, k). v1_route (mi_limiters m) k = Some 0) sample_calls)) b"
    using spec [of "''get''" sample_calls counting, THEN conjunct2, THEN conjunct1, rule_format, OF l(2)]
    by (elim exE conjE) (rule that)
  have "b = 1" using b(1) l(1) by simp
  with b(2) have "map snd (filter (\<lambda>((_, k), _). v1_route (mi_limiters m) k = Some 0) (zip sample_calls (answers (v1_Allow counting) sample_calls m))) =
      bucket_answers counting (map fst (filter (\<lambda>(_, k). v1_route (mi_limiters m) k = Some 0) sample_calls)) 1"
    by (simp only:)
  also have "\<dots> = [True, False]" using r by (simp add: counting_def sample_calls_def)
  finally show ?thesis by (intro exI [of _ m] conjI m r)
qed

section \<open>Keys do not share buckets\<close>

definition dyn_bucket :: "(go_duration \<Rightarrow> int \<Rightarrow> 'l) \<Rightarrow> 'l dynamicManager \<Rightarrow> string \<Rightarrow> 'l" where
  "dyn_bucket mk m key = (case dm_limiters m key of Some l \<Rightarrow> l | None \<Rightarrow> projr (newLimiter mk (dm_config m)))"

definition dyn_call ::
    "(go_duration \<Rightarrow> int \<Rightarrow> 'l) \<Rightarrow> (go_time \<Rightarrow> 'l \<Rightarrow> bool \<times> 'l) \<Rightarrow> go_time \<Rightarrow> string \<Rightarrow> 'l dynamicManager \<Rightarrow> bool \<times> 'l dynamicManager" where
  "dyn_call mk allow now key m = projr (dynamic_Allow mk allow now key m)"

definition dyn_ok :: "RateLimitConfig \<Rightarrow> 'l dynamicManager \<Rightarrow> bool" where
  "dyn_ok cfg m \<longleftrightarrow> dm_config m = cfg \<and> rl_Period cfg \<noteq> 0 \<and> rl_Requests cfg \<noteq> 0"

lemma dynamic_Allow_ok:
  assumes "dyn_ok cfg m" and "allow now (dyn_bucket mk m key) = (a, l)"
  shows "dynamic_Allow mk allow now key m = Inr (a, m\<lparr>dm_limiters := (dm_limiters m)(key \<mapsto> l)\<rparr>)"
  using assms
  by (cases "dm_limiters m key")
    (auto simp: dynamic_Allow_def dyn_bucket_def newLimiter_def go_div_def dyn_ok_def signed_eq_0_iff)

interpretation dyn: bucket_store allow Some "dyn_bucket mk" "dyn_call mk allow" "dyn_ok cfg"
  for mk :: "go_duration \<Rightarrow> int \<Rightarrow> 'l" and allow :: "go_time \<Rightarrow> 'l \<Rightarrow> bool \<times> 'l" and cfg :: RateLimitConfig
proof unfold_locales
  fix m m' :: "'l dynamicManager" and k g now a
  assume ok: "dyn_ok cfg m" and k: "Some k = Some g" and call: "dyn_call mk allow now k m = (a, m')"
  obtain a' l where l: "allow now (dyn_bucket mk m k) = (a', l)" by force
  with dynamic_Allow_ok [of cfg m allow now mk k, OF ok l] call have "a' = a" "m' = m\<lparr>dm_limiters := (dm_limiters m)(k \<mapsto> l)\<rparr>"
    by (simp_all add: dyn_call_def)
  then show "allow now (dyn_bucket mk m g) = (a, dyn_bucket mk m' g) \<and>
      (\<forall>g'. g' \<noteq> g \<longrightarrow> dyn_bucket mk m' g' = dyn_bucket mk m g') \<and> dyn_ok cfg m'"
    using l k ok by (auto simp: dyn_bucket_def dyn_ok_def split: option.split)
qed simp



text \<open>A key's bucket cannot be made when no requests are configured: the first request panics.\<close>

theorem dynamic_zero_requests_panics:
  "rl_Period (dm_config m) \<noteq> 0 \<Longrightarrow> rl_Requests (dm_config m) = 0 \<Longrightarrow> dm_limiters m key = None \<Longrightarrow>
   dynamic_Allow mk allow now key m = Inl ''integer divide by zero''"
  by (simp add: dynamic_Allow_def newLimiter_def go_div_def)

text \<open>A reload with an unchanged configuration keeps every bucket as it is; a changed one replaces all of them, for both
  managers, and an error of the getter changes nothing.\<close>

theorem reload_buckets:
  assumes "hash cfg = Inr h" and "dhash dcfg = Inr h"
  shows "(h = mi_lastConfigHash m \<longrightarrow> v1_update_tick mk hash (Inr cfg) m = Inr (m, None)) \<and>
    (h \<noteq> mi_lastConfigHash m \<longrightarrow> (\<forall>m'. v1_update_tick mk hash (Inr cfg) m = Inr (m', None) \<longrightarrow>
       v1_NewRateLimitManager mk hash (Inr cfg) = Inr (Inr m'))) \<and>
    (h = dm_lastConfigHash d \<longrightarrow> dynamic_update_tick dhash (Inr dcfg) d = (d, None)) \<and>
    (h \<noteq> dm_lastConfigHash d \<longrightarrow> (\<exists>d'. dynamic_update_tick dhash (Inr dcfg) d = (d', None) \<and>
       dynamic_NewRateLimitManager dhash (Inr dcfg) = Inr d')) \<and>
    v1_update_tick mk hash (Inl err) m = Inr (m, Some err) \<and> dynamic_update_tick dhash (Inl err) d = (d, Some err)"
  using assms
  by (auto simp: v1_update_tick_def v1_NewRateLimitManager_def dynamic_update_tick_def dynamic_NewRateLimitManager_def bind_sum_Inr_iff)

end
