(* ===== verification/Migration.thy ===== *)
theory Migration
  imports Sql_Query Clouderr
begin

text \<open>
  Database migrations and schema dumps (\<open>internal/pgtooling\<close>).

  The migrations are run by package tern over a connection of pgx, both parameters: the record \<open>tern\<close> holds
  their operations on a state of the world \<open>'w\<close>. Of \<open>retry.Do\<close> only the repeated function is modelled, with what it does
  to the variable it shares with its caller. \<open>sel_pg\<close> and \<open>sel_bv\<close> select the error values of the types
  \<open>migrate.MigrationPgError\<close> and \<open>migrate.BadVersionError\<close>, giving the code and the text. Log lines are left out.
\<close>

section \<open>Options\<close>

record MigrateOpts =
  mo_PathToDBDir :: string
  mo_Destination :: string
  mo_LockTimeout :: string
  mo_SchemaVersionTable :: string

definition SetDefaults :: "MigrateOpts \<Rightarrow> MigrateOpts" where
  "SetDefaults m =
     m\<lparr>mo_Destination := (if mo_Destination m = [] then ''last'' else mo_Destination m),
       mo_LockTimeout := (if mo_LockTimeout m = [] then ''5s'' else mo_LockTimeout m),
       mo_SchemaVersionTable := (if mo_SchemaVersionTable m = [] then ''public.schema_version'' else mo_SchemaVersionTable m)\<rparr>"

section \<open>One migration\<close>

record 'w tern =
  tn_Connect :: "'w \<Rightarrow> (gerr + nat) \<times> 'w"
  tn_Exec :: "nat \<Rightarrow> string \<Rightarrow> 'w \<Rightarrow> gerr option \<times> 'w"
  tn_Close :: "nat \<Rightarrow> 'w \<Rightarrow> gerr option \<times> 'w"
  tn_NewMigrator :: "nat \<Rightarrow> string \<Rightarrow> 'w \<Rightarrow> gerr option \<times> 'w"
  tn_LoadMigrations :: "string \<Rightarrow> 'w \<Rightarrow> (gerr + nat) \<times> 'w"
  tn_GetCurrentVersion :: "'w \<Rightarrow> (gerr + 32 word) \<times> 'w"
  tn_Migrate :: "'w \<Rightarrow> gerr option \<times> 'w"
  tn_MigrateTo :: "32 word \<Rightarrow> 'w \<Rightarrow> gerr option \<times> 'w"

text \<open>The state: the world, and the connections that are open.\<close>

record 'w mig =
  mg_world :: 'w
  mg_open :: "nat list"

text \<open>A function returns, or the process exits.\<close>

datatype 'a proc = Returns 'a | Exits

definition on_mig :: "('w \<Rightarrow> 'a \<times> 'w) \<Rightarrow> 'w mig \<Rightarrow> 'a \<times> 'w mig" where
  "on_mig f s = (let (a, w) = f (mg_world s) in (a, s\<lparr>mg_world := w\<rparr>))"

text \<open>\<open>strconv.ParseInt(d, 10, 32)\<close>.\<close>

definition ParseInt32 :: "string \<Rightarrow> int option" where
  "ParseInt32 d = (case ParseInt64 d of Some v \<Rightarrow> if - (2 ^ 31) \<le> v \<and> v < 2 ^ 31 then Some v else None | None \<Rightarrow> None)"

definition mustParseDestination :: "string \<Rightarrow> (32 word) proc" where
  "mustParseDestination d = (case ParseInt32 d of None \<Rightarrow> Exits | Some n \<Rightarrow> Returns (word_of_int n))"

text \<open>What a destination asks for: all migrations, or the versions to go to one after the other.\<close>

datatype plan = Latest | Targets "32 word list"

definition destination_plan :: "string \<Rightarrow> 32 word \<Rightarrow> plan proc" where
  "destination_plan destination currentVersion =
     (if destination = ''last'' then Returns Latest
      else if length destination \<ge> 3 \<and> take 2 destination = ''-+'' then
        (case mustParseDestination (drop 2 destination) of
           Exits \<Rightarrow> Exits | Returns n \<Rightarrow> Returns (Targets [currentVersion - n, currentVersion]))
      else if length destination \<ge> 2 \<and> destination ! 0 = CHR ''-'' then
        (case mustParseDestination (drop 1 destination) of Exits \<Rightarrow> Exits | Returns n \<Rightarrow> Returns (Targets [currentVersion - n]))
      else if length destination \<ge> 2 \<and> destination ! 0 = CHR ''+'' then
        (case mustParseDestination (drop 1 destination) of Exits \<Rightarrow> Exits | Returns n \<Rightarrow> Returns (Targets [currentVersion + n]))
      else (case mustParseDestination destination of Exits \<Rightarrow> Exits | Returns n \<Rightarrow> Returns (Targets [n])))"

fun migrate_to_all :: "'w tern \<Rightarrow> 32 word list \<Rightarrow> 'w mig \<Rightarrow> gerr option \<times> 'w mig" where
  "migrate_to_all T [] s = (None, s)"
| "migrate_to_all T (v # vs) s =
     (case on_mig (tn_MigrateTo T v) s of (Some err, s') \<Rightarrow> (Some err, s') | (None, s') \<Rightarrow> migrate_to_all T vs s')"

definition run_plan :: "'w tern \<Rightarrow> plan \<Rightarrow> 'w mig \<Rightarrow> gerr option \<times> 'w mig" where
  "run_plan T p s = (case p of Latest \<Rightarrow> on_mig (tn_Migrate T) s | Targets vs \<Rightarrow> migrate_to_all T vs s)"

definition migrations_dir :: "string \<Rightarrow> string" where
  "migrations_dir path = trim_right (\<lambda>c. c = CHR ''/'') path @ ''/migrations/''"

text \<open>The part of \<open>migrateWithTern\<close> after the deferred closing of the connection has been set up.\<close>

definition migrate_with_conn :: "'w tern \<Rightarrow> MigrateOpts \<Rightarrow> nat \<Rightarrow> 'w mig \<Rightarrow> (gerr option) proc \<times> 'w mig" where
  "migrate_with_conn T opts conn s0 =
     (case on_mig (tn_NewMigrator T conn (mo_SchemaVersionTable opts)) s0 of
        (Some err, s) \<Rightarrow> (Returns (Some (FmtWrap ''could not create migrator'' err)), s)
      | (None, s1) \<Rightarrow>
          (case on_mig (tn_LoadMigrations T (migrations_dir (mo_PathToDBDir opts))) s1 of
             (Inl err, s) \<Rightarrow> (Returns (Some (FmtWrap ''could not load migrations'' err)), s)
           | (Inr n, s2) \<Rightarrow>
               if n = 0 then (Returns (Some (ErrNew ''no migrations found'')), s2)
               else
                 (case on_mig (tn_GetCurrentVersion T) s2 of
                    (Inl err, s) \<Rightarrow> (Returns (Some (FmtWrap ''could not get current version'' err)), s)
                  | (Inr currentVersion, s3) \<Rightarrow>
                      (case destination_plan (mo_Destination opts) currentVersion of
                         Exits \<Rightarrow> (Exits, s3)
                       | Returns p \<Rightarrow> (let (err, s) = run_plan T p s3 in (Returns err, s))))))"

definition close_conn :: "'w tern \<Rightarrow> nat \<Rightarrow> 'w mig \<Rightarrow> 'w mig" where
  "close_conn T conn s = (let (_, s') = on_mig (tn_Close T conn) s in s'\<lparr>mg_open := remove1 conn (mg_open s')\<rparr>)"

definition migrateWithTern :: "'w tern \<Rightarrow> MigrateOpts \<Rightarrow> 'w mig \<Rightarrow> (gerr option) proc \<times> 'w mig" where
  "migrateWithTern T opts s =
     (case on_mig (tn_Connect T) s of
        (Inl err, s') \<Rightarrow> (Returns (Some (FmtWrap ''could not connect to postgres database'' err)), s')
      | (Inr conn, s') \<Rightarrow>
          (let s1 = s'\<lparr>mg_open := conn # mg_open s'\<rparr>
           in case on_mig (tn_Exec T conn (''SET lock_timeout='' @ [CHR 0x27] @ mo_LockTimeout opts @ [CHR 0x27])) s1 of
                (Some err, s2) \<Rightarrow> (Returns (Some (FmtWrap ''could not set lock_timeout'' err)), s2)
              | (None, s2) \<Rightarrow>
                  (case migrate_with_conn T opts conn s2 of
                     (Exits, s3) \<Rightarrow> (Exits, s3)
                   | (Returns err, s3) \<Rightarrow> (Returns err, close_conn T conn s3))))"

section \<open>Retried migrations\<close>

abbreviation ErrLockNotAcquired :: sentinel where "ErrLockNotAcquired \<equiv> NamedError ''database lock not acquired''"
abbreviation ErrDbVersionIsNewer :: sentinel where
  "ErrDbVersionIsNewer \<equiv> NamedError ''database version is newer than image database version''"

text \<open>The error the repeated function returns, which is retried, and the value of \<open>returnErr\<close>. \<open>bv\<close> makes
  a \<open>BadVersionError\<close> of its text; the variable \<open>bvErr\<close> starts as the one with the empty text.\<close>

definition classify ::
    "(gerr \<Rightarrow> string option) \<Rightarrow> (gerr \<Rightarrow> string option) \<Rightarrow> (string \<Rightarrow> gerr) \<Rightarrow> gerr option \<Rightarrow> gerr option \<Rightarrow>
     gerr option \<times> gerr option" where
  "classify sel_pg sel_bv bv returnErr err0 =
     (case err0 of
        None \<Rightarrow> (None, returnErr)
      | Some err \<Rightarrow>
          (case errors_As sel_pg err of
             Some code \<Rightarrow>
               if code = ''55P03'' then (Some (Joined [Sentinel ErrLockNotAcquired, bv []]), returnErr)
               else if code = ''40P01'' then (Some (Joined [Sentinel ErrLockNotAcquired, bv []]), returnErr)
               else (None, Some err)
           | None \<Rightarrow>
               (case errors_As sel_bv err of
                  Some text \<Rightarrow>
                    if str_contains text ''current version'' then (None, Some (Joined [Sentinel ErrDbVersionIsNewer, bv text]))
                    else (None, Some err)
                | None \<Rightarrow> (None, Some err))))"

definition migrate_action ::
    "'w tern \<Rightarrow> (gerr \<Rightarrow> string option) \<Rightarrow> (gerr \<Rightarrow> string option) \<Rightarrow> (string \<Rightarrow> gerr) \<Rightarrow> MigrateOpts \<Rightarrow>
     gerr option \<times> 'w mig \<Rightarrow> (gerr option) proc \<times> gerr option \<times> 'w mig" where
  "migrate_action T sel_pg sel_bv bv opts = (\<lambda>(returnErr, s).
     case migrateWithTern T opts s of
       (Exits, s') \<Rightarrow> (Exits, returnErr, s')
     | (Returns err, s') \<Rightarrow> (let (e, ret) = classify sel_pg sel_bv bv returnErr err in (Returns e, ret, s')))"

text \<open>\<open>Migrate\<close>: \<open>retry_Do\<close> repeats the action; the process may exit meanwhile.\<close>

definition Migrate ::
    "'w tern \<Rightarrow> (gerr \<Rightarrow> string option) \<Rightarrow> (gerr \<Rightarrow> string option) \<Rightarrow> (string \<Rightarrow> gerr) \<Rightarrow>
     ((gerr option \<times> 'w mig \<Rightarrow> (gerr option) proc \<times> gerr option \<times> 'w mig) \<Rightarrow> gerr option \<times> 'w mig \<Rightarrow>
       (gerr option) proc \<times> gerr option \<times> 'w mig) \<Rightarrow>
     MigrateOpts \<Rightarrow> 'w mig \<Rightarrow> (gerr option) proc \<times> 'w mig" where
  "Migrate T sel_pg sel_bv bv retry_Do opts s =
     (case retry_Do (migrate_action T sel_pg sel_bv bv (SetDefaults opts)) (None, s) of
        (Exits, _, s') \<Rightarrow> (Exits, s')
      | (Returns (Some err), _, s') \<Rightarrow> (Returns (Some err), s')
      | (Returns None, returnErr, s') \<Rightarrow> (Returns returnErr, s'))"

section \<open>Dumps\<close>

definition omitLineStart :: "string list" where
  "omitLineStart = [''SELECT '', ''SET '', ''--'']"

definition omitByLineStart :: "string \<Rightarrow> bool" where
  "omitByLineStart line = list_ex (has_prefix line) omitLineStart"

definition omitBySubstring :: "string \<Rightarrow> bool" where
  "omitBySubstring line = str_contains line ''OWNER TO postgres''"

fun filter_lines :: "bool \<Rightarrow> string list \<Rightarrow> string list" where
  "filter_lines omittingEmpty [] = []"
| "filter_lines omittingEmpty (line # ls) =
     (if omitByLineStart line then filter_lines omittingEmpty ls
      else if omitBySubstring line then filter_lines omittingEmpty ls
      else if line = [] then (if omittingEmpty then filter_lines omittingEmpty ls else line # filter_lines True ls)
      else line # filter_lines False ls)"

definition filterOutPGDumpInfo :: "string \<Rightarrow> string" where
  "filterOutPGDumpInfo info = TrimSpace (join [CHR 0x0A] (filter_lines False (split_byte (CHR 0x0A) info)))"

text \<open>\<open>pgDump\<close>: \<open>run\<close> runs the command with its arguments and gives its output, or the output and the error.\<close>

abbreviation errPgDumpNoConnection :: sentinel where "errPgDumpNoConnection \<equiv> NamedError ''connection error''"

definition pgDump :: "(string list \<Rightarrow> (string \<times> gerr) + string) \<Rightarrow> string list \<Rightarrow> gerr + string" where
  "pgDump run args =
     (case run args of
        Inr output \<Rightarrow> Inr output
      | Inl (output, e) \<Rightarrow>
          (let err = WithFieldsErr (FmtWrap ''pg_dump failed'' e) [\<lparr>f_key = ''output'', f_value = ByteStringType output\<rparr>]
           in if str_contains output ''Is the server running''
              then Inl (Joined [Sentinel errPgDumpNoConnection, err])
              else Inl err))"

definition dump_args :: "string \<Rightarrow> string list" where
  "dump_args dsn = [''--dbname'', dsn, ''--schema-only'', ''--no-comments'', ''--no-tablespaces'']"

definition FormattedPgDump :: "(string list \<Rightarrow> (string \<times> gerr) + string) \<Rightarrow> string \<Rightarrow> gerr + string" where
  "FormattedPgDump run dsn =
     (case pgDump run (dump_args dsn) of
        Inr dump \<Rightarrow> Inr (filterOutPGDumpInfo dump)
      | Inl err \<Rightarrow>
          if errors_Is errPgDumpNoConnection err then
            (case pgDump run (dump_args (replace_first ''127.0.0.1'' ''host.docker.internal'' dsn)) of
               Inl attemptedErr \<Rightarrow> Inl (Joined [attemptedErr, err])
             | Inr dump \<Rightarrow> Inr (filterOutPGDumpInfo dump))
          else Inl err)"

section \<open>Destinations\<close>

lemma ParseInt32_show_nat: "n < 2 ^ 31 \<Longrightarrow> ParseInt32 (show_nat n) = Some (int n)"
  using ParseInt64_show_nat [of n] by (simp add: ParseInt32_def)

lemma show_nat_first: "\<exists>d ds. show_nat n = d # ds \<and> is_digit d"
  using show_nat_digits [of n] show_nat_nonempty [of n] by (cases "show_nat n") auto

text \<open>What the destinations mean: a number is a version, \<open>+n\<close> and \<open>-n\<close> are relative to the current version, and \<open>-+n\<close>
  goes down \<open>n\<close> versions and comes back; the arithmetic is that of 32 bit integers.\<close>

theorem destination_meaning:
  assumes "n < 2 ^ 31"
  shows "destination_plan (show_nat n) cur = Returns (Targets [of_nat n]) \<and>
    destination_plan (''+'' @ show_nat n) cur = Returns (Targets [cur + of_nat n]) \<and>
    destination_plan (''-'' @ show_nat n) cur = Returns (Targets [cur - of_nat n]) \<and>
    destination_plan (''-+'' @ show_nat n) cur = Returns (Targets [cur - of_nat n, cur])"
proof -
  obtain d ds where d: "show_nat n = d # ds" "is_digit d" using show_nat_first by blast
  then have "d \<noteq> CHR ''l''" "d \<noteq> CHR ''-''" "d \<noteq> CHR ''+''" by (auto simp: is_digit_def)
  moreover have "mustParseDestination (d # ds) = Returns (of_nat n)"
    using ParseInt32_show_nat [OF assms] d by (simp add: mustParseDestination_def)
  ultimately show ?thesis using d by (auto simp: destination_plan_def)
qed

theorem destination_meaning_witness:
  "destination_plan (''-+'' @ show_nat 2) 7 = Returns (Targets [5, 7])"
  using destination_meaning [of 2 7] by simp

section \<open>Connections and results\<close>

lemma migrate_to_all_open: "migrate_to_all T vs s = (e, s') \<Longrightarrow> mg_open s' = mg_open s"
  by (induction vs arbitrary: s) (auto simp: on_mig_def split: prod.splits option.splits)

lemma run_plan_open: "run_plan T p s = (e, s') \<Longrightarrow> mg_open s' = mg_open s"
  by (auto simp: run_plan_def on_mig_def dest: migrate_to_all_open split: plan.splits prod.splits)

lemma migrate_with_conn_open: "migrate_with_conn T opts conn s = (r, s') \<Longrightarrow> mg_open s' = mg_open s"
  by (auto simp: migrate_with_conn_def on_mig_def Let_def dest!: run_plan_open
      split: prod.splits option.splits sum.splits if_splits proc.splits)

text \<open>A migration that returns has closed its connection, whatever failed, unless the lock timeout could not be set: then the connection
  stays open.\<close>

theorem migration_closes_connection:
  assumes "migrateWithTern T opts s = (Returns err, s')"
  shows "mg_open s' = mg_open s \<or>
    (\<exists>conn e. err = Some (FmtWrap ''could not set lock_timeout'' e) \<and> mg_open s' = conn # mg_open s)"
proof -
  consider (no_conn) e w where "tn_Connect T (mg_world s) = (Inl e, w)" | (conn) conn w where "tn_Connect T (mg_world s) = (Inr conn, w)"
    by (metis prod.exhaust sum.exhaust)
  then show ?thesis
  proof cases
    case no_conn
    then show ?thesis using assms by (auto simp: migrateWithTern_def on_mig_def)
  next
    case conn
    let ?s1 = "s\<lparr>mg_world := w, mg_open := conn # mg_open s\<rparr>"
    obtain oe s2 where e: "on_mig (tn_Exec T conn (''SET lock_timeout='' @ [CHR 0x27] @ mo_LockTimeout opts @ [CHR 0x27])) ?s1 = (oe, s2)" by force
    then have s2: "mg_open s2 = conn # mg_open s" by (auto simp: on_mig_def split: prod.splits)
    obtain r s3 where m: "migrate_with_conn T opts conn s2 = (r, s3)" by force
    with s2 have s3: "mg_open s3 = conn # mg_open s" using migrate_with_conn_open by fastforce
    show ?thesis
      using assms conn e m s2 s3
      by (cases oe; cases r)
        (auto simp: migrateWithTern_def on_mig_def [of "tn_Connect T"] close_conn_def on_mig_def [of "tn_Close T conn"] Let_def split: prod.splits)
  qed
qed

definition idle_tern :: "unit tern" where
  "idle_tern = \<lparr>tn_Connect = (\<lambda>w. (Inr 1, w)), tn_Exec = (\<lambda>_ _ w. (None, w)), tn_Close = (\<lambda>_ w. (None, w)),
     tn_NewMigrator = (\<lambda>_ _ w. (None, w)), tn_LoadMigrations = (\<lambda>_ w. (Inr 3, w)), tn_GetCurrentVersion = (\<lambda>w. (Inr 2, w)),
     tn_Migrate = (\<lambda>w. (Some (PgErr ''55P03'' ''lock''), w)), tn_MigrateTo = (\<lambda>_ w. (None, w))\<rparr>"

definition sample_opts :: MigrateOpts where
  "sample_opts = \<lparr>mo_PathToDBDir = ''db/'', mo_Destination = ''last'', mo_LockTimeout = ''1s'', mo_SchemaVersionTable = ''v''\<rparr>"

theorem migration_closes_connection_witness:
  "\<exists>s'. migrateWithTern idle_tern sample_opts \<lparr>mg_world = (), mg_open = []\<rparr> = (Returns (Some (PgErr ''55P03'' ''lock'')), s') \<and> mg_open s' = []"
proof -
  have "\<exists>s'. migrateWithTern idle_tern sample_opts \<lparr>mg_world = (), mg_open = []\<rparr> = (Returns (Some (PgErr ''55P03'' ''lock'')), s')"
    by (simp add: migrateWithTern_def migrate_with_conn_def on_mig_def idle_tern_def sample_opts_def destination_plan_def run_plan_def)
  then obtain s' where run: "migrateWithTern idle_tern sample_opts \<lparr>mg_world = (), mg_open = []\<rparr> = (Returns (Some (PgErr ''55P03'' ''lock'')), s')" ..
  from migration_closes_connection [OF run] run show ?thesis by auto
qed

text \<open>What is known of \<open>retry.Do\<close>: it runs the action until it succeeds or the attempts are used up.\<close>

fun tries :: "nat \<Rightarrow> ('s \<Rightarrow> (gerr option) proc \<times> 's) \<Rightarrow> 's \<Rightarrow> (gerr option) proc \<times> 's" where
  "tries 0 act st = act st"
| "tries (Suc k) act st = (case act st of (Returns (Some e), st') \<Rightarrow> tries k act st' | r \<Rightarrow> r)"

lemma tries_last:
  assumes "tries k (migrate_action T sel_pg sel_bv bv opts) (None, s) = (Returns r, ret, s')"
  shows "\<exists>s1 e. migrateWithTern T opts s1 = (Returns e, s') \<and> classify sel_pg sel_bv bv None e = (r, ret)"
  using assms
proof (induction k arbitrary: s)
  case 0
  then show ?case by (auto simp: migrate_action_def split: prod.splits proc.splits)
next
  case (Suc k)
  obtain p s1 where m: "migrateWithTern T opts s = (p, s1)" by force
  show ?case
  proof (cases p)
    case Exits
    then show ?thesis using Suc.prems m by (simp add: migrate_action_def)
  next
    case (Returns e)
    obtain a b where c: "classify sel_pg sel_bv bv None e = (a, b)" by force
    have "b = None" if "a \<noteq> None"
      using c that by (auto simp: classify_def split: option.splits if_splits)
    then show ?thesis
      using Suc.prems Suc.IH [of s1] m Returns c by (cases a) (auto simp: migrate_action_def)
  qed
qed

text \<open>\<open>Migrate\<close> reports success only if its last attempt succeeded. A lock that could not be taken or a deadlock in the last
  attempt gives the error \<open>ErrLockNotAcquired\<close>, a database that is newer than the image the error
  \<open>ErrDbVersionIsNewer\<close>; every other error is returned as it is.\<close>

theorem Migrate_result:
  assumes "\<forall>act st. \<exists>k. retry_Do act st = tries k act st"
    and "Migrate T sel_pg sel_bv bv retry_Do opts s = (Returns r, s')"
  shows "\<exists>s1 e. migrateWithTern T (SetDefaults opts) s1 = (Returns e, s') \<and> (r = None \<longleftrightarrow> e = None) \<and>
    (\<forall>err. e = Some err \<longrightarrow>
      r = Some (if errors_As sel_pg err \<in> {Some ''55P03'', Some ''40P01''} then Joined [Sentinel ErrLockNotAcquired, bv []]
        else if errors_As sel_pg err = None \<and> (\<exists>t. errors_As sel_bv err = Some t \<and> str_contains t ''current version'')
        then Joined [Sentinel ErrDbVersionIsNewer, bv (the (errors_As sel_bv err))]
        else err))"
proof -
  let ?act = "migrate_action T sel_pg sel_bv bv (SetDefaults opts)"
  obtain k where k: "retry_Do ?act (None, s) = tries k ?act (None, s)" using assms(1) by blast
  obtain q ret where run: "tries k ?act (None, s) = (Returns q, ret, s')" and r: "r = (case q of Some e \<Rightarrow> Some e | None \<Rightarrow> ret)"
    using assms(2) k by (auto simp: Migrate_def split: prod.splits proc.splits option.splits)
  from tries_last [OF run] obtain s1 e where m: "migrateWithTern T (SetDefaults opts) s1 = (Returns e, s')"
    and c: "classify sel_pg sel_bv bv None e = (q, ret)" by blast
  show ?thesis
    by (rule exI [of _ s1], rule exI [of _ e]) (use m c r in \<open>auto simp: classify_def split: option.splits if_splits\<close>)
qed

theorem Migrate_result_witness:
  "\<exists>r s'. Migrate idle_tern (\<lambda>e. case e of PgErr c _ \<Rightarrow> Some c | _ \<Rightarrow> None) (\<lambda>_. None) ErrNew (tries 2) sample_opts
      \<lparr>mg_world = (), mg_open = []\<rparr> = (Returns (Some r), s') \<and> errors_Is ErrLockNotAcquired r"
proof -
  let ?sel = "\<lambda>e. case e of PgErr c _ \<Rightarrow> Some c | _ \<Rightarrow> None"
  have each: "\<exists>s2. migrateWithTern idle_tern (SetDefaults sample_opts) s1 = (Returns (Some (PgErr ''55P03'' ''lock'')), s2)" for s1
    by (simp add: migrateWithTern_def migrate_with_conn_def on_mig_def idle_tern_def sample_opts_def SetDefaults_def destination_plan_def run_plan_def)
  obtain p s' where run: "Migrate idle_tern ?sel (\<lambda>_. None) ErrNew (tries 2) sample_opts \<lparr>mg_world = (), mg_open = []\<rparr> = (p, s')" by force
  have "\<exists>r. p = Returns r"
    using run by (cases p) (auto simp: Migrate_def numeral_2_eq_2 migrate_action_def migrateWithTern_def migrate_with_conn_def on_mig_def
        idle_tern_def sample_opts_def SetDefaults_def destination_plan_def run_plan_def classify_def errors_As_chain Let_def)
  then obtain r where p: "p = Returns r" ..
  from Migrate_result [OF _ run [unfolded p]] obtain s1 e where
    e: "migrateWithTern idle_tern (SetDefaults sample_opts) s1 = (Returns e, s')"
    and r: "\<forall>err. e = Some err \<longrightarrow> r = Some (if errors_As ?sel err \<in> {Some ''55P03'', Some ''40P01''} then Joined [Sentinel ErrLockNotAcquired, ErrNew []]
        else if errors_As ?sel err = None \<and> (\<exists>t. errors_As (\<lambda>_. None) err = Some t \<and> str_contains t ''current version'')
        then Joined [Sentinel ErrDbVersionIsNewer, ErrNew (the (errors_As (\<lambda>_. None) err))] else err)"
    by auto
  from each [of s1] e have "e = Some (PgErr ''55P03'' ''lock'')" by auto
  with r have "r = Some (Joined [Sentinel ErrLockNotAcquired, ErrNew []])" by (simp add: errors_As_chain)
  with run p show ?thesis by (auto simp: errors_Is_chain)
qed

text \<open>The error for a lock that was not acquired holds an empty \<open>BadVersionError\<close> in place of the error of the
  database: a caller that looks for one finds it.\<close>

theorem lock_error_is_bad_version:
  assumes "errors_As sel_pg err = Some ''55P03''" and "sel_bv (bv []) = Some []" and "children (bv []) = []"
    and "sel_bv (Sentinel ErrLockNotAcquired) = None" and "\<And>es. sel_bv (Joined es) = None"
  shows "\<exists>e. classify sel_pg sel_bv bv ret (Some err) = (Some e, ret) \<and> errors_As sel_bv e = Some []"
  using assms by (simp add: classify_def errors_As.simps [of _ "Joined _"] errors_As.simps [of _ "bv []"] errors_As.simps [of _ "Sentinel _"])

section \<open>The lines of a dump\<close>

definition omitted :: "string \<Rightarrow> bool" where
  "omitted line \<longleftrightarrow> omitByLineStart line \<or> omitBySubstring line"

lemma filter_lines_kept:
  "filter (\<lambda>l. l \<noteq> []) (filter_lines b ls) = filter (\<lambda>l. l \<noteq> [] \<and> \<not> omitted l) ls"
  by (induction b ls rule: filter_lines.induct) (auto simp: omitted_def)

lemma filter_lines_none_omitted: "list_all (\<lambda>l. \<not> omitted l) (filter_lines b ls)"
  by (induction b ls rule: filter_lines.induct) (auto simp: omitted_def)

lemma filter_lines_no_double_empty:
  "(b \<longrightarrow> filter_lines b ls = [] \<or> hd (filter_lines b ls) \<noteq> []) \<and> successively (\<lambda>x y. x \<noteq> [] \<or> y \<noteq> []) (filter_lines b ls)"
proof (induction b ls rule: filter_lines.induct)
  case (2 b line ls)
  then show ?case by (auto simp: successively_Cons)
qed simp

text \<open>A formatted dump has the lines of the dump that are neither comments nor settings nor about the owner, all of them and in their
  order; of the empty lines it keeps enough to have no two in a row, and the text has no space around it.\<close>

theorem dump_lines:
  "\<exists>ls. filterOutPGDumpInfo info = TrimSpace (join [CHR 0x0A] ls) \<and>
    filter (\<lambda>l. l \<noteq> []) ls = filter (\<lambda>l. l \<noteq> [] \<and> \<not> omitted l) (split_byte (CHR 0x0A) info) \<and>
    list_all (\<lambda>l. \<not> omitted l) ls \<and> successively (\<lambda>x y. x \<noteq> [] \<or> y \<noteq> []) ls"
  unfolding filterOutPGDumpInfo_def
  using filter_lines_kept filter_lines_none_omitted filter_lines_no_double_empty by blast

end
