(* ===== verification/Earthquakes.thy ===== *)
theory Earthquakes
  imports Go_Error
begin

text \<open>
  The earthquakes client (\<open>client/earthquakes/datagovcy\<close>): the latest events of an RSS feed whose items
  are HTML tables.

  Parameters: the HTTP call, the decoding of the feed, the HTML parser, \<open>fmt.Sscanf\<close> on coordinates and magnitudes,
  \<open>time.Parse\<close>, the comparison of magnitudes (32 bit floats), the lower case of a text, its
  code points (each given by its bytes) and which of them are letters.
\<close>

section \<open>Data\<close>

record ('c, 'm) Earthquake =
  eq_Magnitude :: 'm
  eq_When :: "go_time option"
  eq_Location :: string
  eq_Position :: "'c \<times> 'c"

text \<open>A node of the parsed HTML: the name of its element if it is one, its data and its children.\<close>

datatype html = Node (h_elem: "string option") (h_data: string) (h_children: "html list")

record ('c, 'm) quake_lib =
  ql_time_Parse :: "string \<Rightarrow> gerr + go_time"
  ql_scan_position :: "string \<Rightarrow> gerr + (nat \<times> 'c \<times> 'c)"
  ql_scan_magnitude :: "string \<Rightarrow> gerr + (nat \<times> 'm)"
  ql_ToLower :: "string \<Rightarrow> string"
  ql_runes :: "string \<Rightarrow> string list"
  ql_IsLetter :: "string \<Rightarrow> bool"
  ql_less :: "'m \<Rightarrow> 'm \<Rightarrow> bool"
  ql_zero :: "('c, 'm) Earthquake"
  ql_ParseFragment :: "string \<Rightarrow> gerr + html list"

text \<open>The time of an item of the feed: an empty one is left as it was.\<close>

definition UnmarshalXML :: "(string \<Rightarrow> gerr + go_time) \<Rightarrow> gerr + string \<Rightarrow> go_time option \<Rightarrow> gerr + go_time option" where
  "UnmarshalXML rfc1123 decoded t =
     (case decoded of
        Inl err \<Rightarrow> Inl (FmtWrap ''decoding xml time string'' err)
      | Inr s \<Rightarrow>
          if length s = 0 then Inr t
          else (case rfc1123 s of
                  Inl err \<Rightarrow> Inl (FmtWrap ''parsing xml time'' err)
                | Inr v \<Rightarrow> Inr (Some v)))"

section \<open>Tables\<close>

fun findNode :: "string \<Rightarrow> html \<Rightarrow> html option" and findNodes :: "string \<Rightarrow> html list \<Rightarrow> html option" where
  "findNode elem (Node e d cs) = (if e = Some elem then Some (Node e d cs) else findNodes elem cs)"
| "findNodes elem [] = None"
| "findNodes elem (c # cs) = (case findNode elem c of Some m \<Rightarrow> Some m | None \<Rightarrow> findNodes elem cs)"

text \<open>\<open>strings.TrimFunc\<close> on the code points of a text.\<close>

definition TrimFunc :: "(string \<Rightarrow> bool) \<Rightarrow> string list \<Rightarrow> string" where
  "TrimFunc P rs = concat (rev (dropWhile P (rev (dropWhile P rs))))"

text \<open>The update of the event by one row, by the name in its header. A time that cannot be parsed gives the zero time, and
  its error is dropped.\<close>

definition row_value :: "('c, 'm) quake_lib \<Rightarrow> string \<Rightarrow> string \<Rightarrow> ('c, 'm) Earthquake \<Rightarrow> gerr + ('c, 'm) Earthquake" where
  "row_value L thData tdData eq =
     (if thData = ''time'' then Inr (eq\<lparr>eq_When := (case ql_time_Parse L tdData of Inr t \<Rightarrow> Some t | Inl _ \<Rightarrow> None)\<rparr>)
      else if thData = ''position'' then
        (case ql_scan_position L tdData of
           Inl err \<Rightarrow> Inl (FmtWrap ''scanning coordinate data'' err)
         | Inr (n, lat, long) \<Rightarrow>
             if n \<noteq> 2 then Inl (ErrNew ''invalid format of scanned coordinate data'') else Inr (eq\<lparr>eq_Position := (lat, long)\<rparr>))
      else if thData = ''major place'' then Inr (eq\<lparr>eq_Location := tdData\<rparr>)
      else if thData = ''magnitude'' then
        (case ql_scan_magnitude L tdData of
           Inl err \<Rightarrow> Inl (FmtWrap ''scanning magnitude data'' err)
         | Inr (n, m) \<Rightarrow>
             if n \<noteq> 1 then Inl (ErrNew ''invalid format of scanned magnitude data'') else Inr (eq\<lparr>eq_Magnitude := m\<rparr>))
      else Inr eq)"

text \<open>What \<open>f\<close> does at a row: \<open>None\<close> when it has no header or no cell and \<open>f\<close> returns without looking at
  its children.\<close>

definition row_step :: "('c, 'm) quake_lib \<Rightarrow> html \<Rightarrow> ('c, 'm) Earthquake \<Rightarrow> (gerr + ('c, 'm) Earthquake) option" where
  "row_step L n eq =
     (case (findNode ''th'' n, findNode ''td'' n) of
        (Some th, Some td) \<Rightarrow>
          (case (h_children th, h_children td) of
             (t # _, d # _) \<Rightarrow>
               Some (row_value L (TrimFunc (\<lambda>r. \<not> ql_IsLetter L r) (ql_runes L (ql_ToLower L (h_data t)))) (h_data d) eq)
           | _ \<Rightarrow> None)
      | _ \<Rightarrow> None)"

fun parse_node :: "('c, 'm) quake_lib \<Rightarrow> html \<Rightarrow> ('c, 'm) Earthquake \<Rightarrow> gerr + ('c, 'm) Earthquake"
  and parse_nodes :: "('c, 'm) quake_lib \<Rightarrow> html list \<Rightarrow> ('c, 'm) Earthquake \<Rightarrow> gerr + ('c, 'm) Earthquake" where
  "parse_node L (Node e d cs) eq =
     (if e = Some ''tr'' then
        (case row_step L (Node e d cs) eq of
           None \<Rightarrow> Inr eq
         | Some r \<Rightarrow> bind_sum r (\<lambda>eq'. parse_nodes L cs eq'))
      else parse_nodes L cs eq)"
| "parse_nodes L [] eq = Inr eq"
| "parse_nodes L (c # cs) eq = bind_sum (parse_node L c eq) (\<lambda>eq'. parse_nodes L cs eq')"

definition parseDesc :: "('c, 'm) quake_lib \<Rightarrow> string \<Rightarrow> gerr + ('c, 'm) Earthquake" where
  "parseDesc L data =
     (case ql_ParseFragment L (filter (\<lambda>c. c \<noteq> CHR 0x0A) data) of
        Inl err \<Rightarrow> Inl (FmtWrap ''parsing html doc'' err)
      | Inr tree \<Rightarrow> parse_nodes L tree (ql_zero L))"

section \<open>The latest events\<close>

abbreviation ErrNegativeEarthquakes :: sentinel where "ErrNegativeEarthquakes \<equiv> NamedError ''n cannot be negative''"

text \<open>\<open>make\<close> panics for a capacity that does not fit into the address space: an event takes 64 bytes of \<open>2^48\<close>.\<close>

definition max_events :: int where "max_events = 2 ^ 42"

fun collect ::
    "('c, 'm) quake_lib \<Rightarrow> nat \<Rightarrow> 'm \<Rightarrow> string list \<Rightarrow> ('c, 'm) Earthquake list \<Rightarrow> gerr + ('c, 'm) Earthquake list" where
  "collect L n minMagnitude [] eqs = Inr eqs"
| "collect L n minMagnitude (v # vs) eqs =
     (if length eqs < n then
        (case parseDesc L v of
           Inl err \<Rightarrow> Inl (FmtWrap ''unmarshal datagovcy description'' err)
         | Inr eq \<Rightarrow>
             if ql_less L (eq_Magnitude eq) minMagnitude then collect L n minMagnitude vs eqs
             else collect L n minMagnitude vs (eqs @ [eq]))
      else Inr eqs)"

text \<open>\<open>newReq\<close> is the error of building the request; \<open>do\<close> is the response's status with its body; \<open>decode\<close> gives the descriptions of the
  feed's items.\<close>

definition LatestNEarthquakes ::
    "('c, 'm) quake_lib \<Rightarrow> gerr option \<Rightarrow> gerr + (nat \<times> 'b) \<Rightarrow> ('b \<Rightarrow> gerr + string list) \<Rightarrow> int \<Rightarrow> 'm \<Rightarrow>
     (gerr + ('c, 'm) Earthquake list) panics" where
  "LatestNEarthquakes L newReq response decode n minMagnitude =
     (if n < 0 then Inr (Inl (Sentinel ErrNegativeEarthquakes))
      else case newReq of
        Some err \<Rightarrow> Inr (Inl err)
      | None \<Rightarrow>
          (case response of
             Inl err \<Rightarrow> Inr (Inl err)
           | Inr (status, body) \<Rightarrow>
               if status \<noteq> 200 then Inr (Inl (ErrNew (''get earthquakes, unexpected status code: '' @ show_nat status)))
               else case decode body of
                 Inl err \<Rightarrow> Inr (Inl (FmtWrap ''decoding xml response body'' err))
               | Inr items \<Rightarrow>
                   if n > max_events then Inl ''makeslice: cap out of range''
                   else Inr (collect L (nat n) minMagnitude items [])))"

section \<open>Reading a table is going through its rows\<close>

fun preorder :: "html \<Rightarrow> html list" and preorders :: "html list \<Rightarrow> html list" where
  "preorder (Node e d cs) = Node e d cs # preorders cs"
| "preorders [] = []"
| "preorders (c # cs) = preorder c @ preorders cs"

lemma findNode_first_both:
  "findNode elem n = find (\<lambda>m. h_elem m = Some elem) (preorder n)"
  "findNodes elem ns = find (\<lambda>m. h_elem m = Some elem) (preorders ns)"
proof (induction n and ns rule: preorder_preorders.induct)
  case (1 e d cs)
  then show ?case by simp
qed (auto simp: find_append split: option.splits)

text \<open>The rows of a table without tables inside its rows, and the loop over them.\<close>

fun row_loop :: "('c, 'm) quake_lib \<Rightarrow> html list \<Rightarrow> ('c, 'm) Earthquake \<Rightarrow> gerr + ('c, 'm) Earthquake" where
  "row_loop L [] eq = Inr eq"
| "row_loop L (r # rs) eq =
     (case row_step L r eq of None \<Rightarrow> row_loop L rs eq | Some res \<Rightarrow> bind_sum res (\<lambda>eq'. row_loop L rs eq'))"

definition is_tr :: "html \<Rightarrow> bool" where "is_tr n \<longleftrightarrow> h_elem n = Some ''tr''"

text \<open>No row lies inside another one.\<close>

definition flat :: "html list \<Rightarrow> bool" where
  "flat ns \<longleftrightarrow> (\<forall>m \<in> set (preorders ns). is_tr m \<longrightarrow> filter is_tr (preorders (h_children m)) = [])"

lemma row_loop_append: "row_loop L (xs @ ys) eq = bind_sum (row_loop L xs eq) (\<lambda>eq'. row_loop L ys eq')"
proof (induction xs arbitrary: eq)
  case (Cons x xs)
  show ?case
  proof (cases "row_step L x eq")
    case None
    then show ?thesis using Cons by simp
  next
    case (Some r)
    then show ?thesis using Cons by (cases r) simp_all
  qed
qed simp

lemma parse_loop:
  "(\<forall>m \<in> set (preorder n). is_tr m \<longrightarrow> filter is_tr (preorders (h_children m)) = []) \<Longrightarrow>
     parse_node L n eq = row_loop L (filter is_tr (preorder n)) eq"
  "(\<forall>m \<in> set (preorders ns). is_tr m \<longrightarrow> filter is_tr (preorders (h_children m)) = []) \<Longrightarrow>
     parse_nodes L ns eq = row_loop L (filter is_tr (preorders ns)) eq"
proof (induction n and ns arbitrary: eq and eq rule: preorder_preorders.induct)
  case (1 e d cs)
  have sub: "parse_nodes L cs eq' = row_loop L (filter is_tr (preorders cs)) eq'" for eq' using 1 by simp
  show ?case
  proof (cases "e = Some ''tr''")
    case True
    then have row: "is_tr (Node e d cs)" by (simp add: is_tr_def)
    have "is_tr (Node e d cs) \<longrightarrow> filter is_tr (preorders (h_children (Node e d cs))) = []"
      using "1.prems" by (rule bspec) simp
    then have none: "filter is_tr (preorders cs) = []" using row by simp
    show ?thesis
    proof (cases "row_step L (Node e d cs) eq")
      case None
      then show ?thesis using True none row by simp
    next
      case (Some r)
      then show ?thesis using True none row sub by (cases r) simp_all
    qed
  next
    case False
    then have "\<not> is_tr (Node e d cs)" by (simp add: is_tr_def)
    then show ?thesis using False sub by simp
  qed
next
  case (3 c cs)
  then have "parse_nodes L cs = row_loop L (filter is_tr (preorders cs))" by (auto simp: ball_Un)
  with 3 show ?case by (simp add: row_loop_append ball_Un)
qed simp

text \<open>The description of an event is read as a list of rows: for tables whose rows hold no rows, the recursion over the HTML tree is
  the loop over the rows in document order, each taking the first header and the first cell below it.\<close>

theorem parseDesc_rows:
  assumes "ql_ParseFragment L (filter (\<lambda>c. c \<noteq> CHR 0x0A) data) = Inr tree" and "flat tree"
  shows "parseDesc L data = row_loop L (filter is_tr (preorders tree)) (ql_zero L) \<and>
    findNode elem n = find (\<lambda>m. h_elem m = Some elem) (preorder n)"
  using assms parse_loop(2) [of tree L "ql_zero L"] findNode_first_both(1) by (simp add: parseDesc_def flat_def)

section \<open>The events that are returned\<close>

lemma collect_spec:
  assumes "length eqs \<le> n" and "\<forall>v \<in> set vs. \<exists>q. parseDesc L v = Inr q"
  shows "collect L n mm vs eqs = Inr (take n (eqs @ filter (\<lambda>q. \<not> ql_less L (eq_Magnitude q) mm) (map (\<lambda>v. projr (parseDesc L v)) vs)))"
  using assms
proof (induction vs arbitrary: eqs)
  case (Cons v vs)
  from Cons.prems(2) obtain q where q: "parseDesc L v = Inr q" by auto
  have tl: "\<forall>v \<in> set vs. \<exists>q. parseDesc L v = Inr q" using Cons.prems(2) by simp
  show ?case
  proof (cases "length eqs < n")
    case True
    then show ?thesis
      using q Cons.IH [OF _ tl, of eqs] Cons.IH [OF _ tl, of "eqs @ [q]"] Cons.prems(1) by simp
  qed (use Cons.prems(1) in simp)
qed simp

text \<open>\<open>LatestNEarthquakes\<close> returns the first \<open>n\<close> events of the feed that are not below the given magnitude, in the order of
  the feed; a negative \<open>n\<close> is an error.\<close>

theorem latest_earthquakes:
  assumes "\<forall>v \<in> set items. \<exists>q. parseDesc L v = Inr q" and "n \<le> max_events"
  shows "LatestNEarthquakes L None (Inr (200, body)) (\<lambda>_. Inr items) n mm =
    Inr (if n < 0 then Inl (Sentinel ErrNegativeEarthquakes)
         else Inr (take (nat n) (filter (\<lambda>q. \<not> ql_less L (eq_Magnitude q) mm) (map (\<lambda>v. projr (parseDesc L v)) items))))"
  using assms collect_spec [of "[]" "nat n" items L mm] by (simp add: LatestNEarthquakes_def)

definition sample_lib :: "(nat, nat) quake_lib" where
  "sample_lib = \<lparr>ql_time_Parse = (\<lambda>_. Inr 0), ql_scan_position = (\<lambda>_. Inr (2, 35, 33)), ql_scan_magnitude = (\<lambda>s. Inr (1, length s)),
     ql_ToLower = (\<lambda>s. s), ql_runes = map (\<lambda>c. [c]), ql_IsLetter = (\<lambda>r. r \<noteq> '':''), ql_less = (<),
     ql_zero = \<lparr>eq_Magnitude = 0, eq_When = None, eq_Location = [], eq_Position = (0, 0)\<rparr>,
     ql_ParseFragment = (\<lambda>s. Inr [Node (Some ''tr'') [] [Node (Some ''th'') [] [Node None ''magnitude:'' []], Node (Some ''td'') [] [Node None s []]]])\<rparr>"

lemma sample_parse: "parseDesc sample_lib s = Inr ((ql_zero sample_lib)\<lparr>eq_Magnitude := length (filter (\<lambda>c. c \<noteq> CHR 0x0A) s)\<rparr>)"
  by (simp add: parseDesc_def sample_lib_def row_step_def row_value_def TrimFunc_def)

lemma sample_less: "ql_less sample_lib = (<)"
  by (simp add: sample_lib_def)

theorem latest_earthquakes_witness:
  "\<exists>qs. LatestNEarthquakes sample_lib None (Inr (200, ())) (\<lambda>_. Inr [''55555'', ''333'', ''4444'', ''666666'']) 2 4 = Inr (Inr qs) \<and>
     map eq_Magnitude qs = [5, 4]"
  using latest_earthquakes [of "[''55555'', ''333'', ''4444'', ''666666'']" sample_lib 2 "()" 4]
  by (simp add: sample_parse sample_less max_events_def)

theorem parseDesc_rows_witness:
  "parseDesc sample_lib ''55'' = row_loop sample_lib (filter is_tr (preorders (projr (ql_ParseFragment sample_lib ''55'')))) (ql_zero sample_lib)"
  using parseDesc_rows [of sample_lib "''55''" "projr (ql_ParseFragment sample_lib ''55'')"]
  by (simp add: sample_lib_def flat_def is_tr_def)

text \<open>A time that cannot be read does not make the event invalid: it is returned with the zero time.\<close>

theorem bad_time_ignored:
  "ql_time_Parse L d = Inl err \<Longrightarrow> row_value L ''time'' d eq = Inr (eq\<lparr>eq_When := None\<rparr>)"
  by (simp add: row_value_def)

end
