(* ===== verification/Buses.thy ===== *)
theory Buses
  imports Sql_Query Go_Error Complex_Main "HOL-Library.Multiset"
begin

text \<open>
  The bus client (\<open>internal/buses\<close>): the routes that are read from an embedded CSV file, the vehicles of a GTFS
  feed, and the search for the buses that come nearer to a point.

  Parameters: the operations on 64 bit floats (record \<open>floats\<close>), the conversion of the 32 bit floats of the feed, the CSV reader
  (the results of its successive calls up to the end of the file), the HTTP call and the
  decoding of the feed, and \<open>sort.Slice\<close>. What is used of the order of floats is locale \<open>float_order\<close>: a
  float is no NaN when it is \<open>\<le>\<close> itself.
\<close>

section \<open>Floats and distances\<close>

record 'f floats =
  fl_lt :: "'f \<Rightarrow> 'f \<Rightarrow> bool"
  fl_le :: "'f \<Rightarrow> 'f \<Rightarrow> bool"
  fl_add :: "'f \<Rightarrow> 'f \<Rightarrow> 'f"
  fl_sub :: "'f \<Rightarrow> 'f \<Rightarrow> 'f"
  fl_mul :: "'f \<Rightarrow> 'f \<Rightarrow> 'f"
  fl_div :: "'f \<Rightarrow> 'f \<Rightarrow> 'f"
  fl_num :: "nat \<Rightarrow> 'f"
  fl_Pi :: 'f
  fl_Sin :: "'f \<Rightarrow> 'f"
  fl_Cos :: "'f \<Rightarrow> 'f"
  fl_Sqrt :: "'f \<Rightarrow> 'f"
  fl_Atan2 :: "'f \<Rightarrow> 'f \<Rightarrow> 'f"

record 'f Dot =
  Lat :: 'f
  Long :: 'f

record Route =
  r_ID :: string
  r_ShortName :: string
  r_LongName :: string

record 'f Bus =
  b_ID :: string
  b_Route :: Route
  b_Position :: "'f Dot"

definition radians :: "'f floats \<Rightarrow> 'f \<Rightarrow> 'f" where
  "radians F x = fl_div F (fl_mul F x (fl_Pi F)) (fl_num F 180)"

definition sinTerm :: "'f floats \<Rightarrow> 'f Dot \<Rightarrow> 'f Dot \<Rightarrow> 'f" where
  "sinTerm F a b =
     (let phi1 = radians F (Lat a);
          phi2 = radians F (Lat b);
          deltaPhi = radians F (fl_sub F (Lat b) (Lat a));
          deltaLambda = radians F (fl_sub F (Long b) (Long a));
          two = fl_num F 2
      in fl_add F (fl_mul F (fl_Sin F (fl_div F deltaPhi two)) (fl_Sin F (fl_div F deltaPhi two)))
           (fl_mul F (fl_mul F (fl_mul F (fl_Cos F phi1) (fl_Cos F phi2)) (fl_Sin F (fl_div F deltaLambda two)))
              (fl_Sin F (fl_div F deltaLambda two))))"

definition CalculateDistance :: "'f floats \<Rightarrow> 'f Dot \<Rightarrow> 'f Dot \<Rightarrow> 'f" where
  "CalculateDistance F a b =
     (let s = sinTerm F a b;
          c = fl_mul F (fl_num F 2) (fl_Atan2 F (fl_Sqrt F s) (fl_Sqrt F (fl_sub F (fl_num F 1) s)))
      in fl_mul F (fl_num F 6378137) c)"

section \<open>Routes\<close>

text \<open>\<open>bytes.TrimLeft\<close> with the byte order mark, one code point, as the set of what is cut off.\<close>

fun trim_bom :: "string \<Rightarrow> string" where
  "trim_bom (a # b # c # s) =
     (if a = CHR 0xEF \<and> b = CHR 0xBB \<and> c = CHR 0xBF then trim_bom s else a # b # c # s)"
| "trim_bom s = s"

fun index_fields :: "nat \<Rightarrow> string list \<Rightarrow> (string \<rightharpoonup> nat) \<Rightarrow> (string \<rightharpoonup> nat)" where
  "index_fields i [] m = m"
| "index_fields i (f # fs) m = index_fields (Suc i) fs (m(TrimSpace f \<mapsto> i))"

definition requiredFields :: "string list" where
  "requiredFields = [''route_id'', ''route_short_name'', ''route_long_name'']"

text \<open>A field of a record; an index past its end panics.\<close>

definition field_at :: "string list \<Rightarrow> nat option \<Rightarrow> string panics" where
  "field_at record i =
     (let j = (case i of Some k \<Rightarrow> k | None \<Rightarrow> 0)
      in if j < length record then Inr (record ! j) else Inl ''index out of range'')"

definition route_of :: "(string \<rightharpoonup> nat) \<Rightarrow> string list \<Rightarrow> Route panics" where
  "route_of ix record =
     bind_sum (field_at record (ix ''route_id'')) (\<lambda>i.
     bind_sum (field_at record (ix ''route_short_name'')) (\<lambda>s.
     bind_sum (field_at record (ix ''route_long_name'')) (\<lambda>l.
       Inr \<lparr>r_ID = i, r_ShortName = s, r_LongName = l\<rparr>)))"

fun read_routes ::
    "(string \<rightharpoonup> nat) \<Rightarrow> (gerr + string list) list \<Rightarrow> (string \<rightharpoonup> Route) \<Rightarrow> (gerr + (string \<rightharpoonup> Route)) panics" where
  "read_routes ix [] routes = Inr (Inr routes)"
| "read_routes ix (Inl err # rs) routes = Inr (Inl (FmtWrap ''failed to read route record'' err))"
| "read_routes ix (Inr record # rs) routes =
     bind_sum (route_of ix record) (\<lambda>r. read_routes ix rs (routes(r_ID r \<mapsto> r)))"

abbreviation io_EOF :: gerr where "io_EOF \<equiv> Sentinel (NamedError ''EOF'')"

definition newRouteCache ::
    "gerr option \<Rightarrow> gerr + string \<Rightarrow> (string \<Rightarrow> (gerr + string list) list) \<Rightarrow> (gerr + (string \<rightharpoonup> Route)) panics" where
  "newRouteCache openErr content csv =
     (case openErr of
        Some err \<Rightarrow> Inr (Inl (FmtWrap ''failed to open routes.txt'' err))
      | None \<Rightarrow>
          (case content of
             Inl err \<Rightarrow> Inr (Inl (FmtWrap ''failed to read routes.txt'' err))
           | Inr bytes \<Rightarrow>
               (case csv (trim_bom bytes) of
                  [] \<Rightarrow> Inr (Inl (FmtWrap ''failed to read routes.txt header'' io_EOF))
                | Inl err # _ \<Rightarrow> Inr (Inl (FmtWrap ''failed to read routes.txt header'' err))
                | Inr header # records \<Rightarrow>
                    let fieldIndex = index_fields 0 header Map.empty
                    in if \<exists>f \<in> set requiredFields. fieldIndex f = None
                       then Inr (Inl (ErrNew ''required field is not present in routes.txt''))
                       else read_routes fieldIndex records Map.empty)))"

section \<open>The vehicles of the feed\<close>

text \<open>\<open>routeCache\<close> is a pointer: \<open>None\<close> until \<open>Ready\<close> has been called.\<close>

record protobufFetcher =
  pf_baseURL :: string
  pf_routeCache :: "(string \<rightharpoonup> Route) option"

definition newProtobufFetcher :: "string \<Rightarrow> protobufFetcher" where
  "newProtobufFetcher baseURL = \<lparr>pf_baseURL = baseURL, pf_routeCache = None\<rparr>"

definition Fetcher_Ready ::
    "(gerr + (string \<rightharpoonup> Route)) panics \<Rightarrow> protobufFetcher \<Rightarrow> (gerr option \<times> protobufFetcher) panics" where
  "Fetcher_Ready cacheResult pf =
     (case pf_routeCache pf of
        Some _ \<Rightarrow> Inr (None, pf)
      | None \<Rightarrow>
          bind_sum cacheResult (\<lambda>r. case r of
            Inl err \<Rightarrow> Inr (Some (FmtWrap ''failed to initialize route cache'' err), pf)
          | Inr rc \<Rightarrow> Inr (None, pf\<lparr>pf_routeCache := Some rc\<rparr>)))"

text \<open>What the feed gives for an entity with a vehicle: its position, the route of its trip and the identifier in its
  descriptor, each of which may be missing. The getters of the generated code give an empty string for a missing string.\<close>

record 's VehiclePosition =
  vp_Position :: "('s \<times> 's) option"
  vp_Trip :: "string option option"
  vp_Vehicle :: "string option option"

definition getter :: "string option option \<Rightarrow> string" where
  "getter x = (case x of Some (Some s) \<Rightarrow> s | _ \<Rightarrow> [])"

definition getRoutes :: "(string \<rightharpoonup> Route) option \<Rightarrow> string \<Rightarrow> Route option panics" where
  "getRoutes rc routeID =
     (case rc of
        None \<Rightarrow> Inl ''invalid memory address or nil pointer dereference''
      | Some routes \<Rightarrow> Inr (routes routeID))"

fun fetched_buses ::
    "('s \<Rightarrow> 'f) \<Rightarrow> (string \<rightharpoonup> Route) option \<Rightarrow> 's VehiclePosition option list \<Rightarrow> 'f Bus list panics" where
  "fetched_buses conv rc [] = Inr []"
| "fetched_buses conv rc (entity # es) =
     (case entity of
        None \<Rightarrow> fetched_buses conv rc es
      | Some bp \<Rightarrow>
          (case (vp_Position bp, vp_Trip bp) of
             (Some (lat, long), Some trip) \<Rightarrow>
               let routeID = getter (Some trip)
               in bind_sum (getRoutes rc routeID) (\<lambda>found.
                    let route = (case found of Some r \<Rightarrow> r | None \<Rightarrow> \<lparr>r_ID = routeID, r_ShortName = [], r_LongName = []\<rparr>);
                        bus = \<lparr>b_ID = getter (vp_Vehicle bp), b_Route = route, b_Position = \<lparr>Lat = conv lat, Long = conv long\<rparr>\<rparr>
                    in bind_sum (fetched_buses conv rc es) (\<lambda>bs. Inr (bus # bs)))
           | _ \<Rightarrow> fetched_buses conv rc es))"

text \<open>What one call to the service gives: the failure of building the request, or of sending it, or its status with the body, which may not be
  readable or no feed.\<close>

record 's gtfs_call =
  gc_newRequest :: "gerr option"
  gc_Do :: "gerr + nat"
  gc_ReadAll :: "gerr + string"
  gc_Unmarshal :: "string \<Rightarrow> gerr + 's VehiclePosition option list"

definition FetchBuses ::
    "('s \<Rightarrow> 'f) \<Rightarrow> protobufFetcher \<Rightarrow> 's gtfs_call \<Rightarrow> (gerr + 'f Bus list) panics" where
  "FetchBuses conv pf call =
     (case gc_newRequest call of
        Some err \<Rightarrow> Inr (Inl err)
      | None \<Rightarrow>
          (case gc_Do call of
             Inl err \<Rightarrow> Inr (Inl err)
           | Inr status \<Rightarrow>
               if status \<noteq> 200 then Inr (Inl (ErrNew (''unexpected status code: '' @ show_nat status)))
               else case gc_ReadAll call of
                 Inl err \<Rightarrow> Inr (Inl err)
               | Inr body \<Rightarrow>
                   (case gc_Unmarshal call body of
                      Inl err \<Rightarrow> Inr (Inl err)
                    | Inr feed \<Rightarrow> bind_sum (fetched_buses conv (pf_routeCache pf) feed) (\<lambda>bs. Inr (Inr bs)))))"

section \<open>The nearest buses\<close>

record 'f Client =
  cl_fetcher :: protobufFetcher
  cl_timer :: go_duration
  cl_boxSize :: 'f

definition NewClient :: "string \<Rightarrow> go_duration \<Rightarrow> 'f \<Rightarrow> 'f Client" where
  "NewClient baseURL timer boxSize = \<lparr>cl_fetcher = newProtobufFetcher baseURL, cl_timer = timer, cl_boxSize = boxSize\<rparr>"

definition in_box :: "'f floats \<Rightarrow> 'f \<Rightarrow> 'f Dot \<Rightarrow> 'f Bus \<Rightarrow> bool" where
  "in_box F boxSize dot bus =
     (let latDelta = fl_div F boxSize (fl_num F 111000);
          longDelta = fl_div F boxSize (fl_mul F (fl_num F 111000) (fl_Cos F (radians F (Lat dot))));
          p = b_Position bus
      in fl_le F (fl_sub F (Lat dot) latDelta) (Lat p) \<and> fl_le F (Lat p) (fl_add F (Lat dot) latDelta) \<and>
         fl_le F (fl_sub F (Long dot) longDelta) (Long p) \<and> fl_le F (Long p) (fl_add F (Long dot) longDelta))"

definition bus_map :: "'f Bus list \<Rightarrow> (string \<rightharpoonup> 'f Bus)" where
  "bus_map bs = foldl (\<lambda>m b. m(b_ID b \<mapsto> b)) Map.empty bs"

definition approaching :: "'f floats \<Rightarrow> 'f Dot \<Rightarrow> (string \<rightharpoonup> 'f Bus) \<Rightarrow> 'f Bus \<Rightarrow> bool" where
  "approaching F dot initialMap currentBus =
     (case initialMap (b_ID currentBus) of
        None \<Rightarrow> False
      | Some initialBus \<Rightarrow>
          fl_lt F (CalculateDistance F dot (b_Position currentBus)) (CalculateDistance F dot (b_Position initialBus)))"

definition nearer :: "'f floats \<Rightarrow> 'f Dot \<Rightarrow> 'f Bus \<Rightarrow> 'f Bus \<Rightarrow> bool" where
  "nearer F dot a b = fl_lt F (CalculateDistance F dot (b_Position a)) (CalculateDistance F dot (b_Position b))"

type_synonym 'f bus_sort = "('f Bus \<Rightarrow> 'f Bus \<Rightarrow> bool) \<Rightarrow> 'f Bus list \<Rightarrow> 'f Bus list"

definition select_buses :: "'f floats \<Rightarrow> 'f bus_sort \<Rightarrow> 'f \<Rightarrow> 'f Dot \<Rightarrow> 'f Bus list \<Rightarrow> 'f Bus list \<Rightarrow> 'f Bus list" where
  "select_buses F sort_Slice boxSize dot fetchedBuses secondFetchedBuses =
     (let initialBuses = filter (in_box F boxSize dot) fetchedBuses;
          currentBuses = filter (in_box F boxSize dot) secondFetchedBuses;
          initialMap = bus_map initialBuses
      in sort_Slice (nearer F dot) (filter (approaching F dot initialMap) currentBuses))"

text \<open>The calls of \<open>sleepFunc\<close> come with the result.\<close>

definition GetNearest ::
    "'f floats \<Rightarrow> ('s \<Rightarrow> 'f) \<Rightarrow> 'f bus_sort \<Rightarrow> 'f Client \<Rightarrow> 'f Dot \<Rightarrow> 's gtfs_call \<Rightarrow> 's gtfs_call \<Rightarrow>
     ((gerr + 'f Bus list) \<times> go_duration list) panics" where
  "GetNearest F conv sort_Slice c dot call1 call2 =
     bind_sum (FetchBuses conv (cl_fetcher c) call1) (\<lambda>r1. case r1 of
       Inl err \<Rightarrow> Inr (Inl (FmtWrap ''initial fetch failed'' err), [])
     | Inr fetchedBuses \<Rightarrow>
         bind_sum (FetchBuses conv (cl_fetcher c) call2) (\<lambda>r2. case r2 of
           Inl err \<Rightarrow> Inr (Inl (FmtWrap ''second fetch failed'' err), [cl_timer c])
         | Inr secondFetchedBuses \<Rightarrow>
             Inr (Inr (select_buses F sort_Slice (cl_boxSize c) dot fetchedBuses secondFetchedBuses), [cl_timer c])))"

section \<open>The distance over the reals\<close>

text \<open>The operations without rounding. \<open>math.Atan2\<close> is the angle of a point of the plane.\<close>

definition real_atan2 :: "real \<Rightarrow> real \<Rightarrow> real" where
  "real_atan2 y x =
     (if x > 0 then arctan (y / x)
      else if x < 0 then (if y \<ge> 0 then arctan (y / x) + pi else arctan (y / x) - pi)
      else if y > 0 then pi / 2 else if y < 0 then - (pi / 2) else 0)"

definition real_ops :: "real floats" where
  "real_ops =
     \<lparr>fl_lt = (<), fl_le = (\<le>), fl_add = (+), fl_sub = (-), fl_mul = (*), fl_div = (/), fl_num = real, fl_Pi = pi,
      fl_Sin = sin, fl_Cos = cos, fl_Sqrt = sqrt, fl_Atan2 = real_atan2\<rparr>"

definition rad :: "real \<Rightarrow> real" where
  "rad x = x * pi / 180"

lemma radians_real: "radians real_ops x = rad x"
  by (simp add: radians_def real_ops_def rad_def)

lemma sinTerm_real:
  "sinTerm real_ops a b =
     (sin ((rad (Lat b) - rad (Lat a)) / 2))\<^sup>2 +
     cos (rad (Lat a)) * cos (rad (Lat b)) * (sin ((rad (Long b) - rad (Long a)) / 2))\<^sup>2"
proof -
  have diff: "rad (x - y) = rad x - rad y" for x y by (simp add: rad_def left_diff_distrib diff_divide_distrib)
  show ?thesis
    by (simp add: sinTerm_def radians_real Let_def) (simp add: real_ops_def diff power2_eq_square)
qed

lemma sin_half_square: "2 * (sin (x / 2))\<^sup>2 = 1 - cos (x :: real)"
  using cos_double_sin [of "x / 2"] by simp

lemma sinTerm_cosine:
  "1 - 2 * sinTerm real_ops a b =
     sin (rad (Lat a)) * sin (rad (Lat b)) +
     cos (rad (Lat a)) * cos (rad (Lat b)) * cos (rad (Long b) - rad (Long a))"
proof -
  have "2 * sinTerm real_ops a b =
    1 - cos (rad (Lat b) - rad (Lat a)) +
    cos (rad (Lat a)) * cos (rad (Lat b)) * (1 - cos (rad (Long b) - rad (Long a)))"
    using sin_half_square [of "rad (Lat b) - rad (Lat a)"] sin_half_square [of "rad (Long b) - rad (Long a)"]
    by (simp add: sinTerm_real distrib_left mult.left_commute [of 2])
  then show ?thesis by (simp add: cos_diff algebra_simps)
qed

definition on_earth :: "real Dot \<Rightarrow> bool" where
  "on_earth d \<longleftrightarrow> - 90 \<le> Lat d \<and> Lat d \<le> 90"

lemma cos_lat_nonneg: "on_earth d \<Longrightarrow> 0 \<le> cos (rad (Lat d))"
proof (rule cos_ge_zero)
  assume "on_earth d"
  then have "-90 * pi \<le> Lat d * pi" "Lat d * pi \<le> 90 * pi" 
    using mult_right_mono [of "-90" "Lat d" pi] mult_right_mono [of "Lat d" 90 pi] by (auto simp: on_earth_def)
  then show "- (pi / 2) \<le> rad (Lat d)" "rad (Lat d) \<le> pi / 2" by (simp_all add: rad_def)
qed

lemma sinTerm_bounds:
  assumes "on_earth a" and "on_earth b"
  shows "0 \<le> sinTerm real_ops a b" and "sinTerm real_ops a b \<le> 1"
proof -
  have c: "0 \<le> cos (rad (Lat a)) * cos (rad (Lat b))" using assms cos_lat_nonneg by simp
  then show "0 \<le> sinTerm real_ops a b" by (simp add: sinTerm_real)
  have "- 1 \<le> cos (rad (Lat a) + rad (Lat b))" by simp
  then have "- 1 \<le> sin (rad (Lat a)) * sin (rad (Lat b)) * - 1 + cos (rad (Lat a)) * cos (rad (Lat b))" by (simp add: cos_add)
  moreover have "- 1 \<le> - (sin (rad (Lat a)) * sin (rad (Lat b))) - cos (rad (Lat a)) * cos (rad (Lat b))"
    using cos_le_one [of "rad (Lat a) - rad (Lat b)"] by (simp add: cos_diff)
  moreover have "- (cos (rad (Lat a)) * cos (rad (Lat b))) \<le> cos (rad (Lat a)) * cos (rad (Lat b)) * cos (rad (Long b) - rad (Long a))"
    using mult_left_mono [OF cos_ge_minus_one c, of "rad (Long b) - rad (Long a)"] by simp
  moreover have "- 1 \<le> sin (rad (Lat a)) * sin (rad (Lat b)) - cos (rad (Lat a)) * cos (rad (Lat b))"
    using cos_le_one [of "rad (Lat a) + rad (Lat b)"] by (simp add: cos_add)
  ultimately have "- 1 \<le> 1 - 2 * sinTerm real_ops a b" by (simp add: sinTerm_cosine)
  then show "sinTerm real_ops a b \<le> 1" by simp
qed

lemma half_angle:
  assumes "0 \<le> s" and "s \<le> 1"
  defines "t \<equiv> real_atan2 (sqrt s) (sqrt (1 - s))"
  shows "0 \<le> t" "t \<le> pi / 2" "cos (2 * t) = 1 - 2 * s"
proof -
  have "0 \<le> t \<and> t \<le> pi / 2 \<and> cos (2 * t) = 1 - 2 * s"
  proof (cases "s = 1")
    case True
    then show ?thesis by (simp add: t_def real_atan2_def)
  next
    case False
    then have pos: "0 < 1 - s" using assms(2) by simp
    then have t: "t = arctan (sqrt s / sqrt (1 - s))" by (simp add: t_def real_atan2_def)
    have "(tan t)\<^sup>2 = s / (1 - s)" using pos assms(1) by (simp add: t tan_arctan power_divide)
    moreover have "(cos t)\<^sup>2 * (1 + (tan t)\<^sup>2) = 1"
      using cos_arctan_not_zero [of "sqrt s / sqrt (1 - s)"] sin_cos_squared_add [of t]
      by (simp add: t tan_def power_divide distrib_left add.commute)
    moreover have "1 + s / (1 - s) = 1 / (1 - s)" using pos by (simp add: field_simps)
    ultimately have "(cos t)\<^sup>2 * (1 / (1 - s)) = 1" by metis
    then have "(cos t)\<^sup>2 = 1 - s" using pos by (simp add: field_simps)
    then have "cos (2 * t) = 1 - 2 * s" by (simp add: cos_double_cos)
    moreover have "0 \<le> t" using pos assms(1) by (simp add: t)
    moreover have "t \<le> pi / 2" using arctan_ubound [of "sqrt s / sqrt (1 - s)"] by (simp add: t)
    ultimately show ?thesis by simp
  qed
  then show "0 \<le> t" "t \<le> pi / 2" "cos (2 * t) = 1 - 2 * s" by blast+
qed

lemma distance_half_angle:
  "CalculateDistance real_ops a b =
     6378137 * (2 * real_atan2 (sqrt (sinTerm real_ops a b)) (sqrt (1 - sinTerm real_ops a b)))"
  by (simp add: CalculateDistance_def Let_def) (simp add: real_ops_def)

text \<open>Without rounding, \<open>CalculateDistance\<close> is the great circle distance: its angle lies between zero and \<open>\<pi>\<close>, and has the cosine that the
  spherical law of cosines gives.\<close>

theorem distance_great_circle:
  assumes "on_earth a" and "on_earth b"
  defines "angle \<equiv> CalculateDistance real_ops a b / 6378137"
  shows "0 \<le> angle \<and> angle \<le> pi \<and>
    cos angle = sin (rad (Lat a)) * sin (rad (Lat b)) + cos (rad (Lat a)) * cos (rad (Lat b)) * cos (rad (Long b) - rad (Long a))"
  using half_angle [OF sinTerm_bounds [OF assms(1,2)]] by (simp add: angle_def distance_half_angle sinTerm_cosine)

theorem distance_great_circle_witness:
  "CalculateDistance real_ops \<lparr>Lat = 0, Long = 0\<rparr> \<lparr>Lat = 0, Long = 180\<rparr> = 6378137 * pi"
proof -
  let ?d = "CalculateDistance real_ops \<lparr>Lat = 0, Long = 0\<rparr> \<lparr>Lat = 0, Long = 180\<rparr> / 6378137"
  have "0 \<le> ?d \<and> ?d \<le> pi \<and> cos ?d = - 1"
    using distance_great_circle [of "\<lparr>Lat = 0, Long = 0\<rparr>" "\<lparr>Lat = 0, Long = 180\<rparr>"]
    by (simp add: on_earth_def rad_def)
  then have "?d = pi" using cos_inj_pi [of ?d pi] by simp
  then show ?thesis by simp
qed

section \<open>Which buses are returned\<close>

text \<open>The order of floats: a total preorder on those that are no NaN.\<close>

locale float_order =
  fixes le lt :: "'f \<Rightarrow> 'f \<Rightarrow> bool"
  assumes le_num: "le x y \<Longrightarrow> le x x \<and> le y y"
    and le_trans: "le x y \<Longrightarrow> le y z \<Longrightarrow> le x z"
    and le_total: "le x x \<Longrightarrow> le y y \<Longrightarrow> le x y \<or> le y x"
    and lt_le: "lt x y \<longleftrightarrow> le x y \<and> \<not> le y x"
begin

lemma lt_num: "lt x y \<Longrightarrow> le x x"
  using le_num lt_le by blast

lemma not_lt: "le x x \<Longrightarrow> le y y \<Longrightarrow> \<not> lt y x \<longleftrightarrow> le x y"
  using lt_le le_total by blast

end

interpretation real_order: float_order "fl_le real_ops" "fl_lt real_ops"
  by unfold_locales (auto simp: real_ops_def)

text \<open>What \<open>sort.Slice\<close> does: it permutes, and sorts when the comparison is a strict weak order on the elements.\<close>

definition strict_weak_on :: "'a set \<Rightarrow> ('a \<Rightarrow> 'a \<Rightarrow> bool) \<Rightarrow> bool" where
  "strict_weak_on A ls \<longleftrightarrow>
     (\<forall>x \<in> A. \<not> ls x x) \<and>
     (\<forall>x \<in> A. \<forall>y \<in> A. \<forall>z \<in> A. ls x y \<longrightarrow> ls y z \<longrightarrow> ls x z) \<and>
     (\<forall>x \<in> A. \<forall>y \<in> A. \<forall>z \<in> A. \<not> ls x y \<longrightarrow> \<not> ls y z \<longrightarrow> \<not> ls x z)"

definition sorts :: "(('a \<Rightarrow> 'a \<Rightarrow> bool) \<Rightarrow> 'a list \<Rightarrow> 'a list) \<Rightarrow> bool" where
  "sorts sort_Slice \<longleftrightarrow>
     (\<forall>ls xs. mset (sort_Slice ls xs) = mset xs \<and>
        (strict_weak_on (set xs) ls \<longrightarrow> sorted_wrt (\<lambda>x y. \<not> ls y x) (sort_Slice ls xs)))"

lemma bus_map_snoc: "bus_map (bs @ [b]) = (bus_map bs)(b_ID b \<mapsto> b)"
  by (simp add: bus_map_def)

lemma bus_map_last: "bus_map bs i = find (\<lambda>b. b_ID b = i) (rev bs)"
  by (induction bs rule: rev_induct) (auto simp: bus_map_snoc, simp add: bus_map_def)

lemma approaching_num:
  assumes "float_order (fl_le F) (fl_lt F)" and "approaching F dot m b"
  shows "fl_le F (CalculateDistance F dot (b_Position b)) (CalculateDistance F dot (b_Position b))"
  using assms(2) by (auto simp: approaching_def split: option.splits dest: float_order.lt_num [OF assms(1)])

lemma nearer_strict_weak:
  assumes o: "float_order (fl_le F) (fl_lt F)"
    and num: "\<forall>b \<in> A. fl_le F (CalculateDistance F dot (b_Position b)) (CalculateDistance F dot (b_Position b))"
  shows "strict_weak_on A (nearer F dot)"
proof -
  note lt = float_order.lt_le [OF o] and trans = float_order.le_trans [OF o] and not = float_order.not_lt [OF o]
  have "\<not> nearer F dot x z" if "x \<in> A" "y \<in> A" "z \<in> A" "\<not> nearer F dot x y" "\<not> nearer F dot y z" for x y z
    using that num not trans unfolding nearer_def by metis
  moreover have "nearer F dot x z" if "nearer F dot x y" "nearer F dot y z" for x y z
    using that lt trans unfolding nearer_def by metis
  moreover have "\<not> nearer F dot x x" for x
    using lt unfolding nearer_def by metis
  ultimately show ?thesis unfolding strict_weak_on_def by blast
qed

lemma select_buses_spec:
  fixes F :: "'f floats" and dot :: "'f Dot" and box :: 'f and first second :: "'f Bus list"
  assumes o: "float_order (fl_le F) (fl_lt F)" and s: "sorts sort_Slice"
  defines "far \<equiv> (\<lambda>b :: 'f Bus. CalculateDistance F dot (b_Position b))"
  defines "res \<equiv> select_buses F sort_Slice box dot first second"
  shows "mset res = mset (filter (\<lambda>b. in_box F box dot b \<and>
      (\<exists>i. find (\<lambda>i. b_ID i = b_ID b) (rev (filter (in_box F box dot) first)) = Some i \<and> fl_lt F (far b) (far i))) second)"
    and "sorted_wrt (\<lambda>a b. fl_le F (far a) (far b)) res"
proof -
  define m where "m = bus_map (filter (in_box F box dot) first)"
  define sel where "sel = filter (approaching F dot m) (filter (in_box F box dot) second)"
  have res: "res = sort_Slice (nearer F dot) sel" by (simp add: res_def select_buses_def sel_def m_def)
  have mset: "mset res = mset sel" using s by (simp add: res sorts_def)
  have num: "\<forall>b \<in> set sel. fl_le F (far b) (far b)"
    using approaching_num [OF o] by (auto simp: sel_def far_def)
  then have "sorted_wrt (\<lambda>x y. \<not> nearer F dot y x) res"
    using s nearer_strict_weak [OF o] by (simp add: res sorts_def far_def)
  moreover have "set res = set sel" using mset by (rule mset_eq_setD)
  ultimately show "sorted_wrt (\<lambda>a b. fl_le F (far a) (far b)) res"
    using num float_order.not_lt [OF o] by (elim sorted_wrt_mono_rel [rotated]) (auto simp: nearer_def far_def)
  have "approaching F dot m b = (\<exists>i. m (b_ID b) = Some i \<and> fl_lt F (far b) (far i))" for b
    by (simp add: approaching_def far_def split: option.split)
  then have "sel = filter (\<lambda>b. in_box F box dot b \<and> (\<exists>i. m (b_ID b) = Some i \<and> fl_lt F (far b) (far i))) second"
    by (simp add: sel_def conj_commute)
  then show "mset res = mset (filter (\<lambda>b. in_box F box dot b \<and>
      (\<exists>i. find (\<lambda>i. b_ID i = b_ID b) (rev (filter (in_box F box dot) first)) = Some i \<and> fl_lt F (far b) (far i))) second)"
    by (simp add: mset m_def bus_map_last)
qed


text \<open>A sort and operations on whole numbers, where the distance is that of the plane, squared.\<close>

fun ins :: "('a \<Rightarrow> 'a \<Rightarrow> bool) \<Rightarrow> 'a \<Rightarrow> 'a list \<Rightarrow> 'a list" where
  "ins ls x [] = [x]"
| "ins ls x (y # ys) = (if ls y x then y # ins ls x ys else x # y # ys)"

lemma mset_ins: "mset (ins ls x ys) = add_mset x (mset ys)"
  by (induction ys) auto

lemma strict_weak_subset: "strict_weak_on B ls \<Longrightarrow> A \<subseteq> B \<Longrightarrow> strict_weak_on A ls"
  unfolding strict_weak_on_def by (intro conjI ballI impI; elim conjE) (meson subsetD)+

lemma strict_weakD:
  assumes "strict_weak_on A ls" "x \<in> A" "y \<in> A"
  shows "ls x y \<Longrightarrow> \<not> ls y x"
    and "z \<in> A \<Longrightarrow> \<not> ls x y \<Longrightarrow> \<not> ls y z \<Longrightarrow> \<not> ls x z"
  using assms unfolding strict_weak_on_def by blast+

lemma sorted_ins:
  "sorted_wrt (\<lambda>x y. \<not> ls y x) ys \<Longrightarrow> strict_weak_on (insert x (set ys)) ls \<Longrightarrow>
     sorted_wrt (\<lambda>x y. \<not> ls y x) (ins ls x ys)"
proof (induction ys)
  case (Cons y ys)
  have sub: "strict_weak_on (insert x (set ys)) ls"
    using Cons.prems(2) by (rule strict_weak_subset) auto
  have set: "set (ins ls x ys) = insert x (set ys)" using mset_ins [of ls x ys] by (metis set_mset_mset set_mset_add_mset_insert)
  have asym: "\<not> ls x y" if "ls y x"
    using strict_weakD(1) [OF Cons.prems(2), of y x] that by simp
  have chain: "\<not> ls z x" if "\<not> ls y x" "z \<in> set ys" for z
    using strict_weakD(2) [OF Cons.prems(2), of z y x] Cons.prems(1) that by simp
  show ?case using Cons.IH [OF _ sub] Cons.prems(1) set asym chain by auto
qed simp

definition insertion_sort :: "('a \<Rightarrow> 'a \<Rightarrow> bool) \<Rightarrow> 'a list \<Rightarrow> 'a list" where
  "insertion_sort ls xs = foldr (ins ls) xs []"

lemma mset_insertion_sort: "mset (insertion_sort ls xs) = mset xs"
  by (induction xs) (simp_all add: insertion_sort_def mset_ins)

lemma insertion_sort_sorts: "sorts insertion_sort"
proof -
  have "sorted_wrt (\<lambda>x y. \<not> ls y x) (insertion_sort ls xs)" if "strict_weak_on (set xs) ls" for ls and xs :: "'a list"
    using that
  proof (induction xs)
    case (Cons x xs)
    have "strict_weak_on (set xs) ls" using Cons.prems by (rule strict_weak_subset) auto
    then have "sorted_wrt (\<lambda>x y. \<not> ls y x) (insertion_sort ls xs)" by (rule Cons.IH)
    moreover have "set (insertion_sort ls xs) = set xs" using mset_insertion_sort by (rule mset_eq_setD)
    ultimately show ?case using sorted_ins [of ls "insertion_sort ls xs" x] Cons.prems by (simp add: insertion_sort_def)
  qed (simp add: insertion_sort_def)
  then show ?thesis by (simp add: sorts_def mset_insertion_sort)
qed

definition int_ops :: "int floats" where
  "int_ops =
     \<lparr>fl_lt = (<), fl_le = (\<le>), fl_add = (+), fl_sub = (-), fl_mul = (*), fl_div = (\<lambda>x y. if y = 2 then x else x div y),
      fl_num = int, fl_Pi = 180, fl_Sin = (\<lambda>x. x), fl_Cos = (\<lambda>_. 1), fl_Sqrt = (\<lambda>x. x), fl_Atan2 = (\<lambda>y x. y)\<rparr>"

interpretation int_order: float_order "fl_le int_ops" "fl_lt int_ops"
  by unfold_locales (auto simp: int_ops_def)

definition sample_bus :: "string \<Rightarrow> int \<Rightarrow> int VehiclePosition option" where
  "sample_bus i x = Some \<lparr>vp_Position = Some (x, 0), vp_Trip = Some (Some ''10030011''), vp_Vehicle = Some (Some i)\<rparr>"

definition sample_call :: "int VehiclePosition option list \<Rightarrow> int gtfs_call" where
  "sample_call feed = \<lparr>gc_newRequest = None, gc_Do = Inr 200, gc_ReadAll = Inr [], gc_Unmarshal = (\<lambda>_. Inr feed)\<rparr>"

definition sample_client :: "int Client" where
  "sample_client = \<lparr>cl_fetcher = \<lparr>pf_baseURL = [], pf_routeCache = Some Map.empty\<rparr>, cl_timer = 20, cl_boxSize = 1110000\<rparr>"

definition sample_at :: "string \<Rightarrow> int \<Rightarrow> int Bus" where
  "sample_at i x = \<lparr>b_ID = i, b_Route = \<lparr>r_ID = ''10030011'', r_ShortName = [], r_LongName = []\<rparr>, b_Position = \<lparr>Lat = x, Long = 0\<rparr>\<rparr>"

lemma sample_fetch:
  "FetchBuses (\<lambda>x. x) (cl_fetcher sample_client) (sample_call (map (\<lambda>(i, x). sample_bus i x) vs)) = Inr (Inr (map (\<lambda>(i, x). sample_at i x) vs))"
proof -
  have "fetched_buses (\<lambda>x. x) (Some Map.empty) (map (\<lambda>(i, x). sample_bus i x) vs) = Inr (map (\<lambda>(i, x). sample_at i x) vs)"
    by (induction vs) (auto simp: sample_bus_def sample_at_def getter_def getRoutes_def Let_def)
  then show ?thesis by (simp add: FetchBuses_def sample_call_def sample_client_def)
qed

lemma sample_near: "in_box int_ops (cl_boxSize sample_client) \<lparr>Lat = 0, Long = 0\<rparr> (sample_at i x) \<longleftrightarrow> - 10 \<le> x \<and> x \<le> 10"
  by (auto simp: in_box_def sample_client_def sample_at_def int_ops_def Let_def)

lemma sample_distance: "CalculateDistance int_ops \<lparr>Lat = 0, Long = 0\<rparr> (b_Position (sample_at i x)) = 12756274 * (x * x)"
  by (simp add: CalculateDistance_def sinTerm_def radians_def sample_at_def int_ops_def Let_def)

lemma sample_ids: "b_ID (sample_at i x) = i" "fl_lt int_ops = (<)" "cl_timer sample_client = 20"
  by (simp_all add: sample_at_def int_ops_def sample_client_def)


section \<open>The routes have to be loaded\<close>

definition located :: "'s VehiclePosition option \<Rightarrow> bool" where
  "located e \<longleftrightarrow> (\<exists>bp p t. e = Some bp \<and> vp_Position bp = Some p \<and> vp_Trip bp = Some t)"

lemma fetched_skip: "\<not> located e \<Longrightarrow> fetched_buses conv rc (e # es) = fetched_buses conv rc es"
  by (cases e) (auto simp: located_def split: option.split)

lemma fetched_one:
  assumes "located e"
  shows "fetched_buses conv None (e # es) = Inl ''invalid memory address or nil pointer dereference''"
    and "\<exists>b. fetched_buses conv (Some rc) (e # es) = bind_sum (fetched_buses conv (Some rc) es) (\<lambda>bs. Inr (b # bs))"
  using assms by (auto simp: located_def getRoutes_def Let_def)

lemma fetched_loaded: "\<exists>bs. fetched_buses conv (Some rc) feed = Inr bs \<and> length bs = length (filter located feed)"
proof (induction feed)
  case (Cons e feed)
  then obtain bs where bs: "fetched_buses conv (Some rc) feed = Inr bs" "length bs = length (filter located feed)" by blast
  show ?case
  proof (cases "located e")
    case True
    then show ?thesis using bs fetched_one(2) [OF True, of conv rc feed] by auto
  next
    case False
    then show ?thesis using bs fetched_skip [OF False, of conv "Some rc" feed] by simp
  qed
qed simp

lemma fetched_not_loaded: "\<exists>e \<in> set feed. located e \<Longrightarrow> fetched_buses conv None feed = Inl ''invalid memory address or nil pointer dereference''"
proof (induction feed)
  case (Cons e feed)
  then show ?case using fetched_one(1) [of e conv feed] fetched_skip [of e conv None feed] by (cases "located e") auto
qed simp

text \<open>A client from \<open>NewClient\<close>, whose routes are never loaded, panics as soon as the feed has one vehicle with a position and a trip; after
  a successful \<open>Ready\<close> a fetch never panics and gives one bus for each of these vehicles.\<close>

theorem routes_must_be_loaded:
  fixes call1 :: "'s gtfs_call" and conv :: "'s \<Rightarrow> 'f"
  assumes "gc_newRequest call1 = None" "gc_Do call1 = Inr 200" "gc_ReadAll call1 = Inr body" "gc_Unmarshal call1 body = Inr feed"
    and "e \<in> set feed" "located e"
  shows "GetNearest F conv sort_Slice (NewClient url timer box) dot call1 call2 = Inl ''invalid memory address or nil pointer dereference'' \<and>
    (\<forall>cacheResult pf pf'. Fetcher_Ready cacheResult pf = Inr (None, pf') \<longrightarrow>
       (\<exists>bs. FetchBuses conv pf' call1 = Inr (Inr bs) \<and> length bs = length (filter located feed)))"
proof (intro conjI allI impI)
  show "GetNearest F conv sort_Slice (NewClient url timer box) dot call1 call2 = Inl ''invalid memory address or nil pointer dereference''"
  proof -
    have "fetched_buses conv None feed = Inl ''invalid memory address or nil pointer dereference''"
      using assms(5,6) by (intro fetched_not_loaded) blast
    then show ?thesis
      using assms(1-4) by (simp add: GetNearest_def FetchBuses_def NewClient_def newProtobufFetcher_def)
  qed
next
  fix cacheResult pf pf'
  assume "Fetcher_Ready cacheResult pf = Inr (None, pf')"
  then obtain rc where "pf_routeCache pf' = Some rc"
    by (cases cacheResult) (auto simp: Fetcher_Ready_def split: option.splits sum.splits)
  then show "\<exists>bs. FetchBuses conv pf' call1 = Inr (Inr bs) \<and> length bs = length (filter located feed)"
    using assms fetched_loaded [of conv rc feed] by (auto simp: FetchBuses_def)
qed

theorem routes_must_be_loaded_witness:
  "GetNearest int_ops (\<lambda>x. x) insertion_sort (NewClient [] 20 1000) \<lparr>Lat = 0, Long = 0\<rparr> (sample_call [sample_bus ''A'' 5]) (sample_call []) =
     Inl ''invalid memory address or nil pointer dereference''"
proof (rule routes_must_be_loaded [THEN conjunct1])
  show "gc_Unmarshal (sample_call [sample_bus ''A'' 5]) [] = Inr [sample_bus ''A'' 5]" by (simp add: sample_call_def)
  show "located (sample_bus ''A'' 5)" by (simp add: located_def sample_bus_def)
qed (simp_all add: sample_call_def)

section \<open>The table of routes\<close>

text \<open>The reader of CSV files checks that every record has as many fields as the first one.\<close>

definition csv_reader :: "(string \<Rightarrow> (gerr + string list) list) \<Rightarrow> bool" where
  "csv_reader csv \<longleftrightarrow> (\<forall>s header rs r. csv s = Inr header # rs \<longrightarrow> Inr r \<in> set rs \<longrightarrow> length r = length header)"

lemma index_fields_bound:
  assumes "\<forall>f k. m f = Some k \<longrightarrow> k < i" and "index_fields i fs m f = Some j"
  shows "j < i + length fs"
  using assms by (induction i fs m rule: index_fields.induct) (fastforce split: if_splits)+

lemma route_of_total:
  assumes "ix ''route_id'' = Some a" "ix ''route_short_name'' = Some b" "ix ''route_long_name'' = Some c"
    and "a < length r" "b < length r" "c < length r"
  shows "route_of ix r = Inr \<lparr>r_ID = r ! a, r_ShortName = r ! b, r_LongName = r ! c\<rparr>"
  using assms by (simp add: route_of_def field_at_def)

lemma read_routes_spec:
  assumes "ix ''route_id'' = Some a" "ix ''route_short_name'' = Some b" "ix ''route_long_name'' = Some c"
    and "\<forall>r. Inr r \<in> set rs \<longrightarrow> a < length r \<and> b < length r \<and> c < length r"
  shows "read_routes ix rs routes =
    Inr (case find isl rs of
           Some e \<Rightarrow> Inl (FmtWrap ''failed to read route record'' (projl e))
         | None \<Rightarrow> Inr (foldl (\<lambda>m r. m(r ! a \<mapsto> \<lparr>r_ID = r ! a, r_ShortName = r ! b, r_LongName = r ! c\<rparr>)) routes (map projr rs)))"
  using assms(4)
proof (induction rs arbitrary: routes)
  case (Cons e rs)
  then show ?case using assms(1-3) by (cases e) (simp_all add: route_of_total split: option.split)
qed simp

lemma foldl_upd_last:
  "foldl (\<lambda>m r. m(f r \<mapsto> g r)) m rs k = (case find (\<lambda>r. f r = k) (rev rs) of Some r \<Rightarrow> Some (g r) | None \<Rightarrow> m k)"
  by (induction rs rule: rev_induct) (auto split: option.splits)

text \<open>With a reader that gives records of equal length, loading the routes never panics; a file without bad records whose header has the three
  required columns gives, for each identifier, the names in its last record.\<close>

theorem routes_table:
  assumes "csv_reader csv"
  shows "\<exists>res. newRouteCache openErr content csv = Inr res \<and>
    (\<forall>bytes header recs. openErr = None \<longrightarrow> content = Inr bytes \<longrightarrow> csv (trim_bom bytes) = Inr header # map Inr recs \<longrightarrow>
       (let ix = index_fields 0 header Map.empty
        in if \<forall>f \<in> set requiredFields. ix f \<noteq> None then
             \<exists>rc. res = Inr rc \<and>
               (\<forall>i. rc i = map_option (\<lambda>r. \<lparr>r_ID = r ! the (ix ''route_id''), r_ShortName = r ! the (ix ''route_short_name''),
                                          r_LongName = r ! the (ix ''route_long_name'')\<rparr>)
                             (find (\<lambda>r. r ! the (ix ''route_id'') = i) (rev recs)))
           else res = Inl (ErrNew ''required field is not present in routes.txt'')))"
proof (cases "\<exists>bytes header rs. openErr = None \<and> content = Inr bytes \<and> csv (trim_bom bytes) = Inr header # rs")
  case False
  then show ?thesis by (auto simp: newRouteCache_def split: option.splits sum.splits list.splits)
next
  case True
  then obtain bytes header rs where c: "openErr = None" "content = Inr bytes" "csv (trim_bom bytes) = Inr header # rs" by blast
  define ix where "ix = index_fields 0 header Map.empty"
  show ?thesis
  proof (cases "\<forall>f \<in> set requiredFields. ix f \<noteq> None")
    case False
    then show ?thesis using c by (auto simp: newRouteCache_def Let_def ix_def)
  next
    case True
    then obtain a b d where abd: "ix ''route_id'' = Some a" "ix ''route_short_name'' = Some b" "ix ''route_long_name'' = Some d"
      by (auto simp: requiredFields_def)
    then have "a < length header" "b < length header" "d < length header"
      using index_fields_bound [of Map.empty 0 header] by (simp_all add: ix_def)
    then have len: "\<forall>r. Inr r \<in> set rs \<longrightarrow> a < length r \<and> b < length r \<and> d < length r"
      using assms c(3) unfolding csv_reader_def by metis
    have "newRouteCache openErr content csv = read_routes ix rs Map.empty"
      using True c by (auto simp: newRouteCache_def Let_def ix_def)
    moreover have "find isl (map Inr recs :: (gerr + string list) list) = None" for recs by (induction recs) auto
    moreover have "map projr (map Inr recs :: (gerr + string list) list) = recs" for recs by (induction recs) auto
    ultimately show ?thesis
      using True c abd
      by (auto simp: read_routes_spec [OF abd len] ix_def [symmetric] foldl_upd_last Let_def simp del: list.map_comp split: option.split)
  qed
qed

definition sample_csv :: "string \<Rightarrow> (gerr + string list) list" where
  "sample_csv s = [Inr [''route_id'', ''agency_id'', ''route_short_name'', ''route_long_name''], Inr [''1'', ''6'', ''3'', ''Old''], Inr [''1'', ''6'', ''3'', ''New'']]"

theorem routes_table_witness:
  "\<exists>rc. newRouteCache None (Inr []) sample_csv = Inr (Inr rc) \<and> rc ''1'' = Some \<lparr>r_ID = ''1'', r_ShortName = ''3'', r_LongName = ''New''\<rparr> \<and> rc ''2'' = None"
proof -
  have csv: "csv_reader sample_csv" by (auto simp: csv_reader_def sample_csv_def)
  have rows: "sample_csv (trim_bom []) = Inr [''route_id'', ''agency_id'', ''route_short_name'', ''route_long_name''] #
    map Inr [[''1'', ''6'', ''3'', ''Old''], [''1'', ''6'', ''3'', ''New'']]" by (simp add: sample_csv_def)
  from routes_table [OF csv, of None "Inr []"] show ?thesis
  proof (elim exE conjE, goal_cases)
    case (1 res)
    from 1(2) [THEN spec, THEN spec, THEN spec, THEN mp, THEN mp, THEN mp, OF refl refl rows] 1(1) show ?case
      by (auto simp: Let_def requiredFields_def TrimSpace_def trim_right_def is_space_def)
  qed
qed

end
