(* ===== verification/Logging.thy ===== *)
theory Logging
  imports Semerr "HOL-Library.Multiset"
begin

text \<open>
  The logger (\<open>internal/logger\<close>): its configuration and filters, the global logger that is set once per process, the
  cores it is built from, loggers in contexts, and the fields of log lines.

  Parameters: zap's parsing of levels, the opening of sinks, the encoding of lines and the methods of its loggers. A zap core is
  the value of the expression that builds it; what it writes is the interface \<open>zap_cores\<close>. A call of a method of a logger is
  recorded with its arguments (\<open>log_call\<close>). \<open>iface\<close> tells which error a field holds as its interface value, and \<open>txt\<close> is the text of an error.
\<close>

section \<open>Configuration\<close>

type_synonym level = int

abbreviation (input) DebugLevel :: level where "DebugLevel \<equiv> - 1"
abbreviation (input) InfoLevel :: level where "InfoLevel \<equiv> 0"
abbreviation (input) WarnLevel :: level where "WarnLevel \<equiv> 1"
abbreviation (input) ErrorLevel :: level where "ErrorLevel \<equiv> 2"
abbreviation (input) FatalLevel :: level where "FatalLevel \<equiv> 5"

datatype Format = FormatJSON | FormatConsole | OtherFormat string

record NameFilter =
  nf_Level :: string
  nf_parsedLevel :: level
  nf_LoggerName :: string

record FilterConfig =
  fc_FullNameFilter :: "NameFilter list"
  fc_ExactSubnameFilter :: "string list"

record LoggerConfig =
  lc_Sink :: string
  lc_LogLevel :: string
  lc_Format :: Format
  lc_Filters :: FilterConfig
  lc_Caller :: bool
  lc_CallerSkip :: int
  lc_StackTraceLevel :: level

definition DefaultFilterConfig :: FilterConfig where
  "DefaultFilterConfig = \<lparr>fc_FullNameFilter = [], fc_ExactSubnameFilter = []\<rparr>"

definition logger_DefaultConfig :: LoggerConfig where
  "logger_DefaultConfig =
     \<lparr>lc_Sink = ''stdout'', lc_LogLevel = ''DEBUG'', lc_Format = FormatJSON, lc_Filters = DefaultFilterConfig, lc_Caller = True,
      lc_CallerSkip = 1, lc_StackTraceLevel = ErrorLevel\<rparr>"

text \<open>The filters are changed in place: those before the first bad one keep their parsed level.\<close>

fun validate_filters :: "(string \<Rightarrow> gerr + level) \<Rightarrow> NameFilter list \<Rightarrow> gerr option \<times> NameFilter list" where
  "validate_filters parse [] = (None, [])"
| "validate_filters parse (f # fs) =
     (case parse (nf_Level f) of
        Inl err \<Rightarrow>
          (Some (FmtWrap ''cannot parse FullNameFilter'' (WithFieldsErr err [\<lparr>f_key = ''level'', f_value = StringType (nf_Level f)\<rparr>])), f # fs)
      | Inr l \<Rightarrow> (let (err, fs') = validate_filters parse fs in (err, f\<lparr>nf_parsedLevel := l\<rparr> # fs')))"

definition Config_Validate :: "(string \<Rightarrow> gerr + level) \<Rightarrow> LoggerConfig \<Rightarrow> gerr option \<times> LoggerConfig" where
  "Config_Validate parse c =
     (let (err, fs) = validate_filters parse (fc_FullNameFilter (lc_Filters c));
          c' = c\<lparr>lc_Filters := (lc_Filters c)\<lparr>fc_FullNameFilter := fs\<rparr>\<rparr>
      in (map_option (FmtWrap ''cannot validate filters'') err, c'))"

section \<open>Filters\<close>

record entry =
  e_Level :: level
  e_LoggerName :: string
  e_Message :: string

definition isStringExactOrChild :: "string \<Rightarrow> string \<Rightarrow> bool" where
  "isStringExactOrChild root candidate =
     (if length candidate < length root then False
      else if candidate = root then True
      else if length candidate < length root + 1 then False
      else let child = root @ ''.'' in take (length child) candidate = child)"

fun filterLoggerNameByNameStartswith :: "NameFilter list \<Rightarrow> entry \<Rightarrow> bool" where
  "filterLoggerNameByNameStartswith [] e = True"
| "filterLoggerNameByNameStartswith (f # fs) e =
     (if e_Level e > nf_parsedLevel f then filterLoggerNameByNameStartswith fs e
      else if isStringExactOrChild (nf_LoggerName f) (e_LoggerName e) then False
      else filterLoggerNameByNameStartswith fs e)"

fun exact_subname_loop :: "string list \<Rightarrow> string list \<Rightarrow> bool" where
  "exact_subname_loop parts [] = True"
| "exact_subname_loop parts (f # fs) = (if List.member parts f then False else exact_subname_loop parts fs)"

definition filterLoggerNameByExactSubNameStartswith :: "string list \<Rightarrow> string \<Rightarrow> bool" where
  "filterLoggerNameByExactSubNameStartswith filters loggerName = exact_subname_loop (split_byte (CHR ''.'') loggerName) filters"

definition logFilterSink :: "FilterConfig \<Rightarrow> entry \<Rightarrow> bool" where
  "logFilterSink config e =
     (if length (fc_FullNameFilter config) > 0 \<and> \<not> filterLoggerNameByNameStartswith (fc_FullNameFilter config) e then False
      else if length (fc_ExactSubnameFilter config) > 0 \<and>
              \<not> filterLoggerNameByExactSubNameStartswith (fc_ExactSubnameFilter config) (e_LoggerName e) then False
      else True)"

section \<open>Cores and the global logger\<close>

text \<open>A level enabler is the global atomic level or another one.\<close>

datatype enabler = GlobalLevel | FixedLevel level

datatype encoder = ConsoleEncoder | JSONEncoder

datatype 's core = NewCore encoder 's enabler | NewFilteringCore "'s core" FilterConfig | NewTee "'s core list"

record 's zap_logger =
  zl_core :: "'s core"
  zl_caller :: bool
  zl_callerSkip :: int
  zl_stacktrace :: level

type_synonym zap_options = "bool \<times> int \<times> level"

definition zap_New :: "'s core \<Rightarrow> zap_options \<Rightarrow> 's zap_logger" where
  "zap_New c opts = (case opts of (caller, skip, st) \<Rightarrow> \<lparr>zl_core = c, zl_caller = caller, zl_callerSkip = skip, zl_stacktrace = st\<rparr>)"

definition level_or_default :: "enabler option \<Rightarrow> enabler" where
  "level_or_default lvl = (case lvl of None \<Rightarrow> GlobalLevel | Some l \<Rightarrow> l)"

definition newLoggerWithEncoder ::
    "LoggerConfig \<Rightarrow> enabler option \<Rightarrow> 's \<Rightarrow> 's option \<Rightarrow> encoder \<Rightarrow> zap_options \<Rightarrow> 's zap_logger" where
  "newLoggerWithEncoder globalConfig lvl0 sink unfilteredSink enc options =
     (let lvl = level_or_default lvl0;
          cores = NewFilteringCore (NewCore enc sink lvl) (lc_Filters globalConfig) #
                  (case unfilteredSink of None \<Rightarrow> [] | Some u \<Rightarrow> [NewCore enc u lvl])
      in if length cores = 1 then zap_New (hd cores) options else zap_New (NewTee cores) options)"

definition NewDevelopmentConfig :: "LoggerConfig \<Rightarrow> enabler option \<Rightarrow> 's \<Rightarrow> 's option \<Rightarrow> zap_options \<Rightarrow> 's zap_logger" where
  "NewDevelopmentConfig globalConfig lvl sink unfilteredSink options =
     newLoggerWithEncoder globalConfig (Some (level_or_default lvl)) sink unfilteredSink ConsoleEncoder options"

definition NewWithSink :: "LoggerConfig \<Rightarrow> enabler option \<Rightarrow> 's \<Rightarrow> 's option \<Rightarrow> zap_options \<Rightarrow> 's zap_logger" where
  "NewWithSink globalConfig lvl sink unfilteredSink options =
     newLoggerWithEncoder globalConfig (Some (level_or_default lvl)) sink unfilteredSink JSONEncoder options"

definition logger_New :: "LoggerConfig \<Rightarrow> enabler option \<Rightarrow> 's \<Rightarrow> 's option \<Rightarrow> zap_options \<Rightarrow> 's zap_logger" where
  "logger_New globalConfig lvl sink unfilteredSink options =
     (if lc_Format globalConfig = FormatConsole then NewDevelopmentConfig globalConfig lvl sink unfilteredSink options
      else NewWithSink globalConfig lvl sink unfilteredSink options)"

text \<open>The package variables; \<open>ls_lines\<close> are the levels and texts of what the global logger was asked to log, and \<open>ls_closers\<close> the sinks to be
  closed.\<close>

record 's logger_state =
  ls_global :: "'s zap_logger option"
  ls_defaultLevel :: level
  ls_globalConfig :: "LoggerConfig option"
  ls_closers :: "'s list"
  ls_lines :: "(level \<times> string) list"

definition initial_logger :: "'s logger_state" where
  "initial_logger = \<lparr>ls_global = None, ls_defaultLevel = ErrorLevel, ls_globalConfig = None, ls_closers = [], ls_lines = []\<rparr>"

datatype 's set_result = GotSink "'s option" | ExitsWith int string | SetPanics string

definition log_global :: "level \<Rightarrow> string \<Rightarrow> 's logger_state \<Rightarrow> 's logger_state" where
  "log_global l msg st = st\<lparr>ls_lines := ls_lines st @ [(l, msg)]\<rparr>"

definition SetNewGlobalLoggerOnceWithUnfiltered ::
    "(string \<Rightarrow> gerr + level) \<Rightarrow> (string \<Rightarrow> gerr + 's) \<Rightarrow> LoggerConfig \<Rightarrow> 's option \<Rightarrow> 's logger_state \<Rightarrow> 's set_result \<times> 's logger_state" where
  "SetNewGlobalLoggerOnceWithUnfiltered parse zap_Open config unfilteredSink st =
     (if ls_global st \<noteq> None then (GotSink None, log_global ErrorLevel ''you have already set global logger once'' st)
      else if ls_globalConfig st \<noteq> None then (SetPanics ''set config once per application'', st)
      else
        let st1 = st\<lparr>ls_globalConfig := Some config\<rparr>
        in case parse (lc_LogLevel config) of
             Inl err \<Rightarrow> (ExitsWith 1 ''cannot configure logging'', st1)
           | Inr lvl \<Rightarrow>
               let st2 = st1\<lparr>ls_defaultLevel := lvl\<rparr>
               in case zap_Open (lc_Sink config) of
                    Inl err \<Rightarrow> (ExitsWith 1 ''cannot configure log sink'', st2)
                  | Inr sink \<Rightarrow>
                      let l = logger_New config (Some GlobalLevel) sink unfilteredSink (lc_Caller config, lc_CallerSkip config, lc_StackTraceLevel config);
                          st3 = st2\<lparr>ls_closers := ls_closers st @ [sink], ls_global := Some l\<rparr>
                      in (GotSink (Some sink), log_global DebugLevel ''set global logger'' st3))"

definition SetNewGlobalLoggerOnce ::
    "(string \<Rightarrow> gerr + level) \<Rightarrow> (string \<Rightarrow> gerr + 's) \<Rightarrow> LoggerConfig \<Rightarrow> 's logger_state \<Rightarrow> 's set_result \<times> 's logger_state" where
  "SetNewGlobalLoggerOnce parse zap_Open config st = SetNewGlobalLoggerOnceWithUnfiltered parse zap_Open config None st"

definition SetNewGlobalLoggerQuietly ::
    "(string \<Rightarrow> gerr + level) \<Rightarrow> (string \<Rightarrow> gerr + 's) \<Rightarrow> LoggerConfig \<Rightarrow> 's logger_state \<Rightarrow> 's set_result \<times> 's logger_state" where
  "SetNewGlobalLoggerQuietly parse zap_Open config st =
     (if ls_global st \<noteq> None then (GotSink None, st) else SetNewGlobalLoggerOnce parse zap_Open config st)"

text \<open>\<open>Close\<close> gives the sinks that are closed; on a nil logger it panics.\<close>

definition logger_Close :: "'s logger_state \<Rightarrow> ('s list \<times> 's logger_state) panics" where
  "logger_Close st =
     (case ls_global st of
        None \<Rightarrow> Inl ''invalid memory address or nil pointer dereference''
      | Some _ \<Rightarrow> Inr (ls_closers st, log_global InfoLevel ''logger is closing, no more application logs after this line'' st))"

text \<open>\<open>CapitalString\<close> and \<open>String\<close> of zap's levels are parameters.\<close>

definition CapitalLevelEncoder :: "(level \<Rightarrow> string) \<Rightarrow> level \<Rightarrow> string" where
  "CapitalLevelEncoder CapitalString l = (if l = ErrorLevel then ''ERR'' else if l = WarnLevel then ''WARNING'' else CapitalString l)"

definition LowercaseLevelEncoder :: "(level \<Rightarrow> string) \<Rightarrow> level \<Rightarrow> string" where
  "LowercaseLevelEncoder String l = (if l = ErrorLevel then ''err'' else if l = WarnLevel then ''warning'' else String l)"

section \<open>Loggers in contexts\<close>

text \<open>The value of the key in the context, if it is set; it may be a nil interface. The package variable is a pointer, so the interface made
  from it is never nil, even when the pointer is.\<close>

record 'l log_ctx =
  cx_logger :: "'l option option"
  cx_fields :: log_context

record 'l zap_methods =
  zm_With :: "'l \<Rightarrow> field list \<Rightarrow> 'l panics"
  zm_Named :: "'l \<Rightarrow> string \<Rightarrow> 'l panics"

definition logger_FromContext :: "'l \<Rightarrow> 'l log_ctx \<Rightarrow> 'l option" where
  "logger_FromContext global ctx = (case cx_logger ctx of Some (Some l) \<Rightarrow> Some l | _ \<Rightarrow> Some global)"

definition logger_WithFields :: "'l zap_methods \<Rightarrow> 'l \<Rightarrow> 'l log_ctx \<Rightarrow> field list \<Rightarrow> 'l log_ctx panics" where
  "logger_WithFields Z global ctx flds =
     (case logger_FromContext global ctx of
        None \<Rightarrow> Inl ''logger has not been configured''
      | Some l \<Rightarrow>
          bind_sum (zm_With Z l flds) (\<lambda>l'.
          bind_sum (ContextWithFields (cx_fields ctx) flds) (\<lambda>fs.
            Inr \<lparr>cx_logger = Some (Some l'), cx_fields = fs\<rparr>)))"

definition WithName :: "'l zap_methods \<Rightarrow> 'l \<Rightarrow> 'l log_ctx \<Rightarrow> string \<Rightarrow> 'l log_ctx panics" where
  "WithName Z global ctx name =
     (case logger_FromContext global ctx of
        None \<Rightarrow> Inl ''invalid memory address or nil pointer dereference''
      | Some l \<Rightarrow> bind_sum (zm_Named Z l name) (\<lambda>l'. Inr (ctx\<lparr>cx_logger := Some (Some l')\<rparr>)))"

definition WithLogger :: "'l log_ctx \<Rightarrow> 'l option \<Rightarrow> 'l log_ctx" where
  "WithLogger ctx l = ctx\<lparr>cx_logger := Some l\<rparr>"

section \<open>Lines\<close>

record 'l log_call =
  call_logger :: 'l
  call_level :: level
  call_msg :: string
  call_fields :: "field list"

definition unwrapFields :: "(field list \<Rightarrow> field list) \<Rightarrow> (field \<Rightarrow> gerr option) \<Rightarrow> field list \<Rightarrow> field list" where
  "unwrapFields ord iface args =
     args @ concat (map (\<lambda>f. case iface f of Some err \<Rightarrow> UnwrapFields ord err | None \<Rightarrow> []) args)"

definition unwrapErrorFields ::
    "(field list \<Rightarrow> field list) \<Rightarrow> (field \<Rightarrow> gerr option) \<Rightarrow> (gerr \<Rightarrow> string) \<Rightarrow> gerr \<Rightarrow> field list" where
  "unwrapErrorFields ord iface txt err =
     (let fmap = foldl (\<lambda>agg f. put_field f agg) [] (UnwrapFields ord err);
          ff = ord fmap
      in unwrapFields ord iface ff @ [\<lparr>f_key = ''error'', f_value = RenderedType (txt err)\<rparr>])"

definition log_at :: "level \<Rightarrow> (field list \<Rightarrow> field list) \<Rightarrow> (field \<Rightarrow> gerr option) \<Rightarrow> 'l \<Rightarrow> 'l log_ctx \<Rightarrow> string \<Rightarrow> field list \<Rightarrow> 'l log_call" where
  "log_at lvl ord iface global ctx msg args =
     \<lparr>call_logger = the (logger_FromContext global ctx), call_level = lvl, call_msg = msg, call_fields = unwrapFields ord iface args\<rparr>"

definition log_Debug where "log_Debug = log_at DebugLevel"
definition log_Info where "log_Info = log_at InfoLevel"
definition log_Warn where "log_Warn = log_at WarnLevel"
definition log_Fatal where "log_Fatal = log_at FatalLevel"

definition log_Error ::
    "(field list \<Rightarrow> field list) \<Rightarrow> (field \<Rightarrow> gerr option) \<Rightarrow> (gerr \<Rightarrow> string) \<Rightarrow> 'l \<Rightarrow> 'l log_ctx \<Rightarrow> gerr option \<Rightarrow> 'l log_call panics" where
  "log_Error ord iface txt global ctx err =
     (case err of
        None \<Rightarrow> Inl ''invalid memory address or nil pointer dereference''
      | Some e \<Rightarrow>
          Inr \<lparr>call_logger = the (logger_FromContext global ctx), call_level = ErrorLevel, call_msg = txt e,
               call_fields = unwrapErrorFields ord iface txt e\<rparr>)"

definition logPanicErr ::
    "(field list \<Rightarrow> field list) \<Rightarrow> (field \<Rightarrow> gerr option) \<Rightarrow> (gerr \<Rightarrow> string) \<Rightarrow> string \<Rightarrow> 'l \<Rightarrow> gerr \<Rightarrow> field list \<Rightarrow> 'l log_call" where
  "logPanicErr ord iface txt stack l err flds =
     \<lparr>call_logger = l, call_level = ErrorLevel, call_msg = ''app panicked and recovering'',
      call_fields = flds @ unwrapErrorFields ord iface txt err @ [\<lparr>f_key = ''stack_trace'', f_value = StringType stack\<rparr>]\<rparr>"

text \<open>\<open>v\<close> is the value to be logged, \<open>None\<close> if it is nil, with what \<open>json.Marshal\<close> gives for it and the name of its type.\<close>

definition RawJSON :: "(gerr \<Rightarrow> string) \<Rightarrow> string \<Rightarrow> ((gerr + string) \<times> string) option \<Rightarrow> field" where
  "RawJSON txt k v =
     (case v of
        None \<Rightarrow> \<lparr>f_key = k, f_value = StringType ''nil''\<rparr>
      | Some (Inl err, type) \<Rightarrow> \<lparr>f_key = ''json_encoding_error'', f_value = RenderedType (txt (FmtWrap (''cannot encode '' @ type) err))\<rparr>
      | Some (Inr out, type) \<Rightarrow> \<lparr>f_key = k, f_value = ByteStringType out\<rparr>)"

section \<open>What the filters keep\<close>

lemma split_byte_inj: "split_byte c s = split_byte c t \<longleftrightarrow> s = t"
  using join_split_byte by metis

lemma split_byte_sep: "split_byte c (s @ c # t) = split_byte c s @ split_byte c t"
proof (induction s)
  case (Cons x s)
  obtain y ys where "split_byte c s = y # ys" by (cases "split_byte c s") auto
  with Cons show ?case by simp
qed simp

lemma join_append: "xs \<noteq> [] \<Longrightarrow> ys \<noteq> [] \<Longrightarrow> join sep (xs @ ys) = join sep xs @ sep @ join sep ys"
proof (induction xs rule: join.induct [of _ sep])
  case (2 sep s)
  then show ?case by (cases ys) auto
qed auto

lemma exact_or_child:
  "isStringExactOrChild root c \<longleftrightarrow> prefix (split_byte (CHR ''.'') root) (split_byte (CHR ''.'') c)" (is "?l = prefix ?r ?c")
proof
  assume ?l
  then consider "c = root" | "take (Suc (length root)) c = root @ ''.''"
    by (auto simp: isStringExactOrChild_def Let_def split: if_splits)
  then show "prefix ?r ?c"
  proof cases
    case 2
    then have "c = root @ CHR ''.'' # drop (Suc (length root)) c"
      by (metis append.assoc append_Cons append_Nil append_take_drop_id)
    then show ?thesis using split_byte_sep by (metis prefixI)
  qed simp
next
  assume "prefix ?r ?c"
  then obtain rest where rest: "?c = ?r @ rest" by (auto simp: prefix_def)
  show ?l
  proof (cases "rest = []")
    case True
    then have "c = root" using rest split_byte_inj by simp
    then show ?thesis by (simp add: isStringExactOrChild_def)
  next
    case False
    then have "join ''.'' ?c = join ''.'' ?r @ ''.'' @ join ''.'' rest" using rest by (simp add: join_append)
    then have "c = root @ ''.'' @ join ''.'' rest" by (simp add: join_split_byte)
    then show ?thesis by (simp add: isStringExactOrChild_def Let_def)
  qed
qed

lemma full_name_filter:
  "filterLoggerNameByNameStartswith fs e \<longleftrightarrow>
     \<not> (\<exists>f \<in> set fs. e_Level e \<le> nf_parsedLevel f \<and> isStringExactOrChild (nf_LoggerName f) (e_LoggerName e))"
  by (induction fs) auto

lemma exact_subname: "exact_subname_loop parts fs \<longleftrightarrow> \<not> (\<exists>f \<in> set fs. f \<in> set parts)"
  by (induction fs) auto

lemma logFilterSink_keeps:
  "logFilterSink config e \<longleftrightarrow>
     (\<forall>f \<in> set (fc_FullNameFilter config).
        e_Level e \<le> nf_parsedLevel f \<longrightarrow> \<not> prefix (split_byte (CHR ''.'') (nf_LoggerName f)) (split_byte (CHR ''.'') (e_LoggerName e))) \<and>
     (\<forall>f \<in> set (fc_ExactSubnameFilter config). f \<notin> set (split_byte (CHR ''.'') (e_LoggerName e)))"
  by (auto simp: logFilterSink_def full_name_filter filterLoggerNameByExactSubNameStartswith_def exact_subname exact_or_child)

text \<open>What zap's cores write: the sinks an entry goes to when the global level is \<open>g\<close>.\<close>

definition enabled :: "level \<Rightarrow> enabler \<Rightarrow> level \<Rightarrow> bool" where
  "enabled g en l \<longleftrightarrow> (case en of GlobalLevel \<Rightarrow> g \<le> l | FixedLevel m \<Rightarrow> m \<le> l)"

locale zap_cores =
  fixes writes :: "level \<Rightarrow> 's core \<Rightarrow> entry \<Rightarrow> 's list"
  assumes writes_core: "writes g (NewCore enc sink en) e = (if enabled g en (e_Level e) then [sink] else [])"
    and writes_filtering: "writes g (NewFilteringCore c config) e = (if logFilterSink config e then writes g c e else [])"
    and writes_tee: "writes g (NewTee cs) e = concat (map (\<lambda>c. writes g c e) cs)"
begin

lemma writes_logger:
  "writes g (zl_core (logger_New config lvl sink unfiltered opts)) e =
     (if enabled g (level_or_default lvl) (e_Level e)
      then (if logFilterSink (lc_Filters config) e then [sink] else []) @ (case unfiltered of None \<Rightarrow> [] | Some u \<Rightarrow> [u])
      else [])"
  by (cases opts; cases unfiltered)
    (simp_all add: logger_New_def NewDevelopmentConfig_def NewWithSink_def newLoggerWithEncoder_def zap_New_def level_or_default_def
      Let_def writes_core writes_filtering writes_tee)

end

fun core_writes :: "level \<Rightarrow> 's core \<Rightarrow> entry \<Rightarrow> 's list" where
  "core_writes g (NewCore enc sink en) e = (if enabled g en (e_Level e) then [sink] else [])"
| "core_writes g (NewFilteringCore c config) e = (if logFilterSink config e then core_writes g c e else [])"
| "core_writes g (NewTee cs) e = concat (map (\<lambda>c. core_writes g c e) cs)"

interpretation cores: zap_cores core_writes
  by unfold_locales simp_all

section \<open>The global logger is set once\<close>

text \<open>A process that goes on: the calls of the two setters that return.\<close>

inductive set_step :: "(string \<Rightarrow> gerr + level) \<Rightarrow> (string \<Rightarrow> gerr + 's) \<Rightarrow> 's logger_state \<Rightarrow> 's logger_state \<Rightarrow> bool"
  for parse zap_Open where
  once: "SetNewGlobalLoggerOnceWithUnfiltered parse zap_Open config u st = (GotSink r, st') \<Longrightarrow> set_step parse zap_Open st st'"
| quietly: "SetNewGlobalLoggerQuietly parse zap_Open config st = (GotSink r, st') \<Longrightarrow> set_step parse zap_Open st st'"

lemmas setter_defs = SetNewGlobalLoggerQuietly_def SetNewGlobalLoggerOnce_def SetNewGlobalLoggerOnceWithUnfiltered_def log_global_def Let_def

lemma setter_configures:
  assumes "SetNewGlobalLoggerOnceWithUnfiltered parse zap_Open config u st = (GotSink r, st')"
  shows "(ls_global st \<noteq> None \<longrightarrow> r = None \<and> ls_global st' = ls_global st \<and> ls_defaultLevel st' = ls_defaultLevel st \<and> ls_globalConfig st' = ls_globalConfig st) \<and>
    (ls_global st = None \<longrightarrow> ls_globalConfig st = None \<and> ls_globalConfig st' = Some config \<and> ls_global st' \<noteq> None \<and> r \<noteq> None)"
  using assms by (auto simp: setter_defs split: if_splits sum.splits)

definition consistent :: "'s logger_state \<Rightarrow> bool" where
  "consistent st \<longleftrightarrow> (ls_globalConfig st = None \<longleftrightarrow> ls_global st = None)"

definition same_setup :: "'s logger_state \<Rightarrow> 's logger_state \<Rightarrow> bool" where
  "same_setup st st' \<longleftrightarrow>
     ls_global st' = ls_global st \<and> ls_defaultLevel st' = ls_defaultLevel st \<and> ls_globalConfig st' = ls_globalConfig st"

lemma step_keeps:
  assumes "set_step parse zap_Open st st'"
  shows "consistent st \<Longrightarrow> consistent st'" and "ls_global st \<noteq> None \<Longrightarrow> same_setup st st'"
  using assms
  by (cases; auto simp: SetNewGlobalLoggerQuietly_def SetNewGlobalLoggerOnce_def consistent_def same_setup_def
      dest: setter_configures split: if_splits)+

lemma steps_consistent: "(set_step parse zap_Open)\<^sup>*\<^sup>* st st' \<Longrightarrow> consistent st \<Longrightarrow> consistent st'"
  by (induction rule: rtranclp_induct) (auto intro: step_keeps)

lemma steps_setup: "(set_step parse zap_Open)\<^sup>*\<^sup>* st st' \<Longrightarrow> ls_global st \<noteq> None \<Longrightarrow> same_setup st st'"
proof (induction rule: rtranclp_induct)
  case (step y z)
  then have "same_setup st y" by simp
  moreover then have "same_setup y z" using step step_keeps(2) by (metis same_setup_def)
  ultimately show ?case by (simp add: same_setup_def)
qed (simp add: same_setup_def)

text \<open>In a process that has not ended, setting the global logger never panics, and once it is set it stays, with its level and configuration, whatever
  setters are called later.\<close>

theorem logger_set_once:
  assumes "(set_step parse zap_Open)\<^sup>*\<^sup>* initial_logger st"
  shows "fst (SetNewGlobalLoggerOnceWithUnfiltered parse zap_Open config u st) \<noteq> SetPanics msg \<and>
    (\<forall>st'. ls_global st \<noteq> None \<longrightarrow> (set_step parse zap_Open)\<^sup>*\<^sup>* st st' \<longrightarrow>
       ls_global st' = ls_global st \<and> ls_defaultLevel st' = ls_defaultLevel st \<and> ls_globalConfig st' = ls_globalConfig st)"
proof
  have "consistent st" using assms by (rule steps_consistent) (simp add: consistent_def initial_logger_def)
  then show "fst (SetNewGlobalLoggerOnceWithUnfiltered parse zap_Open config u st) \<noteq> SetPanics msg"
    by (auto simp: setter_defs consistent_def split: sum.splits)
qed (use steps_setup same_setup_def in blast)

definition sample_parse_level :: "string \<Rightarrow> gerr + level" where
  "sample_parse_level s = (if s = ''DEBUG'' then Inr DebugLevel else if s = ''INFO'' then Inr InfoLevel else Inl (ErrNew ''unrecognized level''))"

definition sample_state :: "nat logger_state" where
  "sample_state = snd (SetNewGlobalLoggerOnceWithUnfiltered sample_parse_level (\<lambda>s. Inr (length s)) logger_DefaultConfig None initial_logger)"

lemma sample_state_set: "fst (SetNewGlobalLoggerOnceWithUnfiltered sample_parse_level (\<lambda>s. Inr (length s)) logger_DefaultConfig None initial_logger) = GotSink (Some 6)"
    "ls_globalConfig sample_state = Some logger_DefaultConfig" "ls_global sample_state \<noteq> None"
  by (simp_all add: sample_state_def setter_defs initial_logger_def sample_parse_level_def logger_DefaultConfig_def)

theorem logger_set_once_witness:
  "ls_global sample_state \<noteq> None \<and> fst (SetNewGlobalLoggerOnceWithUnfiltered sample_parse_level (\<lambda>s. Inr (length s)) logger_DefaultConfig None sample_state) \<noteq> SetPanics ''set config once per application''"
proof -
  have "set_step sample_parse_level (\<lambda>s. Inr (length s)) initial_logger sample_state"
    by (rule set_step.once [where config = logger_DefaultConfig and u = None and r = "Some 6"], rule prod_eqI)
      (simp_all add: sample_state_set(1), simp add: sample_state_def)
  then have "(set_step sample_parse_level (\<lambda>s. Inr (length s)))\<^sup>*\<^sup>* initial_logger sample_state" by (rule r_into_rtranclp)
  from logger_set_once [OF this] show ?thesis using sample_state_set by blast
qed

section \<open>Where entries go\<close>

lemma validate_filters_ok:
  "validate_filters parse fs = (None, fs') \<Longrightarrow>
     fs' = map (\<lambda>f. f\<lparr>nf_parsedLevel := projr (parse (nf_Level f))\<rparr>) fs \<and> (\<forall>f \<in> set fs. \<exists>m. parse (nf_Level f) = Inr m)"
proof (induction fs arbitrary: fs')
  case (Cons f fs)
  obtain err gs where gs: "validate_filters parse fs = (err, gs)" by (cases "validate_filters parse fs")
  from Cons.prems obtain m where m: "parse (nf_Level f) = Inr m" by (cases "parse (nf_Level f)") auto
  with Cons gs show ?case by simp
qed simp

text \<open>After a validated configuration has been set, an entry at or above its level goes to the sink unless a filter names the entry's logger or one of
  its parents, at the entry's level or above, or one of the parts of its name; to the unfiltered sink it goes always.\<close>

theorem logger_routes:
  assumes "zap_cores writes" and "Config_Validate parse c = (None, c')"
    and "SetNewGlobalLoggerOnceWithUnfiltered parse zap_Open c' u st = (GotSink (Some sink), st')"
  shows "\<exists>l lvl. ls_global st' = Some l \<and> parse (lc_LogLevel c) = Inr lvl \<and>
    (\<forall>e. writes (ls_defaultLevel st') (zl_core l) e =
       (if lvl \<le> e_Level e then
          (if (\<exists>f \<in> set (fc_FullNameFilter (lc_Filters c)). e_Level e \<le> projr (parse (nf_Level f)) \<and>
                 prefix (split_byte (CHR ''.'') (nf_LoggerName f)) (split_byte (CHR ''.'') (e_LoggerName e))) \<or>
              (\<exists>f \<in> set (fc_ExactSubnameFilter (lc_Filters c)). f \<in> set (split_byte (CHR ''.'') (e_LoggerName e)))
           then [] else [sink]) @ (case u of None \<Rightarrow> [] | Some s \<Rightarrow> [s])
        else []))"
proof -
  from assms(2) obtain fs where fs: "validate_filters parse (fc_FullNameFilter (lc_Filters c)) = (None, fs)"
    and c': "c' = c\<lparr>lc_Filters := (lc_Filters c)\<lparr>fc_FullNameFilter := fs\<rparr>\<rparr>"
    by (auto simp: Config_Validate_def Let_def split: prod.splits)
  note fs' = validate_filters_ok [OF fs, THEN conjunct1]
  from assms(3) obtain lvl where lvl: "parse (lc_LogLevel c) = Inr lvl" "ls_defaultLevel st' = lvl"
    and l: "ls_global st' = Some (logger_New c' (Some GlobalLevel) sink u (lc_Caller c', lc_CallerSkip c', lc_StackTraceLevel c'))"
    by (auto simp: setter_defs c' split: if_splits sum.splits)
  show ?thesis
  proof (intro exI conjI allI)
    fix e
    have keeps: "logFilterSink (lc_Filters c') e \<longleftrightarrow>
      \<not> ((\<exists>f \<in> set (fc_FullNameFilter (lc_Filters c)). e_Level e \<le> projr (parse (nf_Level f)) \<and>
            prefix (split_byte (CHR ''.'') (nf_LoggerName f)) (split_byte (CHR ''.'') (e_LoggerName e))) \<or>
         (\<exists>f \<in> set (fc_ExactSubnameFilter (lc_Filters c)). f \<in> set (split_byte (CHR ''.'') (e_LoggerName e))))"
      by (auto simp: logFilterSink_keeps c' fs')
    show "writes (ls_defaultLevel st') (zl_core (logger_New c' (Some GlobalLevel) sink u (lc_Caller c', lc_CallerSkip c', lc_StackTraceLevel c'))) e =
       (if lvl \<le> e_Level e then
          (if (\<exists>f \<in> set (fc_FullNameFilter (lc_Filters c)). e_Level e \<le> projr (parse (nf_Level f)) \<and>
                 prefix (split_byte (CHR ''.'') (nf_LoggerName f)) (split_byte (CHR ''.'') (e_LoggerName e))) \<or>
              (\<exists>f \<in> set (fc_ExactSubnameFilter (lc_Filters c)). f \<in> set (split_byte (CHR ''.'') (e_LoggerName e)))
           then [] else [sink]) @ (case u of None \<Rightarrow> [] | Some s \<Rightarrow> [s])
        else [])"
      by (simp only: zap_cores.writes_logger [OF assms(1)] keeps) (simp add: enabled_def level_or_default_def lvl)
  qed (rule l, rule lvl)
qed

definition sample_filters :: LoggerConfig where
  "sample_filters = logger_DefaultConfig\<lparr>lc_Filters := \<lparr>fc_FullNameFilter = [\<lparr>nf_Level = ''INFO'', nf_parsedLevel = 0, nf_LoggerName = ''a.b''\<rparr>], fc_ExactSubnameFilter = []\<rparr>\<rparr>"

theorem logger_routes_witness:
  "\<exists>l st'. SetNewGlobalLoggerOnceWithUnfiltered sample_parse_level (\<lambda>s. Inr (length s)) sample_filters (Some 7) initial_logger = (GotSink (Some 6), st') \<and>
     ls_global st' = Some l \<and>
     core_writes (ls_defaultLevel st') (zl_core l) \<lparr>e_Level = InfoLevel, e_LoggerName = ''a.b.c'', e_Message = []\<rparr> = [7] \<and>
     core_writes (ls_defaultLevel st') (zl_core l) \<lparr>e_Level = WarnLevel, e_LoggerName = ''a.b.c'', e_Message = []\<rparr> = [6, 7] \<and>
     core_writes (ls_defaultLevel st') (zl_core l) \<lparr>e_Level = InfoLevel, e_LoggerName = ''a.bc'', e_Message = []\<rparr> = [6, 7]"
proof -
  let ?r = "SetNewGlobalLoggerOnceWithUnfiltered sample_parse_level (\<lambda>s. Inr (length s)) sample_filters (Some 7) initial_logger"
  have v: "Config_Validate sample_parse_level sample_filters = (None, sample_filters)"
    by (simp add: Config_Validate_def sample_filters_def sample_parse_level_def logger_DefaultConfig_def Let_def)
  have r: "?r = (GotSink (Some 6), snd ?r)"
    by (rule prod_eqI) (simp_all add: setter_defs initial_logger_def sample_parse_level_def sample_filters_def logger_DefaultConfig_def)
  have s: "sample_parse_level ''DEBUG'' = Inr (- 1)" "sample_parse_level ''INFO'' = Inr 0" by (simp_all add: sample_parse_level_def)
  have f: "lc_LogLevel sample_filters = ''DEBUG''" "fc_ExactSubnameFilter (lc_Filters sample_filters) = []"
    "fc_FullNameFilter (lc_Filters sample_filters) = [\<lparr>nf_Level = ''INFO'', nf_parsedLevel = 0, nf_LoggerName = ''a.b''\<rparr>]"
    by (simp_all add: sample_filters_def logger_DefaultConfig_def)
  from logger_routes [OF cores.zap_cores_axioms v r]
  obtain l where l: "ls_global (snd ?r) = Some l" and w: "\<And>e. core_writes (ls_defaultLevel (snd ?r)) (zl_core l) e =
    (if - 1 \<le> e_Level e then (if e_Level e \<le> 0 \<and> prefix (split_byte (CHR ''.'') ''a.b'') (split_byte (CHR ''.'') (e_LoggerName e)) then [] else [6]) @ [7] else [])"
    by (auto simp: f s)
  show ?thesis
    by (rule exI [of _ l], rule exI [of _ "snd ?r"], intro conjI) (rule r, rule l, simp_all add: w)
qed

text \<open>The levels of filters come from \<open>Validate\<close> only: in a configuration that was not validated they are all zero, and a filter drops lines up to
  INFO, whatever its level says.\<close>

theorem unvalidated_filter_level:
  "logFilterSink \<lparr>fc_FullNameFilter = [\<lparr>nf_Level = any, nf_parsedLevel = 0, nf_LoggerName = name\<rparr>], fc_ExactSubnameFilter = []\<rparr>
     \<lparr>e_Level = l, e_LoggerName = name, e_Message = m\<rparr> \<longleftrightarrow> l > InfoLevel"
  by (auto simp: logFilterSink_keeps)

section \<open>Fields\<close>

lemma fold_put_field_id:
  "distinct (map f_key (gs @ fs)) \<Longrightarrow> foldl (\<lambda>agg f. put_field f agg) gs fs = gs @ fs"
  by (induction fs arbitrary: gs) (auto simp: put_field_absent image_iff)

lemma unwrap_loop_distinct: "distinct (map f_key flds) \<Longrightarrow> distinct (map f_key (unwrap_loop errs flds))"
  by (simp add: unwrap_loop_bfs fold_put_field_distinct)

text \<open>The line of an error has the fields collected from the error, one for each key, then the fields of the errors these hold, and ends with the
  error itself.\<close>

theorem error_line:
  assumes "\<forall>xs. mset (ord xs) = mset xs"
  shows "\<exists>ff nested. log_Error ord iface txt global ctx (Some err) =
      Inr \<lparr>call_logger = the (logger_FromContext global ctx), call_level = ErrorLevel, call_msg = txt err,
           call_fields = ff @ nested @ [\<lparr>f_key = ''error'', f_value = RenderedType (txt err)\<rparr>]\<rparr> \<and>
    mset ff = mset (unwrap_loop [err] []) \<and> distinct (map f_key ff) \<and>
    set nested = (\<Union>f \<in> set ff. case iface f of Some e \<Rightarrow> set (unwrap_loop [e] []) | None \<Rightarrow> {})"
proof -
  define us where "us = UnwrapFields ord err"
  have us: "mset us = mset (unwrap_loop [err] [])" using assms by (simp add: us_def UnwrapFields_def)
  have keys: "distinct (map f_key xs)" if "mset xs = mset (unwrap_loop [err] [])" for xs
    using that unwrap_loop_distinct [of "[]" "[err]"] by (metis distinct.simps(1) list.map(1) mset_eq_imp_distinct_iff mset_map)
  have id: "foldl (\<lambda>agg f. put_field f agg) [] us = us" using fold_put_field_id [of "[]" us] keys [OF us] by simp
  have set_ord: "set (ord xs) = set xs" for xs using assms mset_eq_setD by metis
  show ?thesis
  proof (intro exI conjI)
    show "log_Error ord iface txt global ctx (Some err) =
      Inr \<lparr>call_logger = the (logger_FromContext global ctx), call_level = ErrorLevel, call_msg = txt err,
           call_fields = ord us @ concat (map (\<lambda>f. case iface f of Some err \<Rightarrow> UnwrapFields ord err | None \<Rightarrow> []) (ord us)) @
             [\<lparr>f_key = ''error'', f_value = RenderedType (txt err)\<rparr>]\<rparr>"
      by (simp add: log_Error_def unwrapErrorFields_def unwrapFields_def us_def [symmetric] id Let_def)
    show "mset (ord us) = mset (unwrap_loop [err] [])" using assms us by simp
    then show "distinct (map f_key (ord us))" by (rule keys)
    show "set (concat (map (\<lambda>f. case iface f of Some err \<Rightarrow> UnwrapFields ord err | None \<Rightarrow> []) (ord us))) =
      (\<Union>f \<in> set (ord us). case iface f of Some e \<Rightarrow> set (unwrap_loop [e] []) | None \<Rightarrow> {})"
      by (simp only: set_concat set_map image_image) (intro SUP_cong refl, simp add: UnwrapFields_def set_ord split: option.split)
  qed
qed

theorem error_line_witness:
  "\<exists>c. log_Error rev (\<lambda>_. None) (\<lambda>_. ''boom'') () \<lparr>cx_logger = None, cx_fields = []\<rparr> (Some (WithFieldsErr (ErrNew ''boom'') [\<lparr>f_key = ''k'', f_value = SkipType\<rparr>])) =
     Inr c \<and> call_msg c = ''boom'' \<and> \<lparr>f_key = ''k'', f_value = SkipType\<rparr> \<in> set (call_fields c)"
  using error_line [of rev "\<lambda>_. None" "\<lambda>_. ''boom''" "()" "\<lparr>cx_logger = None, cx_fields = []\<rparr>" "WithFieldsErr (ErrNew ''boom'') [\<lparr>f_key = ''k'', f_value = SkipType\<rparr>]"]
  by (auto dest!: mset_eq_setD simp: own_fields_def)

text \<open>The check for a missing logger in \<open>WithFields\<close> is never reached: without a global logger the call fails inside zap.\<close>

theorem missing_logger_not_detected:
  assumes "\<And>l fs. zm_With Z l fs \<noteq> Inl ''logger has not been configured''"
  shows "logger_WithFields Z global ctx flds \<noteq> Inl ''logger has not been configured''"
proof -
  have "add_fields fs lkm lf \<noteq> Inl ''logger has not been configured''" for fs lkm lf
    by (induction fs lkm lf rule: add_fields.induct) (auto split: option.splits)
  then show ?thesis using assms
    by (auto simp: logger_WithFields_def logger_FromContext_def ContextWithFields_def bind_sum_def split: option.splits sum.splits)
qed

end
