(* ===== verification/Clickhouse.thy ===== *)
theory Clickhouse
  imports Sql_Query Go_Error
begin

text \<open>
  The ClickHouse client (\<open>internal/chdb\<close>): opening a connection, the read-only mode, statements, batches and scripts of several
  statements.

  The state is the database \<open>'w\<close> as the client library changes it, with the connections that were opened and not
  closed and the lines that were logged (\<open>ch_world\<close>). The client library is the parameter \<open>ch_lib\<close>.
  Collecting metrics in the background is left out.
\<close>

section \<open>Data\<close>

record chdb_Config =
  ch_Enabled :: bool
  ch_ChcAddr :: string
  ch_ChcRoAddr :: string
  ch_Database :: string
  ch_Username :: string
  ch_ChcPassword :: string
  ch_MaxOpenConns :: int
  ch_MaxIdleConns :: int
  ch_UseTls :: bool
  ch_MaxExecutionTime :: go_uint
  ch_MaxQuerySize :: go_uint
  ch_MaxResultRows :: go_uint
  ch_MaxResultBytes :: go_uint

record ch_Options =
  co_Addr :: "string list"
  co_Database :: string
  co_Username :: string
  co_Password :: string
  co_Settings :: "(string \<times> go_uint) list"
  co_LZ4 :: bool
  co_DialTimeout :: go_duration
  co_MaxOpenConns :: int
  co_MaxIdleConns :: int
  co_TLS :: bool

record 'c DB =
  db_cfg :: chdb_Config
  db_conn :: "'c option"
  db_readOnly :: bool

text \<open>A logged query: the name of the connection, the text and the arguments given to the hook.\<close>

type_synonym 'a query_line = "string \<times> string \<times> 'a list list"

record ('w, 'c, 'a) ch_world =
  w_server :: 'w
  w_open :: "'c list"
  w_log :: "'a query_line list"

record ('w, 'c, 'a, 'b) ch_lib =
  cl_Open :: "ch_Options \<Rightarrow> gerr + 'c"
  cl_Ping :: "'c \<Rightarrow> gerr option"
  cl_Close :: "'c \<Rightarrow> gerr option"
  cl_Select :: "'c \<Rightarrow> string \<Rightarrow> 'a list \<Rightarrow> 'w \<Rightarrow> gerr option \<times> 'w"
  cl_Exec :: "'c \<Rightarrow> string \<Rightarrow> 'a list \<Rightarrow> 'w \<Rightarrow> gerr option \<times> 'w"
  cl_PrepareBatch :: "'c \<Rightarrow> string \<Rightarrow> 'w \<Rightarrow> (gerr + 'b) \<times> 'w"
  cl_Append :: "'b \<Rightarrow> 'a list \<Rightarrow> gerr + 'b"
  cl_Send :: "'b \<Rightarrow> 'w \<Rightarrow> gerr option \<times> 'w"

abbreviation ErrConnectionNotInitialized :: gerr where
  "ErrConnectionNotInitialized \<equiv> Sentinel (NamedError ''connection not initialized'')"

abbreviation ErrNotAvailableInRoMode :: gerr where
  "ErrNotAvailableInRoMode \<equiv> Sentinel (NamedError ''not available in read-only mode'')"

section \<open>Connections\<close>

definition NewDB :: "chdb_Config \<Rightarrow> bool \<Rightarrow> 'c DB" where
  "NewDB cfg readOnly = \<lparr>db_cfg = cfg, db_conn = None, db_readOnly = readOnly\<rparr>"

definition chOptions :: "chdb_Config \<Rightarrow> string \<Rightarrow> string \<Rightarrow> ch_Options" where
  "chOptions cfg addr password =
     \<lparr>co_Addr = [addr], co_Database = ch_Database cfg, co_Username = ch_Username cfg, co_Password = password,
      co_Settings = [(''max_execution_time'', ch_MaxExecutionTime cfg), (''max_query_size'', ch_MaxQuerySize cfg),
                     (''max_result_rows'', ch_MaxResultRows cfg), (''max_result_bytes'', ch_MaxResultBytes cfg)],
      co_LZ4 = True, co_DialTimeout = 10 * 1000000000, co_MaxOpenConns = ch_MaxOpenConns cfg, co_MaxIdleConns = ch_MaxIdleConns cfg,
      co_TLS = ch_UseTls cfg\<rparr>"

definition chdb_Ready ::
    "('w, 'c, 'a, 'b) ch_lib \<Rightarrow> 'c DB \<Rightarrow> ('w, 'c, 'a) ch_world \<Rightarrow> gerr option \<times> 'c DB \<times> ('w, 'c, 'a) ch_world" where
  "chdb_Ready L db w =
     (if \<not> ch_Enabled (db_cfg db) then (None, db, w)
      else
        let addr = (if db_readOnly db \<and> ch_ChcRoAddr (db_cfg db) \<noteq> [] then ch_ChcRoAddr (db_cfg db) else ch_ChcAddr (db_cfg db))
        in case cl_Open L (chOptions (db_cfg db) addr (ch_ChcPassword (db_cfg db))) of
             Inl err \<Rightarrow> (Some (FmtWrap ''could not connect to clickhouse'' err), db, w)
           | Inr conn \<Rightarrow>
               let w' = w\<lparr>w_open := conn # w_open w\<rparr>
               in case cl_Ping L conn of
                    Some err \<Rightarrow> (Some (FmtWrap ''could not ping clickhouse'' err), db, w')
                  | None \<Rightarrow> (None, db\<lparr>db_conn := Some conn\<rparr>, w'))"

definition getConnName :: "'c DB \<Rightarrow> string" where
  "getConnName db = (if db_readOnly db then ''chc_ro'' else ''chc'')"

definition chdb_IsReady :: "'c DB \<Rightarrow> bool" where
  "chdb_IsReady db = (if \<not> ch_Enabled (db_cfg db) then False else db_conn db \<noteq> None)"

definition chdb_Close :: "('w, 'c, 'a, 'b) ch_lib \<Rightarrow> 'c DB \<Rightarrow> ('w, 'c, 'a) ch_world \<Rightarrow> gerr option \<times> ('w, 'c, 'a) ch_world" where
  "chdb_Close L db w =
     (if \<not> ch_Enabled (db_cfg db) then (None, w)
      else case db_conn db of
        None \<Rightarrow> (None, w)
      | Some conn \<Rightarrow>
          (case cl_Close L conn of
             Some err \<Rightarrow> (Some err, w)
           | None \<Rightarrow> (None, w\<lparr>w_open := removeAll conn (w_open w)\<rparr>)))"

section \<open>Statements\<close>

definition makeLoggerHook :: "string \<Rightarrow> string \<Rightarrow> 'a list list \<Rightarrow> ('w, 'c, 'a) ch_world \<Rightarrow> ('w, 'c, 'a) ch_world" where
  "makeLoggerHook connName query args w = w\<lparr>w_log := w_log w @ [(connName, query, if length args > 1000 then take 1000 args else args)]\<rparr>"

definition on_server :: "('w \<Rightarrow> 'r \<times> 'w) \<Rightarrow> ('w, 'c, 'a) ch_world \<Rightarrow> 'r \<times> ('w, 'c, 'a) ch_world" where
  "on_server f w = (let (r, s) = f (w_server w) in (r, w\<lparr>w_server := s\<rparr>))"

text \<open>The hook is given the slice of arguments as its only argument, and runs when the function returns.\<close>

definition SelectContext ::
    "('w, 'c, 'a, 'b) ch_lib \<Rightarrow> 'c DB \<Rightarrow> string \<Rightarrow> 'a list \<Rightarrow> ('w, 'c, 'a) ch_world \<Rightarrow> gerr option \<times> ('w, 'c, 'a) ch_world" where
  "SelectContext L db query args w =
     (case db_conn db of
        None \<Rightarrow> (Some ErrConnectionNotInitialized, w)
      | Some conn \<Rightarrow>
          (let (err, w') = on_server (cl_Select L conn query args) w in (err, makeLoggerHook (getConnName db) query [args] w')))"

definition PrepareBatchContext ::
    "('w, 'c, 'a, 'b) ch_lib \<Rightarrow> 'c DB \<Rightarrow> string \<Rightarrow> ('w, 'c, 'a) ch_world \<Rightarrow> (gerr + 'b) \<times> ('w, 'c, 'a) ch_world" where
  "PrepareBatchContext L db query w =
     (case db_conn db of
        None \<Rightarrow> (Inl ErrConnectionNotInitialized, w)
      | Some conn \<Rightarrow>
          if db_readOnly db then (Inl ErrNotAvailableInRoMode, w) else on_server (cl_PrepareBatch L conn query) w)"

definition insert_body ::
    "('w, 'c, 'a, 'b) ch_lib \<Rightarrow> 'c DB \<Rightarrow> string \<Rightarrow> 'a list \<Rightarrow> ('w, 'c, 'a) ch_world \<Rightarrow> gerr option \<times> ('w, 'c, 'a) ch_world" where
  "insert_body L db query args w =
     (case PrepareBatchContext L db query w of
        (Inl err, w1) \<Rightarrow> (Some err, w1)
      | (Inr batch, w1) \<Rightarrow>
          (case cl_Append L batch args of
             Inl err \<Rightarrow> (Some err, w1)
           | Inr batch' \<Rightarrow> on_server (cl_Send L batch') w1))"

definition InsertContext ::
    "('w, 'c, 'a, 'b) ch_lib \<Rightarrow> 'c DB \<Rightarrow> string \<Rightarrow> 'a list \<Rightarrow> ('w, 'c, 'a) ch_world \<Rightarrow> gerr option \<times> ('w, 'c, 'a) ch_world" where
  "InsertContext L db query args w =
     (if db_conn db = None then (Some ErrConnectionNotInitialized, w)
      else if db_readOnly db then (Some ErrNotAvailableInRoMode, w)
      else let (err, w') = insert_body L db query args w in (err, makeLoggerHook (getConnName db) query [args] w'))"

definition ExecContext ::
    "('w, 'c, 'a, 'b) ch_lib \<Rightarrow> 'c DB \<Rightarrow> string \<Rightarrow> 'a list \<Rightarrow> ('w, 'c, 'a) ch_world \<Rightarrow> gerr option \<times> ('w, 'c, 'a) ch_world" where
  "ExecContext L db query args w =
     (case db_conn db of
        None \<Rightarrow> (Some ErrConnectionNotInitialized, w)
      | Some conn \<Rightarrow>
          if db_readOnly db then (Some ErrNotAvailableInRoMode, w)
          else let (err, w') = on_server (cl_Exec L conn query args) w in (err, makeLoggerHook (getConnName db) query [args] w'))"

text \<open>The regular expression \<open>--.*$\<close>: the dot is no newline and the dollar is the end of the text, so the first \<open>--\<close> of the
  last line is cut off with what follows.\<close>

fun remove_comment :: "string \<Rightarrow> string" where
  "remove_comment [] = []"
| "remove_comment (c # s) =
     (if has_prefix (c # s) ''--'' \<and> CHR 0x0A \<notin> set s then [] else c # remove_comment s)"

definition splitQuery :: "string \<Rightarrow> string list" where
  "splitQuery query = filter (\<lambda>s. s \<noteq> []) (map (\<lambda>s. remove_comment (TrimSpace s)) (split_byte (CHR '';'') query))"

fun exec_all ::
    "('w, 'c, 'a, 'b) ch_lib \<Rightarrow> 'c DB \<Rightarrow> string list \<Rightarrow> ('w, 'c, 'a) ch_world \<Rightarrow> gerr option \<times> ('w, 'c, 'a) ch_world" where
  "exec_all L db [] w = (None, w)"
| "exec_all L db (stmt # stmts) w =
     (case ExecContext L db stmt [] w of
        (Some err, w') \<Rightarrow> (Some err, w')
      | (None, w') \<Rightarrow> exec_all L db stmts w')"

definition ExecMultiContext ::
    "('w, 'c, 'a, 'b) ch_lib \<Rightarrow> 'c DB \<Rightarrow> string \<Rightarrow> ('w, 'c, 'a) ch_world \<Rightarrow> gerr option \<times> ('w, 'c, 'a) ch_world" where
  "ExecMultiContext L db query w =
     (if db_conn db = None then (Some ErrConnectionNotInitialized, w)
      else if db_readOnly db then (Some ErrNotAvailableInRoMode, w)
      else exec_all L db (splitQuery query) w)"

section \<open>Read-only clients do not write\<close>

text \<open>Without a connection, or in read-only mode, a statement, a batch or a script gives an error and reaches neither the server nor the
  log.\<close>

theorem no_write_without_right:
  assumes "db_conn db = None \<or> db_readOnly db"
  defines "err \<equiv> (if db_conn db = None then ErrConnectionNotInitialized else ErrNotAvailableInRoMode)"
  shows "ExecContext L db query args w = (Some err, w) \<and> InsertContext L db query args w = (Some err, w) \<and>
    ExecMultiContext L db query w = (Some err, w) \<and> PrepareBatchContext L db query w = (Inl err, w)"
  using assms by (auto simp: ExecContext_def InsertContext_def ExecMultiContext_def PrepareBatchContext_def split: option.splits)

section \<open>Scripts\<close>

text \<open>The statements of a script that are run: those before the first one that fails, and that one.\<close>

fun run_server :: "(string \<Rightarrow> 'w \<Rightarrow> gerr option \<times> 'w) \<Rightarrow> string list \<Rightarrow> 'w \<Rightarrow> gerr option \<times> 'w \<times> string list" where
  "run_server f [] s = (None, s, [])"
| "run_server f (q # qs) s =
     (let (err, s') = f q s
      in case err of
           Some e \<Rightarrow> (Some e, s', [q])
         | None \<Rightarrow> (let (r, s'', run) = run_server f qs s' in (r, s'', q # run)))"

lemma exec_all_runs:
  assumes "db_conn db = Some conn" and "\<not> db_readOnly db"
  shows "exec_all L db qs w =
    (case run_server (\<lambda>q. cl_Exec L conn q []) qs (w_server w) of
       (err, s, run) \<Rightarrow> (err, w\<lparr>w_server := s, w_log := w_log w @ map (\<lambda>q. (''chc'', q, [[]])) run\<rparr>))"
proof (induction qs arbitrary: w)
  case (Cons q qs)
  obtain err s where e: "cl_Exec L conn q [] (w_server w) = (err, s)" by (cases "cl_Exec L conn q [] (w_server w)")
  have ex: "ExecContext L db q [] w = (err, w\<lparr>w_server := s, w_log := w_log w @ [(''chc'', q, [[]])]\<rparr>)"
    using assms e by (simp add: ExecContext_def on_server_def makeLoggerHook_def getConnName_def)
  show ?case
  proof (cases err)
    case None
    then show ?thesis using e ex Cons.IH by (simp split: prod.splits)
  next
    case (Some x)
    then show ?thesis using e ex by simp
  qed
qed simp

lemma remove_comment_none: "\<not> str_contains s ''--'' \<Longrightarrow> remove_comment s = s"
  by (induction s) auto

lemma str_contains_dropWhile: "str_contains (dropWhile P s) ''--'' \<Longrightarrow> str_contains s ''--''"
  by (induction s) (auto split: if_splits)

lemma str_contains_split: "str_contains s p \<longleftrightarrow> (\<exists>a b. s = a @ p @ b)"
proof (induction s)
  case (Cons x s)
  have "has_prefix (x # s) p \<longleftrightarrow> (\<exists>b. x # s = p @ b)"
    by (metis append_eq_conv_conj append_take_drop_id has_prefix_def)
  then have "str_contains (x # s) p \<longleftrightarrow> (\<exists>b. x # s = p @ b) \<or> (\<exists>a b. s = a @ p @ b)" using Cons by simp
  also have "\<dots> \<longleftrightarrow> (\<exists>a b. x # s = a @ p @ b)"
    by (metis append_Cons append_Nil list.exhaust list.inject)
  finally show ?case .
qed simp

lemma str_contains_sub: "str_contains s p \<Longrightarrow> str_contains (a @ s @ b) p"
  unfolding str_contains_split by (metis append.assoc)

lemma TrimSpace_infix: "\<exists>a b. s = a @ TrimSpace s @ b"
proof -
  let ?d = "dropWhile is_space s"
  have "?d = trim_right is_space ?d @ rev (takeWhile is_space (rev ?d))"
    unfolding trim_right_def by (metis rev_append rev_rev_ident takeWhile_dropWhile_id)
  then have "s = takeWhile is_space s @ TrimSpace s @ rev (takeWhile is_space (rev ?d))"
    unfolding TrimSpace_def by (metis takeWhile_dropWhile_id)
  then show ?thesis by blast
qed

lemma split_byte_infix: "p \<in> set (split_byte c s) \<Longrightarrow> \<exists>a b. s = a @ p @ b"
proof (induction s arbitrary: p)
  case (Cons x s)
  show ?case
  proof (cases "x = c")
    case True
    with Cons.prems consider "p = []" | "p \<in> set (split_byte c s)" by auto
    then show ?thesis
    proof cases
      case 1
      then have "x # s = [] @ p @ (x # s)" by simp
      then show ?thesis by blast
    next
      case 2
      with Cons.IH obtain a b where "s = a @ p @ b" by blast
      then have "x # s = (x # a) @ p @ b" by simp
      then show ?thesis by blast
    qed
  next
    case False
    obtain y ys where y: "split_byte c s = y # ys" by (cases "split_byte c s") auto
    with False Cons.prems consider "p = x # y" | "p \<in> set ys" by auto
    then show ?thesis
    proof cases
      case 1
      have "join [c] (y # ys) = s" using join_split_byte [of c s] y by simp
      then obtain b where "s = y @ b" by (cases ys) auto
      with 1 have "x # s = [] @ p @ b" by simp
      then show ?thesis by blast
    next
      case 2
      with Cons.IH y obtain a b where "s = a @ p @ b" by fastforce
      then have "x # s = (x # a) @ p @ b" by simp
      then show ?thesis by blast
    qed
  qed
qed simp

lemma splitQuery_plain:
  assumes "\<not> str_contains query ''--''"
  shows "splitQuery query = filter (\<lambda>s. s \<noteq> []) (map TrimSpace (split_byte (CHR '';'') query))"
proof -
  have "remove_comment (TrimSpace p) = TrimSpace p" if "p \<in> set (split_byte (CHR '';'') query)" for p
  proof (rule remove_comment_none, rule notI)
    assume "str_contains (TrimSpace p) ''--''"
    moreover obtain a b where "query = a @ p @ b" using split_byte_infix [OF \<open>p \<in> _\<close>] by blast
    moreover obtain a' b' where "p = a' @ TrimSpace p @ b'" using TrimSpace_infix by blast
    ultimately show False using assms str_contains_sub by metis
  qed
  then show ?thesis by (simp add: splitQuery_def cong: map_cong)
qed

text \<open>C36: A script without comments is run statement by statement, in order, as split at the semicolons and trimmed, empty ones left out; it stops at the
  first statement that fails, with its error, and every statement that was run is logged.\<close>

theorem script_runs_in_order:
  assumes "db_conn db = Some conn" and "\<not> db_readOnly db" and "\<not> str_contains query ''--''"
  shows "ExecMultiContext L db query w =
    (case run_server (\<lambda>q. cl_Exec L conn q []) (filter (\<lambda>s. s \<noteq> []) (map TrimSpace (split_byte (CHR '';'') query))) (w_server w) of
       (err, s, run) \<Rightarrow> (err, w\<lparr>w_server := s, w_log := w_log w @ map (\<lambda>q. (''chc'', q, [[]])) run\<rparr>))"
  using assms exec_all_runs [OF assms(1,2)] splitQuery_plain [OF assms(3)] by (simp add: ExecMultiContext_def)

definition sample_ch_lib :: "(string list, unit, nat, unit) ch_lib" where
  "sample_ch_lib =
     \<lparr>cl_Open = (\<lambda>_. Inr ()), cl_Ping = (\<lambda>_. None), cl_Close = (\<lambda>_. None), cl_Select = (\<lambda>_ q _ s. (None, s)),
      cl_Exec = (\<lambda>_ q _ s. if q = ''BAD'' then (Some (ErrNew ''syntax error''), s) else (None, s @ [q])),
      cl_PrepareBatch = (\<lambda>_ _ s. (Inr (), s)), cl_Append = (\<lambda>b _. Inr b), cl_Send = (\<lambda>_ s. (None, s))\<rparr>"

definition sample_db :: "bool \<Rightarrow> unit DB" where
  "sample_db ro = \<lparr>db_cfg = undefined, db_conn = Some (), db_readOnly = ro\<rparr>"

definition sample_world :: "(string list, unit, nat) ch_world" where
  "sample_world = \<lparr>w_server = [], w_open = [], w_log = []\<rparr>"

theorem script_runs_in_order_witness:
  "ExecMultiContext sample_ch_lib (sample_db False) ''A ; BAD;;C'' sample_world =
     (Some (ErrNew ''syntax error''), \<lparr>w_server = [''A''], w_open = [], w_log = [(''chc'', ''A'', [[]]), (''chc'', ''BAD'', [[]])]\<rparr>)"
  using script_runs_in_order [of "sample_db False" "()" "''A ; BAD;;C''" sample_ch_lib sample_world]
  by (simp add: sample_db_def sample_ch_lib_def sample_world_def TrimSpace_def trim_right_def is_space_def has_prefix_def)

theorem no_write_without_right_witness:
  "ExecContext sample_ch_lib (sample_db True) ''A'' [] sample_world = (Some ErrNotAvailableInRoMode, sample_world)"
  using no_write_without_right [of "sample_db True" sample_ch_lib "''A''" "[]" sample_world] by (simp add: sample_db_def)

text \<open>A semicolon in a comment ends a statement: the rest of the comment is sent to the server with the next statement.\<close>

theorem semicolon_in_comment:
  "splitQuery (''-- a; b'' @ [CHR 0x0A] @ ''SELECT 1'') = [''b'' @ [CHR 0x0A] @ ''SELECT 1'']"
  by (simp add: splitQuery_def TrimSpace_def trim_right_def is_space_def has_prefix_def)

text \<open>The limit on the logged arguments never applies: the hook sees one argument, the whole slice.\<close>

theorem logged_arguments_not_limited:
  assumes "db_conn db = Some conn" and "\<not> db_readOnly db"
  shows "w_log (snd (ExecContext L db query args w)) = w_log w @ [(getConnName db, query, [args])]"
  using assms by (simp add: ExecContext_def on_server_def makeLoggerHook_def split: prod.splits)

section \<open>Connections that stay open\<close>

text \<open>A successful \<open>Ready\<close> leaves the client with one open connection to the address for its mode; one whose ping fails leaves the connection open and
  the client without a way to close it.\<close>

theorem ready_connections:
  assumes "ch_Enabled (db_cfg db)"
  defines "addr \<equiv> (if db_readOnly db \<and> ch_ChcRoAddr (db_cfg db) \<noteq> [] then ch_ChcRoAddr (db_cfg db) else ch_ChcAddr (db_cfg db))"
  shows "case chdb_Ready L db w of
      (None, db', w') \<Rightarrow>
        \<exists>conn. cl_Open L (chOptions (db_cfg db) addr (ch_ChcPassword (db_cfg db))) = Inr conn \<and> db' = db\<lparr>db_conn := Some conn\<rparr> \<and>
          w_open w' = conn # w_open w \<and> chdb_IsReady db' \<and>
          (cl_Close L conn = None \<longrightarrow> chdb_Close L db' w' = (None, w'\<lparr>w_open := removeAll conn (w_open w)\<rparr>))
    | (Some err, db', w') \<Rightarrow>
        db' = db \<and>
        (w' = w \<or>
         (\<exists>conn. cl_Open L (chOptions (db_cfg db) addr (ch_ChcPassword (db_cfg db))) = Inr conn \<and> cl_Ping L conn \<noteq> None \<and> w_open w' = conn # w_open w))"
  using assms
  by (auto simp: chdb_Ready_def addr_def [symmetric] chdb_IsReady_def chdb_Close_def Let_def split: sum.splits option.splits)

definition sample_ch_cfg :: chdb_Config where
  "sample_ch_cfg =
     \<lparr>ch_Enabled = True, ch_ChcAddr = ''10.30.42.61:9000'', ch_ChcRoAddr = [], ch_Database = ''yanakipre'', ch_Username = ''default'', ch_ChcPassword = [],
      ch_MaxOpenConns = 10, ch_MaxIdleConns = 10, ch_UseTls = False, ch_MaxExecutionTime = 60, ch_MaxQuerySize = 10485760,
      ch_MaxResultRows = 1000000, ch_MaxResultBytes = 10485760\<rparr>"

theorem ready_connections_witness:
  "\<exists>db' w'. chdb_Ready sample_ch_lib (NewDB sample_ch_cfg True) sample_world = (None, db', w') \<and> chdb_IsReady db' \<and> w_open w' = [()]"
proof -
  obtain db' w' where r: "chdb_Ready sample_ch_lib (NewDB sample_ch_cfg True) sample_world = (None, db', w')"
    by (simp add: chdb_Ready_def sample_ch_lib_def NewDB_def sample_ch_cfg_def Let_def)
  have "ch_Enabled (db_cfg (NewDB sample_ch_cfg True))" "w_open sample_world = []"
    by (simp_all add: NewDB_def sample_ch_cfg_def sample_world_def)
  with ready_connections [of "NewDB sample_ch_cfg True" sample_ch_lib sample_world] r show ?thesis by auto
qed

end
