(* ===== verification/Metrics.thy ===== *)
theory Metrics
  imports Schedule Complex_Main
begin

text \<open>
  Prometheus metrics: the constructors of \<open>internal/promtooling\<close>, the metrics that \<open>internal/metrics\<close>, the workers and the rate limiter
  declare, their registration when the program starts, and the places that write to them.

  Prometheus is an interface, \<open>prometheus\<close>: a registry accepts a well-formed collector exactly when its name is new, and
  choosing a metric by its label values panics exactly when their number is not that of the labels. A sequence of writes gives what was
  written before a panic, and the panic.
\<close>

section \<open>Constructors\<close>

datatype metric_kind = CounterKind | GaugeKind | HistogramKind "rat list" | SummaryKind "(rat \<times> rat) list"

record metric_vec =
  mv_kind :: metric_kind
  mv_Namespace :: string
  mv_Name :: string
  mv_Help :: string
  mv_labels :: "string list"

definition DefaultNamespace :: string where "DefaultNamespace = []"

definition NewCounterVec :: "string \<Rightarrow> string \<Rightarrow> string list \<Rightarrow> metric_vec" where
  "NewCounterVec name help labelNames =
     \<lparr>mv_kind = CounterKind, mv_Namespace = DefaultNamespace, mv_Name = name, mv_Help = help, mv_labels = labelNames\<rparr>"

definition NewCounter :: "string \<Rightarrow> string \<Rightarrow> metric_vec" where
  "NewCounter name help =
     \<lparr>mv_kind = CounterKind, mv_Namespace = DefaultNamespace, mv_Name = name, mv_Help = help, mv_labels = []\<rparr>"

definition NewGaugeVec :: "string \<Rightarrow> string \<Rightarrow> string list \<Rightarrow> metric_vec" where
  "NewGaugeVec name help labelNames =
     \<lparr>mv_kind = GaugeKind, mv_Namespace = DefaultNamespace, mv_Name = name, mv_Help = help, mv_labels = labelNames\<rparr>"

definition NewGauge :: "string \<Rightarrow> string \<Rightarrow> metric_vec" where
  "NewGauge name help =
     \<lparr>mv_kind = GaugeKind, mv_Namespace = DefaultNamespace, mv_Name = name, mv_Help = help, mv_labels = []\<rparr>"

definition NewHistogramVec :: "string \<Rightarrow> string \<Rightarrow> rat list \<Rightarrow> string list \<Rightarrow> metric_vec" where
  "NewHistogramVec name help buckets labelNames =
     \<lparr>mv_kind = HistogramKind buckets, mv_Namespace = DefaultNamespace, mv_Name = name, mv_Help = help, mv_labels = labelNames\<rparr>"

definition NewHistogram :: "string \<Rightarrow> string \<Rightarrow> rat list \<Rightarrow> metric_vec" where
  "NewHistogram name help buckets =
     \<lparr>mv_kind = HistogramKind buckets, mv_Namespace = DefaultNamespace, mv_Name = name, mv_Help = help, mv_labels = []\<rparr>"

definition NewSummaryVec :: "string \<Rightarrow> string \<Rightarrow> (rat \<times> rat) list \<Rightarrow> string list \<Rightarrow> metric_vec" where
  "NewSummaryVec name help objectives labelNames =
     \<lparr>mv_kind = SummaryKind objectives, mv_Namespace = DefaultNamespace, mv_Name = name, mv_Help = help, mv_labels = labelNames\<rparr>"

definition NewSummary :: "string \<Rightarrow> string \<Rightarrow> (rat \<times> rat) list \<Rightarrow> metric_vec" where
  "NewSummary name help objectives =
     \<lparr>mv_kind = SummaryKind objectives, mv_Namespace = DefaultNamespace, mv_Name = name, mv_Help = help, mv_labels = []\<rparr>"

lemmas constructors = NewCounterVec_def NewCounter_def NewGaugeVec_def NewGauge_def NewHistogramVec_def NewHistogram_def NewSummaryVec_def
  NewSummary_def DefaultNamespace_def

section \<open>Registration\<close>

fun MustRegister :: "('r \<Rightarrow> metric_vec \<Rightarrow> gerr + 'r) \<Rightarrow> metric_vec list \<Rightarrow> 'r \<Rightarrow> 'r panics" where
  "MustRegister register [] r = Inr r"
| "MustRegister register (c # cs) r =
     (case register r c of Inl err \<Rightarrow> Inl (''cannot register '' @ mv_Name c) | Inr r' \<Rightarrow> MustRegister register cs r')"

definition must_register_new :: "('r \<Rightarrow> metric_vec \<Rightarrow> gerr + 'r) \<Rightarrow> metric_vec \<Rightarrow> 'r \<Rightarrow> (metric_vec \<times> 'r) panics" where
  "must_register_new register c r = bind_sum (MustRegister register [c] r) (\<lambda>r'. Inr (c, r'))"

definition MustRegisterCounter where "MustRegisterCounter register name help = must_register_new register (NewCounter name help)"
definition MustRegisterCounterVec where "MustRegisterCounterVec register name help labels = must_register_new register (NewCounterVec name help labels)"
definition MustRegisterGauge where "MustRegisterGauge register name help = must_register_new register (NewGauge name help)"
definition MustRegisterGaugeVec where "MustRegisterGaugeVec register name help labels = must_register_new register (NewGaugeVec name help labels)"
definition MustRegisterHistogram where "MustRegisterHistogram register name help buckets = must_register_new register (NewHistogram name help buckets)"
definition MustRegisterHistogramVec where
  "MustRegisterHistogramVec register name help buckets labels = must_register_new register (NewHistogramVec name help buckets labels)"
definition MustRegisterSummary where "MustRegisterSummary register name help objectives = must_register_new register (NewSummary name help objectives)"
definition MustRegisterSummaryVec where
  "MustRegisterSummaryVec register name help objectives labels = must_register_new register (NewSummaryVec name help objectives labels)"

section \<open>The metrics of the program\<close>

definition HTTPEgressDuration :: metric_vec where
  "HTTPEgressDuration = NewHistogramVec ''http_egress_duration'' ''Histogram of egress request durations in seconds'' [1 / 100, 1 / 20, 1 / 10, 1 / 5, 3 / 10, 1 / 2, 4 / 5, 1, 6 / 5, 3 / 2, 2, 3, 5, 7, 10, 15, 20, 30, 60, 120] [''uri'', ''method'', ''code'', ''http_client'', ''stand_id'']"

definition HTTPEgressTotal :: metric_vec where
  "HTTPEgressTotal = NewCounterVec ''http_egress_total'' ''outgoing http requests status codes.'' [''uri'', ''method'', ''code'', ''http_client'', ''stand_id'']"

definition RDBConnectionsOpen :: metric_vec where
  "RDBConnectionsOpen = NewGaugeVec ''rdb_connections_open'' ''Database connection pool status.'' [''status'', ''type'']"

definition RDBConnectionsWaitTotal :: metric_vec where
  "RDBConnectionsWaitTotal = NewGaugeVec ''rdb_connections_wait_total'' ''The total number of connections waited for.'' [''type'']"

definition RDBConnectionsWaitSec :: metric_vec where
  "RDBConnectionsWaitSec = NewGaugeVec ''rdb_connections_wait_sec'' ''The total time blocked waiting for a new connection.'' [''type'']"

definition CHDBConnectionsOpen :: metric_vec where
  "CHDBConnectionsOpen = NewGaugeVec ''chdb_connections_open'' ''ClickHouse database connection pool status.'' [''status'']"

definition CloudBackgroundCacheJobSkips :: metric_vec where
  "CloudBackgroundCacheJobSkips = NewCounterVec ''cloud_background_cache_job_skips'' ''Number of skipped background cache job, per job type'' [''background_cache_job_name'']"

definition CloudBackgroundCacheJobRuns :: metric_vec where
  "CloudBackgroundCacheJobRuns = NewCounterVec ''cloud_background_cache_job_runs'' ''Number of background job cache runs, per job type'' [''background_cache_job_name'']"

definition CloudBackgroundCacheJobDurationSec :: metric_vec where
  "CloudBackgroundCacheJobDurationSec = NewHistogramVec ''cloud_background_cache_job_duration_sec'' ''Histogram of background cache job duration since start, per job type'' [1 / 2, 1, 2, 5, 7, 10, 15, 20, 30, 45, 60, 90, 120, 180, 240, 300, 600, 900, 1200, 1800, 2400, 3000, 3600] [''background_cache_job_name'']"

definition CloudBackgroundCacheJobsRunning :: metric_vec where
  "CloudBackgroundCacheJobsRunning = NewGaugeVec ''cloud_background_cache_jobs_in_progress'' ''Number of in progress background cache jobs, per job type'' [''background_cache_job_name'']"

definition MBusMessageConsumptionDelayDuration :: metric_vec where
  "MBusMessageConsumptionDelayDuration = NewHistogramVec ''cloud_mbus_ingress_message_delay'' ''Histogram of ingress messages production delay from now in seconds'' [1 / 100, 1 / 20, 1 / 10, 1 / 5, 2 / 5, 3 / 5, 4 / 5, 1, 3, 6, 10, 20, 40, 60, 90, 120, 240, 600, 3600] [''bus'', ''topic'', ''cons_group'', ''cons_id'']"

definition MBusMessagesConsumedTotal :: metric_vec where
  "MBusMessagesConsumedTotal = NewCounterVec ''cloud_mbus_messages_consumed_total'' ''Count messages consumed total'' [''bus'', ''topic'', ''cons_group'', ''cons_id'']"

definition MBusMessagesConsumedProcessed :: metric_vec where
  "MBusMessagesConsumedProcessed = NewCounterVec ''cloud_mbus_messages_consumed_processed'' ''Count messages consumed and successfully processed'' [''bus'', ''topic'', ''cons_group'', ''cons_id'']"

definition MBusPendingAckMessages :: metric_vec where
  "MBusPendingAckMessages = NewGaugeVec ''cloud_mbus_pending_ack_messages'' ''Count messages pending ack'' [''bus'', ''topic'', ''cons_group'', ''cons_id'']"

definition MBusFetchedEntries :: metric_vec where
  "MBusFetchedEntries = NewGaugeVec ''cloud_mbus_fetched_entries'' ''Count entries fetched from stream'' [''bus'', ''topic'', ''cons_group'', ''cons_id'']"

definition MBusUnprocessedAckErrors :: metric_vec where
  "MBusUnprocessedAckErrors = NewGaugeVec ''cloud_mbus_unprocessed_ack_errors'' ''Count unprocessed ack errors'' [''bus'', ''topic'', ''cons_group'', ''cons_id'']"

definition MBusMessagePersistDuration :: metric_vec where
  "MBusMessagePersistDuration = NewHistogramVec ''cloud_mbus_egress_message_persist_duration'' ''Histogram of time to persist a messages to message bus in seconds'' [1 / 100, 1 / 20, 1 / 10, 1 / 5, 2 / 5, 3 / 5, 4 / 5, 1, 3, 6, 10, 20] [''bus'', ''topic'']"

definition MBusMessagesProducedTotal :: metric_vec where
  "MBusMessagesProducedTotal = NewCounterVec ''cloud_mbus_messages_produced_total'' ''Count messages produced'' [''bus'', ''topic'']"

definition MBusMessagesProducedSuccess :: metric_vec where
  "MBusMessagesProducedSuccess = NewCounterVec ''cloud_mbus_messages_produced_success'' ''Count messages produced and written successfully'' [''bus'', ''topic'']"

definition MBusMessagesLastDelivered :: metric_vec where
  "MBusMessagesLastDelivered = NewGaugeVec ''cloud_mbus_messages_last_delivered'' ''Timestamp part of ID of last delivered message'' [''bus'', ''topic'', ''cons_group'']"

definition MBusMessagesFirstStored :: metric_vec where
  "MBusMessagesFirstStored = NewGaugeVec ''cloud_mbus_messages_first_stored'' ''Timestamp part of ID of first message stored for topic'' [''bus'', ''topic'']"

definition MBusMessagesLastStored :: metric_vec where
  "MBusMessagesLastStored = NewGaugeVec ''cloud_mbus_messages_last_stored'' ''Timestamp part of ID of last message stored for topic'' [''bus'', ''topic'']"

definition MBusMessagesLen :: metric_vec where
  "MBusMessagesLen = NewGaugeVec ''cloud_mbus_messages_len'' ''Current stream len'' [''bus'', ''topic'']"

definition MBusMessagesLag :: metric_vec where
  "MBusMessagesLag = NewGaugeVec ''cloud_mbus_messages_lag'' ''Reported lag'' [''bus'', ''topic'', ''cons_group'']"

definition MBusMessagesPending :: metric_vec where
  "MBusMessagesPending = NewGaugeVec ''cloud_mbus_messages_pending'' ''Number of messages pending ack'' [''bus'', ''topic'', ''cons_group'']"

definition APIRequestsTotal :: metric_vec where
  "APIRequestsTotal = NewCounterVec ''gin_request_total'' ''Total number of requests served by the server'' [''app_name'']"

definition APIRequestsTotalURI :: metric_vec where
  "APIRequestsTotalURI = NewCounterVec ''gin_uri_request_total'' ''Number of requests served by the server per URI'' [''app_name'', ''uri'', ''method'', ''code'']"

definition APIRequestsDuration :: metric_vec where
  "APIRequestsDuration = NewHistogramVec ''gin_request_duration'' ''Histogram of request durations in seconds'' [1 / 100, 1 / 20, 1 / 10, 1 / 5, 3 / 10, 2 / 5, 1 / 2, 4 / 5, 1, 6 / 5, 3 / 2, 2, 3, 5, 7, 10, 15, 20, 30, 60, 120] [''app_name'', ''uri'']"

definition CloudBackgroundJobStatus :: metric_vec where
  "CloudBackgroundJobStatus = NewGaugeVec ''cloud_background_job_status'' ''Number of background job finished with status, per job type'' [''background_job_name'', ''status'']"

definition CloudBackgroundJobSkips :: metric_vec where
  "CloudBackgroundJobSkips = NewCounterVec ''cloud_background_job_skips'' ''Number of skipped background job, per job type'' [''background_job_name'']"

definition CloudBackgroundJobRuns :: metric_vec where
  "CloudBackgroundJobRuns = NewCounterVec ''cloud_background_job_runs'' ''Number of background job runs, per job type'' [''background_job_name'']"

definition CloudBackgroundJobDurationSec :: metric_vec where
  "CloudBackgroundJobDurationSec = NewHistogramVec ''cloud_background_job_duration_sec'' ''Histogram of background job duration since start, per job type'' [1 / 2, 1, 2, 5, 7, 10, 15, 20, 30, 45, 60, 90, 120, 180, 240, 300, 600, 900, 1200, 1800, 2400, 3000, 3600] [''background_job_name'']"

definition CloudBackgroundJobsRunning :: metric_vec where
  "CloudBackgroundJobsRunning = NewGaugeVec ''cloud_background_jobs_in_progress'' ''Number of in progress background jobs, per job type'' [''background_job_name'']"

definition SeenRequestsTotal :: metric_vec where
  "SeenRequestsTotal = NewCounterVec ''ratelimiter_seen_requests_total'' ''Total number of requests seen by the rate limiter'' [''app_name'', ''pattern'', ''key'']"

definition RejectedRequestsTotal :: metric_vec where
  "RejectedRequestsTotal = NewCounterVec ''ratelimiter_rejected_requests_total'' ''Total number of requests rejected by the rate limiter'' [''app_name'', ''pattern'', ''key'']"

definition WouldBeRejectedRequestsTotal :: metric_vec where
  "WouldBeRejectedRequestsTotal = NewCounterVec ''ratelimiter_would_be_rejected_requests_total'' ''Total number of requests that would be rejected by the rate limiter if it was enforcing its configuration'' [''app_name'', ''pattern'', ''key'']"

definition HTTPEgress :: "metric_vec list" where
  "HTTPEgress =
     [HTTPEgressDuration, HTTPEgressTotal]"

definition mbusMetrics :: "metric_vec list" where
  "mbusMetrics =
     [MBusMessageConsumptionDelayDuration, MBusMessagePersistDuration, MBusMessagesProducedTotal, MBusMessagesProducedSuccess, MBusMessagesConsumedProcessed, MBusMessagesConsumedTotal, MBusMessagesLastDelivered, MBusMessagesFirstStored, MBusMessagesLag, MBusMessagesPending, MBusMessagesLastStored, MBusMessagesLen, MBusPendingAckMessages, MBusFetchedEntries, MBusUnprocessedAckErrors]"

definition rdbMetrics :: "metric_vec list" where
  "rdbMetrics =
     [RDBConnectionsOpen, RDBConnectionsWaitTotal, RDBConnectionsWaitSec]"

definition chdbMetrics :: "metric_vec list" where
  "chdbMetrics =
     [CHDBConnectionsOpen]"

definition cacheMetrics :: "metric_vec list" where
  "cacheMetrics =
     [CloudBackgroundCacheJobSkips, CloudBackgroundCacheJobRuns, CloudBackgroundCacheJobDurationSec, CloudBackgroundCacheJobsRunning]"

definition APIMetrics :: "metric_vec list" where
  "APIMetrics =
     [APIRequestsTotal, APIRequestsTotalURI, APIRequestsDuration]"

definition cloudBackgroundJobMetrics :: "metric_vec list" where
  "cloudBackgroundJobMetrics =
     [CloudBackgroundJobStatus, CloudBackgroundJobSkips, CloudBackgroundJobRuns, CloudBackgroundJobDurationSec, CloudBackgroundJobsRunning]"

definition limiter_Metrics :: "metric_vec list" where
  "limiter_Metrics =
     [SeenRequestsTotal, RejectedRequestsTotal, WouldBeRejectedRequestsTotal]"

definition registerMetrics :: "('r \<Rightarrow> metric_vec \<Rightarrow> gerr + 'r) \<Rightarrow> 'r \<Rightarrow> 'r panics" where
  "registerMetrics register = MustRegister register (HTTPEgress @ mbusMetrics @ rdbMetrics @ chdbMetrics @ cacheMetrics)"

definition worker_registerMetrics :: "('r \<Rightarrow> metric_vec \<Rightarrow> gerr + 'r) \<Rightarrow> 'r \<Rightarrow> 'r panics" where
  "worker_registerMetrics register = MustRegister register cloudBackgroundJobMetrics"

section \<open>Writes\<close>

datatype 'f metric_op = Inc | Dec | SetTo 'f | Observe 'f

type_synonym 'f writes = "(metric_vec \<times> string list \<times> 'f metric_op) list"

fun send :: "(metric_vec \<Rightarrow> string list \<Rightarrow> 'h panics) \<Rightarrow> 'f writes \<Rightarrow> ('h \<times> 'f metric_op) list \<times> string option" where
  "send with_labels [] = ([], None)"
| "send with_labels ((c, vs, op) # ws) =
     (case with_labels c vs of
        Inl p \<Rightarrow> ([], Some p)
      | Inr h \<Rightarrow> (let (hs, p) = send with_labels ws in ((h, op) # hs, p)))"

record rdb_stats =
  st_OpenConnections :: int
  st_InUse :: int
  st_Idle :: int
  st_WaitCount :: int
  st_WaitDuration :: go_duration

text \<open>\<open>f64\<close> is the conversion of an integer to a float and \<open>secs\<close> the seconds of a duration.\<close>

definition rdb_sendMetrics :: "(int \<Rightarrow> 'f) \<Rightarrow> (go_duration \<Rightarrow> 'f) \<Rightarrow> rdb_stats \<Rightarrow> string \<Rightarrow> 'f writes" where
  "rdb_sendMetrics f64 secs stats destinationType =
     [(RDBConnectionsOpen, [''total'', destinationType], SetTo (f64 (st_OpenConnections stats))),
      (RDBConnectionsOpen, [''in_use'', destinationType], SetTo (f64 (st_InUse stats))),
      (RDBConnectionsOpen, [''idle'', destinationType], SetTo (f64 (st_Idle stats))),
      (RDBConnectionsWaitTotal, [destinationType], SetTo (f64 (st_WaitCount stats))),
      (RDBConnectionsWaitSec, [destinationType], SetTo (secs (st_WaitDuration stats)))]"

record chdb_stats =
  cs_MaxOpenConns :: int
  cs_Open :: int
  cs_MaxIdleConns :: int
  cs_Idle :: int

definition chdb_sendMetrics :: "(int \<Rightarrow> 'f) \<Rightarrow> string \<Rightarrow> chdb_stats \<Rightarrow> 'f writes" where
  "chdb_sendMetrics f64 provider stats =
     [(CHDBConnectionsOpen, [provider, ''max_open''], SetTo (f64 (cs_MaxOpenConns stats))),
      (CHDBConnectionsOpen, [provider, ''open''], SetTo (f64 (cs_Open stats))),
      (CHDBConnectionsOpen, [provider, ''max_idle''], SetTo (f64 (cs_MaxIdleConns stats))),
      (CHDBConnectionsOpen, [provider, ''idle''], SetTo (f64 (cs_Idle stats)))]"

definition egress_writes :: "string \<Rightarrow> string \<Rightarrow> string \<Rightarrow> string \<Rightarrow> string \<Rightarrow> 'f \<Rightarrow> 'f writes" where
  "egress_writes uri method statusCode service standID seconds =
     [(HTTPEgressDuration, [uri, method, statusCode, service, standID], Observe seconds),
      (HTTPEgressTotal, [uri, method, statusCode, service, standID], Inc)]"

definition api_writes :: "string \<Rightarrow> string \<Rightarrow> string \<Rightarrow> int \<Rightarrow> 'f \<Rightarrow> 'f writes" where
  "api_writes appName routeName method statusCode seconds =
     [(APIRequestsTotal, [appName], Inc), (APIRequestsTotalURI, [appName, routeName, method, show_int statusCode], Inc),
      (APIRequestsDuration, [appName, routeName], Observe seconds)]"

definition limiter_writes :: "string \<Rightarrow> string \<Rightarrow> string \<Rightarrow> 'f writes" where
  "limiter_writes appName pattern key =
     [(SeenRequestsTotal, [appName, pattern, key], Inc), (WouldBeRejectedRequestsTotal, [appName, pattern, key], Inc),
      (RejectedRequestsTotal, [appName, pattern, key], Inc)]"

definition job_started_writes :: "string \<Rightarrow> 'f writes" where
  "job_started_writes name = [(CloudBackgroundJobsRunning, [name], Inc), (CloudBackgroundJobRuns, [name], Inc)]"

text \<open>The writes when a job ends: by a panic, or with a result.\<close>

definition job_finished_writes :: "string \<Rightarrow> bool \<Rightarrow> gerr option \<Rightarrow> 'f \<Rightarrow> 'f writes" where
  "job_finished_writes name panicked err seconds =
     (if panicked then [(CloudBackgroundJobStatus, [name, ''panic''], Inc)]
      else [(CloudBackgroundJobStatus, [name, errToStatus err], Inc), (CloudBackgroundJobsRunning, [name], Dec),
            (CloudBackgroundJobDurationSec, [name], Observe seconds)])"

definition job_skipped_writes :: "string \<Rightarrow> 'f writes" where
  "job_skipped_writes name = [(CloudBackgroundJobSkips, [name], Inc)]"

section \<open>Prometheus\<close>

text \<open>Buckets increase and the names of labels differ.\<close>

definition well_formed_metric :: "metric_vec \<Rightarrow> bool" where
  "well_formed_metric c \<longleftrightarrow> mv_Name c \<noteq> [] \<and> distinct (mv_labels c) \<and>
     (case mv_kind c of HistogramKind bs \<Rightarrow> sorted_wrt (<) bs \<and> ''le'' \<notin> set (mv_labels c) | _ \<Rightarrow> True)"

locale prometheus =
  fixes register :: "'r \<Rightarrow> metric_vec \<Rightarrow> gerr + 'r"
    and names :: "'r \<Rightarrow> string set"
    and with_labels :: "metric_vec \<Rightarrow> string list \<Rightarrow> 'h panics"
  assumes register_new: "well_formed_metric c \<Longrightarrow> mv_Name c \<notin> names r \<Longrightarrow> \<exists>r'. register r c = Inr r' \<and> names r' = insert (mv_Name c) (names r)"
    and register_known: "mv_Name c \<in> names r \<Longrightarrow> \<exists>err. register r c = Inl err"
    and labels_match: "length vs = length (mv_labels c) \<Longrightarrow> \<exists>h. with_labels c vs = Inr h"
    and labels_differ: "length vs \<noteq> length (mv_labels c) \<Longrightarrow> \<exists>p. with_labels c vs = Inl p"
begin

lemma MustRegister_new:
  assumes "\<forall>c \<in> set cs. well_formed_metric c" and "distinct (map mv_Name cs)" and "names r \<inter> mv_Name ` set cs = {}"
  shows "\<exists>r'. MustRegister register cs r = Inr r' \<and> names r' = names r \<union> mv_Name ` set cs"
  using assms
proof (induction cs arbitrary: r)
  case (Cons c cs)
  then obtain r1 where r1: "register r c = Inr r1" "names r1 = insert (mv_Name c) (names r)"
    using register_new [of c r] by auto
  have "names r1 \<inter> mv_Name ` set cs = {}" using Cons.prems r1(2) by auto
  then have "\<exists>r'. MustRegister register cs r1 = Inr r' \<and> names r' = names r1 \<union> mv_Name ` set cs"
    using Cons.prems by (intro Cons.IH) simp_all
  then show ?case using r1 by auto
qed simp

lemma MustRegister_known:
  assumes "\<forall>c \<in> set cs. well_formed_metric c" and "\<not> distinct (map mv_Name cs) \<or> names r \<inter> mv_Name ` set cs \<noteq> {}"
  shows "\<exists>p. MustRegister register cs r = Inl p"
  using assms
proof (induction cs arbitrary: r)
  case (Cons c cs)
  show ?case
  proof (cases "mv_Name c \<in> names r")
    case True
    then show ?thesis using register_known [of c r] by auto
  next
    case False
    then obtain r1 where r1: "register r c = Inr r1" "names r1 = insert (mv_Name c) (names r)"
      using register_new [of c r] Cons.prems(1) by auto
    have "\<not> distinct (map mv_Name cs) \<or> names r1 \<inter> mv_Name ` set cs \<noteq> {}"
      using Cons.prems(2) False r1(2) by (auto simp: image_iff)
    then show ?thesis using Cons r1(1) by simp
  qed
qed simp

lemma send_matching:
  "\<forall>(c, vs, op) \<in> set ws. length vs = length (mv_labels c) \<Longrightarrow>
     snd (send with_labels ws) = None \<and> length (fst (send with_labels ws)) = length ws"
proof (induction ws)
  case (Cons w ws)
  obtain c vs op where w: "w = (c, vs, op)" by (cases w)
  then obtain h where "with_labels c vs = Inr h" using Cons.prems labels_match by fastforce
  moreover obtain hs p where "send with_labels ws = (hs, p)" by (rule prod.exhaust)
  ultimately show ?case using Cons w by simp
qed simp

lemma send_mismatch: "length vs \<noteq> length (mv_labels c) \<Longrightarrow> \<exists>p. send with_labels ((c, vs, op) # ws) = ([], Some p)"
  using labels_differ [of vs c] by auto

end

text \<open>A registry that keeps the names.\<close>

definition simple_register :: "string list \<Rightarrow> metric_vec \<Rightarrow> gerr + string list" where
  "simple_register r c =
     (if well_formed_metric c \<and> \<not> List.member r (mv_Name c) then Inr (mv_Name c # r) else Inl (ErrNew ''duplicate metrics collector registration attempted''))"

definition simple_labels :: "metric_vec \<Rightarrow> string list \<Rightarrow> (string \<times> string list) panics" where
  "simple_labels c vs = (if length vs = length (mv_labels c) then Inr (mv_Name c, vs) else Inl ''inconsistent label cardinality'')"

interpretation simple: prometheus simple_register set simple_labels
  by unfold_locales (auto simp: simple_register_def simple_labels_def)

section \<open>The program's metrics can be registered and written\<close>

lemmas collector_lists = HTTPEgress_def mbusMetrics_def rdbMetrics_def chdbMetrics_def cacheMetrics_def APIMetrics_def
  cloudBackgroundJobMetrics_def limiter_Metrics_def

lemmas metric_defs =
  HTTPEgressDuration_def HTTPEgressTotal_def RDBConnectionsOpen_def RDBConnectionsWaitTotal_def
  RDBConnectionsWaitSec_def CHDBConnectionsOpen_def CloudBackgroundCacheJobSkips_def CloudBackgroundCacheJobRuns_def
  CloudBackgroundCacheJobDurationSec_def CloudBackgroundCacheJobsRunning_def MBusMessageConsumptionDelayDuration_def MBusMessagesConsumedTotal_def
  MBusMessagesConsumedProcessed_def MBusPendingAckMessages_def MBusFetchedEntries_def MBusUnprocessedAckErrors_def
  MBusMessagePersistDuration_def MBusMessagesProducedTotal_def MBusMessagesProducedSuccess_def MBusMessagesLastDelivered_def
  MBusMessagesFirstStored_def MBusMessagesLastStored_def MBusMessagesLen_def MBusMessagesLag_def
  MBusMessagesPending_def APIRequestsTotal_def APIRequestsTotalURI_def APIRequestsDuration_def
  CloudBackgroundJobStatus_def CloudBackgroundJobSkips_def CloudBackgroundJobRuns_def CloudBackgroundJobDurationSec_def
  CloudBackgroundJobsRunning_def SeenRequestsTotal_def RejectedRequestsTotal_def WouldBeRejectedRequestsTotal_def

definition all_metrics :: "metric_vec list" where
  "all_metrics = HTTPEgress @ mbusMetrics @ rdbMetrics @ chdbMetrics @ cacheMetrics @ cloudBackgroundJobMetrics @ APIMetrics @ limiter_Metrics"

lemma all_metrics_well_formed: "\<forall>c \<in> set all_metrics. well_formed_metric c"
  by (simp add: all_metrics_def collector_lists) (simp add: metric_defs constructors well_formed_metric_def)

lemma metric_names:
  "map mv_Name all_metrics =
     [''http_egress_duration'', ''http_egress_total'', ''cloud_mbus_ingress_message_delay'', ''cloud_mbus_egress_message_persist_duration'', ''cloud_mbus_messages_produced_total'', ''cloud_mbus_messages_produced_success'', ''cloud_mbus_messages_consumed_processed'', ''cloud_mbus_messages_consumed_total'', ''cloud_mbus_messages_last_delivered'', ''cloud_mbus_messages_first_stored'', ''cloud_mbus_messages_lag'', ''cloud_mbus_messages_pending'', ''cloud_mbus_messages_last_stored'', ''cloud_mbus_messages_len'', ''cloud_mbus_pending_ack_messages'', ''cloud_mbus_fetched_entries'', ''cloud_mbus_unprocessed_ack_errors'', ''rdb_connections_open'', ''rdb_connections_wait_total'', ''rdb_connections_wait_sec'', ''chdb_connections_open'', ''cloud_background_cache_job_skips'', ''cloud_background_cache_job_runs'', ''cloud_background_cache_job_duration_sec'', ''cloud_background_cache_jobs_in_progress'', ''cloud_background_job_status'', ''cloud_background_job_skips'', ''cloud_background_job_runs'', ''cloud_background_job_duration_sec'', ''cloud_background_jobs_in_progress'', ''gin_request_total'', ''gin_uri_request_total'', ''gin_request_duration'', ''ratelimiter_seen_requests_total'', ''ratelimiter_rejected_requests_total'', ''ratelimiter_would_be_rejected_requests_total'']"
  by (simp add: all_metrics_def collector_lists) (simp add: metric_defs constructors)

lemma metric_names_distinct: "distinct (map mv_Name all_metrics)"
  unfolding metric_names by simp

text \<open>The metrics that the program registers when it starts, those of the workers after the shared ones, have different names, increasing
  buckets and different labels: registering them in a registry without these names does not panic, and neither does adding those of the API and the limiter.\<close>

theorem startup_metrics:
  assumes "prometheus register names with_labels" and "names r \<inter> mv_Name ` set all_metrics = {}"
  shows "\<exists>r1 r2 r3. registerMetrics register r = Inr r1 \<and> worker_registerMetrics register r1 = Inr r2 \<and>
    MustRegister register (APIMetrics @ limiter_Metrics) r2 = Inr r3 \<and> names r3 = names r \<union> mv_Name ` set all_metrics"
proof -
  let ?a = "HTTPEgress @ mbusMetrics @ rdbMetrics @ chdbMetrics @ cacheMetrics"
  let ?b = "cloudBackgroundJobMetrics"
  let ?c = "APIMetrics @ limiter_Metrics"
  have all: "all_metrics = ?a @ ?b @ ?c" by (simp add: all_metrics_def)
  note wf = all_metrics_well_formed [unfolded all] and dist = metric_names_distinct [unfolded all]
  note reg = prometheus.MustRegister_new [OF assms(1)]
  have "distinct (map mv_Name ?a)" "distinct (map mv_Name ?b)" "distinct (map mv_Name ?c)"
    and ab: "mv_Name ` set ?a \<inter> mv_Name ` set ?b = {}" and abc: "(mv_Name ` set ?a \<union> mv_Name ` set ?b) \<inter> mv_Name ` set ?c = {}"
    using dist by (auto simp only: map_append distinct_append set_append set_map image_Un)
  moreover have "names r \<inter> mv_Name ` set ?a = {}" "names r \<inter> mv_Name ` set ?b = {}" "names r \<inter> mv_Name ` set ?c = {}"
    using assms(2) unfolding all by auto
  moreover have "\<forall>c \<in> set ?a. well_formed_metric c" "\<forall>c \<in> set ?b. well_formed_metric c" "\<forall>c \<in> set ?c. well_formed_metric c"
    using wf by auto
  ultimately obtain r1 where r1: "MustRegister register ?a r = Inr r1" "names r1 = names r \<union> mv_Name ` set ?a"
    using reg [of ?a r] by blast
  moreover then obtain r2 where r2: "MustRegister register ?b r1 = Inr r2" "names r2 = names r1 \<union> mv_Name ` set ?b"
    using reg [of ?b r1] ab \<open>names r \<inter> mv_Name ` set ?b = {}\<close> \<open>distinct (map mv_Name ?b)\<close> \<open>\<forall>c \<in> set ?b. well_formed_metric c\<close> by blast
  moreover then obtain r3 where r3: "MustRegister register ?c r2 = Inr r3" "names r3 = names r2 \<union> mv_Name ` set ?c"
    using reg [of ?c r2] r1 abc \<open>names r \<inter> mv_Name ` set ?c = {}\<close> \<open>distinct (map mv_Name ?c)\<close> \<open>\<forall>c \<in> set ?c. well_formed_metric c\<close> by blast
  ultimately show ?thesis
    unfolding registerMetrics_def worker_registerMetrics_def all by (auto simp: image_Un)
qed

theorem startup_metrics_witness:
  "\<exists>r1 r2. registerMetrics simple_register [] = Inr r1 \<and> worker_registerMetrics simple_register r1 = Inr r2"
  using startup_metrics [OF simple.prometheus_axioms, of "[]"] by auto



end
