(* ===== verification/Lifecycle.thy ===== *)
theory Lifecycle
  imports Schedule
begin

text \<open>
  The life cycle of an application: readiness checks (\<open>internal/readiness\<close>), starting and shutting down
  (\<open>internal/application\<close>), waiting for jobs (\<open>Scheduler.Wait\<close> of \<open>internal/scheduletooling\<close>), closing of
  dependencies (\<open>internal/closer\<close>) and stopping of timers (\<open>internal/timer\<close>).

  \<open>retry.Do\<close> is the argument \<open>retry\<close>; what is used of it is that it repeats the action until it succeeds or the attempts end
  (\<open>repeats\<close>). Goroutines under a wait group are lists of actions that interleave (\<open>wg_step\<close>), next to a context that may be
  done at any time.
\<close>

section \<open>Readiness\<close>

record 'w checker =
  ck_Ready :: "'w \<Rightarrow> gerr option \<times> 'w"
  ck_isOptional :: bool
  ck_name :: string

datatype ready_line = ReadyLine string | NotReadyLine string bool gerr

type_synonym 'w ready_state = "'w \<times> ready_line list"

type_synonym 's retrier = "go_duration \<Rightarrow> ('s \<Rightarrow> gerr option \<times> 's) \<Rightarrow> 's \<Rightarrow> gerr option \<times> 's"

definition Readiness_Add :: "('w \<Rightarrow> gerr option \<times> 'w) \<Rightarrow> string \<Rightarrow> 'w checker list \<Rightarrow> 'w checker list" where
  "Readiness_Add ready typeName cs = cs @ [\<lparr>ck_Ready = ready, ck_isOptional = False, ck_name = typeName\<rparr>]"

definition Readiness_AddOptional :: "('w \<Rightarrow> gerr option \<times> 'w) \<Rightarrow> string \<Rightarrow> 'w checker list \<Rightarrow> 'w checker list" where
  "Readiness_AddOptional ready typeName cs = cs @ [\<lparr>ck_Ready = ready, ck_isOptional = True, ck_name = typeName\<rparr>]"

text \<open>The candidate is \<open>None\<close> if it has no \<open>Ready\<close> method.\<close>

definition Readiness_TryAdd :: "('w \<Rightarrow> gerr option \<times> 'w) option \<Rightarrow> string \<Rightarrow> 'w checker list \<Rightarrow> bool \<times> 'w checker list" where
  "Readiness_TryAdd candidate typeName cs =
     (case candidate of Some ready \<Rightarrow> (True, Readiness_Add ready typeName cs) | None \<Rightarrow> (False, cs))"

text \<open>The text of a type: its name, quoted, and its package; a pointer is described by what it points to.\<close>

definition getType :: "(string \<Rightarrow> string) \<Rightarrow> string \<Rightarrow> string \<Rightarrow> string" where
  "getType quoted name pkgPath = quoted name @ '' from '' @ pkgPath"

definition check_once :: "'w checker \<Rightarrow> 'w ready_state \<Rightarrow> gerr option \<times> 'w ready_state" where
  "check_once c st =
     (case ck_Ready c (fst st) of
        (Some err, w) \<Rightarrow>
          (if ck_isOptional c then None else Some (FmtWrap (''dependency '' @ ck_name c @ '' could not start'') err),
           (w, snd st @ [NotReadyLine (ck_name c) (ck_isOptional c) err]))
      | (None, w) \<Rightarrow> (None, (w, snd st @ [ReadyLine (ck_name c)])))"

definition check_timeout :: "'w checker \<Rightarrow> go_duration" where
  "check_timeout c = (if ck_isOptional c then 30 * 1000000000 else 2 * 60 * 1000000000)"

fun Readiness_IsReady :: "'w ready_state retrier \<Rightarrow> 'w checker list \<Rightarrow> 'w ready_state \<Rightarrow> gerr option \<times> 'w ready_state" where
  "Readiness_IsReady retry [] st = (None, st)"
| "Readiness_IsReady retry (c # cs) st =
     (case retry (check_timeout c) (check_once c) st of
        (Some err, st') \<Rightarrow> (Some err, st')
      | (None, st') \<Rightarrow> Readiness_IsReady retry cs st')"

section \<open>Goroutines under a wait group\<close>

datatype wait_result = AllDone | DeadlinePassed

record 'a wait_state =
  wg_threads :: "'a list list"
  wg_trace :: "'a list"
  wg_ctxDone :: bool
  wg_result :: "wait_result option"

definition wg_start :: "'a list list \<Rightarrow> 'a wait_state" where
  "wg_start programs = \<lparr>wg_threads = programs, wg_trace = [], wg_ctxDone = False, wg_result = None\<rparr>"

text \<open>One goroutine acts; the context is done; the caller is woken by the wait group or by the context. Goroutines go on after the caller has
  returned.\<close>

inductive wg_step :: "'a wait_state \<Rightarrow> 'a wait_state \<Rightarrow> bool" where
  act: "i < length (wg_threads s) \<Longrightarrow> wg_threads s ! i = a # rest \<Longrightarrow>
    wg_step s (s\<lparr>wg_threads := (wg_threads s)[i := rest], wg_trace := wg_trace s @ [a]\<rparr>)"
| deadline: "\<not> wg_ctxDone s \<Longrightarrow> wg_step s (s\<lparr>wg_ctxDone := True\<rparr>)"
| all_done: "wg_result s = None \<Longrightarrow> \<forall>t \<in> set (wg_threads s). t = [] \<Longrightarrow> wg_step s (s\<lparr>wg_result := Some AllDone\<rparr>)"
| too_late: "wg_result s = None \<Longrightarrow> wg_ctxDone s \<Longrightarrow> wg_step s (s\<lparr>wg_result := Some DeadlinePassed\<rparr>)"

section \<open>The application\<close>

text \<open>The errors of the two subsystems that report one are given; a server that is shut down reports none.\<close>

record ('c, 'w) application =
  app_checkers :: "'w checker list"
  app_hasScheduler :: bool
  app_components :: "'c list"
  app_otelShutdown :: "gerr option option"

datatype 'c app_action =
    StartServer 'c
  | SchedulerStart
  | ShutdownServer 'c
  | SchedulerStop
  | SchedulerWait
  | OtelShutdown "gerr option"

definition app_ReadyCheck :: "('w \<Rightarrow> gerr option \<times> 'w) \<Rightarrow> string \<Rightarrow> ('c, 'w) application \<Rightarrow> ('c, 'w) application" where
  "app_ReadyCheck ready typeName a = a\<lparr>app_checkers := Readiness_Add ready typeName (app_checkers a)\<rparr>"

definition app_OptionalCheck :: "('w \<Rightarrow> gerr option \<times> 'w) \<Rightarrow> string \<Rightarrow> ('c, 'w) application \<Rightarrow> ('c, 'w) application" where
  "app_OptionalCheck ready typeName a = a\<lparr>app_checkers := Readiness_AddOptional ready typeName (app_checkers a)\<rparr>"

definition app_SetInProcessJobScheduler :: "('c, 'w) application \<Rightarrow> ('c, 'w) application" where
  "app_SetInProcessJobScheduler a = a\<lparr>app_hasScheduler := True\<rparr>"

definition app_AddComponent :: "'c \<Rightarrow> ('c, 'w) application \<Rightarrow> ('c, 'w) application" where
  "app_AddComponent c a = a\<lparr>app_components := app_components a @ [c]\<rparr>"

text \<open>An option changes the application or ends the process with a fatal line.\<close>

datatype 'r proc = Continues 'r | FatalExit string

definition WithOpenTelemetry :: "gerr + gerr option \<Rightarrow> ('c, 'w) application \<Rightarrow> ('c, 'w) application proc" where
  "WithOpenTelemetry installed a =
     (case installed of
        Inl err \<Rightarrow> FatalExit ''could initialize tracing''
      | Inr shutdown \<Rightarrow> Continues (a\<lparr>app_otelShutdown := Some shutdown\<rparr>))"

fun app_apply_options :: "(('c, 'w) application \<Rightarrow> ('c, 'w) application proc) list \<Rightarrow> ('c, 'w) application \<Rightarrow> ('c, 'w) application proc" where
  "app_apply_options [] a = Continues a"
| "app_apply_options (opt # opts) a = (case opt a of FatalExit m \<Rightarrow> FatalExit m | Continues a' \<Rightarrow> app_apply_options opts a')"

definition app_New :: "(('c, 'w) application \<Rightarrow> ('c, 'w) application proc) list \<Rightarrow> ('c, 'w) application proc" where
  "app_New opts = app_apply_options opts \<lparr>app_checkers = [], app_hasScheduler = False, app_components = [], app_otelShutdown = None\<rparr>"

definition app_IsReady :: "'w ready_state retrier \<Rightarrow> ('c, 'w) application \<Rightarrow> 'w \<Rightarrow> ('w ready_state) proc" where
  "app_IsReady retry a w =
     (case Readiness_IsReady retry (app_checkers a) (w, []) of
        (Some err, st) \<Rightarrow> FatalExit ''application not ready''
      | (None, st) \<Rightarrow> Continues st)"

text \<open>The servers start in goroutines of their own, the scheduler in the calling one.\<close>

definition app_Start :: "gerr option \<Rightarrow> ('c, 'w) application \<Rightarrow> 'c app_action list list proc" where
  "app_Start sentryInit a =
     (case sentryInit of
        Some err \<Rightarrow> FatalExit ''could not setup sentry''
      | None \<Rightarrow> Continues (map (\<lambda>c. [StartServer c]) (app_components a) @ (if app_hasScheduler a then [[SchedulerStart]] else [])))"

definition shutdown_programs :: "('c, 'w) application \<Rightarrow> 'c app_action list list" where
  "shutdown_programs a =
     map (\<lambda>c. [ShutdownServer c]) (app_components a) @
     (if app_hasScheduler a then [[SchedulerStop, SchedulerWait]] else []) @
     (case app_otelShutdown a of None \<Rightarrow> [] | Some err \<Rightarrow> [[OtelShutdown err]])"

definition app_Shutdown :: "('c, 'w) application \<Rightarrow> 'c app_action wait_state" where
  "app_Shutdown a = wg_start (shutdown_programs a)"

definition shutdown_line :: "wait_result \<Rightarrow> string" where
  "shutdown_line r =
     (case r of DeadlinePassed \<Rightarrow> ''did not shutdown application in time'' | AllDone \<Rightarrow> ''clean shutdown for application'')"

section \<open>Waiting for jobs\<close>

text \<open>After the scheduler library has waited for running jobs, each job is closed by a goroutine of its own, which logs the error, if any, and that the job is closed.\<close>

datatype close_line = CouldNotClose string gerr | ClosedJob string

definition close_job :: "(string \<Rightarrow> gerr option) \<Rightarrow> string \<Rightarrow> close_line list" where
  "close_job closeErr job = (case closeErr job of Some err \<Rightarrow> [CouldNotClose job err] | None \<Rightarrow> []) @ [ClosedJob job]"

definition Scheduler_Wait :: "(string \<Rightarrow> gerr option) \<Rightarrow> string list \<Rightarrow> close_line wait_state" where
  "Scheduler_Wait closeErr jobs = wg_start (map (close_job closeErr) jobs)"

definition InProcessJob_Close :: "gerr option option \<Rightarrow> gerr option" where
  "InProcessJob_Close closer = (case closer of None \<Rightarrow> None | Some r \<Rightarrow> r)"

section \<open>Closing\<close>

datatype closer_line = ClosingDependency | CouldNotCloseDependency gerr | ClosedDependency

text \<open>The lines around the call of \<open>Close\<close>, and the call.\<close>

definition closeImpl :: "('w \<Rightarrow> gerr option \<times> 'w) \<Rightarrow> bool \<Rightarrow> 'w \<times> closer_line list \<Rightarrow> 'w \<times> closer_line list" where
  "closeImpl close verbose st =
     (let log1 = snd st @ (if verbose then [ClosingDependency] else [])
      in case close (fst st) of
           (Some err, w) \<Rightarrow> (w, log1 @ [CouldNotCloseDependency err])
         | (None, w) \<Rightarrow> (w, log1 @ (if verbose then [ClosedDependency] else [])))"

definition closer_Close :: "('w \<Rightarrow> gerr option \<times> 'w) \<Rightarrow> 'w \<times> closer_line list \<Rightarrow> 'w \<times> closer_line list" where
  "closer_Close close = closeImpl close False"

definition CloseVerbose :: "('w \<Rightarrow> gerr option \<times> 'w) \<Rightarrow> 'w \<times> closer_line list \<Rightarrow> 'w \<times> closer_line list" where
  "CloseVerbose close = closeImpl close True"

section \<open>Timers\<close>

text \<open>A timer with its channel of capacity one. \<open>Stop\<close> tells whether the timer was still running.\<close>

record go_timer =
  tm_active :: bool
  tm_value :: bool

definition timer_Stop :: "go_timer \<Rightarrow> bool \<times> go_timer" where
  "timer_Stop t = (tm_active t, t\<lparr>tm_active := False\<rparr>)"

definition timer_fire :: "go_timer \<Rightarrow> go_timer" where
  "timer_fire t = (if tm_active t then \<lparr>tm_active = False, tm_value = True\<rparr> else t)"

definition StopTimer :: "go_timer \<Rightarrow> go_timer" where
  "StopTimer t = (let (stopped, t') = timer_Stop t in if \<not> stopped then t'\<lparr>tm_value := False\<rparr> else t')"

section \<open>What the readiness checks show\<close>

text \<open>\<open>retry.Do\<close>: no attempt at all when the context is done, which gives its error, or attempts until one succeeds or the last one failed.\<close>

fun attempts :: "nat \<Rightarrow> gerr \<Rightarrow> ('s \<Rightarrow> gerr option \<times> 's) \<Rightarrow> 's \<Rightarrow> gerr option \<times> 's" where
  "attempts 0 e action s = (Some e, s)"
| "attempts (Suc n) e action s =
     (case action s of
        (None, s') \<Rightarrow> (None, s')
      | (Some err, s') \<Rightarrow> if n = 0 then (Some err, s') else attempts n e action s')"

definition repeats :: "'s retrier \<Rightarrow> bool" where
  "repeats retry \<longleftrightarrow> (\<forall>t action s. \<exists>n e. retry t action s = attempts n e action s)"

text \<open>The lines of one check: those of a mandatory one end when it is ready; an optional one is tried once.\<close>

definition passed_lines :: "'w checker \<Rightarrow> ready_line list \<Rightarrow> bool" where
  "passed_lines c ls \<longleftrightarrow>
     (if ck_isOptional c then ls = [ReadyLine (ck_name c)] \<or> (\<exists>err. ls = [NotReadyLine (ck_name c) True err])
      else \<exists>errs. ls = map (NotReadyLine (ck_name c) False) errs @ [ReadyLine (ck_name c)])"

text \<open>The lines of a check that failed: none if its time was up at once, else it is mandatory and the error tells its name.\<close>

definition failed_lines :: "'w checker \<Rightarrow> gerr \<Rightarrow> ready_line list \<Rightarrow> bool" where
  "failed_lines c err ls \<longleftrightarrow>
     ls = [] \<or> (\<not> ck_isOptional c \<and> (\<exists>cause. err = FmtWrap (''dependency '' @ ck_name c @ '' could not start'') cause))"

lemma check_once_ready: "ck_Ready c w = (None, v) \<Longrightarrow> check_once c (w, log) = (None, (v, log @ [ReadyLine (ck_name c)]))"
  by (simp add: check_once_def)

lemma check_once_failed:
  "ck_Ready c w = (Some err, v) \<Longrightarrow> check_once c (w, log) =
     (if ck_isOptional c then None else Some (FmtWrap (''dependency '' @ ck_name c @ '' could not start'') err),
      (v, log @ [NotReadyLine (ck_name c) (ck_isOptional c) err]))"
  by (simp add: check_once_def)

lemma passed_lines_retry:
  "\<not> ck_isOptional c \<Longrightarrow> passed_lines c ls \<Longrightarrow> passed_lines c (NotReadyLine (ck_name c) False err # ls)"
  unfolding passed_lines_def by (auto intro: exI [of _ "err # _"])

lemma attempts_passed:
  assumes "attempts n e (check_once c) (w, log) = (None, (w', log'))"
  shows "\<exists>ls. log' = log @ ls \<and> passed_lines c ls"
  using assms
proof (induction n arbitrary: w log)
  case (Suc n)
  obtain r v where r: "ck_Ready c w = (r, v)" by (rule prod.exhaust)
  show ?case
  proof (cases r)
    case None
    with Suc.prems r show ?thesis by (auto simp: check_once_ready passed_lines_def)
  next
    case (Some err)
    show ?thesis
    proof (cases "ck_isOptional c")
      case True
      with Suc.prems r Some show ?thesis by (auto simp: check_once_failed passed_lines_def)
    next
      case False
      with Suc.prems r Some have "attempts n e (check_once c) (v, log @ [NotReadyLine (ck_name c) False err]) = (None, (w', log'))"
        by (auto simp: check_once_failed split: if_splits)
      from Suc.IH [OF this] passed_lines_retry [OF False] show ?thesis by fastforce
    qed
  qed
qed simp

lemma attempts_blames:
  assumes "attempts (Suc n) e (check_once c) (w, log) = (Some err, (w', log'))"
  shows "(\<exists>ls. log' = log @ ls) \<and> \<not> ck_isOptional c \<and> (\<exists>cause. err = FmtWrap (''dependency '' @ ck_name c @ '' could not start'') cause)"
  using assms
proof (induction n arbitrary: w log)
  case 0
  obtain r v where "ck_Ready c w = (r, v)" by (rule prod.exhaust)
  with 0 show ?case by (cases r) (auto simp: check_once_ready check_once_failed split: if_splits)
next
  case (Suc n)
  obtain r v where r: "ck_Ready c w = (r, v)" by (rule prod.exhaust)
  with Suc.prems obtain x where x: "r = Some x" "\<not> ck_isOptional c"
    by (cases r) (auto simp: check_once_ready check_once_failed split: if_splits)
  then have "attempts (Suc n) e (check_once c) (v, log @ [NotReadyLine (ck_name c) False x]) = (Some err, (w', log'))"
    using Suc.prems r by (simp add: check_once_failed)
  from Suc.IH [OF this] show ?case by auto
qed

lemma attempts_failed:
  assumes "attempts n e (check_once c) (w, log) = (Some err, (w', log'))"
  shows "\<exists>ls. log' = log @ ls \<and> failed_lines c err ls"
proof (cases n)
  case 0
  then show ?thesis using assms by (simp add: failed_lines_def)
next
  case (Suc m)
  then show ?thesis using attempts_blames [of m e c w log err w' log'] assms by (auto simp: failed_lines_def)
qed

definition explained :: "'w checker list \<Rightarrow> ready_line list \<Rightarrow> gerr option \<Rightarrow> bool" where
  "explained cs ls r \<longleftrightarrow>
     (case r of
        None \<Rightarrow> \<exists>lss. ls = concat lss \<and> list_all2 passed_lines cs lss
      | Some err \<Rightarrow>
          \<exists>pre c post lss last. cs = pre @ c # post \<and> list_all2 passed_lines pre lss \<and> ls = concat lss @ last \<and> failed_lines c err last)"

lemma explained_Cons: "passed_lines c ls \<Longrightarrow> explained cs ls' r \<Longrightarrow> explained (c # cs) (ls @ ls') r"
proof (cases r)
  case None
  assume "passed_lines c ls" "explained cs ls' r"
  then obtain lss where "ls' = concat lss" "list_all2 passed_lines cs lss" using None by (auto simp: explained_def)
  then have "ls @ ls' = concat (ls # lss) \<and> list_all2 passed_lines (c # cs) (ls # lss)" using \<open>passed_lines c ls\<close> by simp
  then show ?thesis unfolding explained_def None option.case by blast
next
  case (Some err)
  assume "passed_lines c ls" "explained cs ls' r"
  then obtain pre d post lss last where e: "cs = pre @ d # post" "list_all2 passed_lines pre lss" "ls' = concat lss @ last" "failed_lines d err last"
    using Some by (auto simp: explained_def)
  then have "c # cs = (c # pre) @ d # post \<and> list_all2 passed_lines (c # pre) (ls # lss) \<and> ls @ ls' = concat (ls # lss) @ last"
    using \<open>passed_lines c ls\<close> by simp
  then show ?thesis using e(4) unfolding explained_def Some option.case by blast
qed

lemma explained_fails: "failed_lines c err ls \<Longrightarrow> explained (c # cs) ls (Some err)"
  unfolding explained_def option.case by (rule exI [of _ "[]"]) auto


definition sample_checkers :: "bool checker list" where
  "sample_checkers =
     [\<lparr>ck_Ready = (\<lambda>up. (if up then None else Some (ErrNew ''down''), True)), ck_isOptional = False, ck_name = ''db''\<rparr>,
      \<lparr>ck_Ready = (\<lambda>up. (Some (ErrNew ''down''), up)), ck_isOptional = True, ck_name = ''cache''\<rparr>]"

lemma sample_checkers_run:
  "Readiness_IsReady (\<lambda>t. attempts (Suc (Suc 0)) (ErrNew ''timeout'')) sample_checkers (False, []) =
     (None, (True, [NotReadyLine ''db'' False (ErrNew ''down''), ReadyLine ''db'', NotReadyLine ''cache'' True (ErrNew ''down'')]))"
  by (simp add: sample_checkers_def check_once_def)


section \<open>Waiting ends, and what it tells\<close>

definition remaining :: "'a wait_state \<Rightarrow> nat" where
  "remaining s = length (concat (wg_threads s)) + (if wg_ctxDone s then 0 else 1) + (if wg_result s = None then 1 else 0)"

lemma length_concat_update:
  "i < length ts \<Longrightarrow> ts ! i = a # rest \<Longrightarrow> length (concat ts) = Suc (length (concat (ts[i := rest])))"
proof (induction ts arbitrary: i)
  case (Cons t ts)
  then show ?case by (cases i) auto
qed simp

lemma wg_step_remaining: "wg_step s s' \<Longrightarrow> remaining s' < remaining s"
  by (induction rule: wg_step.induct) (simp_all add: remaining_def length_concat_update)

lemma wg_step_enabled: "wg_result s = None \<Longrightarrow> \<exists>s'. wg_step s s'"
proof (cases "wg_ctxDone s")
  case False
  then show ?thesis using wg_step.deadline by blast
qed (use wg_step.too_late in blast)

text \<open>The actions of each goroutine that were done, in the order of its program, are in the trace.\<close>

definition wg_inv :: "'a list list \<Rightarrow> 'a wait_state \<Rightarrow> bool" where
  "wg_inv ps s \<longleftrightarrow>
     length (wg_threads s) = length ps \<and>
     (\<forall>i < length ps. \<exists>d. ps ! i = d @ wg_threads s ! i \<and> subseq d (wg_trace s)) \<and>
     mset (wg_trace s) + mset (concat (wg_threads s)) = mset (concat ps) \<and>
     (wg_result s = Some AllDone \<longrightarrow> (\<forall>t \<in> set (wg_threads s). t = [])) \<and>
     (wg_result s = Some DeadlinePassed \<longrightarrow> wg_ctxDone s)"

lemma mset_concat_update:
  "i < length ts \<Longrightarrow> ts ! i = a # rest \<Longrightarrow> mset (concat ts) = add_mset a (mset (concat (ts[i := rest])))"
proof (induction ts arbitrary: i)
  case (Cons t ts)
  then show ?case by (cases i) auto
qed simp

lemma wg_inv_step: "wg_step s s' \<Longrightarrow> wg_inv ps s \<Longrightarrow> wg_inv ps s'"
proof (induction rule: wg_step.induct)
  case (act i s a rest)
  have "\<exists>d. ps ! j = d @ (wg_threads s)[i := rest] ! j \<and> subseq d (wg_trace s @ [a])" if "j < length ps" for j
  proof -
    note j = that
    obtain d where d: "ps ! j = d @ wg_threads s ! j" "subseq d (wg_trace s)" using act.prems j unfolding wg_inv_def by blast
    show ?thesis
    proof (cases "j = i")
      case True
      then have "ps ! j = (d @ [a]) @ (wg_threads s)[i := rest] ! j" using d act.hyps by simp
      moreover have "subseq (d @ [a]) (wg_trace s @ [a])" using d(2) by (simp add: list_emb_append_mono)
      ultimately show ?thesis by blast
    next
      case False
      then show ?thesis using d by (auto intro: subseq_order.trans)
    qed
  qed
  moreover have "mset (wg_trace s @ [a]) + mset (concat ((wg_threads s)[i := rest])) = mset (concat ps)"
    using act mset_concat_update [OF act.hyps] by (simp add: wg_inv_def)
  moreover have "wg_result s \<noteq> Some AllDone" using act by (force simp: wg_inv_def in_set_conv_nth)
  ultimately show ?case using act.prems by (simp add: wg_inv_def)
qed (auto simp: wg_inv_def)

lemma wg_inv_start: "wg_inv ps (wg_start ps)"
  by (auto simp: wg_inv_def wg_start_def)

lemma wg_inv_reachable: "wg_step\<^sup>*\<^sup>* (wg_start ps) s \<Longrightarrow> wg_inv ps s"
  by (induction rule: rtranclp_induct) (auto intro: wg_inv_start wg_inv_step)

lemma all_done_trace:
  assumes "wg_step\<^sup>*\<^sup>* (wg_start ps) s" and "wg_result s = Some AllDone"
  shows "mset (wg_trace s) = mset (concat ps)" and "p \<in> set ps \<Longrightarrow> subseq p (wg_trace s)"
proof -
  have inv: "wg_inv ps s" using assms(1) by (rule wg_inv_reachable)
  then have empty: "\<forall>t \<in> set (wg_threads s). t = []" using assms(2) by (simp add: wg_inv_def)
  then have "concat (wg_threads s) = []" by simp
  moreover have "mset (wg_trace s) + mset (concat (wg_threads s)) = mset (concat ps)" using inv unfolding wg_inv_def by blast
  ultimately show "mset (wg_trace s) = mset (concat ps)" by (simp only: mset.simps(1) add_0_right)
  assume "p \<in> set ps"
  then obtain i where i: "i < length ps" "ps ! i = p" by (auto simp: in_set_conv_nth)
  have "length (wg_threads s) = length ps" using inv unfolding wg_inv_def by blast
  then have "wg_threads s ! i = []" using empty i(1) by simp
  moreover obtain d where "ps ! i = d @ wg_threads s ! i" "subseq d (wg_trace s)" using inv i(1) unfolding wg_inv_def by blast
  ultimately show "subseq p (wg_trace s)" using i(2) by simp
qed

text \<open>C18: However its goroutines interleave, a shutdown returns: no run is longer than the number of actions and two, and a run that cannot go on has
  returned. It reports a clean shutdown only after every component, the scheduler and the exporter have been stopped, the scheduler before waiting for its
  jobs; otherwise its deadline has passed.\<close>

theorem shutdown_outcome:
  assumes "(wg_step ^^ n) (app_Shutdown a) s"
  shows "n \<le> length (concat (shutdown_programs a)) + 2 \<and>
    ((\<nexists>s'. wg_step s s') \<longrightarrow> wg_result s \<noteq> None) \<and>
    (wg_result s = Some DeadlinePassed \<longrightarrow> wg_ctxDone s) \<and>
    (wg_result s = Some AllDone \<longrightarrow>
       mset (wg_trace s) = mset (concat (shutdown_programs a)) \<and>
       (\<forall>c \<in> set (app_components a). ShutdownServer c \<in> set (wg_trace s)) \<and>
       (app_hasScheduler a \<longrightarrow> subseq [SchedulerStop, SchedulerWait] (wg_trace s)))"
proof -
  have steps: "wg_step\<^sup>*\<^sup>* (wg_start (shutdown_programs a)) s"
    using assms unfolding app_Shutdown_def by (rule relpowp_imp_rtranclp)
  have "n + remaining s \<le> remaining (app_Shutdown a)"
    using assms
  proof (induction n arbitrary: s)
    case (Suc n)
    then obtain t where t: "(wg_step ^^ n) (app_Shutdown a) t" "wg_step t s" by auto
    then show ?case using Suc.IH [OF t(1)] wg_step_remaining [OF t(2)] by simp
  qed simp
  then have "n \<le> length (concat (shutdown_programs a)) + 2" by (simp add: remaining_def app_Shutdown_def wg_start_def)
  moreover have "wg_result s = Some DeadlinePassed \<longrightarrow> wg_ctxDone s" using wg_inv_reachable [OF steps] by (simp add: wg_inv_def)
  moreover have "mset (wg_trace s) = mset (concat (shutdown_programs a)) \<and>
       (\<forall>c \<in> set (app_components a). ShutdownServer c \<in> set (wg_trace s)) \<and>
       (app_hasScheduler a \<longrightarrow> subseq [SchedulerStop, SchedulerWait] (wg_trace s))" if "wg_result s = Some AllDone"
  proof (intro conjI ballI impI)
    show ms: "mset (wg_trace s) = mset (concat (shutdown_programs a))" by (rule all_done_trace(1) [OF steps that])
    show "ShutdownServer c \<in> set (wg_trace s)" if "c \<in> set (app_components a)" for c
      using that mset_eq_setD [OF ms] by (auto simp: shutdown_programs_def)
    show "subseq [SchedulerStop, SchedulerWait] (wg_trace s)" if "app_hasScheduler a"
      using that by (intro all_done_trace(2) [OF steps \<open>wg_result s = Some AllDone\<close>]) (simp add: shutdown_programs_def)
  qed
  ultimately show ?thesis using wg_step_enabled by blast
qed

theorem shutdown_outcome_witness:
  "\<exists>s :: nat app_action wait_state. (wg_step ^^ 2) (app_Shutdown (\<lparr>app_checkers = [], app_hasScheduler = False, app_components = [7], app_otelShutdown = None\<rparr> :: (nat, unit) application)) s \<and>
     wg_result s = Some AllDone \<and> ShutdownServer 7 \<in> set (wg_trace s)"
proof -
  let ?a = "\<lparr>app_checkers = [], app_hasScheduler = False, app_components = [7], app_otelShutdown = None\<rparr> :: (nat, unit) application"
  let ?s1 = "(app_Shutdown ?a)\<lparr>wg_threads := [[]], wg_trace := [ShutdownServer 7]\<rparr>"
  let ?s2 = "?s1\<lparr>wg_result := Some AllDone\<rparr>"
  have "wg_step (app_Shutdown ?a) ?s1"
    using wg_step.act [of 0 "app_Shutdown ?a" "ShutdownServer 7" "[]"] by (simp add: app_Shutdown_def wg_start_def shutdown_programs_def)
  moreover have "wg_step ?s1 ?s2" by (rule wg_step.all_done) (simp_all add: app_Shutdown_def wg_start_def)
  ultimately have "(wg_step ^^ 2) (app_Shutdown ?a) ?s2" by (auto simp: numeral_2_eq_2)
  moreover from shutdown_outcome [OF this] have "ShutdownServer 7 \<in> set (wg_trace ?s2)" by simp
  ultimately show ?thesis by (intro exI [of _ ?s2]) simp
qed

text \<open>When the scheduler reports that all jobs are closed, each of them has been, and the errors of those that could not be closed are logged before.\<close>

theorem jobs_closed:
  assumes "wg_step\<^sup>*\<^sup>* (Scheduler_Wait closeErr jobs) s" and "wg_result s = Some AllDone" and "job \<in> set jobs"
  shows "ClosedJob job \<in> set (wg_trace s) \<and>
    (\<forall>err. closeErr job = Some err \<longrightarrow> subseq [CouldNotClose job err, ClosedJob job] (wg_trace s))"
proof -
  have "subseq (close_job closeErr job) (wg_trace s)"
    using assms by (intro all_done_trace(2) [of "map (close_job closeErr) jobs"]) (simp_all add: Scheduler_Wait_def)
  moreover then have "set (close_job closeErr job) \<subseteq> set (wg_trace s)" by (auto dest: subseq_order.order_trans intro: subseq_singleton_left [THEN iffD1] simp: subseq_singleton_left [symmetric])
  ultimately show ?thesis by (auto simp: close_job_def)
qed

section \<open>Timers\<close>

text \<open>After \<open>StopTimer\<close> nothing can be received from the timer, not even if it was about to fire.\<close>

theorem stopped_timer_silent: "(tm_active t \<longrightarrow> \<not> tm_value t) \<Longrightarrow> \<not> tm_value (StopTimer t) \<and> timer_fire (StopTimer t) = StopTimer t"
  by (auto simp: StopTimer_def timer_Stop_def timer_fire_def)

end
