(* ===== verification/Tools.thy ===== *)
theory Tools
  imports Snake_Case Go_Error Complex_Main
begin

text \<open>
  Small tools: slices (\<open>internal/slicetooling\<close>), secrets (\<open>internal/secret\<close>), units (\<open>internal/unittooling\<close>), jitter of backoffs
  (\<open>internal/retrytooling\<close>), durations and sizes in configuration files (\<open>internal/encodingtooling\<close>), names of projects
  (\<open>internal/haikutooling\<close>), the loading of configuration (\<open>internal/config\<close>) and of structures as YAML
  (\<open>internal/yamlfromstruct\<close>).

  Parameters: JSON and YAML, \<open>time.ParseDuration\<close> and its inverse, float arithmetic, random numbers, the environment, and the loader of configuration.
\<close>

section \<open>Slices\<close>

text \<open>Integers of 64 bits, with the wrap-around of subtraction and negation.\<close>

definition wrap64 :: "int \<Rightarrow> int" where
  "wrap64 n = (n + 2 ^ 63) mod 2 ^ 64 - 2 ^ 63"

definition slice_abs :: "int \<Rightarrow> int" where
  "slice_abs n = (if n < 0 then wrap64 (- n) else n)"

fun closest_loop :: "int \<Rightarrow> int list \<Rightarrow> int \<Rightarrow> int" where
  "closest_loop num [] current = current"
| "closest_loop num (n # ns) current =
     closest_loop num ns (if slice_abs (wrap64 (n - num)) < slice_abs (wrap64 (current - num)) then n else current)"

definition Closest :: "int list \<Rightarrow> int \<Rightarrow> int" where
  "Closest numbers num = (if length numbers = 0 then num else closest_loop num numbers (hd numbers))"

definition Difference :: "'a list \<Rightarrow> 'b list \<Rightarrow> ('a \<Rightarrow> 'c) \<Rightarrow> ('b \<Rightarrow> 'c) \<Rightarrow> 'a list \<times> 'b list" where
  "Difference list1 list2 t1ID t2ID =
     (let seenLeft = foldl (\<lambda>m x. m(t1ID x \<mapsto> ())) Map.empty list1;
          seenRight = foldl (\<lambda>m x. m(t2ID x \<mapsto> ())) Map.empty list2
      in (foldl (\<lambda>l x. if seenRight (t1ID x) = None then l @ [x] else l) [] list1,
          foldl (\<lambda>l x. if seenLeft (t2ID x) = None then l @ [x] else l) [] list2))"

definition IntersectTakeRight :: "'a list \<Rightarrow> 'a list \<Rightarrow> ('a \<Rightarrow> 'c) \<Rightarrow> 'a list" where
  "IntersectTakeRight list1 list2 idFunc =
     (let seen = foldl (\<lambda>m x. m(idFunc x \<mapsto> True)) Map.empty list1
      in foldl (\<lambda>l x. if seen (idFunc x) = Some True then l @ [x] else l) [] list2)"

section \<open>Secrets\<close>

text \<open>A secret of one of the types with a case of their own, or of another type. For the latter the environment is read only if it
  decodes itself from JSON: \<open>decode\<close> is then its method.\<close>

datatype 'o secret = SecretString string | SecretBool bool | SecretInt int | SecretOther 'o

definition maskedString :: string where "maskedString = ''xxx''"

definition secret_String :: "'o secret \<Rightarrow> string" where "secret_String s = maskedString"
definition secret_Format :: "'o secret \<Rightarrow> char \<Rightarrow> string" where "secret_Format s verb = maskedString"
definition secret_MarshalJSON :: "(string \<Rightarrow> string) \<Rightarrow> 'o secret \<Rightarrow> string" where "secret_MarshalJSON json s = json (secret_String s)"
definition secret_MarshalYAML :: "'o secret \<Rightarrow> string" where "secret_MarshalYAML s = secret_String s"

definition secret_Unmask :: "'o secret \<Rightarrow> 'o secret" where "secret_Unmask s = s"

text \<open>\<open>Scan\<close> takes a value of the type of the secret only.\<close>

definition secret_Scan :: "'o secret \<Rightarrow> 'o secret \<Rightarrow> gerr option \<times> 'o secret" where
  "secret_Scan src s =
     (case (s, src) of
        (SecretString _, SecretString _) \<Rightarrow> (None, src)
      | (SecretBool _, SecretBool _) \<Rightarrow> (None, src)
      | (SecretInt _, SecretInt _) \<Rightarrow> (None, src)
      | (SecretOther _, SecretOther _) \<Rightarrow> (None, src)
      | _ \<Rightarrow> (Some (ErrNew ''type assertion for secret failed''), s))"

definition FromEnv :: "('o \<Rightarrow> (string \<Rightarrow> gerr option) option) \<Rightarrow> string option \<Rightarrow> 'o secret \<Rightarrow> bool \<times> 'o secret" where
  "FromEnv decode env s =
     (case env of
        None \<Rightarrow> (False, s)
      | Some v \<Rightarrow>
          (case s of
             SecretString _ \<Rightarrow> if v = [] then (False, s) else (True, SecretString v)
           | SecretBool _ \<Rightarrow>
               if v = ''true'' \<or> v = ''True'' then (True, SecretBool True)
               else if v = ''false'' \<or> v = ''False'' then (True, SecretBool False)
               else (False, s)
           | SecretInt _ \<Rightarrow> (case ParseInt64 v of Some i \<Rightarrow> (True, SecretInt i) | None \<Rightarrow> (False, s))
           | SecretOther x \<Rightarrow>
               (case decode x of
                  Some unmarshal \<Rightarrow> if unmarshal v = None then (True, s) else (False, s)
                | None \<Rightarrow> (False, s))))"

section \<open>Units\<close>

text \<open>The product of signed 64 bit integers is converted to an unsigned one: both keep the low 64 bits.\<close>

definition BytesFromMiB :: "int \<Rightarrow> 64 word" where
  "BytesFromMiB mib = word_of_int (wrap64 (mib * (1024 * 1024)))"

section \<open>Jitter\<close>

text \<open>\<open>down\<close> and \<open>up\<close> are the products with \<open>1 - factor\<close> and \<open>1 + factor\<close>, rounded down and up; \<open>Int64N n\<close> is a random number
  below \<open>n\<close>, and panics if there is none.\<close>

definition Deviation :: "(go_duration \<Rightarrow> int) \<Rightarrow> (go_duration \<Rightarrow> int) \<Rightarrow> (int \<Rightarrow> int) \<Rightarrow> go_duration \<Rightarrow> go_duration panics" where
  "Deviation down up Int64N duration =
     (let lo = down duration; hi = up duration
      in if wrap64 (hi - lo) \<le> 0 then Inl ''invalid argument to Int64N'' else Inr (wrap64 (Int64N (wrap64 (hi - lo)) + lo)))"

text \<open>\<open>z\<close> is the random number of the standard normal distribution. The product and the sum are taken without rounding, and the conversion to a
  duration drops the fraction.\<close>

definition NormalDistribution :: "real \<Rightarrow> real \<Rightarrow> go_duration \<Rightarrow> go_duration" where
  "NormalDistribution standardDeviation z duration =
     (let x = z * standardDeviation + of_int duration in if x < 0 then \<lceil>x\<rceil> else \<lfloor>x\<rfloor>)"

section \<open>Durations and sizes in configuration files\<close>

definition value_MarshalJSON :: "('v \<Rightarrow> string) \<Rightarrow> 'v \<Rightarrow> string" where
  "value_MarshalJSON String v = CHR 0x22 # String v @ [CHR 0x22]"

definition value_MarshalYAML :: "('v \<Rightarrow> string) \<Rightarrow> 'v \<Rightarrow> string" where
  "value_MarshalYAML String v = String v"

text \<open>\<open>decoded\<close> is the string the decoder of the file finds; the old value stays when there is none or it cannot be parsed.\<close>

definition value_Unmarshal :: "(string \<Rightarrow> gerr + 'v) \<Rightarrow> gerr + string \<Rightarrow> 'v \<Rightarrow> gerr option \<times> 'v" where
  "value_Unmarshal parse decoded old =
     (case decoded of
        Inl err \<Rightarrow> (Some err, old)
      | Inr s \<Rightarrow> (case parse s of Inl err \<Rightarrow> (Some err, old) | Inr v \<Rightarrow> (None, v)))"

definition Duration_MarshalJSON :: "(go_duration \<Rightarrow> string) \<Rightarrow> go_duration \<Rightarrow> string" where
  "Duration_MarshalJSON = value_MarshalJSON"
definition Duration_MarshalYAML :: "(go_duration \<Rightarrow> string) \<Rightarrow> go_duration \<Rightarrow> string" where
  "Duration_MarshalYAML = value_MarshalYAML"
definition Duration_UnmarshalYAML :: "(string \<Rightarrow> gerr + go_duration) \<Rightarrow> gerr + string \<Rightarrow> go_duration \<Rightarrow> gerr option \<times> go_duration" where
  "Duration_UnmarshalYAML = value_Unmarshal"
definition Duration_UnmarshalJSON :: "(string \<Rightarrow> gerr + go_duration) \<Rightarrow> gerr + string \<Rightarrow> go_duration \<Rightarrow> gerr option \<times> go_duration" where
  "Duration_UnmarshalJSON = value_Unmarshal"

definition Size_MarshalJSON :: "(int \<Rightarrow> string) \<Rightarrow> int \<Rightarrow> string" where "Size_MarshalJSON = value_MarshalJSON"
definition Size_MarshalYAML :: "(int \<Rightarrow> string) \<Rightarrow> int \<Rightarrow> string" where "Size_MarshalYAML = value_MarshalYAML"
definition Size_UnmarshalYAML :: "(string \<Rightarrow> gerr + int) \<Rightarrow> gerr + string \<Rightarrow> int \<Rightarrow> gerr option \<times> int" where
  "Size_UnmarshalYAML = value_Unmarshal"
definition Size_UnmarshalJSON :: "(string \<Rightarrow> gerr + int) \<Rightarrow> gerr + string \<Rightarrow> int \<Rightarrow> gerr option \<times> int" where
  "Size_UnmarshalJSON = value_Unmarshal"

section \<open>Names of projects\<close>

fun haiku_filter :: "string list \<Rightarrow> string list \<Rightarrow> string list \<Rightarrow> string list" where
  "haiku_filter [] toRemove out = out"
| "haiku_filter (v # vals) toRemove out = haiku_filter vals toRemove (if \<not> List.member toRemove v then out @ [v] else out)"

record haikunator =
  hk_Adjectives :: "string list"
  hk_Nouns :: "string list"
  hk_TokenLength :: nat
  hk_TokenChars :: string

definition alphaNumericSymbols :: string where "alphaNumericSymbols = ''0123456789abcdefghijklmnopqrstuvwxyz''"

text \<open>Both generators are set up from a new one; the second takes the words of the first.\<close>

definition haiku_init :: "haikunator \<Rightarrow> haikunator \<times> haikunator" where
  "haiku_init new =
     (let generator = new\<lparr>hk_Adjectives := haiku_filter (hk_Adjectives new) [''broken'', ''limit'', ''throbbing''] [],
                          hk_Nouns := haiku_filter (hk_Nouns new) [''disk'', ''wood''] [], hk_TokenLength := 8\<rparr>;
          generatorV2 = new\<lparr>hk_Adjectives := haiku_filter (hk_Adjectives generator) [''broken'', ''limit'', ''throbbing''] [],
                            hk_Nouns := haiku_filter (hk_Nouns generator) [''disk'', ''wood''] [], hk_TokenLength := 6,
                            hk_TokenChars := alphaNumericSymbols\<rparr>
      in (generator, generatorV2))"

section \<open>Loading of configuration\<close>

datatype 'b loader = OptionalFile string | EnvBackend | CustomBackend 'b

text \<open>The sources in the order in which they are applied, each overwriting the ones before.\<close>

definition config_loaders :: "(string list \<Rightarrow> string) \<Rightarrow> string \<Rightarrow> string \<Rightarrow> string \<Rightarrow> 'b list \<Rightarrow> 'b loader list" where
  "config_loaders path_Join cfgFolder homeDir filename customBackends =
     (if filename \<noteq> [] then
        [OptionalFile (path_Join [''/etc'', cfgFolder, filename]), OptionalFile (path_Join [homeDir, ''.'' @ cfgFolder, filename]),
         OptionalFile filename]
      else []) @ [EnvBackend] @ map CustomBackend customBackends"

text \<open>\<open>load\<close> is the loader library: it gives the changed configuration with its error, if any. An empty file is no error.\<close>

definition config_Load ::
    "(string list \<Rightarrow> string) \<Rightarrow> gerr + string \<Rightarrow> ('b loader list \<Rightarrow> 'cfg \<Rightarrow> gerr option \<times> 'cfg) \<Rightarrow> ('cfg \<Rightarrow> gerr option) \<Rightarrow>
     string \<Rightarrow> 'cfg \<Rightarrow> string \<Rightarrow> 'b list \<Rightarrow> gerr option \<times> 'cfg" where
  "config_Load path_Join user load validate cfgFolder dflt filename customBackends =
     (case user of
        Inl err \<Rightarrow> (Some err, dflt)
      | Inr homeDir \<Rightarrow>
          (case load (config_loaders path_Join cfgFolder homeDir filename customBackends) dflt of
             (Some err, cfg) \<Rightarrow> if \<not> errors_Is (NamedError ''EOF'') err then (Some err, cfg) else (validate cfg, cfg)
           | (None, cfg) \<Rightarrow> (validate cfg, cfg)))"

section \<open>Structures as YAML\<close>

definition is_word :: "char \<Rightarrow> bool" where
  "is_word c \<longleftrightarrow> is_digit c \<or> ascii_upper c \<or> ascii_lower c \<or> c = CHR ''_''"

text \<open>The replacement of the matches of \<open>"(\w+)":\<close> in a JSON text: keys become snake case.\<close>

function convert_keys :: "string \<Rightarrow> string" where
  "convert_keys [] = []"
| "convert_keys (c # s) =
     (let w = takeWhile is_word s; rest = dropWhile is_word s
      in if c = CHR 0x22 \<and> w \<noteq> [] \<and> has_prefix rest [CHR 0x22, CHR '':'']
         then CHR 0x22 # CamelToSnake ascii w @ [CHR 0x22, CHR '':''] @ convert_keys (drop 2 rest)
         else c # convert_keys s)"
  by pat_completeness auto
termination
  by (relation "measure length") (auto simp: less_Suc_eq_le intro: le_trans [OF diff_le_self length_dropWhile_le])

definition conventional_MarshalJSON :: "gerr + string \<Rightarrow> gerr + string" where
  "conventional_MarshalJSON marshalled = map_sum (\<lambda>e. e) convert_keys marshalled"

section \<open>What the tools compute\<close>

lemma wrap64_id: "- (2 ^ 63) \<le> n \<Longrightarrow> n < 2 ^ 63 \<Longrightarrow> wrap64 n = n"
  by (simp add: wrap64_def mod_pos_pos_trivial)

lemma slice_abs_exact: "\<bar>n\<bar> < 2 ^ 63 \<Longrightarrow> slice_abs (wrap64 n) = \<bar>n\<bar>"
  using wrap64_id [of n] wrap64_id [of "- n"] by (auto simp: slice_abs_def)

lemma closest_loop_spec:
  assumes "\<forall>n \<in> set (current # ns). \<bar>n - num\<bar> < 2 ^ 63"
  shows "\<exists>xs ys. current # ns = xs @ closest_loop num ns current # ys \<and>
    (\<forall>x \<in> set xs. \<bar>closest_loop num ns current - num\<bar> < \<bar>x - num\<bar>) \<and> (\<forall>y \<in> set ys. \<bar>closest_loop num ns current - num\<bar> \<le> \<bar>y - num\<bar>)"
  using assms
proof (induction ns arbitrary: current)
  case Nil
  show ?case by (rule exI [of _ "[]"], rule exI [of _ "[]"]) simp
next
  case (Cons n ns)
  let ?nearer = "\<bar>n - num\<bar> < \<bar>current - num\<bar>"
  have loop: "closest_loop num (n # ns) current = closest_loop num ns (if ?nearer then n else current)" (is "_ = ?c")
    using Cons.prems by (simp add: slice_abs_exact)
  show ?case
  proof (cases ?nearer)
    case True
    then have c: "?c = closest_loop num ns n" by simp
    have "\<forall>n \<in> set (n # ns). \<bar>n - num\<bar> < 2 ^ 63" using Cons.prems by simp
    from Cons.IH [OF this] obtain xs ys where xy: "n # ns = xs @ ?c # ys" "\<forall>x \<in> set xs. \<bar>?c - num\<bar> < \<bar>x - num\<bar>"
      "\<forall>y \<in> set ys. \<bar>?c - num\<bar> \<le> \<bar>y - num\<bar>"
      unfolding c by blast
    have "\<bar>?c - num\<bar> \<le> \<bar>n - num\<bar>" using xy by (cases xs) auto
    then have "current # n # ns = (current # xs) @ ?c # ys" "\<forall>x \<in> set (current # xs). \<bar>?c - num\<bar> < \<bar>x - num\<bar>"
      using xy(1,2) True by auto
    then show ?thesis using xy(3) unfolding loop by (intro exI conjI)
  next
    case False
    then have c: "?c = closest_loop num ns current" by simp
    have "\<forall>n \<in> set (current # ns). \<bar>n - num\<bar> < 2 ^ 63" using Cons.prems by simp
    from Cons.IH [OF this] obtain xs ys where xy: "current # ns = xs @ ?c # ys" "\<forall>x \<in> set xs. \<bar>?c - num\<bar> < \<bar>x - num\<bar>"
      "\<forall>y \<in> set ys. \<bar>?c - num\<bar> \<le> \<bar>y - num\<bar>"
      unfolding c by blast
    show ?thesis
    proof (cases xs)
      case Nil
      then have "current # n # ns = [] @ ?c # n # ys" "\<forall>y \<in> set (n # ys). \<bar>?c - num\<bar> \<le> \<bar>y - num\<bar>" using xy False by auto
      then show ?thesis unfolding loop by (intro exI conjI) auto
    next
      case (Cons x xs')
      then have "x = current" "\<bar>?c - num\<bar> < \<bar>n - num\<bar>" using xy False by auto
      then have "current # n # ns = (current # n # xs') @ ?c # ys" "\<forall>x \<in> set (current # n # xs'). \<bar>?c - num\<bar> < \<bar>x - num\<bar>"
        using xy Cons by auto
      then show ?thesis using xy(3) unfolding loop by (intro exI conjI)
    qed
  qed
qed

text \<open>\<open>Closest\<close> gives the first of the numbers with the least distance, as long as no difference leaves the range of integers.\<close>

theorem Closest_first_nearest:
  assumes "numbers \<noteq> []" and "\<forall>n \<in> set numbers. \<bar>n - num\<bar> < 2 ^ 63"
  shows "\<exists>xs ys. numbers = xs @ Closest numbers num # ys \<and>
    (\<forall>x \<in> set xs. \<bar>Closest numbers num - num\<bar> < \<bar>x - num\<bar>) \<and> (\<forall>y \<in> set ys. \<bar>Closest numbers num - num\<bar> \<le> \<bar>y - num\<bar>)"
proof -
  obtain n ns where n: "numbers = n # ns" using assms(1) by (cases numbers) auto
  have "closest_loop num numbers n = closest_loop num ns n" by (simp add: n)
  then show ?thesis using closest_loop_spec [of n ns num] assms(2) by (simp add: Closest_def n)
qed

theorem Closest_first_nearest_witness: "Closest [10, 4, 6, 7] 5 = 4"
proof -
  have "\<forall>n \<in> set [10, 4, 6, 7]. \<bar>n - 5\<bar> < (2 :: int) ^ 63" by simp
  from Closest_first_nearest [OF _ this] obtain xs ys where
    "[10, 4, 6, 7] = xs @ Closest [10, 4, 6, 7] 5 # ys" "\<forall>x \<in> set xs. \<bar>Closest [10, 4, 6, 7] 5 - 5\<bar> < \<bar>x - 5\<bar>"
    "\<forall>y \<in> set ys. \<bar>Closest [10, 4, 6, 7] 5 - 5\<bar> \<le> \<bar>y - 5\<bar>" by blast
  then show ?thesis by (auto simp: Cons_eq_append_conv)
qed

text \<open>A difference that leaves the range is taken for a small distance.\<close>

theorem Closest_wraps: "Closest [0, - 9223372036854775808] 9223372036854775807 = - 9223372036854775808"
  by (simp add: Closest_def slice_abs_def wrap64_def)

lemma foldl_keys: "foldl (\<lambda>m x. m(f x \<mapsto> v)) m xs k = (if k \<in> f ` set xs then Some v else m k)"
  by (induction xs arbitrary: m) auto

lemma foldl_filter: "foldl (\<lambda>l x. if P x then l @ [x] else l) acc xs = acc @ filter P xs"
  by (induction xs arbitrary: acc) auto

text \<open>The difference and the intersection of slices are those of their identifiers: elements are kept in order, with their repetitions, and those of an
  intersection come from the second slice.\<close>

theorem slices_by_identifier:
  "Difference list1 list2 t1ID t2ID =
     (filter (\<lambda>x. t1ID x \<notin> t2ID ` set list2) list1, filter (\<lambda>y. t2ID y \<notin> t1ID ` set list1) list2) \<and>
   IntersectTakeRight xs ys idFunc = filter (\<lambda>y. idFunc y \<in> idFunc ` set xs) ys"
  by (simp add: Difference_def IntersectTakeRight_def Let_def foldl_keys foldl_filter cong: if_cong)

text \<open>A secret shows nothing of its value in texts, JSON and YAML, reading the environment changes it only when it says so, and never to another type, and an
  empty or malformed variable leaves it. (A secret that decodes itself through a pointer stays the same pointer.)\<close>

theorem secrets_kept:
  "secret_String s = secret_String t \<and> secret_Format s verb = secret_Format t verb \<and> secret_MarshalJSON json s = secret_MarshalJSON json t \<and>
   secret_MarshalYAML s = secret_MarshalYAML t \<and>
   (case FromEnv decode env s of
      (False, s') \<Rightarrow> s' = s
    | (True, s') \<Rightarrow>
        (\<exists>v. env = Some v \<and>
           (case s of
              SecretString _ \<Rightarrow> v \<noteq> [] \<and> s' = SecretString v
            | SecretBool _ \<Rightarrow> s' = SecretBool (v = ''true'' \<or> v = ''True'') \<and> v \<in> {''true'', ''True'', ''false'', ''False''}
            | SecretInt _ \<Rightarrow> (\<exists>i. ParseInt64 v = Some i \<and> s' = SecretInt i)
            | SecretOther _ \<Rightarrow> s' = s)))"
  by (cases s)
    (auto simp: secret_String_def secret_Format_def secret_MarshalJSON_def secret_MarshalYAML_def FromEnv_def split: option.splits bool.splits)

text \<open>A number of mebibytes is converted exactly while it is not negative and below \<open>2^44\<close>; beyond, the result wraps around.\<close>

theorem BytesFromMiB_exact:
  "(0 \<le> mib \<and> mib < 2 ^ 44 \<longrightarrow> uint (BytesFromMiB mib) = mib * 2 ^ 20) \<and> BytesFromMiB (2 ^ 44) = 0 \<and> uint (BytesFromMiB (- 1)) = 2 ^ 64 - 2 ^ 20"
proof (intro conjI impI)
  assume m: "0 \<le> mib \<and> mib < 2 ^ 44"
  have "uint (BytesFromMiB mib) = wrap64 (mib * 2 ^ 20) mod 2 ^ 64" by (simp add: BytesFromMiB_def uint_word_of_int)
  also have "\<dots> = mib * 2 ^ 20" using m by (simp add: wrap64_def mod_simps)
  finally show "uint (BytesFromMiB mib) = mib * 2 ^ 20" .
qed (simp_all add: BytesFromMiB_def wrap64_def uint_word_of_int)

theorem BytesFromMiB_exact_witness: "uint (BytesFromMiB 3) = 3145728"
  using BytesFromMiB_exact [of 3] by simp

text \<open>A backoff with deviation lies between the products, the upper one excluded; it panics when they are equal, as for a duration of zero.\<close>

theorem Deviation_bounds:
  assumes "\<forall>n > 0. 0 \<le> Int64N n \<and> Int64N n < n" and "0 \<le> down d" "down d < 2 ^ 63" "0 \<le> up d" "up d < 2 ^ 63"
  shows "case Deviation down up Int64N d of Inl _ \<Rightarrow> up d \<le> down d | Inr r \<Rightarrow> down d \<le> r \<and> r < up d"
proof (cases "up d \<le> down d")
  case True
  have "wrap64 (up d - down d) = up d - down d" using assms by (intro wrap64_id) auto
  then show ?thesis using True by (simp add: Deviation_def Let_def)
next
  case False
  have w: "wrap64 (up d - down d) = up d - down d" using assms False by (intro wrap64_id) auto
  let ?r = "Int64N (up d - down d)"
  have r: "0 \<le> ?r" "?r < up d - down d" using assms(1) False by auto
  then have "wrap64 (?r + down d) = ?r + down d" using assms by (intro wrap64_id) auto
  then show ?thesis using r False by (simp add: Deviation_def Let_def w)
qed

theorem Deviation_bounds_witness: "\<exists>r. Deviation (\<lambda>d. d div 2) (\<lambda>d. d + d div 2) (\<lambda>n. n div 3) 6000 = Inr r \<and> 3000 \<le> r \<and> r < 9000"
proof -
  have "\<forall>n > 0. 0 \<le> n div 3 \<and> n div 3 < (n :: int)" by auto
  from Deviation_bounds [OF this, of "\<lambda>d. d div 2" 6000 "\<lambda>d. d + d div 2"] show ?thesis by (simp split: sum.splits)
qed

text \<open>The standard deviation is in nanoseconds: with a quarter of one, as the retries of the database and of HTTP clients have it, a backoff moves by one nanosecond at
  most, unless the random number is beyond four standard deviations.\<close>

theorem normal_jitter_negligible:
  assumes "0 \<le> d" and "\<bar>z\<bar> < 4"
  shows "\<bar>NormalDistribution (1 / 4) z d - d\<bar> \<le> 1"
proof -
  have "- 1 < z * (1 / 4)" "z * (1 / 4) < 1" using assms(2) by auto
  then have "of_int (d - 1) < z * (1 / 4) + of_int d" "z * (1 / 4) + of_int d < of_int (d + 1)" by simp_all
  then show ?thesis by (simp add: NormalDistribution_def Let_def) linarith
qed

lemma haiku_filter_spec: "haiku_filter vals toRemove out = out @ filter (\<lambda>v. v \<notin> set toRemove) vals"
  by (induction vals arbitrary: out) auto

lemma convert_keys_key:
  assumes "k \<noteq> []" "list_all is_word k"
  shows "convert_keys (CHR 0x22 # k @ [CHR 0x22, CHR '':''] @ v) = CHR 0x22 # CamelToSnake ascii k @ [CHR 0x22, CHR '':''] @ convert_keys v"
proof -
  have q: "\<not> is_word (CHR 0x22)" by (simp add: is_word_def is_digit_def ascii_upper_def ascii_lower_def)
  have "takeWhile is_word (k @ CHR 0x22 # CHR '':'' # v) = k" "dropWhile is_word (k @ CHR 0x22 # CHR '':'' # v) = CHR 0x22 # CHR '':'' # v"
    using assms(2) q by (simp_all add: list_all_iff)
  then show ?thesis using assms(1) by (simp add: Let_def has_prefix_def)
qed

end
