(* ===== verification/Storage.thy ===== *)
theory Storage
  imports Completion Embeddings Sql_Query
begin

text \<open>
  The storage of the application (\<open>client/storage/postgres\<close>): its statements and the search for the threads nearest to a question.

  The tables of \<open>Embeddings\<close> are completed by the chats and by the column \<open>most_recent_message_at\<close> of threads. The distance of vectors
  (\<open>embedding <-> :emb\<close>) and the errors of the database are parameters. Times are nanoseconds since the epoch of Unix.
\<close>

section \<open>Statements\<close>

definition sql_lines :: "string list \<Rightarrow> string" where
  "sql_lines ls = join [CHR 0x0A] ls"

definition queryCreateChat :: "Stmt panics" where
  "queryCreateChat = NewStmt ''CreateChat'' (sql_lines [[], ''INSERT INTO chats (chat_id)'', ''VALUES ('', ''        :chat_id'', '');'', []]) None"

definition ChatThread_fields :: "sfield list" where
  "ChatThread_fields = [SField ''ThreadID'' ''thread_id'' None, SField ''Body'' [] None, SField ''ChatID'' [] None]"

definition queryFetchChatThreadToGenerateEmbedding :: "Stmt panics" where
  "queryFetchChatThreadToGenerateEmbedding =
     NewStmt ''FetchChatThreadToGenerateEmbedding''
       (sql_lines [[], ''SELECT * FROM chatthreads WHERE thread_id NOT IN (SELECT thread_id FROM embeddings) LIMIT 2000;'', []])
       (Some ChatThread_fields)"

definition queryCreateChatThread :: "Stmt panics" where
  "queryCreateChatThread =
     NewStmt ''CreateChatThread''
       (sql_lines [[], ''INSERT INTO chatthreads'', CHR 0x09 # ''(chat_id, body)'', ''VALUES ('',
          ''        :chat_id, CAST(:body as JSONB)'', '');'', []]) None"

definition PGSimilarity_fields :: "sfield list" where
  "PGSimilarity_fields =
     [SField ''TelegramChatID'' [] None, SField ''ConversationStarter'' ''body'' None, SField ''Message'' [] None,
      SField ''MostRecentMessageAt'' [] None]"

definition querySimilaritySearch :: "Stmt panics" where
  "querySimilaritySearch =
     NewStmt ''SimilaritySearch''
       (sql_lines [[], ''SELECT * FROM'', ''('',
          CHR 0x09 # ''SELECT e.message, e.embedding, t.most_recent_message_at, t.body, c.telegram_chat_id'',
          CHR 0x09 # ''FROM embeddings e'',
          CHR 0x09 # CHR 0x09 # ''JOIN chatthreads t ON e.thread_id = t.thread_id'',
          CHR 0x09 # CHR 0x09 # ''JOIN chats c ON t.chat_id = c.chat_id'',
          CHR 0x09 # ''WHERE'',
          CHR 0x09 # CHR 0x09 # ''most_recent_message_at >= :since'',
          CHR 0x09 # CHR 0x09 # ''AND most_recent_message_at < :upto'',
          CHR 0x09 # ''ORDER BY embedding <-> :emb'',
          CHR 0x09 # ''LIMIT :limit'',
          '') t'', []])
       (Some PGSimilarity_fields)"

definition queryUpsertEmbedding :: "Stmt panics" where
  "queryUpsertEmbedding =
     NewStmt ''UpsertEmbedding''
       (sql_lines [[], ''INSERT INTO embeddings'', CHR 0x09 # ''(thread_id, chat_id, message, embedding)'',
          ''VALUES (:thread_id, :chat_id, :message, :embedding)'', ''ON CONFLICT (thread_id) DO UPDATE'', CHR 0x09 # ''SET'',
          CHR 0x09 # CHR 0x09 # ''embedding = EXCLUDED.embedding,'', CHR 0x09 # CHR 0x09 # ''message = EXCLUDED.message;'', []]) None"

section \<open>Tables\<close>

record 'f search_db =
  sd_chats :: "(string \<times> string) list"
  sd_threads :: "(chat_thread_row \<times> go_time) list"
  sd_embeddings :: "int \<rightharpoonup> 'f embedding_row"

definition tables_of :: "'f search_db \<Rightarrow> 'f tables" where
  "tables_of db = \<lparr>chatthreads = map fst (sd_threads db), embeddings = sd_embeddings db\<rparr>"

text \<open>The default of the column \<open>most_recent_message_at\<close>, 2011-05-19 09:45:17 UTC, and of the column \<open>telegram_chat_id\<close>.\<close>

definition default_most_recent :: go_time where
  "default_most_recent = 1305798317 * 1000000000"

definition Storage_CreateChat :: "('f search_db \<Rightarrow> gerr option) \<Rightarrow> string \<Rightarrow> 'f search_db \<Rightarrow> gerr option \<times> 'f search_db" where
  "Storage_CreateChat fail chatID db =
     (case fail db of
        Some err \<Rightarrow> (Some err, db)
      | None \<Rightarrow>
          if chatID \<in> fst ` set (sd_chats db) then (Some (PgErr ''23505'' ''chats_pkey''), db)
          else (None, db\<lparr>sd_chats := sd_chats db @ [(chatID, ''empty'')]\<rparr>))"

text \<open>The statement names neither the date nor the number of a thread.\<close>

definition Storage_CreateChatThread ::
    "('f search_db \<Rightarrow> gerr option) \<Rightarrow> (thread \<Rightarrow> gerr + string) \<Rightarrow> int \<Rightarrow> string \<Rightarrow> thread \<Rightarrow> 'f search_db \<Rightarrow> gerr option \<times> 'f search_db" where
  "Storage_CreateChatThread fail marshal nextID chatID body db =
     (case marshal body of
        Inl err \<Rightarrow> (Some err, db)
      | Inr b \<Rightarrow>
          (case fail db of
             Some err \<Rightarrow> (Some err, db)
           | None \<Rightarrow>
               (None, db\<lparr>sd_threads := sd_threads db @
                  [(\<lparr>row_ChatID = chatID, row_ThreadID = nextID, row_Body = b\<rparr>, default_most_recent)]\<rparr>)))"

section \<open>The search\<close>

record 'f ReqSimilaritySearch =
  CutThreshold :: 'f
  Embedding :: "'f list"
  Since :: go_time
  UpTo :: go_time
  Limit :: int

text \<open>A row of the join: the embedding, the number of the thread and what is returned of it.\<close>

type_synonym 'f joined_row = "'f list \<times> int \<times> RespSimilaritySearch"

definition joined_rows :: "go_time \<Rightarrow> go_time \<Rightarrow> 'f search_db \<Rightarrow> 'f joined_row list" where
  "joined_rows since upTo db =
     concat (map (\<lambda>(t, at).
       (case sd_embeddings db (row_ThreadID t) of
          None \<Rightarrow> []
        | Some e \<Rightarrow>
            concat (map (\<lambda>(chatID, telegramChatID).
              if row_ChatID t = chatID \<and> since \<le> at \<and> at < upTo
              then [(er_Embedding e, row_ThreadID t,
                     \<lparr>Message = er_Message e, TelegramChatID = telegramChatID, ss_ConversationStarter = row_Body t, MostRecentMessageAt = at\<rparr>)]
              else []) (sd_chats db)))) (sd_threads db))"

text \<open>\<open>ORDER BY embedding <-> :emb LIMIT :limit\<close>. Rows of the same distance come in the order of the join.\<close>

definition nearest_rows :: "('f list \<Rightarrow> 'f list \<Rightarrow> 'd::linorder) \<Rightarrow> 'f ReqSimilaritySearch \<Rightarrow> 'f search_db \<Rightarrow> 'f joined_row list" where
  "nearest_rows dist req db =
     take (nat (Limit req)) (sort_key (\<lambda>r. dist (fst r) (take 2000 (Embedding req))) (joined_rows (Since req) (UpTo req) db))"

definition Storage_FetchSimilaritySearch ::
    "('f list \<Rightarrow> 'f list \<Rightarrow> 'd::linorder) \<Rightarrow> ('f search_db \<Rightarrow> gerr option) \<Rightarrow> 'f ReqSimilaritySearch \<Rightarrow> 'f search_db \<Rightarrow>
     (gerr + RespSimilaritySearch list) panics" where
  "Storage_FetchSimilaritySearch dist fail req db =
     (if length (Embedding req) < 2000 then Inl ''slice bounds out of range''
      else case fail db of
        Some err \<Rightarrow> Inr (Inl err)
      | None \<Rightarrow>
          if Limit req < 0 then Inr (Inl (PgErr ''2201W'' ''LIMIT must not be negative''))
          else Inr (Inr (map (snd \<circ> snd) (nearest_rows dist req db))))"

text \<open>The request of \<open>TryCompletion\<close> for one of its ranges; and that its searches are those of the storage, where \<open>ended\<close> tells the ranges whose search was not
  cancelled.\<close>

definition completion_req :: "'f \<Rightarrow> 'f list \<Rightarrow> go_time \<times> go_time \<Rightarrow> 'f ReqSimilaritySearch" where
  "completion_req threshold emb lr = \<lparr>CutThreshold = threshold, Embedding = emb, Since = fst lr, UpTo = snd lr, Limit = 20\<rparr>"

definition served_by ::
    "('f list \<Rightarrow> 'f list \<Rightarrow> 'd::linorder) \<Rightarrow> ('f search_db \<Rightarrow> gerr option) \<Rightarrow> (go_time \<times> go_time \<Rightarrow> bool) \<Rightarrow> 'f \<Rightarrow> 'f search_db \<Rightarrow>
     ('f list) env \<Rightarrow> 'f list \<Rightarrow> bool" where
  "served_by dist fail ended threshold db E emb \<longleftrightarrow>
     (\<forall>lr. if ended lr then Storage_FetchSimilaritySearch dist fail (completion_req threshold emb lr) db = Inr (FetchSimilaritySearch E emb lr)
       else \<exists>e. FetchSimilaritySearch E emb lr = Inl e \<and> errors_Is ContextCanceled e)"

section \<open>What the storage does\<close>

text \<open>Storing a thread is the operation of the tables without dates.\<close>

lemma CreateChatThread_refines:
  assumes "\<And>db. fail db = fail' (tables_of db)"
  shows "map_prod id tables_of (Storage_CreateChatThread fail marshal nextID chatID body db) =
    CreateChatThread fail' marshal nextID chatID body (tables_of db)"
  by (simp add: Storage_CreateChatThread_def CreateChatThread_def tables_of_def assms split: sum.splits option.splits)

lemma joined_row_iff:
  "r \<in> set (joined_rows since upTo db) \<longleftrightarrow>
   (\<exists>t at e telegramChatID. (t, at) \<in> set (sd_threads db) \<and> sd_embeddings db (row_ThreadID t) = Some e \<and>
      (row_ChatID t, telegramChatID) \<in> set (sd_chats db) \<and> since \<le> at \<and> at < upTo \<and>
      r = (er_Embedding e, row_ThreadID t,
           \<lparr>Message = er_Message e, TelegramChatID = telegramChatID, ss_ConversationStarter = row_Body t, MostRecentMessageAt = at\<rparr>))"
    (is "_ \<longleftrightarrow> ?R")
proof
  show "?R" if "r \<in> set (joined_rows since upTo db)"
    using that by (force simp: joined_rows_def split: if_splits option.splits prod.splits)
  assume ?R
  then obtain t at e tg where r: "(t, at) \<in> set (sd_threads db)" "sd_embeddings db (row_ThreadID t) = Some e"
      "(row_ChatID t, tg) \<in> set (sd_chats db)" "since \<le> at" "at < upTo"
      "r = (er_Embedding e, row_ThreadID t, \<lparr>Message = er_Message e, TelegramChatID = tg, ss_ConversationStarter = row_Body t, MostRecentMessageAt = at\<rparr>)"
    by blast
  show "r \<in> set (joined_rows since upTo db)"
    unfolding joined_rows_def set_concat set_map
    by (intro UN_I [OF imageI, OF r(1)]) (use r in \<open>auto intro!: bexI [OF _ r(3)]\<close>)
qed

lemma joined_row_range: "r \<in> set (joined_rows since upTo db) \<Longrightarrow> since \<le> MostRecentMessageAt (snd (snd r)) \<and> MostRecentMessageAt (snd (snd r)) < upTo"
  by (auto simp: joined_row_iff)

lemma joined_row_thread:
  "r \<in> set (joined_rows since upTo db) \<Longrightarrow>
   \<exists>t at. (t, at) \<in> set (sd_threads db) \<and> row_ThreadID t = fst (snd r) \<and> at = MostRecentMessageAt (snd (snd r)) \<and>
     row_Body t = ss_ConversationStarter (snd (snd r))"
  by (auto simp: joined_row_iff)

lemma joined_row_dated:
  "r \<in> set (joined_rows since upTo db) \<Longrightarrow> a \<le> MostRecentMessageAt (snd (snd r)) \<Longrightarrow> MostRecentMessageAt (snd (snd r)) < b \<Longrightarrow>
   r \<in> set (joined_rows a b db)"
  unfolding joined_row_iff by force

definition thread_date :: "'f search_db \<Rightarrow> int \<Rightarrow> go_time" where
  "thread_date db k = the (map_of (map (\<lambda>(t, at). (row_ThreadID t, at)) (sd_threads db)) k)"

lemma joined_row_date:
  assumes "distinct (map (row_ThreadID \<circ> fst) (sd_threads db))" and "r \<in> set (joined_rows since upTo db)"
  shows "thread_date db (fst (snd r)) = MostRecentMessageAt (snd (snd r))"
proof -
  obtain t at where t: "(t, at) \<in> set (sd_threads db)" "row_ThreadID t = fst (snd r)" "at = MostRecentMessageAt (snd (snd r))"
    using joined_row_thread [OF assms(2)] by blast
  have "map fst (map (\<lambda>(t, at). (row_ThreadID t, at)) (sd_threads db)) = map (row_ThreadID \<circ> fst) (sd_threads db)" by auto
  moreover have "(fst (snd r), at) \<in> set (map (\<lambda>(t, at). (row_ThreadID t, at)) (sd_threads db))" using t by force
  ultimately have "map_of (map (\<lambda>(t, at). (row_ThreadID t, at)) (sd_threads db)) (fst (snd r)) = Some at"
    using assms(1) by (metis map_of_is_SomeI)
  then show ?thesis using t(3) by (simp add: thread_date_def)
qed

lemma take_sort_key_nearest:
  fixes f :: "'a \<Rightarrow> 'd::linorder"
  shows "\<exists>rest. mset rows = mset (take n (sort_key f rows)) + mset rest \<and>
    sorted (map f (take n (sort_key f rows))) \<and> (\<forall>x \<in> set (take n (sort_key f rows)). \<forall>y \<in> set rest. f x \<le> f y)"
proof (intro exI conjI)
  let ?s = "sort_key f rows"
  have s: "sorted (map f (take n ?s) @ map f (drop n ?s))" by (simp flip: map_append)
  show "mset rows = mset (take n ?s) + mset (drop n ?s)" by (simp flip: mset_append)
  show "sorted (map f (take n ?s))" using s by (simp add: sorted_append)
  show "\<forall>x \<in> set (take n ?s). \<forall>y \<in> set (drop n ?s). f x \<le> f y" using s by (simp add: sorted_append)
qed

text \<open>What is kept of the rows, and why a row is left out.\<close>

lemma nearest_rows_kept:
  "set (nearest_rows dist req db) \<subseteq> set (joined_rows (Since req) (UpTo req) db)" "length (nearest_rows dist req db) \<le> nat (Limit req)"
  by (auto simp: nearest_rows_def dest: in_set_takeD)

lemma nearest_rows_left_out:
  assumes "s \<in> set (joined_rows (Since req) (UpTo req) db)" and "s \<notin> set (nearest_rows dist req db)"
  shows "length (nearest_rows dist req db) = nat (Limit req) \<and>
    (\<forall>r \<in> set (nearest_rows dist req db). dist (fst r) (take 2000 (Embedding req)) \<le> dist (fst s) (take 2000 (Embedding req)))"
proof -
  let ?rows = "joined_rows (Since req) (UpTo req) db" and ?away = "\<lambda>r. dist (fst r) (take 2000 (Embedding req))"
  obtain rest where rest: "mset ?rows = mset (nearest_rows dist req db) + mset rest"
      "\<forall>x \<in> set (nearest_rows dist req db). \<forall>y \<in> set rest. ?away x \<le> ?away y"
    using take_sort_key_nearest [of ?rows "nat (Limit req)" ?away] unfolding nearest_rows_def by blast
  have "s \<in># mset (nearest_rows dist req db) + mset rest" using assms(1) by (simp flip: rest(1))
  then have "s \<in> set rest" using assms(2) by simp
  moreover have "length ?rows = length (nearest_rows dist req db) + length rest"
    using arg_cong [OF rest(1), of size] by simp
  ultimately have "length (nearest_rows dist req db) < length ?rows" by (cases rest) auto
  then have "length (nearest_rows dist req db) = nat (Limit req)" by (simp add: nearest_rows_def min_def split: if_splits)
  then show ?thesis using rest(2) \<open>s \<in> set rest\<close> by simp
qed

text \<open>With keys for chats and threads, a thread is found at most once in a search.\<close>

lemma one_chat:
  assumes "distinct (map fst chats)"
  shows "length (concat (map (\<lambda>(c, tg). if k = c \<and> P then [f tg] else []) chats)) \<le> 1"
  using assms
proof (induction chats)
  case (Cons x chats)
  obtain c tg where x: "x = (c, tg)" by (cases x)
  have "concat (map (\<lambda>(c, tg). if k = c \<and> P then [f tg] else []) chats) = []" if "k = c"
    using Cons.prems that by (force simp: x)
  then show ?case using Cons by (cases "k = c") (simp_all add: x del: concat_eq_Nil_conv)
qed simp

lemma distinct_singletons:
  assumes "distinct (map key xs)" and "\<And>x. length (f x) \<le> 1" and "\<And>x y. y \<in> set (f x) \<Longrightarrow> g y = key x"
  shows "distinct (map g (concat (map f xs)))"
  using assms(1)
proof (induction xs)
  case (Cons x xs)
  have "f x = [] \<or> (\<exists>y. f x = [y])" using assms(2) [of x] by (cases "f x") auto
  moreover have "g ` set (concat (map f xs)) \<subseteq> key ` set xs" using assms(3) by fastforce
  ultimately show ?case using Cons assms(3) [of _ x] by (auto simp del: set_concat)
qed simp

lemma joined_rows_distinct:
  assumes "distinct (map (row_ThreadID \<circ> fst) (sd_threads db))" and "distinct (map fst (sd_chats db))"
  shows "distinct (map (fst \<circ> snd) (joined_rows since upTo db))"
  unfolding joined_rows_def
proof (rule distinct_singletons [OF assms(1)], goal_cases)
  case (1 x)
  show ?case using one_chat [OF assms(2)] by (auto split: prod.split option.split)
next
  case (2 x y)
  then show ?case by (auto split: prod.splits option.splits if_splits)
qed


definition sample_req :: "int ReqSimilaritySearch" where
  "sample_req = \<lparr>CutThreshold = 0, Embedding = replicate 2000 5, Since = 0, UpTo = 100, Limit = 1\<rparr>"

definition sample_search_db :: "int search_db" where
  "sample_search_db =
     \<lparr>sd_chats = [(''c'', ''cyprus'')],
      sd_threads = [(\<lparr>row_ChatID = ''c'', row_ThreadID = 1, row_Body = ''far''\<rparr>, 10), (\<lparr>row_ChatID = ''c'', row_ThreadID = 2, row_Body = ''near''\<rparr>, 20),
                    (\<lparr>row_ChatID = ''c'', row_ThreadID = 3, row_Body = ''late''\<rparr>, 100)],
      sd_embeddings = (\<lambda>i. Some \<lparr>er_ChatID = ''c'', er_Message = ''m'', er_Embedding = [if i = 1 then 9 else 5]\<rparr>)\<rparr>"




section \<open>The searches of a question\<close>

text \<open>The rows of all searches of a question that were not cancelled.\<close>

definition searched_rows :: "('f list \<Rightarrow> 'f list \<Rightarrow> 'd::linorder) \<Rightarrow> (go_time \<times> go_time \<Rightarrow> bool) \<Rightarrow> 'f \<Rightarrow> 'f list \<Rightarrow> go_time \<Rightarrow> 'f search_db \<Rightarrow> 'f joined_row list" where
  "searched_rows dist ended threshold emb now db =
     concat (map (\<lambda>lr. if ended lr then nearest_rows dist (completion_req threshold emb lr) db else []) (ranges (completion_bounds now)))"

lemma nearest_row_joined:
  "r \<in> set (nearest_rows dist (completion_req threshold emb lr) db) \<Longrightarrow> r \<in> set (joined_rows (fst lr) (snd lr) db)"
  using nearest_rows_kept(1) [of dist "completion_req threshold emb lr" db] by (auto simp: completion_req_def)

lemma searched_row_ranges:
  assumes "r \<in> set (searched_rows dist ended threshold emb now db)"
  shows "r \<in> set (joined_rows (now + 3650 * minusDay) now db)"
proof -
  obtain lr where lr: "lr \<in> set (ranges (completion_bounds now))" "r \<in> set (joined_rows (fst lr) (snd lr) db)"
    using assms by (auto simp: searched_rows_def dest: nearest_row_joined split: if_splits)
  show ?thesis
    using joined_row_range [OF lr(2)] completion_range_inside [OF lr(1)] by (intro joined_row_dated [OF lr(2)]) linarith+
qed

lemma searched_rows_distinct:
  assumes "distinct (map (row_ThreadID \<circ> fst) (sd_threads db))" and "distinct (map fst (sd_chats db))"
  shows "distinct (map (fst \<circ> snd) (searched_rows dist ended threshold emb now db))"
  unfolding searched_rows_def
proof (rule distinct_over_ranges [THEN conjunct1, OF completion_bounds_sorted, of _ "thread_date db"])
  fix lr
  let ?req = "completion_req threshold emb lr"
  let ?rows = "if ended lr then nearest_rows dist ?req db else []"
  show "distinct (map (fst \<circ> snd) ?rows)"
    using joined_rows_distinct [OF assms] unfolding nearest_rows_def distinct_map
    by (simp add: inj_on_subset [OF _ set_take_subset])
  fix r assume "r \<in> set ?rows"
  then have "r \<in> set (nearest_rows dist ?req db)" by (simp split: if_splits)
  note r = nearest_row_joined [OF this]
  show "fst lr \<le> thread_date db ((fst \<circ> snd) r) \<and> thread_date db ((fst \<circ> snd) r) < snd lr"
    using joined_row_date [OF assms(1) r] joined_row_range [OF r] by simp
qed

lemma searched_row_left_out:
  assumes "s \<in> set (joined_rows (now + 3650 * minusDay) now db) - set (searched_rows dist ended threshold emb now db)"
    and "distinct (map (fst \<circ> snd) (searched_rows dist ended threshold emb now db))"
  shows "\<exists>lr \<in> set (ranges (completion_bounds now)). s \<in> set (joined_rows (fst lr) (snd lr) db) \<and>
    (ended lr \<longrightarrow> (\<exists>nearer \<subseteq> set (searched_rows dist ended threshold emb now db). card nearer = 20 \<and>
      (\<forall>r \<in> nearer. r \<in> set (joined_rows (fst lr) (snd lr) db) \<and> dist (fst r) (take 2000 emb) \<le> dist (fst s) (take 2000 emb))))"
proof -
  obtain lr where lr: "lr \<in> set (ranges (completion_bounds now))" "s \<in> set (joined_rows (fst lr) (snd lr) db)"
    using assms(1) completion_range_of joined_row_range joined_row_dated by (metis Diff_iff)
  let ?near = "nearest_rows dist (completion_req threshold emb lr) db"
  have "\<exists>nearer \<subseteq> set (searched_rows dist ended threshold emb now db). card nearer = 20 \<and>
      (\<forall>r \<in> nearer. r \<in> set (joined_rows (fst lr) (snd lr) db) \<and> dist (fst r) (take 2000 emb) \<le> dist (fst s) (take 2000 emb))" if "ended lr"
  proof (intro exI conjI ballI)
    show sub: "set ?near \<subseteq> set (searched_rows dist ended threshold emb now db)" using lr(1) that by (auto simp: searched_rows_def)
    then have s: "s \<notin> set ?near" using assms(1) by blast
    have full: "length ?near = 20" "\<forall>r \<in> set ?near. dist (fst r) (take 2000 emb) \<le> dist (fst s) (take 2000 emb)"
      using nearest_rows_left_out [OF _ s] lr(2) by (simp_all add: completion_req_def)
    have "?near \<in> set (map (\<lambda>lr. if ended lr then nearest_rows dist (completion_req threshold emb lr) db else []) (ranges (completion_bounds now)))"
      using lr(1) that by force
    then have "distinct ?near" using assms(2) [unfolded distinct_map, THEN conjunct1] unfolding searched_rows_def distinct_concat_iff by blast
    then show "card (set ?near) = 20" using full(1) by (simp add: distinct_card)
    show "r \<in> set (joined_rows (fst lr) (snd lr) db)" if "r \<in> set ?near" for r using that by (rule nearest_row_joined)
    show "dist (fst r) (take 2000 emb) \<le> dist (fst s) (take 2000 emb)" if "r \<in> set ?near" for r using that full(2) by blast
  qed
  then show ?thesis using lr by blast
qed

text \<open>A storage with three threads, searched at the time 101, where the searches before the last week are cancelled.\<close>

definition stored_env :: "(int list) env" where
  "stored_env = \<lparr>CreateEmbeddings = (\<lambda>_. Inr [replicate 2000 5]),
     FetchSimilaritySearch = (\<lambda>emb lr.
       if fst lr < 101 + 7 * minusDay then Inl (Sentinel ContextCanceled)
       else (case Storage_FetchSimilaritySearch (\<lambda>x y. \<bar>hd x - hd y\<bar>) (\<lambda>_. None) (completion_req 0 (replicate 2000 5) lr) sample_search_db of
          Inl _ \<Rightarrow> Inr [] | Inr found \<Rightarrow> found)),
     CreateChatCompletion = (\<lambda>q ms. Inr ''yes''), task_order = rev, pool_Wait = errors_Join,
     SortFunc = sort_key MostRecentMessageAt, unmarshal_starter = (\<lambda>_. Inr [sample_msg 1 0]),
     NoResultsAnswer = ''none'', NoExplainedAnswer = ''no'', HelpText = ''h'', NewsText = ''n'',
     stale_text = (\<lambda>_. ''stale''), fresh_text = (\<lambda>_. ''few''), StaleThreshold = 0, format_date = (\<lambda>_. ''d''),
     explain_intro = ''i'', explain_outro = ''o''\<rparr>"

lemma stored_env_served:
  "served_by (\<lambda>x y. \<bar>hd x - hd y\<bar>) (\<lambda>_. None) (\<lambda>lr. 101 + 7 * minusDay \<le> fst lr) 0 sample_search_db stored_env (replicate 2000 5)"
  by (simp add: served_by_def stored_env_def Storage_FetchSimilaritySearch_def completion_req_def errors_Is_chain)

section \<open>The texts of the statements\<close>

text \<open>The names after colons of a statement, and the keys of the map that each call passes.\<close>

definition name_char :: "char \<Rightarrow> bool" where
  "name_char c \<longleftrightarrow> ascii_lower c \<or> c = CHR ''_''"

fun placeholders :: "string \<Rightarrow> string list" where
  "placeholders [] = []"
| "placeholders (c # s) =
     (if c = CHR '':'' \<and> takeWhile name_char s \<noteq> [] then takeWhile name_char s # placeholders s else placeholders s)"

definition CreateChat_keys :: "string list" where "CreateChat_keys = [''chat_id'']"
definition CreateChatThread_keys :: "string list" where "CreateChatThread_keys = [''chat_id'', ''body'']"
definition SimilaritySearch_keys :: "string list" where "SimilaritySearch_keys = [''threshold'', ''since'', ''upto'', ''limit'', ''emb'']"
definition UpsertEmbedding_keys :: "string list" where "UpsertEmbedding_keys = [''thread_id'', ''chat_id'', ''message'', ''embedding'']"

definition statement_names :: "Stmt panics \<Rightarrow> string list option" where
  "statement_names st = (case st of Inl _ \<Rightarrow> None | Inr q \<Rightarrow> Some (placeholders (stmt_Query q)))"

text \<open>The statements of the storage are built without a panic when the program starts, and each call passes a value for every name in its statement; only the
  threshold of a search is passed without being named.\<close>

theorem statements_named:
  "statement_names queryCreateChat = Some CreateChat_keys \<and> statement_names queryCreateChatThread = Some CreateChatThread_keys \<and>
   statement_names queryUpsertEmbedding = Some UpsertEmbedding_keys \<and> statement_names queryFetchChatThreadToGenerateEmbedding = Some [] \<and>
   map_option mset (statement_names querySimilaritySearch) = Some (mset SimilaritySearch_keys - {#''threshold''#})"
proof (intro conjI)
  show "statement_names queryCreateChat = Some CreateChat_keys" by code_simp
  show "statement_names queryCreateChatThread = Some CreateChatThread_keys" by code_simp
  show "statement_names queryUpsertEmbedding = Some UpsertEmbedding_keys" by code_simp
  show "statement_names queryFetchChatThreadToGenerateEmbedding = Some []" by code_simp
  have "statement_names querySimilaritySearch = Some [''since'', ''upto'', ''emb'', ''limit'']" by code_simp
  then show "map_option mset (statement_names querySimilaritySearch) = Some (mset SimilaritySearch_keys - {#''threshold''#})"
    by (simp add: SimilaritySearch_keys_def)
qed

end
