(* ===== verification/Logfmt.thy ===== *)
theory Logfmt
  imports Snake_Case Go_Error
begin

text \<open>
  The formatter of log keys (\<open>internal/logfmt\<close>): it looks for the Go files under the given paths, rewrites the keys of zap fields in their syntax trees to
  snake case and writes the files back. The rewriting of one key is in \<open>Snake_Case\<close>.

  The parser and printer of Go, the file system and the path functions are the parameter \<open>lf_env\<close>; a syntax tree is reduced to what the formatter looks
  at, with every other kind of node as \<open>OtherNode\<close>.
\<close>

section \<open>Syntax trees\<close>

text \<open>A literal has whether it is a string and its text in the source, with the quotes.\<close>

datatype ast_node =
    CallExpr ast_node "ast_node list"
  | SelectorExpr ast_node string
  | Ident string
  | BasicLit bool "nat list"
  | OtherNode "ast_node list"

definition getZapFieldKey :: "ast_node \<Rightarrow> nat list panics" where
  "getZapFieldKey n =
     (case n of
        CallExpr (SelectorExpr (Ident name) sel) args \<Rightarrow>
          if name \<noteq> ''zap'' then Inr []
          else (case args of
                  [] \<Rightarrow> Inl ''index out of range [0] with length 0''
                | BasicLit True value # _ \<Rightarrow> Inr value
                | _ \<Rightarrow> Inr [])
      | _ \<Rightarrow> Inr [])"

definition setZapFieldKey :: "ast_node \<Rightarrow> nat list \<Rightarrow> ast_node panics" where
  "setZapFieldKey n key =
     (case n of
        CallExpr f (BasicLit kind _ # args) \<Rightarrow> Inr (CallExpr f (BasicLit kind key # args))
      | _ \<Rightarrow> Inl ''interface conversion'')"

text \<open>The visit of a node before its children: the node, the formatted key that was found, if any, and whether the node was changed.\<close>

definition visit_node :: "ast_node \<Rightarrow> (ast_node \<times> nat list set \<times> bool) panics" where
  "visit_node n =
     bind_sum (getZapFieldKey n) (\<lambda>key.
       if key = [] then Inr (n, {}, False)
       else case rewrite_key key of
         None \<Rightarrow> Inr (n, {toSnakeCase (trim_quotes key)}, False)
       | Some key' \<Rightarrow> bind_sum (setZapFieldKey n key') (\<lambda>n'. Inr (n', {toSnakeCase (trim_quotes key)}, True)))"

lemma visit_node_cases:
  assumes "visit_node n = Inr (n', ks, b)"
  shows "n' = n \<and> getZapFieldKey n = Inr [] \<and> ks = {} \<and> \<not> b \<or>
    (\<exists>sel key args. key \<noteq> [] \<and> n = CallExpr (SelectorExpr (Ident ''zap'') sel) (BasicLit True key # args) \<and> ks = {toSnakeCase (trim_quotes key)} \<and>
       (n' = n \<and> rewrite_key key = None \<and> \<not> b \<or>
        (\<exists>key'. rewrite_key key = Some key' \<and> n' = CallExpr (SelectorExpr (Ident ''zap'') sel) (BasicLit True key' # args) \<and> b)))"
proof -
  obtain key where key: "getZapFieldKey n = Inr key" using assms by (auto simp: visit_node_def bind_sum_def split: sum.splits)
  show ?thesis
  proof (cases "key = []")
    case True
    then show ?thesis using assms key by (simp add: visit_node_def)
  next
    case False
    then obtain sel args where "n = CallExpr (SelectorExpr (Ident ''zap'') sel) (BasicLit True key # args)"
      using key by (auto simp: getZapFieldKey_def split: ast_node.splits if_splits list.splits bool.splits)
    then show ?thesis using assms key False by (auto simp: visit_node_def setZapFieldKey_def split: option.splits)
  qed
qed

lemma visit_node_size: "visit_node n = Inr (n', ks, b) \<Longrightarrow> size n' = size n"
  using visit_node_cases [of n n' ks b] by auto

text \<open>\<open>astutil.Apply\<close> with this visit.\<close>

function (sequential) apply_node :: "ast_node \<Rightarrow> (ast_node \<times> nat list set \<times> bool) panics"
  and apply_nodes :: "ast_node list \<Rightarrow> (ast_node list \<times> nat list set \<times> bool) panics" where
  "apply_node n =
     (case visit_node n of
        Inl p \<Rightarrow> Inl p
      | Inr (n', ks, b) \<Rightarrow>
          (case n' of
             CallExpr f args \<Rightarrow>
               bind_sum (apply_node f) (\<lambda>(f', ks1, b1). bind_sum (apply_nodes args) (\<lambda>(args', ks2, b2).
                 Inr (CallExpr f' args', ks \<union> ks1 \<union> ks2, b \<or> b1 \<or> b2)))
           | SelectorExpr x sel \<Rightarrow> bind_sum (apply_node x) (\<lambda>(x', ks1, b1). Inr (SelectorExpr x' sel, ks \<union> ks1, b \<or> b1))
           | OtherNode ns \<Rightarrow> bind_sum (apply_nodes ns) (\<lambda>(ns', ks1, b1). Inr (OtherNode ns', ks \<union> ks1, b \<or> b1))
           | _ \<Rightarrow> Inr (n', ks, b)))"
| "apply_nodes [] = Inr ([], {}, False)"
| "apply_nodes (n # ns) =
     bind_sum (apply_node n) (\<lambda>(n', ks1, b1). bind_sum (apply_nodes ns) (\<lambda>(ns', ks2, b2). Inr (n' # ns', ks1 \<union> ks2, b1 \<or> b2)))"
  by pat_completeness auto
termination
  by (relation "measure (\<lambda>x. case x of Inl n \<Rightarrow> 2 * size n + 1 | Inr ns \<Rightarrow> 2 * size_list size ns)")
    (auto dest!: visit_node_size)

section \<open>Files\<close>

text \<open>An entry that \<open>filepath.WalkDir\<close> visits.\<close>

record walk_entry =
  we_path :: string
  we_name :: string
  we_IsDir :: bool
  we_err :: "gerr option"

record 'o lf_env =
  lf_IsAbs :: "string \<Rightarrow> bool"
  lf_Getwd :: "gerr + string"
  lf_CleanJoin :: "string \<Rightarrow> string \<Rightarrow> string"
  lf_WalkDir :: "string \<Rightarrow> walk_entry list"
  lf_ParseFile :: "string \<Rightarrow> gerr + ast_node"
  lf_format :: "ast_node \<Rightarrow> gerr + 'o"
  lf_WriteFile :: "string \<Rightarrow> 'o \<Rightarrow> gerr option"

text \<open>The extension of a name: from its last dot on.\<close>

definition Ext :: "string \<Rightarrow> string" where
  "Ext name = (if CHR ''.'' \<in> set name then CHR ''.'' # rev (takeWhile (\<lambda>c. c \<noteq> CHR ''.'') (rev name)) else [])"

fun search_paths :: "'o lf_env \<Rightarrow> string list \<Rightarrow> gerr + string list" where
  "search_paths E [] = Inr []"
| "search_paths E (p # ps) =
     (if lf_IsAbs E p then bind_sum (search_paths E ps) (\<lambda>rest. Inr (p # rest))
      else bind_sum (lf_Getwd E) (\<lambda>wd. bind_sum (search_paths E ps) (\<lambda>rest. Inr (lf_CleanJoin E wd p # rest))))"

fun walk_files :: "walk_entry list \<Rightarrow> gerr + string list" where
  "walk_files [] = Inr []"
| "walk_files (d # ds) =
     (case we_err d of
        Some err \<Rightarrow> Inl err
      | None \<Rightarrow>
          if we_IsDir d then walk_files ds
          else if Ext (we_name d) \<noteq> ''.go'' then walk_files ds
          else bind_sum (walk_files ds) (\<lambda>rest. Inr (we_path d # rest)))"

fun walk_all :: "'o lf_env \<Rightarrow> string list \<Rightarrow> gerr + string list" where
  "walk_all E [] = Inr []"
| "walk_all E (root # roots) =
     bind_sum (walk_files (lf_WalkDir E root)) (\<lambda>fs. bind_sum (walk_all E roots) (\<lambda>rest. Inr (fs @ rest)))"

text \<open>The files one after the other: the keys found, the files that were written and the error, if any.\<close>

fun format_files :: "'o lf_env \<Rightarrow> string list \<Rightarrow> nat list set \<Rightarrow> string list \<Rightarrow> gerr option panics \<times> nat list set \<times> string list" where
  "format_files E [] keys out = (Inr None, keys, out)"
| "format_files E (srcfile # rest) keys out =
     (case lf_ParseFile E srcfile of
        Inl err \<Rightarrow> (Inr (Some err), keys, out)
      | Inr n \<Rightarrow>
          (case apply_node n of
             Inl p \<Rightarrow> (Inl p, keys, out)
           | Inr (n', ks, shouldRewriteFile) \<Rightarrow>
               if \<not> shouldRewriteFile then format_files E rest (keys \<union> ks) out
               else (case lf_format E n' of
                       Inl err \<Rightarrow> (Inr (Some err), keys \<union> ks, out)
                     | Inr text \<Rightarrow>
                         (case lf_WriteFile E srcfile text of
                            Some err \<Rightarrow> (Inr (Some err), keys \<union> ks, out)
                          | None \<Rightarrow> format_files E rest (keys \<union> ks) (out @ [srcfile])))))"

definition logfmt :: "'o lf_env \<Rightarrow> string \<Rightarrow> gerr option panics \<times> nat list set \<times> string list" where
  "logfmt E paths =
     (case search_paths E (split_byte (CHR '' '') paths) of
        Inl err \<Rightarrow> (Inr (Some err), {}, [])
      | Inr roots \<Rightarrow>
          (case walk_all E roots of
             Inl err \<Rightarrow> (Inr (Some err), {}, [])
           | Inr srcfiles \<Rightarrow> format_files E srcfiles {} []))"

section \<open>What the formatter leaves\<close>

text \<open>The calls in a tree, and the literals that are the keys of its zap fields.\<close>

primrec calls_in :: "ast_node \<Rightarrow> ast_node set" where
  "calls_in (CallExpr f args) = insert (CallExpr f args) (calls_in f \<union> \<Union> (set (map calls_in args)))"
| "calls_in (SelectorExpr x sel) = calls_in x"
| "calls_in (Ident name) = {}"
| "calls_in (BasicLit k v) = {}"
| "calls_in (OtherNode ns) = \<Union> (set (map calls_in ns))"

definition own_keys :: "ast_node \<Rightarrow> nat list set" where
  "own_keys n = {key. key \<noteq> [] \<and> (\<exists>sel args. n = CallExpr (SelectorExpr (Ident ''zap'') sel) (BasicLit True key # args))}"

definition zap_keys :: "ast_node \<Rightarrow> nat list set" where
  "zap_keys n = \<Union> (own_keys ` calls_in n)"

definition bare_zap_call :: "ast_node \<Rightarrow> bool" where
  "bare_zap_call n \<longleftrightarrow> (\<exists>sel. CallExpr (SelectorExpr (Ident ''zap'') sel) [] \<in> calls_in n)"

lemma zap_keys_simps [simp]:
  "zap_keys (CallExpr f args) = own_keys (CallExpr f args) \<union> zap_keys f \<union> (\<Union>n \<in> set args. zap_keys n)"
  "zap_keys (SelectorExpr x sel) = zap_keys x" "zap_keys (Ident name) = {}" "zap_keys (BasicLit k v) = {}"
  "zap_keys (OtherNode ns) = (\<Union>n \<in> set ns. zap_keys n)"
  by (simp_all add: zap_keys_def) blast+

lemma getZapFieldKey_panic: "(\<exists>p. getZapFieldKey n = Inl p) \<longleftrightarrow> (\<exists>sel. n = CallExpr (SelectorExpr (Ident ''zap'') sel) [])"
  by (auto simp: getZapFieldKey_def split: ast_node.splits list.splits bool.splits if_splits)

lemma getZapFieldKey_own: "getZapFieldKey n = Inr [] \<Longrightarrow> own_keys n = {}"
  by (auto simp: own_keys_def getZapFieldKey_def)

lemma bare_zap_call_simps [simp]:
  "bare_zap_call (CallExpr f args) \<longleftrightarrow> (\<exists>p. getZapFieldKey (CallExpr f args) = Inl p) \<or> bare_zap_call f \<or> (\<exists>n \<in> set args. bare_zap_call n)"
  "bare_zap_call (SelectorExpr x sel) = bare_zap_call x" "\<not> bare_zap_call (Ident name)" "\<not> bare_zap_call (BasicLit k v)"
  "bare_zap_call (OtherNode ns) \<longleftrightarrow> (\<exists>n \<in> set ns. bare_zap_call n)"
  unfolding getZapFieldKey_panic by (auto simp: bare_zap_call_def)

lemma trim_quotes_snake:
  assumes "snake k"
  shows "trim_quotes (quote # k @ [quote]) = k" "trim_quotes k = k"
proof -
  have q: "quote \<notin> set k" using assms by (auto simp: snake_def letter_or_us_def isLowerAlphaNum_def quote_def)
  have "quote \<notin> set l \<Longrightarrow> dropWhile (\<lambda>r. r = quote) l = l" for l by (cases l) auto
  then have d: "dropWhile (\<lambda>r. r = quote) k = k" "dropWhile (\<lambda>r. r = quote) (rev k) = rev k" using q by simp_all
  then show "trim_quotes k = k" by (simp add: trim_quotes_def)
  have "dropWhile (\<lambda>r. r = quote) (k @ [quote]) = (if k = [] then [] else k @ [quote])" using q by (cases k) auto
  then show "trim_quotes (quote # k @ [quote]) = k" using d(2) by (simp add: trim_quotes_def)
qed

text \<open>The visit of a node leaves everything that is no call; a call keeps its function and its arguments, except for a literal in the first place.\<close>

lemma visit_other [simp]:
  "visit_node (SelectorExpr x sel) = Inr (SelectorExpr x sel, {}, False)" "visit_node (Ident name) = Inr (Ident name, {}, False)"
  "visit_node (BasicLit k v) = Inr (BasicLit k v, {}, False)" "visit_node (OtherNode ns) = Inr (OtherNode ns, {}, False)"
  by (simp_all add: visit_node_def getZapFieldKey_def)

definition formatted_keys :: "nat list set \<Rightarrow> nat list set" where
  "formatted_keys K = (\<lambda>key. toSnakeCase (trim_quotes key)) ` K"

lemma formatted_keys_simps [simp]:
  "formatted_keys {} = {}" "formatted_keys (K \<union> K') = formatted_keys K \<union> formatted_keys K'"
  by (auto simp: formatted_keys_def)

lemma own_keys_zap: "key \<noteq> [] \<Longrightarrow> own_keys (CallExpr (SelectorExpr (Ident ''zap'') sel) (BasicLit True key # args)) = {key}"
  by (auto simp: own_keys_def)

lemma visit_call:
  assumes "visit_node (CallExpr f args) = Inr (n', ks, b)"
  shows "\<exists>args'. n' = CallExpr f args' \<and> ks = formatted_keys (own_keys (CallExpr f args)) \<and> (\<forall>key \<in> own_keys n'. snake (trim_quotes key)) \<and>
    (\<Union>n \<in> set args'. zap_keys n) = (\<Union>n \<in> set args. zap_keys n) \<and> (\<exists>n \<in> set args'. bare_zap_call n) = (\<exists>n \<in> set args. bare_zap_call n)"
  using visit_node_cases [OF assms]
proof (elim disjE exE conjE)
  assume "n' = CallExpr f args" "getZapFieldKey (CallExpr f args) = Inr []" "ks = {}" "\<not> b"
  then show ?thesis by (simp add: getZapFieldKey_own)
next
  fix sel key args1
  assume n: "key \<noteq> []" "CallExpr f args = CallExpr (SelectorExpr (Ident ''zap'') sel) (BasicLit True key # args1)" "ks = {toSnakeCase (trim_quotes key)}"
    "n' = CallExpr f args" "rewrite_key key = None"
  then have "toSnakeCase (trim_quotes key) = key" by (simp add: rewrite_key_def Let_def split: if_splits)
  then have "snake key" using toSnakeCase_snake [of "trim_quotes key"] by simp
  then show ?thesis using n by (simp add: own_keys_zap formatted_keys_def trim_quotes_snake)
next
  fix sel key args1 key'
  assume n: "key \<noteq> []" "CallExpr f args = CallExpr (SelectorExpr (Ident ''zap'') sel) (BasicLit True key # args1)" "ks = {toSnakeCase (trim_quotes key)}"
    "rewrite_key key = Some key'" "n' = CallExpr (SelectorExpr (Ident ''zap'') sel) (BasicLit True key' # args1)"
  then have key': "key' = quote # toSnakeCase (trim_quotes key) @ [quote]" by (simp add: rewrite_key_def Let_def split: if_splits)
  then have "snake (trim_quotes key')" using toSnakeCase_snake [of "trim_quotes key"] by (simp add: trim_quotes_snake)
  moreover have "key' \<noteq> []" by (simp add: key')
  ultimately show ?thesis using n by (simp add: own_keys_zap formatted_keys_def)
qed

lemma visit_args:
  assumes "visit_node (CallExpr f args) = Inr (CallExpr f args1, ks, b)" and "n \<in> set args1"
  shows "n \<in> set args \<or> (\<exists>v. n = BasicLit True v)"
  using visit_node_cases [OF assms(1)] assms(2) by auto

lemma visit_panic: "(\<exists>p. visit_node n = Inl p) \<longleftrightarrow> (\<exists>p. getZapFieldKey n = Inl p)"
proof (cases "getZapFieldKey n")
  case (Inr key)
  then show ?thesis
    by (auto simp: visit_node_def setZapFieldKey_def getZapFieldKey_def split: option.splits ast_node.splits if_splits list.splits bool.splits)
qed (simp add: visit_node_def)

text \<open>The traversal keeps the nodes that decide whether a call has a key.\<close>

lemma apply_leaf [simp]: "apply_node (Ident s) = Inr (Ident s, {}, False)" "apply_node (BasicLit k v) = Inr (BasicLit k v, {}, False)"
  by simp_all

lemma apply_kind:
  assumes "apply_node n = Inr (n', ks, b)"
  shows "(case n of CallExpr _ _ \<Rightarrow> \<exists>f args. n' = CallExpr f args | SelectorExpr x sel \<Rightarrow> \<exists>x' ks' b'. n' = SelectorExpr x' sel \<and> apply_node x = Inr (x', ks', b')
    | Ident s \<Rightarrow> n' = Ident s | BasicLit k v \<Rightarrow> n' = BasicLit k v | OtherNode _ \<Rightarrow> \<exists>ns. n' = OtherNode ns)"
proof (cases n)
  case (CallExpr f args)
  obtain m where m: "visit_node n = Inr m" using assms by (cases "visit_node n") simp_all
  obtain n1 ks1 b1 where "m = (n1, ks1, b1)" by (rule prod.exhaust) (metis prod.exhaust)
  then have "\<exists>args'. n1 = CallExpr f args'" using visit_call [of f args n1 ks1 b1] m CallExpr by blast
  then show ?thesis using assms m \<open>m = _\<close> CallExpr by (auto simp: bind_sum_def split: sum.splits prod.splits)
qed (use assms in \<open>auto simp: bind_sum_def split: sum.splits prod.splits\<close>)

declare apply_node.simps [simp del]

lemma apply_literal: "apply_node n = Inr (n', ks, b) \<Longrightarrow> n' = BasicLit k v \<longleftrightarrow> n = BasicLit k v"
  by (drule apply_kind) (auto split: ast_node.splits)

lemma apply_ident: "apply_node n = Inr (n', ks, b) \<Longrightarrow> n' = Ident s \<longleftrightarrow> n = Ident s"
  by (drule apply_kind) (auto split: ast_node.splits)

lemma apply_selector: "apply_node n = Inr (n', ks, b) \<Longrightarrow> n' = SelectorExpr (Ident s) sel \<longleftrightarrow> n = SelectorExpr (Ident s) sel"
  by (frule apply_kind) (auto dest: apply_ident split: ast_node.splits)

lemma own_keys_applied:
  assumes "apply_node f = Inr (f', ks, b)" and "apply_nodes args = Inr (args', ks', b')"
  shows "own_keys (CallExpr f' args') = own_keys (CallExpr f args)"
proof -
  have "(\<exists>as'. args' = BasicLit True key # as') \<longleftrightarrow> (\<exists>as. args = BasicLit True key # as)" for key
    using assms(2) by (cases args) (auto simp: bind_sum_def dest: apply_literal [THEN iffD1] split: sum.splits prod.splits)
  then show ?thesis using apply_selector [OF assms(1), of "''zap''"] by (auto simp: own_keys_def)
qed

lemma apply_node_call:
  assumes "apply_node (CallExpr f args) = Inr (n', ks, b)"
  shows "\<exists>args1 f' ks1 b1 args' ks2 b2 b0. visit_node (CallExpr f args) = Inr (CallExpr f args1, formatted_keys (own_keys (CallExpr f args)), b0) \<and>
    apply_node f = Inr (f', ks1, b1) \<and> apply_nodes args1 = Inr (args', ks2, b2) \<and> n' = CallExpr f' args' \<and>
    ks = formatted_keys (own_keys (CallExpr f args)) \<union> ks1 \<union> ks2"
proof -
  obtain m where m: "visit_node (CallExpr f args) = Inr m" using assms by (cases "visit_node (CallExpr f args)") (simp_all add: apply_node.simps)
  obtain n1 ks0 b0 where "m = (n1, ks0, b0)" by (rule prod.exhaust) (metis prod.exhaust)
  then obtain args1 where "visit_node (CallExpr f args) = Inr (CallExpr f args1, formatted_keys (own_keys (CallExpr f args)), b0)"
    using visit_call [of f args n1 ks0 b0] m by auto
  then show ?thesis using assms by (auto simp: apply_node.simps bind_sum_def split: sum.splits prod.splits)
qed

lemma apply_node_spec:
  "apply_node n = Inr (n', ks, b) \<Longrightarrow> (\<forall>key \<in> zap_keys n'. snake (trim_quotes key)) \<and> ks = formatted_keys (zap_keys n)"
  "apply_nodes ns = Inr (ns', ks, b) \<Longrightarrow> (\<forall>m \<in> set ns'. \<forall>key \<in> zap_keys m. snake (trim_quotes key)) \<and> ks = formatted_keys (\<Union>m \<in> set ns. zap_keys m)"
proof (induction n and ns arbitrary: n' ks b and ns' ks b rule: apply_node_apply_nodes.induct)
  case (1 n)
  note simps = apply_node.simps [of "SelectorExpr x sel" for x sel] apply_node.simps [of "OtherNode ns" for ns]
  show ?case
  proof (cases n)
    case (CallExpr f args)
    obtain args1 f' ks1 b1 args' ks2 b2 b0 where
      v: "visit_node n = Inr (CallExpr f args1, formatted_keys (own_keys n), b0)" and
      a: "apply_node f = Inr (f', ks1, b1)" "apply_nodes args1 = Inr (args', ks2, b2)" and
      r: "n' = CallExpr f' args'" "ks = formatted_keys (own_keys n) \<union> ks1 \<union> ks2"
      using apply_node_call [OF "1.prems" [unfolded CallExpr], folded CallExpr] by (elim exE conjE) (rule that)
    have f: "(\<forall>key \<in> zap_keys f'. snake (trim_quotes key)) \<and> ks1 = formatted_keys (zap_keys f)"
      by (rule "1.IH"(1) [OF v refl refl refl a(1)])
    have args: "(\<forall>m \<in> set args'. \<forall>key \<in> zap_keys m. snake (trim_quotes key)) \<and> ks2 = formatted_keys (\<Union>m \<in> set args1. zap_keys m)"
      by (rule "1.IH"(2) [OF v refl refl refl a(2)])
    have own: "own_keys n' = own_keys (CallExpr f args1)" using own_keys_applied [OF a] by (simp add: r)
    from visit_call [OF v [unfolded CallExpr]] have
      k: "\<forall>key \<in> own_keys (CallExpr f args1). snake (trim_quotes key)" "(\<Union>m \<in> set args1. zap_keys m) = (\<Union>m \<in> set args. zap_keys m)"
      by auto
    have "zap_keys n' = own_keys n' \<union> zap_keys f' \<union> (\<Union>m \<in> set args'. zap_keys m)" by (simp add: r)
    then have "\<forall>key \<in> zap_keys n'. snake (trim_quotes key)" using f args own k(1) by auto
    moreover have "ks = formatted_keys (zap_keys n)" using f args k(2) r(2) CallExpr by simp
    ultimately show ?thesis by blast
  next
    case (SelectorExpr x sel)
    then obtain x' where x: "apply_node x = Inr (x', ks, b)" "n' = SelectorExpr x' sel"
      using "1.prems" by (auto simp: simps bind_sum_def split: sum.splits prod.splits)
    have "(\<forall>key \<in> zap_keys x'. snake (trim_quotes key)) \<and> ks = formatted_keys (zap_keys x)"
      by (rule "1.IH"(3) [OF visit_other(1) [of x sel, folded SelectorExpr] refl refl SelectorExpr x(1)])
    then show ?thesis using SelectorExpr x(2) by simp
  next
    case (OtherNode ns)
    then obtain ns' where x: "apply_nodes ns = Inr (ns', ks, b)" "n' = OtherNode ns'"
      using "1.prems" by (auto simp: simps bind_sum_def split: sum.splits prod.splits)
    have "(\<forall>m \<in> set ns'. \<forall>key \<in> zap_keys m. snake (trim_quotes key)) \<and> ks = formatted_keys (\<Union>m \<in> set ns. zap_keys m)"
      by (rule "1.IH"(4) [OF visit_other(4) [of ns, folded OtherNode] refl refl OtherNode x(1)])
    then show ?thesis using OtherNode x(2) by simp
  qed (use "1.prems" in auto)
next
  case 2
  then show ?case by simp
next
  case (3 m ms)
  then obtain m' ks1 b1 ms' ks2 b2 where m: "apply_node m = Inr (m', ks1, b1)" "apply_nodes ms = Inr (ms', ks2, b2)" "ns' = m' # ms'" "ks = ks1 \<union> ks2"
    by (auto simp: bind_sum_def split: sum.splits prod.splits)
  have "(\<forall>key \<in> zap_keys m'. snake (trim_quotes key)) \<and> ks1 = formatted_keys (zap_keys m)" by (rule "3.IH"(1) [OF m(1)])
  moreover have "(\<forall>x \<in> set ms'. \<forall>key \<in> zap_keys x. snake (trim_quotes key)) \<and> ks2 = formatted_keys (\<Union>x \<in> set ms. zap_keys x)"
    by (rule "3.IH"(2) [OF m(2)])
  ultimately show ?case using m(3,4) by auto
qed

lemma bind_sum_panic: "(\<exists>p. bind_sum x f = Inl p) \<longleftrightarrow> (\<exists>p. x = Inl p) \<or> (\<exists>y p. x = Inr y \<and> f y = Inl p)"
  by (cases x) simp_all

lemma apply_nodes_panic:
  "(\<And>m. m \<in> set ns \<Longrightarrow> (\<exists>p. apply_node m = Inl p) \<longleftrightarrow> bare_zap_call m) \<Longrightarrow> (\<exists>p. apply_nodes ns = Inl p) \<longleftrightarrow> (\<exists>m \<in> set ns. bare_zap_call m)"
proof (induction ns)
  case (Cons m ms)
  have "(\<exists>p. apply_nodes (m # ms) = Inl p) \<longleftrightarrow> (\<exists>p. apply_node m = Inl p) \<or> (\<exists>p. apply_nodes ms = Inl p)"
    by (cases "apply_node m"; cases "apply_nodes ms") (auto split: prod.splits)
  then show ?case using Cons by simp
qed simp

lemma apply_node_panic: "(\<exists>p. apply_node n = Inl p) \<longleftrightarrow> bare_zap_call n"
proof (induction n)
  case (CallExpr f args)
  show ?case
  proof (cases "visit_node (CallExpr f args)")
    case (Inl p)
    then show ?thesis using visit_panic [of "CallExpr f args"] by (simp add: apply_node.simps)
  next
    case (Inr m)
    obtain n1 ks b where m: "m = (n1, ks, b)" by (rule prod.exhaust) (metis prod.exhaust)
    obtain args1 where n1: "n1 = CallExpr f args1" "(\<exists>n \<in> set args1. bare_zap_call n) = (\<exists>n \<in> set args. bare_zap_call n)"
      using visit_call [of f args n1 ks b] Inr m by auto
    have new: "n \<in> set args \<or> (\<exists>v. n = BasicLit True v)" if "n \<in> set args1" for n
      using visit_args [of f args args1 ks b] Inr m n1(1) that by simp
    have "(\<exists>p. apply_nodes args1 = Inl p) \<longleftrightarrow> (\<exists>m \<in> set args1. bare_zap_call m)"
      using CallExpr.IH(2) by (intro apply_nodes_panic) (drule new, auto)
    moreover have "(\<exists>p. apply_node (CallExpr f args) = Inl p) \<longleftrightarrow> (\<exists>p. apply_node f = Inl p) \<or> (\<exists>p. apply_nodes args1 = Inl p)"
      using Inr m n1(1) by (cases "apply_node f"; cases "apply_nodes args1") (auto simp: apply_node.simps [of "CallExpr f args"] split: prod.splits)
    ultimately show ?thesis using n1(2) CallExpr.IH(1) visit_panic [of "CallExpr f args"] Inr by simp
  qed
next
  case (SelectorExpr x sel)
  then show ?case by (cases "apply_node x") (auto simp: apply_node.simps [of "SelectorExpr x sel"] split: prod.splits)
next
  case (OtherNode ns)
  have "(\<exists>p. apply_node (OtherNode ns) = Inl p) \<longleftrightarrow> (\<exists>p. apply_nodes ns = Inl p)"
    by (cases "apply_nodes ns") (auto simp: apply_node.simps [of "OtherNode ns"] split: prod.splits)
  then show ?case using apply_nodes_panic [of ns] OtherNode by simp
qed simp_all

text \<open>C34: Formatting a file. The formatter panics exactly on the files in which a zap function is called without an argument. On any other file every key of a zap
  field is in snake case afterwards, and the keys that are reported are those of the file, formatted.\<close>

theorem formatted_tree:
  "case apply_node n of
     Inl _ \<Rightarrow> bare_zap_call n
   | Inr (n', ks, b) \<Rightarrow> \<not> bare_zap_call n \<and> (\<forall>key \<in> zap_keys n'. snake (trim_quotes key)) \<and> ks = formatted_keys (zap_keys n)"
proof (cases "apply_node n")
  case (Inl p)
  then show ?thesis using apply_node_panic [of n] by auto
next
  case (Inr m)
  obtain n' ks b where m: "m = (n', ks, b)" by (rule prod.exhaust) (metis prod.exhaust)
  then show ?thesis using apply_node_panic [of n] apply_node_spec(1) [of n n' ks b] Inr by auto
qed

text \<open>An example: \<open>zap.NewNop()\<close> in one file leaves the files after it as they are.\<close>

definition nop_env :: "nat lf_env" where
  "nop_env =
     \<lparr>lf_IsAbs = (\<lambda>_. True), lf_Getwd = Inr [], lf_CleanJoin = (@), lf_WalkDir = (\<lambda>p. [\<lparr>we_path = ''a.go'', we_name = ''a.go'', we_IsDir = False, we_err = None\<rparr>,
        \<lparr>we_path = ''b.go'', we_name = ''b.go'', we_IsDir = False, we_err = None\<rparr>]),
      lf_ParseFile = (\<lambda>f. Inr (CallExpr (SelectorExpr (Ident ''zap'') ''NewNop'') [])), lf_format = (\<lambda>_. Inr 0), lf_WriteFile = (\<lambda>_ _. None)\<rparr>"

theorem formatted_tree_witness: "\<exists>p. logfmt nop_env ''/src'' = (Inl p, {}, [])"
proof -
  have "bare_zap_call (CallExpr (SelectorExpr (Ident ''zap'') ''NewNop'') [])" by (simp add: getZapFieldKey_def)
  then obtain p where "apply_node (CallExpr (SelectorExpr (Ident ''zap'') ''NewNop'') []) = Inl p"
    using formatted_tree [of "CallExpr (SelectorExpr (Ident ''zap'') ''NewNop'') []"] by (auto split: sum.splits)
  then show ?thesis by (simp add: logfmt_def nop_env_def Ext_def)
qed

end
