(* ===== verification/Clients.thy ===== *)
theory Clients
  imports Http_Client Sql_Query
begin

text \<open>
  Two clients of services: Redis (\<open>internal/redis\<close>), with the tokens for Elasticache, and the language model (\<open>openaiclient/httpopenaiclient\<close>).

  Parameters: the Redis library, the configuration, credentials and signer of AWS (\<open>redis_env\<close>), and the client library of the model. A state that
  the code keeps behind a pointer, the generator of tokens, is passed and returned.
\<close>

section \<open>Tokens for Elasticache\<close>

definition autodetectRegion :: string where "autodetectRegion = ''auto-detect-region''"
definition connectAction :: string where "connectAction = ''connect''"
definition hexEncodedSHA256EmptyString :: string where
  "hexEncodedSHA256EmptyString = ''e3b0c44298fc1c149afbf4c8996fb92427ae41e4649b934ca495991b7852b855''"

record AWSIRSAConfig =
  ir_Region :: string
  ir_ElasticacheClusterEnabled :: bool
  ir_TokenLifeSpan :: go_duration
  ir_ServiceName :: string
  ir_ClusterName :: string
  ir_UserID :: string

record credentials =
  cr_AccessKeyID :: string
  cr_SecretAccessKey :: string

text \<open>The configuration of AWS: its region and what retrieving the credentials gives.\<close>

record aws_Config =
  aw_Region :: string
  aw_Retrieve :: "gerr + credentials"

record 'req awsIamTokenGenerator =
  tg_cfg :: AWSIRSAConfig
  tg_aws :: "aws_Config option"
  tg_targetAWSRegion :: string
  tg_req :: 'req

text \<open>\<open>re_NewRequest\<close> is given the host, the path and the parameters of the query; \<open>re_Seconds\<close> is the whole number of seconds of a duration.\<close>

record ('req, 'p) redis_env =
  re_Seconds :: "go_duration \<Rightarrow> int"
  re_NewRequest :: "string \<Rightarrow> string \<Rightarrow> (string \<times> string) list \<Rightarrow> gerr + 'req"
  re_LoadDefaultConfig :: "gerr + aws_Config"
  re_PresignHTTP :: "credentials \<Rightarrow> 'req \<Rightarrow> string \<Rightarrow> string \<Rightarrow> string \<Rightarrow> gerr + string"
  re_ParseURL :: "string \<Rightarrow> gerr + 'p"
  re_Ping :: "gerr option"

definition newAuthTokenGenerator :: "('req, 'p) redis_env \<Rightarrow> AWSIRSAConfig \<Rightarrow> gerr + 'req awsIamTokenGenerator" where
  "newAuthTokenGenerator E cfg =
     bind_sum (re_NewRequest E (ir_ClusterName cfg) ''/''
       [(''Action'', connectAction), (''User'', ir_UserID cfg), (''X-Amz-Expires'', show_int (re_Seconds E (ir_TokenLifeSpan cfg)))])
       (\<lambda>req. Inr \<lparr>tg_cfg = cfg, tg_aws = None, tg_targetAWSRegion = [], tg_req = req\<rparr>)"

definition token_Ready :: "('req, 'p) redis_env \<Rightarrow> 'req awsIamTokenGenerator \<Rightarrow> gerr option \<times> 'req awsIamTokenGenerator" where
  "token_Ready E atg =
     (case re_LoadDefaultConfig E of
        Inl err \<Rightarrow> (Some (FmtWrap ''cannot load AWS config'' err), atg)
      | Inr cfg \<Rightarrow>
          let region = (if ir_Region (tg_cfg atg) = autodetectRegion then aw_Region cfg else ir_Region (tg_cfg atg))
          in if region = [] then (Some (ErrNew ''region cannot be empty''), atg)
             else
               let atg' = atg\<lparr>tg_targetAWSRegion := region\<rparr>
               in case aw_Retrieve cfg of
                    Inl err \<Rightarrow> (Some (FmtWrap ''cannot creds from generator'' err), atg')
                  | Inr creds \<Rightarrow>
                      if cr_AccessKeyID creds = [] \<or> cr_SecretAccessKey creds = [] then (Some (ErrNew ''credentials are empty''), atg')
                      else (None, atg'\<lparr>tg_aws := Some cfg\<rparr>))"

text \<open>Before a successful check the provider of credentials is nil.\<close>

definition token_Generate :: "('req, 'p) redis_env \<Rightarrow> 'req awsIamTokenGenerator \<Rightarrow> (gerr + string) panics" where
  "token_Generate E atg =
     (case tg_aws atg of
        None \<Rightarrow> Inl ''invalid memory address or nil pointer dereference''
      | Some aws \<Rightarrow>
          Inr (case aw_Retrieve aws of
                 Inl err \<Rightarrow> Inl (FmtWrap ''cannot retrieve AWS credentials'' err)
               | Inr creds \<Rightarrow>
                   (case re_PresignHTTP E creds (tg_req atg) hexEncodedSHA256EmptyString (ir_ServiceName (tg_cfg atg)) (tg_targetAWSRegion atg) of
                      Inl err \<Rightarrow> Inl (FmtWrap ''request signing failed'' err)
                    | Inr signedURL \<Rightarrow> Inr (replace_first ''http://'' [] signedURL))))"

definition irsa_Validate :: "AWSIRSAConfig \<Rightarrow> gerr option" where
  "irsa_Validate c = (if ir_ElasticacheClusterEnabled c then Some (ErrNew ''cluster enabled configurations are not implemented'') else None)"

definition DefaultAWSIRSAConfig :: AWSIRSAConfig where
  "DefaultAWSIRSAConfig =
     \<lparr>ir_Region = autodetectRegion, ir_ElasticacheClusterEnabled = False, ir_TokenLifeSpan = 900 * 1000000000, ir_ServiceName = ''elasticache'',
      ir_ClusterName = ''regional-redis'', ir_UserID = ''yanakipre''\<rparr>"

section \<open>Redis\<close>

definition AuthPlain :: string where "AuthPlain = ''plain''"
definition AuthAWSElasticacheIRSA :: string where "AuthAWSElasticacheIRSA = ''aws_elasticache_irsa''"

record redis_Config =
  rd_AuthType :: string
  rd_AwsIRSA :: "AWSIRSAConfig option"
  rd_URL :: string
  rd_ClientName :: string

definition quoted_type :: "string \<Rightarrow> string" where "quoted_type t = CHR 0x22 # t @ [CHR 0x22]"

definition redis_Validate :: "redis_Config \<Rightarrow> gerr option" where
  "redis_Validate c =
     (if rd_AuthType c = AuthAWSElasticacheIRSA then
        (case rd_AwsIRSA c of
           None \<Rightarrow> Some (ErrNew (''chosen '' @ quoted_type AuthAWSElasticacheIRSA @ '' authentication requires 'aws_irsa' to be set''))
         | Some irsa \<Rightarrow> irsa_Validate irsa)
      else if rd_AuthType c = AuthPlain then None
      else Some (ErrNew (''unknown auth type '' @ quoted_type (rd_AuthType c))))"

definition redis_DefaultConfig :: redis_Config where
  "redis_DefaultConfig =
     \<lparr>rd_AuthType = AuthPlain, rd_AwsIRSA = Some DefaultAWSIRSAConfig, rd_URL = ''redis://10.30.42.54:6379'', rd_ClientName = ''yanakipre''\<rparr>"

text \<open>The options of the library: the parsed address and what the code sets. The provider of credentials is a function of the generator, with the line it logs.\<close>

record 'p redis_Options =
  ro_parsed :: 'p
  ro_ClientName :: "string option"
  ro_TLS12 :: bool
  ro_CredentialsProvider :: bool

record ('req, 'p) Redis =
  rs_options :: "'p redis_Options"
  rs_cfg :: redis_Config
  rs_tokenProvider :: "'req awsIamTokenGenerator option"

definition redis_New :: "('req, 'p) redis_env \<Rightarrow> redis_Config \<Rightarrow> (gerr + ('req, 'p) Redis) panics" where
  "redis_New E cfg =
     (if rd_AuthType cfg = AuthPlain then
        Inr (bind_sum (re_ParseURL E (rd_URL cfg)) (\<lambda>p.
          Inr \<lparr>rs_options = \<lparr>ro_parsed = p, ro_ClientName = Some (rd_ClientName cfg), ro_TLS12 = False, ro_CredentialsProvider = False\<rparr>,
               rs_cfg = cfg, rs_tokenProvider = None\<rparr>))
      else if rd_AuthType cfg = AuthAWSElasticacheIRSA then
        (case re_ParseURL E (rd_URL cfg) of
           Inl err \<Rightarrow> Inr (Inl (FmtWrap ''cannot parse redis URL'' err))
         | Inr p \<Rightarrow>
             (case rd_AwsIRSA cfg of
                None \<Rightarrow> Inl ''invalid memory address or nil pointer dereference''
              | Some irsa \<Rightarrow>
                  (case newAuthTokenGenerator E irsa of
                     Inl err \<Rightarrow> Inr (Inl (FmtWrap ''cannot create awsIamTokenGenerator'' err))
                   | Inr tokenProvider \<Rightarrow>
                       Inr (Inr \<lparr>rs_options = \<lparr>ro_parsed = p, ro_ClientName = None, ro_TLS12 = True, ro_CredentialsProvider = True\<rparr>,
                                 rs_cfg = cfg, rs_tokenProvider = Some tokenProvider\<rparr>))))
      else Inr (Inl (ErrNew (''unsupported auth method: '' @ quoted_type (rd_AuthType cfg)))))"

text \<open>User name and password for a new connection, and the error that is logged.\<close>

definition credentials_provider :: "('req, 'p) redis_env \<Rightarrow> AWSIRSAConfig \<Rightarrow> 'req awsIamTokenGenerator \<Rightarrow> (string \<times> string \<times> gerr option) panics" where
  "credentials_provider E irsa atg =
     bind_sum (token_Generate E atg) (\<lambda>generated.
       Inr (case generated of Inl err \<Rightarrow> (ir_UserID irsa, [], Some err) | Inr tok \<Rightarrow> (ir_UserID irsa, tok, None)))"

definition redis_Ready :: "('req, 'p) redis_env \<Rightarrow> ('req, 'p) Redis \<Rightarrow> gerr option \<times> ('req, 'p) Redis" where
  "redis_Ready E r =
     (case rs_tokenProvider r of
        None \<Rightarrow> (re_Ping E, r)
      | Some atg \<Rightarrow>
          (case token_Ready E atg of
             (Some err, atg') \<Rightarrow> (Some (FmtWrap ''token provider is not ready'' err), r\<lparr>rs_tokenProvider := Some atg'\<rparr>)
           | (None, atg') \<Rightarrow> (re_Ping E, r\<lparr>rs_tokenProvider := Some atg'\<rparr>)))"

subsection \<open>What is promised\<close>

lemma token_Ready_ok:
  assumes "token_Ready E atg = (None, atg')"
  shows "\<exists>aws creds. atg' = atg\<lparr>tg_targetAWSRegion := tg_targetAWSRegion atg', tg_aws := Some aws\<rparr> \<and> tg_targetAWSRegion atg' \<noteq> [] \<and>
    aw_Retrieve aws = Inr creds \<and> cr_AccessKeyID creds \<noteq> [] \<and> cr_SecretAccessKey creds \<noteq> []"
  using assms by (auto simp: token_Ready_def Let_def split: sum.splits if_splits)

lemma ready_credentials:
  assumes "rs_tokenProvider r = Some tp" and "newAuthTokenGenerator E irsa = Inr tp" and "redis_Ready E r = (None, r')"
  shows "\<exists>atg creds. rs_tokenProvider r' = Some atg \<and> tg_targetAWSRegion atg \<noteq> [] \<and> cr_SecretAccessKey creds \<noteq> [] \<and>
    credentials_provider E irsa atg =
      Inr (ir_UserID irsa,
        (case re_PresignHTTP E creds (tg_req atg) hexEncodedSHA256EmptyString (ir_ServiceName irsa) (tg_targetAWSRegion atg) of
           Inl err \<Rightarrow> ([], Some (FmtWrap ''request signing failed'' err)) | Inr url \<Rightarrow> (replace_first ''http://'' [] url, None)))"
proof -
  obtain atg where t: "token_Ready E tp = (None, atg)" "rs_tokenProvider r' = Some atg"
    using assms(1,3) by (auto simp: redis_Ready_def split: prod.splits option.splits)
  obtain aws creds where a: "atg = tp\<lparr>tg_targetAWSRegion := tg_targetAWSRegion atg, tg_aws := Some aws\<rparr>" "tg_targetAWSRegion atg \<noteq> []"
      "aw_Retrieve aws = Inr creds" "cr_SecretAccessKey creds \<noteq> []" using token_Ready_ok [OF t(1)] by blast
  have "tg_cfg tp = irsa" using assms(2) by (auto simp: newAuthTokenGenerator_def bind_sum_def split: sum.splits)
  then have "tg_aws atg = Some aws" "tg_cfg atg = irsa" by (subst a(1), simp)+
  then show ?thesis using t(2) a(2-4)
    by (intro exI [of _ atg] exI [of _ creds]) (simp add: credentials_provider_def token_Generate_def split: sum.split)
qed

text \<open>A configuration that passes its check never makes the constructor panic. After a successful readiness check a connection of an Elasticache client is given the
  user of the configuration with a token that is signed for a region that is not empty, with no scheme in front; when the signer fails, the password is empty and the error is only
  logged.\<close>

theorem redis_credentials:
  assumes "redis_Validate cfg = None"
  shows "\<exists>res. redis_New E cfg = Inr res \<and>
    (\<forall>r irsa r'. res = Inr r \<longrightarrow> rd_AuthType cfg = AuthAWSElasticacheIRSA \<longrightarrow> rd_AwsIRSA cfg = Some irsa \<longrightarrow> redis_Ready E r = (None, r') \<longrightarrow>
      (\<exists>atg creds. rs_tokenProvider r' = Some atg \<and> tg_targetAWSRegion atg \<noteq> [] \<and> cr_SecretAccessKey creds \<noteq> [] \<and>
         credentials_provider E irsa atg =
           Inr (ir_UserID irsa,
             (case re_PresignHTTP E creds (tg_req atg) hexEncodedSHA256EmptyString (ir_ServiceName irsa) (tg_targetAWSRegion atg) of
                Inl err \<Rightarrow> ([], Some (FmtWrap ''request signing failed'' err))
              | Inr url \<Rightarrow> (replace_first ''http://'' [] url, None)))))"
proof (cases "rd_AuthType cfg = AuthAWSElasticacheIRSA")
  case False
  then show ?thesis by (simp add: redis_New_def)
next
  case True
  then obtain irsa where irsa: "rd_AwsIRSA cfg = Some irsa" using assms by (auto simp: redis_Validate_def split: option.splits)
  have plain: "AuthAWSElasticacheIRSA \<noteq> AuthPlain" by (simp add: AuthPlain_def AuthAWSElasticacheIRSA_def)
  have new: "redis_New E cfg = Inr (case re_ParseURL E (rd_URL cfg) of Inl err \<Rightarrow> Inl (FmtWrap ''cannot parse redis URL'' err)
      | Inr p \<Rightarrow> (case newAuthTokenGenerator E irsa of Inl err \<Rightarrow> Inl (FmtWrap ''cannot create awsIamTokenGenerator'' err)
          | Inr tp \<Rightarrow> Inr \<lparr>rs_options = \<lparr>ro_parsed = p, ro_ClientName = None, ro_TLS12 = True, ro_CredentialsProvider = True\<rparr>, rs_cfg = cfg, rs_tokenProvider = Some tp\<rparr>))"
    by (simp add: redis_New_def True plain irsa split: sum.split)
  show ?thesis
  proof (intro exI conjI, rule new, intro allI impI)
    fix r irsa' r'
    assume r: "(case re_ParseURL E (rd_URL cfg) of Inl err \<Rightarrow> Inl (FmtWrap ''cannot parse redis URL'' err)
      | Inr p \<Rightarrow> (case newAuthTokenGenerator E irsa of Inl err \<Rightarrow> Inl (FmtWrap ''cannot create awsIamTokenGenerator'' err)
          | Inr tp \<Rightarrow> Inr \<lparr>rs_options = \<lparr>ro_parsed = p, ro_ClientName = None, ro_TLS12 = True, ro_CredentialsProvider = True\<rparr>, rs_cfg = cfg, rs_tokenProvider = Some tp\<rparr>)) = Inr r"
      and i: "rd_AwsIRSA cfg = Some irsa'" and rr: "redis_Ready E r = (None, r')"
    obtain tp where "newAuthTokenGenerator E irsa = Inr tp" "rs_tokenProvider r = Some tp" using r by (auto split: sum.splits)
    moreover have "irsa' = irsa" using i irsa by simp
    ultimately show "\<exists>atg creds. rs_tokenProvider r' = Some atg \<and> tg_targetAWSRegion atg \<noteq> [] \<and> cr_SecretAccessKey creds \<noteq> [] \<and>
       credentials_provider E irsa' atg =
         Inr (ir_UserID irsa',
           (case re_PresignHTTP E creds (tg_req atg) hexEncodedSHA256EmptyString (ir_ServiceName irsa') (tg_targetAWSRegion atg) of
              Inl err \<Rightarrow> ([], Some (FmtWrap ''request signing failed'' err)) | Inr url \<Rightarrow> (replace_first ''http://'' [] url, None)))"
      using ready_credentials [OF _ _ rr] by (simp only:)
  qed
qed

definition sample_redis_env :: "(unit, unit) redis_env" where
  "sample_redis_env =
     \<lparr>re_Seconds = (\<lambda>d. d div 1000000000), re_NewRequest = (\<lambda>_ _ _. Inr ()),
      re_LoadDefaultConfig = Inr \<lparr>aw_Region = ''eu'', aw_Retrieve = Inr \<lparr>cr_AccessKeyID = ''a'', cr_SecretAccessKey = ''s''\<rparr>\<rparr>,
      re_PresignHTTP = (\<lambda>_ _ _ service region. Inr (''http://'' @ service @ region)), re_ParseURL = (\<lambda>_. Inr ()), re_Ping = None\<rparr>"

definition irsa_cfg :: redis_Config where
  "irsa_cfg = redis_DefaultConfig\<lparr>rd_AuthType := AuthAWSElasticacheIRSA\<rparr>"

theorem redis_credentials_witness:
  "\<exists>r r' atg. redis_New sample_redis_env irsa_cfg = Inr (Inr r) \<and> redis_Ready sample_redis_env r = (None, r') \<and> rs_tokenProvider r' = Some atg \<and>
     credentials_provider sample_redis_env DefaultAWSIRSAConfig atg = Inr (''yanakipre'', ''elasticache'' @ tg_targetAWSRegion atg, None)"
proof -
  have v: "redis_Validate irsa_cfg = None" by (simp add: redis_Validate_def irsa_cfg_def redis_DefaultConfig_def irsa_Validate_def DefaultAWSIRSAConfig_def)
  have t: "rd_AuthType irsa_cfg = AuthAWSElasticacheIRSA" "rd_AwsIRSA irsa_cfg = Some DefaultAWSIRSAConfig"
    by (simp_all add: irsa_cfg_def redis_DefaultConfig_def)
  obtain r where r: "redis_New sample_redis_env irsa_cfg = Inr (Inr r)"
    by (simp add: redis_New_def t AuthPlain_def AuthAWSElasticacheIRSA_def sample_redis_env_def newAuthTokenGenerator_def)
  then obtain r' where r': "redis_Ready sample_redis_env r = (None, r')"
    by (auto simp: redis_New_def t AuthPlain_def AuthAWSElasticacheIRSA_def sample_redis_env_def newAuthTokenGenerator_def redis_Ready_def token_Ready_def
        DefaultAWSIRSAConfig_def Let_def)
  from redis_credentials [OF v, of sample_redis_env] obtain atg creds where "rs_tokenProvider r' = Some atg"
      "credentials_provider sample_redis_env DefaultAWSIRSAConfig atg =
         Inr (ir_UserID DefaultAWSIRSAConfig,
           (case re_PresignHTTP sample_redis_env creds (tg_req atg) hexEncodedSHA256EmptyString (ir_ServiceName DefaultAWSIRSAConfig) (tg_targetAWSRegion atg) of
              Inl err \<Rightarrow> ([], Some (FmtWrap ''request signing failed'' err)) | Inr url \<Rightarrow> (replace_first ''http://'' [] url, None)))"
    using r r' t by auto
  then show ?thesis using r r' by (intro exI conjI) (simp_all add: sample_redis_env_def DefaultAWSIRSAConfig_def has_prefix_def)
qed

section \<open>The language model\<close>

record oai_Config =
  ai_ApiKey :: string
  ai_EmbeddingModel :: string
  ai_Transport :: http_config
  ai_Backoff :: go_duration
  ai_Attempts :: nat
  ai_AskingAbout :: string
  ai_DoNotHighlight :: string

definition oai_DefaultConfig :: oai_Config where
  "oai_DefaultConfig =
     \<lparr>ai_ApiKey = [], ai_EmbeddingModel = ''text-embedding-3-small'',
      ai_Transport = DefaultTransportConfig\<lparr>hc_ResponseHeaderTimeout := 60 * 1000000000, hc_ClientName := ''openapi''\<rparr>,
      ai_Backoff = 100 * 1000000, ai_Attempts = 10, ai_AskingAbout = ''Cyprus'', ai_DoNotHighlight = ''Cyprus''\<rparr>"

text \<open>The HTTP client: the one of the configuration, if it has one, or a client of \<open>resttooling\<close> with metrics, tracing and retries. \<open>ctxErr\<close> is the error of
  the context of a request and \<open>retry_Do\<close> the loop of the library with the Fibonacci backoff.\<close>

definition defaultHTTPClient ::
    "'w round_tripper \<Rightarrow> (http_config \<Rightarrow> 'w round_tripper) \<Rightarrow> (go_duration \<Rightarrow> http_req \<Rightarrow> 'w net \<Rightarrow> gerr option) \<Rightarrow> (http_config \<rightharpoonup> 'w round_tripper) \<Rightarrow>
     ('w round_tripper \<Rightarrow> 'w round_tripper) \<Rightarrow> (http_req \<Rightarrow> gerr option) \<Rightarrow>
     (go_duration \<Rightarrow> nat \<Rightarrow> (http_resp option \<times> 'w net \<Rightarrow> gerr option \<times> http_resp option \<times> 'w net) \<Rightarrow>
      http_resp option \<times> 'w net \<Rightarrow> gerr option \<times> http_resp option \<times> 'w net) \<Rightarrow> oai_Config \<Rightarrow> 'w client" where
  "defaultHTTPClient nil_rt resolve expires cache otel ctxErr retry_Do cfg =
     NewHTTPClientFromConfig nil_rt resolve expires cache (ai_Transport cfg)
       [WithMetrics (MetricFromContext (hc_ClientName (ai_Transport cfg)) []), WithTracing otel,
        WithRetries (retry_Do (ai_Backoff cfg) (ai_Attempts cfg)) (\<lambda>err r. UnconditionalNetworkRetry (ctxErr r) err)
          (\<lambda>_ resp. case resp of None \<Rightarrow> None | Some p \<Rightarrow> RetryByStatusCode [503, 429, 504] (int (hs_StatusCode p)))]"

definition oai_client :: "'c option \<Rightarrow> 'c \<Rightarrow> 'c" where
  "oai_client httpClient dflt = (case httpClient of Some c \<Rightarrow> c | None \<Rightarrow> dflt)"

definition handleError :: "gerr option \<Rightarrow> gerr option" where
  "handleError err = (case err of None \<Rightarrow> None | Some e \<Rightarrow> Some (Foreign ''OpenAIError'' None (Some e)))"

record chat_request =
  cq_Model :: string
  cq_Messages :: "(string \<times> string) list"
  cq_Temperature :: int

text \<open>\<open>contextTpl\<close> is given by the texts between its five verbs.\<close>

fun fill :: "string list \<Rightarrow> string list \<Rightarrow> string" where
  "fill (t # ts) (a # as) = t @ a @ fill ts as"
| "fill ts as = concat ts"

definition chat_request_for :: "string list \<Rightarrow> string \<Rightarrow> oai_Config \<Rightarrow> string \<Rightarrow> string list \<Rightarrow> chat_request" where
  "chat_request_for contextTpl forbidCustomInstructions cfg input conversations =
     \<lparr>cq_Model = ''gpt-4o-2024-05-13'',
      cq_Messages = [(''system'', forbidCustomInstructions),
        (''system'', fill contextTpl [ai_AskingAbout cfg, ai_AskingAbout cfg, ai_DoNotHighlight cfg, join [CHR 0x0A, CHR 0x0A] conversations, input])],
      cq_Temperature = 0\<rparr>"

text \<open>\<open>api\<close> is the call of the client library: its error, or the contents of the choices.\<close>

definition CreateChatCompletion ::
    "(chat_request \<Rightarrow> gerr + string list) \<Rightarrow> string list \<Rightarrow> string \<Rightarrow> oai_Config \<Rightarrow> string \<Rightarrow> string list \<Rightarrow> (gerr + string) panics" where
  "CreateChatCompletion api contextTpl forbid cfg input conversations =
     (case api (chat_request_for contextTpl forbid cfg input conversations) of
        Inl err \<Rightarrow> Inr (Inl err)
      | Inr [] \<Rightarrow> Inl ''index out of range [0] with length 0''
      | Inr (c # _) \<Rightarrow> Inr (Inr c))"

definition CreateEmbeddings :: "(string \<Rightarrow> string list \<Rightarrow> gerr + 'e list) \<Rightarrow> oai_Config \<Rightarrow> string list \<Rightarrow> gerr + 'e list" where
  "CreateEmbeddings api cfg input =
     (case api (ai_EmbeddingModel cfg) input of
        Inl err \<Rightarrow> Inl (case handleError (Some err) of Some e \<Rightarrow> e | None \<Rightarrow> err)
      | Inr embeddings \<Rightarrow> Inr embeddings)"

text \<open>An answer is the first choice of the model for the request with the question and all conversations; the call panics exactly when the
  model offers no choice. Errors keep their cause: the error of an embedding has exactly the sentinels of the error of the library in it.\<close>

theorem model_answers:
  "(case CreateChatCompletion api tpl forbid cfg input conversations of
      Inl _ \<Rightarrow> api (chat_request_for tpl forbid cfg input conversations) = Inr []
    | Inr (Inl err) \<Rightarrow> api (chat_request_for tpl forbid cfg input conversations) = Inl err
    | Inr (Inr answer) \<Rightarrow> (\<exists>more. api (chat_request_for tpl forbid cfg input conversations) = Inr (answer # more))) \<and>
   (case CreateEmbeddings emb cfg inputs of
      Inl err \<Rightarrow> (\<exists>e. emb (ai_EmbeddingModel cfg) inputs = Inl e \<and> (\<forall>t. errors_Is t err \<longleftrightarrow> errors_Is t e))
    | Inr es \<Rightarrow> emb (ai_EmbeddingModel cfg) inputs = Inr es)"
  by (auto simp: CreateChatCompletion_def CreateEmbeddings_def handleError_def errors_Is.simps [of _ "Foreign n b c" for n b c] split: sum.splits list.splits)

end
