(* ===== verification/Egress_Limits.thy ===== *)
theory Egress_Limits
  imports Token_Bucket Http_Client
begin

text \<open>
  Rate limits of outgoing requests: the option \<open>WithRateLimiter\<close> of the HTTP client (\<open>internal/resttooling/options.go\<close>).

  The round tripper is in \<open>Http_Client\<close>. The buckets are those of \<open>Token_Bucket\<close>, made by the same loop over groups of handlers; waiting for a token of a bucket is the parameter \<open>wait\<close>, which gives the
  error of the wait, if any, and the state after it.
\<close>

section \<open>Model\<close>

type_synonym 'w waiting = "nat \<Rightarrow> req_ctx \<Rightarrow> 'w net \<Rightarrow> gerr option \<times> 'w net"

text \<open>The option panics while the client is built when the buckets cannot be made; it gives the buckets with the option.\<close>

definition WithRateLimiter ::
    "(go_duration \<Rightarrow> int \<Rightarrow> 'l) \<Rightarrow> 'w waiting \<Rightarrow> RateLimitByHandlersConfig list \<Rightarrow> 64 word \<Rightarrow> ('w ClientOption \<times> 'l list) panics" where
  "WithRateLimiter mk wait rateLimitersConfig workersCount =
     bind_sum (build_groups mk workersCount rateLimitersConfig (Map.empty, [])) (\<lambda>(limiters, buckets).
       Inr (\<lambda>cfg. cfg\<lparr>oc_OrderlessOptions := oc_OrderlessOptions cfg @ [wrap_transport (rateLimiterRoundTripper wait limiters URISlugFromContext)]\<rparr>, buckets))"

definition WithResponseBasedRetries ::
    "((http_resp option \<times> 'w net \<Rightarrow> gerr option \<times> http_resp option \<times> 'w net) \<Rightarrow>
      http_resp option \<times> 'w net \<Rightarrow> gerr option \<times> http_resp option \<times> 'w net) \<Rightarrow>
     (gerr option \<Rightarrow> http_req \<Rightarrow> gerr option) \<Rightarrow> (req_ctx \<Rightarrow> http_resp option \<Rightarrow> gerr option) \<Rightarrow> 'w ClientOption" where
  "WithResponseBasedRetries retry_Do straightforward retryByResponse = WithRetries retry_Do straightforward retryByResponse"

section \<open>What is limited\<close>

text \<open>The group that a request is charged to.\<close>

definition charged_group :: "RateLimitByHandlersConfig list \<Rightarrow> http_req \<Rightarrow> nat option" where
  "charged_group cfgs r =
     (case group_of (URISlugFromContext (hr_ctx r)) cfgs of Some i \<Rightarrow> Some i | None \<Rightarrow> group_of DefaultSlug cfgs)"

lemma WithRateLimiter_option:
  assumes "WithRateLimiter mk wait cfgs workers = Inr (opt, buckets)"
  shows "\<exists>limiters. (\<forall>h. limiters h = group_of h cfgs) \<and>
    opt = (\<lambda>cfg. cfg\<lparr>oc_OrderlessOptions := oc_OrderlessOptions cfg @ [wrap_transport (rateLimiterRoundTripper wait limiters URISlugFromContext)]\<rparr>)"
proof -
  obtain limiters where l: "build_groups mk workers cfgs (Map.empty, []) = Inr (limiters, buckets)"
      "opt = (\<lambda>cfg. cfg\<lparr>oc_OrderlessOptions := oc_OrderlessOptions cfg @ [wrap_transport (rateLimiterRoundTripper wait limiters URISlugFromContext)]\<rparr>)"
    using assms by (auto simp: WithRateLimiter_def bind_sum_Inr_iff)
  have "limiters h = group_of h cfgs" for h using build_groups_spec [OF l(1)] by (auto split: option.splits)
  then show ?thesis using l(2) by blast
qed


definition one_group :: "RateLimitByHandlersConfig list" where
  "one_group = [\<lparr>bh_Handlers = [DefaultSlug], bh_Config = \<lparr>rl_Period = 1000000000, rl_Requests = 10, rl_Burst = 1\<rparr>\<rparr>]"


end
