(* ===== verification/Test_Databases.thy ===== *)
theory Test_Databases
  imports Rdb_Client
begin

text \<open>
  The databases of tests (\<open>internal/testtooling/postgres.go\<close>): their names, and their creation and removal through connections to the
  management database.

  The server \<open>'s\<close> and the calls of the library on it are the parameter \<open>pg_lib\<close>; the state holds the databases of the connections that are open. Names are taken to be ASCII
  texts. The fixtures are modelled in the theory of fixtures.
\<close>

section \<open>Names\<close>

definition is_alnum :: "char \<Rightarrow> bool" where
  "is_alnum b \<longleftrightarrow> ascii_lower b \<or> ascii_upper b \<or> is_digit b"

definition sanitize :: "string \<Rightarrow> string" where
  "sanitize name = map (\<lambda>b. if is_alnum b then b else CHR ''_'') name"

text \<open>The name and the counter after the call.\<close>

definition DbName :: "string \<Rightarrow> string \<Rightarrow> 32 word \<Rightarrow> string \<times> 32 word" where
  "DbName dbProject name testDBIdx =
     (let idx = testDBIdx + 1;
          name' = map ascii_ToLower (''db'' @ show_nat (unat idx) @ ''_'' @ dbProject @ ''_'' @ name)
      in (take (min 64 (length name')) (sanitize name'), idx))"

section \<open>Management\<close>

datatype pg_stmt =
    CreateDatabase string
  | DropDatabase string
  | DisableSubscription string
  | DetachSlot string
  | DropSubscription string

record 's pg_world =
  pw_server :: 's
  pw_conns :: "string list"

text \<open>The calls on a connection are given its database. \<open>pg_ParseConfig\<close> gives the connection string of a parsed one.\<close>

record 's pg_lib =
  pg_ParseConfig :: "runes \<Rightarrow> gerr + runes"
  pg_Connect :: "string \<Rightarrow> 's \<Rightarrow> gerr option \<times> 's"
  pg_Exec :: "string \<Rightarrow> pg_stmt \<Rightarrow> 's \<Rightarrow> gerr option \<times> 's"
  pg_Subscriptions :: "string \<Rightarrow> 's \<Rightarrow> gerr + string list"
  pg_Close :: "string \<Rightarrow> 's \<Rightarrow> gerr option \<times> 's"
  pg_text :: "gerr \<Rightarrow> string"

definition managementPostgresDB :: string where "managementPostgresDB = ''postgres''"

text \<open>A connection to a database, what is done on it, and its closing; a failure in between leaves it open.\<close>

definition on_connection ::
    "'s pg_lib \<Rightarrow> string \<Rightarrow> ('s \<Rightarrow> gerr option \<times> 's) \<Rightarrow> 's pg_world \<Rightarrow> gerr option \<times> 's pg_world" where
  "on_connection L database act w =
     (case pg_Connect L database (pw_server w) of
        (Some err, s) \<Rightarrow> (Some err, w\<lparr>pw_server := s\<rparr>)
      | (None, s) \<Rightarrow>
          (case act s of
             (Some err, s') \<Rightarrow> (Some err, \<lparr>pw_server = s', pw_conns = database # pw_conns w\<rparr>)
           | (None, s') \<Rightarrow>
               (case pg_Close L database s' of
                  (Some err, s'') \<Rightarrow> (Some err, \<lparr>pw_server = s'', pw_conns = database # pw_conns w\<rparr>)
                | (None, s'') \<Rightarrow> (None, w\<lparr>pw_server := s''\<rparr>))))"

definition dbPostgresCreate :: "'s pg_lib \<Rightarrow> string \<Rightarrow> 's pg_world \<Rightarrow> gerr option \<times> 's pg_world" where
  "dbPostgresCreate L name = on_connection L managementPostgresDB (pg_Exec L managementPostgresDB (CreateDatabase name))"

definition dbPostgresDrop :: "'s pg_lib \<Rightarrow> string \<Rightarrow> 's pg_world \<Rightarrow> gerr option \<times> 's pg_world" where
  "dbPostgresDrop L name = on_connection L managementPostgresDB (pg_Exec L managementPostgresDB (DropDatabase name))"

definition no_such_subscription :: "string \<Rightarrow> string" where
  "no_such_subscription subname = ''subscription '' @ CHR 0x22 # subname @ CHR 0x22 # '' does not exist (SQLSTATE 42704)''"

fun drop_subscriptions :: "'s pg_lib \<Rightarrow> string \<Rightarrow> string list \<Rightarrow> 's \<Rightarrow> gerr option \<times> 's" where
  "drop_subscriptions L db [] s = (None, s)"
| "drop_subscriptions L db (subname # subs) s =
     (case pg_Exec L db (DisableSubscription subname) s of
        (Some err, s1) \<Rightarrow>
          if has_suffix (pg_text L err) (no_such_subscription subname) then drop_subscriptions L db subs s1 else (Some err, s1)
      | (None, s1) \<Rightarrow>
          (case pg_Exec L db (DetachSlot subname) s1 of
             (Some err, s2) \<Rightarrow> (Some err, s2)
           | (None, s2) \<Rightarrow>
               (case pg_Exec L db (DropSubscription subname) s2 of
                  (Some err, s3) \<Rightarrow> (Some err, s3)
                | (None, s3) \<Rightarrow> drop_subscriptions L db subs s3)))"

definition dbPostgresDropSubscriptions :: "'s pg_lib \<Rightarrow> string \<Rightarrow> 's pg_world \<Rightarrow> gerr option \<times> 's pg_world" where
  "dbPostgresDropSubscriptions L name =
     on_connection L name (\<lambda>s. case pg_Subscriptions L name s of Inl err \<Rightarrow> (Some err, s) | Inr subs \<Rightarrow> drop_subscriptions L name subs s)"

section \<open>Setting a database up\<close>

fun split_on :: "'a \<Rightarrow> 'a list \<Rightarrow> 'a list list" where
  "split_on x [] = [[]]"
| "split_on x (y # ys) = (if y = x then [] # split_on x ys else (case split_on x ys of z # zs \<Rightarrow> (y # z) # zs | [] \<Rightarrow> [[y]]))"

fun join_on :: "'a \<Rightarrow> 'a list list \<Rightarrow> 'a list" where
  "join_on x [] = []"
| "join_on x [ys] = ys"
| "join_on x (ys # zs) = ys @ x # join_on x zs"

abbreviation (input) r_slash :: rune where "r_slash \<equiv> 47"

definition with_database :: "runes \<Rightarrow> runes \<Rightarrow> runes panics" where
  "with_database dsn dbName =
     (let connStrParts = split_on r_slash dsn
      in if length connStrParts \<le> 3 then Inl ''index out of range [3]'' else Inr (join_on r_slash (connStrParts[3 := dbName])))"

definition duplicate_database :: "gerr \<Rightarrow> bool" where
  "duplicate_database err \<longleftrightarrow> errors_As (\<lambda>e. case e of PgErr code _ \<Rightarrow> Some code | _ \<Rightarrow> None) err = Some ''42P04''"

text \<open>The client, and the error of its readiness check, with the states of the server and of the clients.\<close>

definition SetupDBWithName ::
    "'s pg_lib \<Rightarrow> ('d, 'db, 'c, 'v, 'r) rdb_lib \<Rightarrow> ('db \<Rightarrow> gerr option) \<Rightarrow> rdb_Config \<Rightarrow> string \<Rightarrow> 's pg_world \<Rightarrow> ('d, 'db) rdb_world \<Rightarrow>
     (('db rdb_DB option \<times> gerr option) \<times> 's pg_world \<times> ('d, 'db) rdb_world) panics" where
  "SetupDBWithName L R ping cfg dbName w rw =
     bind_sum (with_database (rc_DSN cfg) (lit dbName)) (\<lambda>dsn.
       Inr (case pg_ParseConfig L dsn of
              Inl err \<Rightarrow> ((None, Some err), w, rw)
            | Inr connString \<Rightarrow>
                (case dbPostgresCreate L dbName w of
                   (Some err, w') \<Rightarrow>
                     if \<not> duplicate_database err then ((None, Some err), w', rw)
                     else (case rdb_Ready R ping (rdb_New (cfg\<lparr>rc_DSN := connString\<rparr>)) rw of (e, db, rw') \<Rightarrow> ((Some db, e), w', rw'))
                 | (None, w') \<Rightarrow>
                     (case rdb_Ready R ping (rdb_New (cfg\<lparr>rc_DSN := connString\<rparr>)) rw of (e, db, rw') \<Rightarrow> ((Some db, e), w', rw')))))"

definition teardown ::
    "'s pg_lib \<Rightarrow> ('d, 'db, 'c, 'v, 'r) rdb_lib \<Rightarrow> string \<Rightarrow> 'db rdb_DB \<Rightarrow> 's pg_world \<Rightarrow> ('d, 'db) rdb_world \<Rightarrow>
     (gerr option \<times> 's pg_world \<times> ('d, 'db) rdb_world) panics" where
  "teardown L R dbName db w rw =
     bind_sum (rdb_Close R db rw) (\<lambda>(err, rw').
       Inr (case err of
              Some e \<Rightarrow> (Some e, w, rw')
            | None \<Rightarrow>
                (case dbPostgresDropSubscriptions L dbName w of
                   (Some e, w') \<Rightarrow> (Some e, w', rw')
                 | (None, w') \<Rightarrow> (case dbPostgresDrop L dbName w' of (e, w'') \<Rightarrow> (e, w'', rw')))))"

definition getLastMigrationHash :: "(string \<Rightarrow> gerr + 'f) \<Rightarrow> ('f \<Rightarrow> gerr + string) \<Rightarrow> string \<Rightarrow> gerr + string" where
  "getLastMigrationHash os_Open decode path =
     bind_sum (os_Open path) (\<lambda>f. bind_sum (decode f) (\<lambda>hash. Inr (map ascii_ToLower hash)))"

section \<open>What holds of test databases\<close>

lemma show_nat_length: "n < 10 ^ Suc k \<Longrightarrow> length (show_nat n) \<le> Suc k"
proof (induction k arbitrary: n)
  case (Suc k)
  then show ?case by (cases "n < 10") (auto simp: show_nat.simps [of n] div_less_iff_less_mult)
qed (simp add: show_nat.simps)

lemma on_connection_conns:
  "on_connection L db act w = (err, w') \<Longrightarrow> (err = None \<longrightarrow> pw_conns w' = pw_conns w) \<and> pw_conns w' \<in> {pw_conns w, db # pw_conns w}"
  by (auto simp: on_connection_def split: prod.splits option.splits)

lemma digits_kept: "list_all is_digit ds \<Longrightarrow> sanitize (map ascii_ToLower ds) = ds"
proof (induction ds)
  case (Cons d ds)
  have "\<not> ascii_upper d" using Cons.prems by (auto simp: is_digit_def ascii_upper_def)
  then show ?case using Cons by (simp add: sanitize_def is_alnum_def ascii_ToLower_def)
qed (simp add: sanitize_def)

lemma DbName_shape: "\<exists>rest. fst (DbName p n i) = ''db'' @ show_nat (unat (i + 1)) @ ''_'' @ rest"
proof -
  let ?d = "show_nat (unat (i + 1))" and ?rest = "sanitize (map ascii_ToLower (p @ ''_'' @ n))"
  have "unat (i + 1) < 2 ^ LENGTH(32)" by (rule unsigned_less)
  then have "unat (i + 1) < 10 ^ Suc 9" by simp
  then have d: "length ?d \<le> 10" using show_nat_length [of "unat (i + 1)" 9] by simp
  have name: "sanitize (map ascii_ToLower (''db'' @ ?d @ ''_'' @ p @ ''_'' @ n)) = ''db'' @ ?d @ ''_'' @ ?rest"
    using digits_kept [OF show_nat_digits, of "unat (i + 1)"]
    by (simp add: sanitize_def is_alnum_def ascii_ToLower_def ascii_upper_def ascii_lower_def is_digit_def)
  have "3 + length ?d \<le> min 64 (length (map ascii_ToLower (''db'' @ ?d @ ''_'' @ p @ ''_'' @ n)))" using d by simp
  then obtain k where k: "min 64 (length (map ascii_ToLower (''db'' @ ?d @ ''_'' @ p @ ''_'' @ n))) = (3 + length ?d) + k" using le_Suc_ex by blast
  show ?thesis unfolding DbName_def Let_def fst_conv name k by (simp add: take_Cons')
qed

lemma DbName_number: "parse_digits (takeWhile is_digit (drop 2 (fst (DbName p n i)))) = unat (i + 1)"
proof -
  obtain rest where r: "fst (DbName p n i) = ''db'' @ show_nat (unat (i + 1)) @ ''_'' @ rest" using DbName_shape [of p n i] by blast
  have "\<not> is_digit (CHR ''_'')" by (simp add: is_digit_def)
  then have "takeWhile is_digit (show_nat (unat (i + 1)) @ ''_'' @ rest) = show_nat (unat (i + 1))"
    using show_nat_digits [of "unat (i + 1)"] by (simp add: list_all_iff)
  then show ?thesis by (simp add: r parse_show_nat)
qed

text \<open>Names of test databases are letters, digits and underscores, at most 64 of them, and calls at different values of the counter give different names, whatever the project and the
  test.\<close>

theorem test_names_distinct:
  "(i \<noteq> j \<longrightarrow> fst (DbName p n i) \<noteq> fst (DbName p' n' j)) \<and> length (fst (DbName p n i)) \<le> 64 \<and>
   (\<forall>c \<in> set (fst (DbName p n i)). is_alnum c \<or> c = CHR ''_'')"
proof (intro conjI impI)
  assume "i \<noteq> j"
  then have "unat (i + 1) \<noteq> unat (j + 1)" unfolding word_unat_eq_iff [symmetric] by simp
  then show "fst (DbName p n i) \<noteq> fst (DbName p' n' j)" using DbName_number [of p n i] DbName_number [of p' n' j] by auto
qed (auto simp: DbName_def Let_def sanitize_def dest: in_set_takeD)

theorem test_names_distinct_witness: "fst (DbName ''public'' ''TestA'' 0) \<noteq> fst (DbName ''public'' ''TestA'' 10)"
  using test_names_distinct [of 0 10] by simp

lemma teardown_conns:
  assumes "teardown L R dbName db w rw = Inr (None, w', rw')"
  shows "pw_conns w' = pw_conns w"
proof -
  obtain w1 where w1: "dbPostgresDropSubscriptions L dbName w = (None, w1)" "dbPostgresDrop L dbName w1 = (None, w')"
    using assms by (auto simp: teardown_def bind_sum_Inr_iff split: option.splits prod.splits)
  from w1 show ?thesis
    using on_connection_conns [OF w1(1) [unfolded dbPostgresDropSubscriptions_def]] on_connection_conns [OF w1(2) [unfolded dbPostgresDrop_def]] by simp
qed

text \<open>A removal that succeeds leaves no connection behind. Setting up a database that exists already succeeds, as for reusable databases, but leaves a connection to
  the management database open each time.\<close>

theorem test_connections:
  "(teardown L R dbName db w rw = Inr (None, w', rw') \<longrightarrow> pw_conns w' = pw_conns w) \<and>
   (\<forall>dsn cs s s' err. with_database (rc_DSN cfg) (lit dbName) = Inr dsn \<longrightarrow> pg_ParseConfig L dsn = Inr cs \<longrightarrow>
      pg_Connect L managementPostgresDB (pw_server w) = (None, s) \<longrightarrow>
      pg_Exec L managementPostgresDB (CreateDatabase dbName) s = (Some err, s') \<longrightarrow> duplicate_database err \<longrightarrow>
      (\<exists>db e rw'. SetupDBWithName L R ping cfg dbName w rw = Inr ((Some db, e), \<lparr>pw_server = s', pw_conns = managementPostgresDB # pw_conns w\<rparr>, rw')))"
proof (intro conjI impI allI)
  assume "teardown L R dbName db w rw = Inr (None, w', rw')"
  then show "pw_conns w' = pw_conns w" by (rule teardown_conns)
next
  fix dsn cs s s' err
  assume a: "with_database (rc_DSN cfg) (lit dbName) = Inr dsn" "pg_ParseConfig L dsn = Inr cs" "pg_Connect L managementPostgresDB (pw_server w) = (None, s)"
    "pg_Exec L managementPostgresDB (CreateDatabase dbName) s = (Some err, s')" "duplicate_database err"
  then have "dbPostgresCreate L dbName w = (Some err, \<lparr>pw_server = s', pw_conns = managementPostgresDB # pw_conns w\<rparr>)"
    by (simp add: dbPostgresCreate_def on_connection_def)
  then show "\<exists>db e rw'. SetupDBWithName L R ping cfg dbName w rw = Inr ((Some db, e), \<lparr>pw_server = s', pw_conns = managementPostgresDB # pw_conns w\<rparr>, rw')"
    using a by (auto simp: SetupDBWithName_def split: prod.split)
qed

text \<open>A server whose databases all exist.\<close>

definition full_server :: "nat pg_lib" where
  "full_server =
     \<lparr>pg_ParseConfig = Inr, pg_Connect = (\<lambda>_ s. (None, s)), pg_Exec = (\<lambda>_ st s. (case st of CreateDatabase _ \<Rightarrow> Some (PgErr ''42P04'' ''exists'') | _ \<Rightarrow> None, s + 1)),
      pg_Subscriptions = (\<lambda>_ _. Inr []), pg_Close = (\<lambda>_ s. (None, s)), pg_text = (\<lambda>_. [])\<rparr>"

theorem test_connections_witness:
  "\<exists>db e rw'. SetupDBWithName full_server sample_rdb_lib (\<lambda>_. None) rdb_DefaultConfig ''t'' \<lparr>pw_server = 0, pw_conns = []\<rparr> no_world =
     Inr ((Some db, e), \<lparr>pw_server = 1, pw_conns = [managementPostgresDB]\<rparr>, rw')"
proof -
  have d: "\<exists>dsn. with_database (rc_DSN rdb_DefaultConfig) (lit ''t'') = Inr dsn"
    by (simp add: with_database_def rdb_DefaultConfig_def lit_def)
  have dup: "duplicate_database (PgErr ''42P04'' ''exists'')" by (simp add: duplicate_database_def errors_As.simps)
  obtain dsn where "with_database (rc_DSN rdb_DefaultConfig) (lit ''t'') = Inr dsn" using d by blast
  from test_connections [of full_server sample_rdb_lib "''t''" _ "\<lparr>pw_server = 0, pw_conns = []\<rparr>" no_world _ _ rdb_DefaultConfig "\<lambda>_. None", THEN conjunct2, rule_format, OF this]
  show ?thesis using dup by (simp add: full_server_def)
qed

end
