(* ===== verification/Job_Runs.thy ===== *)
theory Job_Runs
  imports Schedule Logging
begin

text \<open>
  Whole runs of the scheduler (\<open>internal/scheduletooling\<close>): the construction of jobs and schedulers, the execution of a job with its latch and middleware, the adapter
  of the logger of package go-quartz, the job that does nothing (\<open>noopjob\<close>), and the life of a scheduler as a sequence of calls and ticks.

  As in \<open>Schedule\<close> a job is known to the scheduler by its key. The formatting of texts and the methods of triggers are arguments.
\<close>

section \<open>Jobs\<close>

text \<open>\<open>ij_exec\<close> is the function of the job, run by the middleware.\<close>

record 'w InProcessJob =
  ij_close :: "('w \<Rightarrow> gerr option \<times> 'w) option"
  ij_maxRunningCount :: int
  ij_trigger :: trigger
  ij_key :: string
  ij_name :: string
  ij_exec :: "'w \<Rightarrow> exec_end \<times> 'w"
  ij_getFreshConfig :: "unit \<Rightarrow> gerr + job_config"

definition NewConcurrentInProcessJobWithCloser ::
    "('w \<Rightarrow> exec_end \<times> 'w) \<Rightarrow> ('w \<Rightarrow> gerr option \<times> 'w) option \<Rightarrow> job_config \<Rightarrow> (unit \<Rightarrow> gerr + job_config) \<Rightarrow> int \<Rightarrow> 'w InProcessJob" where
  "NewConcurrentInProcessJobWithCloser execFunc closeFunc cfg getFreshConfig maxRunning =
     \<lparr>ij_close = closeFunc, ij_maxRunningCount = maxRunning, ij_trigger = GetTriggerValidated cfg, ij_key = UniqueName cfg,
      ij_name = UniqueName cfg, ij_exec = execFunc, ij_getFreshConfig = getFreshConfig\<rparr>"

definition NewInProcessJob ::
    "('w \<Rightarrow> exec_end \<times> 'w) \<Rightarrow> job_config \<Rightarrow> (unit \<Rightarrow> gerr + job_config) \<Rightarrow> 'w InProcessJob" where
  "NewInProcessJob execFunc cfg getFreshConfig = NewConcurrentInProcessJobWithCloser execFunc None cfg getFreshConfig 1"

definition NewConcurrentInProcessJob ::
    "('w \<Rightarrow> exec_end \<times> 'w) \<Rightarrow> job_config \<Rightarrow> (unit \<Rightarrow> gerr + job_config) \<Rightarrow> int \<Rightarrow> 'w InProcessJob" where
  "NewConcurrentInProcessJob execFunc cfg getFreshConfig maxRunning =
     NewConcurrentInProcessJobWithCloser execFunc None cfg getFreshConfig maxRunning"

definition Job_Close :: "'w InProcessJob \<Rightarrow> 'w \<Rightarrow> gerr option \<times> 'w" where
  "Job_Close j w = (case ij_close j of None \<Rightarrow> (None, w) | Some f \<Rightarrow> f w)"

definition Job_Description :: "'w InProcessJob \<Rightarrow> string" where "Job_Description j = ij_name j"
definition Job_Key :: "'w InProcessJob \<Rightarrow> string" where "Job_Key j = ij_key j"

definition Job_NextFireTime :: "(trigger \<Rightarrow> int \<Rightarrow> gerr + int) \<Rightarrow> 'w InProcessJob \<Rightarrow> int \<Rightarrow> gerr + int" where
  "Job_NextFireTime fire j prev = fire (ij_trigger j) prev"

text \<open>The same as that of the middleware, as a method of the job.\<close>

definition Job_toSemanticErr :: "gerr \<Rightarrow> gerr" where
  "Job_toSemanticErr err =
     (case AsSemanticError (Some err) of None \<Rightarrow> WrapWithInternal err ''internal error'' [] | Some e \<Rightarrow> e)"

definition jobLogKeys :: "string \<Rightarrow> field list \<Rightarrow> field list" where
  "jobLogKeys description fs = fs @ [\<lparr>f_key = ''job_description'', f_value = StringType description\<rparr>]"

text \<open>\<open>Execute\<close> without others in between: the running count, the metrics and what the job changes. The deferred function recovers; no panic leaves
  \<open>Execute\<close>, as the middleware has recovered before.\<close>

definition skip_error :: "int \<Rightarrow> gerr" where
  "skip_error maxRunning =
     WithFieldsErr (ErrNew ''job skipped because max concurrent running jobs reached'') [\<lparr>f_key = ''max_running'', f_value = RenderedType (show_int maxRunning)\<rparr>]"

definition Job_Execute ::
    "'w InProcessJob \<Rightarrow> go_duration \<Rightarrow> int \<times> job_metrics \<times> 'w \<Rightarrow> gerr option \<times> int \<times> job_metrics \<times> 'w" where
  "Job_Execute j duration st =
     (case st of (running, m, w) \<Rightarrow>
        case take_latch (ij_maxRunningCount j) running of
          (False, running') \<Rightarrow> (Some (skip_error (ij_maxRunningCount j)), running', SkippedJob m, w)
        | (True, running') \<Rightarrow>
            (case ij_exec j w of
               (result, w') \<Rightarrow>
                 (case Middleware_Execute result duration m of
                    (m', err, _) \<Rightarrow> (err, fst (release_latch running'), m', w'))))"

subsection \<open>The job that does nothing\<close>

definition Noop_Execute :: "gerr option" where "Noop_Execute = None"
definition Noop_Close :: "gerr option" where "Noop_Close = None"
definition Noop_Description :: string where "Noop_Description = ''noop job''"

definition Noop_NextFireTime :: "int \<Rightarrow> int \<times> gerr option" where
  "Noop_NextFireTime prev = (prev, Some (ErrNew ''noop job has no next fire time''))"

definition Noop_GetConfig :: "gerr + job_config" where
  "Noop_GetConfig = Inl (ErrNew ''noop job has no config'')"

definition noopJob_key :: string where "noopJob_key = ''noop''"

section \<open>The logger of the library\<close>

text \<open>What is logged, by level; \<open>Trace\<close> and \<open>Tracef\<close> do nothing. \<open>shown\<close> is \<open>fmt.Sprintf("%s", msg)\<close> and \<open>formatted\<close> the text of the format.\<close>

definition quartz_Trace :: "'a \<Rightarrow> (level \<times> string) list" where "quartz_Trace msg = []"
definition quartz_Tracef :: "string \<Rightarrow> 'a list \<Rightarrow> (level \<times> string) list" where "quartz_Tracef fmt args = []"
definition quartz_Debug :: "('a \<Rightarrow> string) \<Rightarrow> 'a \<Rightarrow> (level \<times> string) list" where "quartz_Debug shown msg = [(DebugLevel, shown msg)]"
definition quartz_Debugf :: "(string \<Rightarrow> 'a list \<Rightarrow> string) \<Rightarrow> string \<Rightarrow> 'a list \<Rightarrow> (level \<times> string) list" where
  "quartz_Debugf formatted fmt args = [(DebugLevel, formatted fmt args)]"
definition quartz_Info :: "('a \<Rightarrow> string) \<Rightarrow> 'a \<Rightarrow> (level \<times> string) list" where "quartz_Info shown msg = [(InfoLevel, shown msg)]"
definition quartz_Infof :: "(string \<Rightarrow> 'a list \<Rightarrow> string) \<Rightarrow> string \<Rightarrow> 'a list \<Rightarrow> (level \<times> string) list" where
  "quartz_Infof formatted fmt args = [(InfoLevel, formatted fmt args)]"
definition quartz_Warn :: "('a \<Rightarrow> string) \<Rightarrow> 'a \<Rightarrow> (level \<times> string) list" where "quartz_Warn shown msg = [(WarnLevel, shown msg)]"
definition quartz_Warnf :: "(string \<Rightarrow> 'a list \<Rightarrow> string) \<Rightarrow> string \<Rightarrow> 'a list \<Rightarrow> (level \<times> string) list" where
  "quartz_Warnf formatted fmt args = [(WarnLevel, formatted fmt args)]"
definition quartz_Error :: "('a \<Rightarrow> string) \<Rightarrow> 'a \<Rightarrow> (level \<times> string) list" where "quartz_Error shown msg = [(ErrorLevel, shown msg)]"
definition quartz_Errorf :: "(string \<Rightarrow> 'a list \<Rightarrow> string) \<Rightarrow> string \<Rightarrow> 'a list \<Rightarrow> (level \<times> string) list" where
  "quartz_Errorf formatted fmt args = [(WarnLevel, formatted fmt args)]"

text \<open>\<open>levelError\<close> is the level of errors in the library.\<close>

definition quartz_Enabled :: "int \<Rightarrow> int \<Rightarrow> bool" where "quartz_Enabled levelError lvl \<longleftrightarrow> lvl \<ge> levelError"

section \<open>The life of a scheduler\<close>

definition NewScheduler :: "'q \<Rightarrow> 'q scheduler" where
  "NewScheduler q =
     \<lparr>collectedJobsToSchedule = [], s_jobs = [], s_triggers = Map.empty, s_quartz = q, isRunning = False, oldConfigs = Map.empty, s_errors = []\<rparr>"

definition Scheduler_Stop :: "('q \<Rightarrow> 'q) \<Rightarrow> 'q scheduler \<Rightarrow> 'q scheduler" where
  "Scheduler_Stop stop s = s\<lparr>s_quartz := stop (s_quartz s)\<rparr>"

text \<open>What \<open>updateSchedules\<close> does first: the configurations of the jobs known so far are remembered; \<open>Inl\<close> is the exit of the process by \<open>logger.Fatal\<close>.\<close>

fun remember_configs :: "(string \<Rightarrow> gerr + job_config) \<Rightarrow> string list \<Rightarrow> (string \<rightharpoonup> job_config) \<Rightarrow> gerr + (string \<rightharpoonup> job_config)" where
  "remember_configs got [] old = Inr old"
| "remember_configs got (k # ks) old =
     (case got k of Inl err \<Rightarrow> Inl err | Inr cfg \<Rightarrow> remember_configs got ks (old(k \<mapsto> cfg)))"

text \<open>\<open>Start\<close> with this first part written out.\<close>

definition Scheduler_Start_got :: "'q quartz \<Rightarrow> (string \<Rightarrow> gerr + job_config) \<Rightarrow> 'q scheduler \<Rightarrow> gerr + 'q scheduler" where
  "Scheduler_Start_got qz got s =
     (if isRunning s then Inr s
      else bind_sum (remember_configs got (s_jobs s) Map.empty) (\<lambda>old.
        Inr (scheduleCollectedJobs qz (s\<lparr>isRunning := True, oldConfigs := old\<rparr>))))"

text \<open>The loop of the goroutine: a tick for each time the timer fires, until the context is done.\<close>

datatype update_event = TimerFired "string \<Rightarrow> gerr + job_config" | ContextDone

fun rescheduler :: "'q quartz \<Rightarrow> update_event list \<Rightarrow> 'q scheduler \<Rightarrow> 'q scheduler" where
  "rescheduler qz [] s = s"
| "rescheduler qz (ContextDone # es) s = s"
| "rescheduler qz (TimerFired got # es) s = rescheduler qz es (update_tick qz got s)"

datatype sched_op =
    OpAdd "gerr + job_config" string
  | OpStart "string \<Rightarrow> gerr + job_config"
  | OpTick "string \<Rightarrow> gerr + job_config"

text \<open>Ticks begin with the start.\<close>

fun run_op :: "'q quartz \<Rightarrow> sched_op \<Rightarrow> 'q scheduler \<Rightarrow> gerr + 'q scheduler" where
  "run_op qz (OpAdd got key) s = Inr (fst (Scheduler_Add got key s))"
| "run_op qz (OpStart got) s = Scheduler_Start_got qz got s"
| "run_op qz (OpTick got) s = Inr (if isRunning s then rescheduler qz [TimerFired got] s else s)"

fun run_ops :: "'q quartz \<Rightarrow> sched_op list \<Rightarrow> 'q scheduler \<Rightarrow> gerr + 'q scheduler" where
  "run_ops qz [] s = Inr s"
| "run_ops qz (a # ops) s = bind_sum (run_op qz a s) (run_ops qz ops)"

text \<open>The jobs that are added enabled before the first start.\<close>

fun added_enabled :: "sched_op list \<Rightarrow> string list" where
  "added_enabled [] = []"
| "added_enabled (OpStart _ # ops) = []"
| "added_enabled (OpTick _ # ops) = added_enabled ops"
| "added_enabled (OpAdd got key # ops) =
     (case got of Inr cfg \<Rightarrow> if jc_Enabled cfg then key # added_enabled ops else added_enabled ops | Inl _ \<Rightarrow> added_enabled ops)"

definition has_started :: "sched_op list \<Rightarrow> bool" where
  "has_started ops \<longleftrightarrow> (\<exists>a \<in> set ops. case a of OpStart _ \<Rightarrow> True | _ \<Rightarrow> False)"

section \<open>What holds in every run\<close>

lemma stopScheduling_frame [frame_simps]:
  "isRunning (stopScheduling qz key s) = isRunning s"
  "collectedJobsToSchedule (stopScheduling qz key s) = collectedJobsToSchedule s"
  by (simp_all add: stopScheduling_def split: prod.split option.split)

lemma scheduleSilently_frame [frame_simps]:
  "isRunning (scheduleSilently qz key s) = isRunning s"
  "collectedJobsToSchedule (scheduleSilently qz key s) = collectedJobsToSchedule s"
  by (simp_all add: scheduleSilently_def Let_def frame_simps split: prod.split option.split)

lemma scheduleSilently_jobs:
  assumes "quartz_laws qz sch"
  shows "set (s_jobs (scheduleSilently qz key s)) = insert key (set (s_jobs s))"
  using stopScheduling_effect(2) [OF assms, of key s]
  by (auto simp: scheduleSilently_def Let_def split: prod.split option.split)

lemma update_job_frame [frame_simps]:
  "isRunning (update_job qz got key s) = isRunning s"
  "collectedJobsToSchedule (update_job qz got key s) = collectedJobsToSchedule s"
  by (simp_all add: update_job_def apply_config_def Let_def SetTrigger_def frame_simps split: sum.split option.split)

lemma fold_update_frame [frame_simps]:
  "isRunning (fold (update_job qz got) keys s) = isRunning s"
  "collectedJobsToSchedule (fold (update_job qz got) keys s) = collectedJobsToSchedule s"
  by (induction keys arbitrary: s) (simp_all add: frame_simps)

lemma update_job_schedules:
  assumes "quartz_laws qz sch"
  shows "sch (s_quartz (update_job qz got key s)) k \<Longrightarrow> sch (s_quartz s) k \<or> k = key"
  using stopScheduling_effect(1) [OF assms] scheduleSilently_effect(1) [OF assms]
  by (auto simp: update_job_def apply_config_def Let_def SetTrigger_def split: sum.splits option.splits if_splits)

lemma fold_update_schedules:
  assumes "quartz_laws qz sch"
  shows "sch (s_quartz (fold (update_job qz got) keys s)) k \<Longrightarrow> sch (s_quartz s) k \<or> k \<in> set keys"
proof (induction keys arbitrary: s)
  case (Cons key keys)
  then show ?case using update_job_schedules [OF assms, of got key s k] by auto
qed simp

lemma fold_schedule:
  assumes "quartz_laws qz sch"
  shows "(sch (s_quartz (fold (scheduleSilently qz) keys s)) k \<longleftrightarrow> sch (s_quartz s) k \<or> k \<in> set keys) \<and>
    oldConfigs (fold (scheduleSilently qz) keys s) = oldConfigs s \<and>
    set (s_jobs (fold (scheduleSilently qz) keys s)) = set (s_jobs s) \<union> set keys \<and>
    isRunning (fold (scheduleSilently qz) keys s) = isRunning s \<and>
    collectedJobsToSchedule (fold (scheduleSilently qz) keys s) = collectedJobsToSchedule s"
proof (induction keys arbitrary: s)
  case (Cons key keys)
  then show ?case
    using scheduleSilently_effect(1,2) [OF assms, of key s] scheduleSilently_jobs [OF assms, of key s] by (auto simp: frame_simps)
qed simp

text \<open>Before the start nothing is scheduled or remembered; after it the jobs are the collected ones, and only they are scheduled.\<close>

definition life_inv :: "('q \<Rightarrow> string \<Rightarrow> bool) \<Rightarrow> 'q scheduler \<Rightarrow> bool" where
  "life_inv sch s \<longleftrightarrow>
     (if isRunning s then set (s_jobs s) = set (collectedJobsToSchedule s)
      else s_jobs s = [] \<and> oldConfigs s = Map.empty) \<and>
     sched_inv sch s \<and> (\<forall>k. sch (s_quartz s) k \<longrightarrow> k \<in> set (s_jobs s))"

definition is_start :: "sched_op \<Rightarrow> bool" where
  "is_start a \<longleftrightarrow> (case a of OpStart _ \<Rightarrow> True | _ \<Rightarrow> False)"

lemma added_enabled_Cons: "added_enabled (a # ops) = (if is_start a then [] else added_enabled [a] @ added_enabled ops)"
  by (cases a) (auto simp: is_start_def split: sum.split)

lemma tick_inv:
  assumes "quartz_laws qz sch" and "life_inv sch s" and "isRunning s"
  shows "life_inv sch (update_tick qz got s)"
  using fold_update_job [OF assms(1), of s "s_jobs s" got] fold_update_schedules [OF assms(1), of got "s_jobs s" s] assms(2,3)
  by (auto simp: life_inv_def update_tick_def frame_simps)

lemma run_op_inv:
  assumes "quartz_laws qz sch" and "life_inv sch s"
  shows "\<exists>s'. run_op qz a s = Inr s' \<and> life_inv sch s' \<and> (isRunning s' \<longleftrightarrow> isRunning s \<or> is_start a) \<and>
    collectedJobsToSchedule s' = collectedJobsToSchedule s @ (if isRunning s then [] else added_enabled [a])"
proof (cases a)
  case (OpAdd got key)
  then show ?thesis
    using assms(2) by (auto simp: Scheduler_Add_def life_inv_def sched_inv_def is_start_def split: sum.splits)
next
  case (OpStart got)
  show ?thesis
  proof (cases "isRunning s")
    case True
    then show ?thesis using assms(2) by (simp add: OpStart Scheduler_Start_got_def is_start_def)
  next
    case False
    then have jobs: "s_jobs s = []" "\<forall>k. \<not> sch (s_quartz s) k" using assms(2) by (auto simp: life_inv_def)
    let ?s = "s\<lparr>isRunning := True, oldConfigs := Map.empty\<rparr>"
    have "life_inv sch (scheduleCollectedJobs qz ?s) \<and> isRunning (scheduleCollectedJobs qz ?s) \<and>
        collectedJobsToSchedule (scheduleCollectedJobs qz ?s) = collectedJobsToSchedule s"
      using fold_schedule [OF assms(1), of "collectedJobsToSchedule s" ?s] jobs
      by (simp add: scheduleCollectedJobs_def life_inv_def sched_inv_def)
    then show ?thesis using False jobs(1) by (simp add: OpStart Scheduler_Start_got_def is_start_def)
  qed
next
  case (OpTick got)
  then show ?thesis
    using assms tick_inv [OF assms, of got] by (auto simp: is_start_def update_tick_def frame_simps)
qed

lemma run_ops_inv:
  assumes "quartz_laws qz sch" and "life_inv sch s"
  shows "\<exists>s'. run_ops qz ops s = Inr s' \<and> life_inv sch s' \<and> (isRunning s' \<longleftrightarrow> isRunning s \<or> (\<exists>a \<in> set ops. is_start a)) \<and>
    collectedJobsToSchedule s' = collectedJobsToSchedule s @ (if isRunning s then [] else added_enabled ops)"
  using assms(2)
proof (induction ops arbitrary: s)
  case (Cons a ops)
  obtain s1 where s1: "run_op qz a s = Inr s1" "life_inv sch s1" "isRunning s1 \<longleftrightarrow> isRunning s \<or> is_start a"
      "collectedJobsToSchedule s1 = collectedJobsToSchedule s @ (if isRunning s then [] else added_enabled [a])"
    using run_op_inv [OF assms(1) Cons.prems, of a] by (elim exE conjE) (rule that)
  have "added_enabled [a] = []" if "is_start a" using that by (cases a) (simp_all add: is_start_def)
  then show ?case
    using s1 Cons.IH [OF s1(2)] by (auto simp: added_enabled_Cons [of a ops])
qed simp

lemma run_ops_append: "run_ops qz (xs @ ys) s = bind_sum (run_ops qz xs s) (run_ops qz ys)"
proof (induction xs arbitrary: s)
  case (Cons a xs)
  then show ?case by (cases "run_op qz a s") simp_all
qed simp

text \<open>C29: In every run of a scheduler, however calls and ticks are ordered, the process does not exit, and after a tick exactly those jobs are scheduled that were added enabled
  before the start and whose configuration is now read and enabled. A job that is disabled when it is added is never scheduled, whatever its later configurations.\<close>

theorem scheduled_exactly:
  assumes "quartz_laws qz sch" and "\<forall>k. \<not> sch q k" and "has_started ops"
  shows "\<exists>s. run_ops qz (ops @ [OpTick got]) (NewScheduler q) = Inr s \<and> set (s_jobs s) = set (added_enabled ops) \<and>
    (\<forall>k. sch (s_quartz s) k \<longleftrightarrow> k \<in> set (added_enabled ops) \<and> (\<exists>cfg. got k = Inr cfg \<and> jc_Enabled cfg))"
proof -
  have "life_inv sch (NewScheduler q)" using assms(2) by (simp add: life_inv_def sched_inv_def NewScheduler_def)
  from run_ops_inv [OF assms(1) this, of ops] obtain s1 where s1: "run_ops qz ops (NewScheduler q) = Inr s1" "life_inv sch s1"
      "isRunning s1" "collectedJobsToSchedule s1 = added_enabled ops"
    using assms(3) by (auto simp: NewScheduler_def has_started_def is_start_def)
  let ?s = "update_tick qz got s1"
  have jobs: "set (s_jobs s1) = set (added_enabled ops)" using s1(2-4) by (simp add: life_inv_def)
  have tick: "sched_inv sch ?s" "s_jobs ?s = s_jobs s1"
      "oldConfigs ?s = (\<lambda>k. if k \<in> set (s_jobs s1) then Some (case got k of Inl _ \<Rightarrow> zero_config | Inr c \<Rightarrow> c) else oldConfigs s1 k)"
    using fold_update_job [OF assms(1), of s1 "s_jobs s1" got] s1(2) by (simp_all add: update_tick_def life_inv_def)
  have "sch (s_quartz ?s) k \<longrightarrow> k \<in> set (added_enabled ops)" for k
    using tick_inv [OF assms(1) s1(2,3), of got] tick(2) jobs by (auto simp: life_inv_def)
  moreover have "sch (s_quartz ?s) k \<longleftrightarrow> (\<exists>cfg. got k = Inr cfg \<and> jc_Enabled cfg)" if "k \<in> set (added_enabled ops)" for k
    using tick(1,3) that jobs by (cases "got k") (simp_all add: sched_inv_def zero_config_def)
  ultimately show ?thesis using s1(1,3) tick(2) jobs by (auto simp: run_ops_append)
qed

definition sample_ops :: "sched_op list" where
  "sample_ops = [OpAdd (Inr zero_config) ''off'', OpAdd (Inr (zero_config\<lparr>jc_Enabled := True\<rparr>)) ''on'', OpStart (\<lambda>_. Inr zero_config)]"

theorem scheduled_exactly_witness:
  "\<exists>s. run_ops map_quartz (sample_ops @ [OpTick (\<lambda>_. Inr (zero_config\<lparr>jc_Enabled := True\<rparr>))]) (NewScheduler []) = Inr s \<and>
     set (s_quartz s) = {''on''}"
proof -
  have "added_enabled sample_ops = [''on'']" by (simp add: sample_ops_def zero_config_def)
  then show ?thesis
    using scheduled_exactly [OF map_quartz_laws, of "[]" sample_ops "\<lambda>_. Inr (zero_config\<lparr>jc_Enabled := True\<rparr>)"]
    by (auto simp: has_started_def sample_ops_def)
qed

text \<open>An execution gives the latch back however the job ends, and a job that is run at its limit changes nothing but the count of skipped runs.\<close>

theorem Job_Execute_latch:
  assumes "0 \<le> running" and "Job_Execute j d (running, m, w) = (err, running', m', w')"
  shows "running' = running \<and>
    (if running < ij_maxRunningCount j then job_runs m' = Suc (job_runs m) \<and> w' = snd (ij_exec j w)
     else err = Some (skip_error (ij_maxRunningCount j)) \<and> m' = SkippedJob m \<and> w' = w)"
  using assms
  by (auto simp: Job_Execute_def take_latch_def release_latch_def Middleware_Execute_def JobStarted_def JobStarted_finished_def Let_def
      split: prod.splits if_splits exec_end.splits)

theorem Job_Execute_latch_witness:
  "fst (snd (Job_Execute (NewInProcessJob (\<lambda>w. (ExecPanicked (PanicOther ''boom''), Suc w)) zero_config (ConstantConfig zero_config)) 5
     (0, \<lparr>jobs_running = 0, job_runs = 0, job_status = (\<lambda>_. 0), job_skips = 0\<rparr>, 3))) = 0"
proof -
  let ?r = "Job_Execute (NewInProcessJob (\<lambda>w. (ExecPanicked (PanicOther ''boom''), Suc w)) zero_config (ConstantConfig zero_config)) 5
     (0, \<lparr>jobs_running = 0, job_runs = 0, job_status = (\<lambda>_. 0), job_skips = 0\<rparr>, 3)"
  obtain err running' m' w' where "?r = (err, running', m', w')" by (metis surj_pair)
  with Job_Execute_latch [OF order_refl this] show ?thesis by simp
qed

end
