(* ===== verification/Url.thy ===== *)
theory Url
  imports Snake_Case "HOL-Library.Char_ord" "HOL-Library.List_Lexorder"
begin

text \<open>
  URLs: what the repository uses of package \<open>net/url\<close>, and the URI form of connection strings (\<open>ConnectionURI\<close> of \<open>internal/sqltooling/conn.go\<close>).

  Texts are bytes. The functions of the package are written as its sources have them: escaping by mode, parsing of a URL with its authority and its path, printing, and the
  encoding of queries. A failure is the text of its error.
\<close>

section \<open>Escaping\<close>

datatype encoding = encodePath | encodeHost | encodeZone | encodeUserPassword | encodeQueryComponent

definition url_alnum :: "char \<Rightarrow> bool" where
  "url_alnum c \<longleftrightarrow> ascii_lower c \<or> ascii_upper c \<or> is_digit c"

definition shouldEscape :: "char \<Rightarrow> encoding \<Rightarrow> bool" where
  "shouldEscape c mode =
     (if url_alnum c then False
      else if (mode = encodeHost \<or> mode = encodeZone) \<and> c \<in> set ''!$&'' \<union> {CHR 0x27} \<union> set ''()*+,;=:[]<>'' \<union> {CHR 0x22} then False
      else if c \<in> set ''-_.~'' then False
      else if c \<in> set ''$&+,/:;=?@'' then
        (case mode of
           encodePath \<Rightarrow> c = CHR ''?''
         | encodeUserPassword \<Rightarrow> c \<in> set ''@/?:''
         | encodeQueryComponent \<Rightarrow> True
         | _ \<Rightarrow> True)
      else True)"

definition upperhex :: "nat \<Rightarrow> char" where
  "upperhex n = (if n < 10 then char_of (48 + n) else char_of (55 + n))"

fun url_escape :: "encoding \<Rightarrow> string \<Rightarrow> string" where
  "url_escape mode [] = []"
| "url_escape mode (c # s) =
     (if shouldEscape c mode then
        (if c = CHR '' '' \<and> mode = encodeQueryComponent then CHR ''+'' # url_escape mode s
         else CHR ''%'' # upperhex (of_char c div 16) # upperhex (of_char c mod 16) # url_escape mode s)
      else c # url_escape mode s)"

definition ishex :: "char \<Rightarrow> bool" where
  "ishex c \<longleftrightarrow> is_digit c \<or> (97 \<le> (of_char c :: nat) \<and> of_char c \<le> (102 :: nat)) \<or> (65 \<le> (of_char c :: nat) \<and> of_char c \<le> (70 :: nat))"

definition unhex :: "char \<Rightarrow> nat" where
  "unhex c = (if is_digit c then of_char c - 48 else if 97 \<le> (of_char c :: nat) then of_char c - 87 else of_char c - 55)"

definition high_byte :: "char \<Rightarrow> bool" where "high_byte c \<longleftrightarrow> 128 \<le> (of_char c :: nat)"

fun url_unescape :: "encoding \<Rightarrow> string \<Rightarrow> string + string" where
  "url_unescape mode [] = Inr []"
| "url_unescape mode (c # s) =
     (if c = CHR ''%'' then
        (case s of
           h # l # s' \<Rightarrow>
             if \<not> ishex h \<or> \<not> ishex l then Inl ''invalid URL escape''
             else if mode = encodeHost \<and> unhex h < 8 \<and> (h \<noteq> CHR ''2'' \<or> l \<noteq> CHR ''5'') then Inl ''invalid URL escape''
             else if mode = encodeZone \<and> (h \<noteq> CHR ''2'' \<or> l \<noteq> CHR ''5'') \<and> char_of (16 * unhex h + unhex l) \<noteq> CHR '' '' \<and>
               shouldEscape (char_of (16 * unhex h + unhex l)) encodeHost then Inl ''invalid URL escape''
             else bind_sum (url_unescape mode s') (\<lambda>t. Inr (char_of (16 * unhex h + unhex l) # t))
         | _ \<Rightarrow> Inl ''invalid URL escape'')
      else if c = CHR ''+'' \<and> mode = encodeQueryComponent then bind_sum (url_unescape mode s) (\<lambda>t. Inr (CHR '' '' # t))
      else if (mode = encodeHost \<or> mode = encodeZone) \<and> \<not> high_byte c \<and> c \<noteq> CHR ''+'' \<and> shouldEscape c mode then Inl ''invalid character in host name''
      else bind_sum (url_unescape mode s) (\<lambda>t. Inr (c # t)))"

section \<open>URLs\<close>

text \<open>The user name with the password, if one is set.\<close>

type_synonym userinfo = "string \<times> string option"

record URL =
  Scheme :: string
  Opaque :: string
  url_User :: "userinfo option"
  url_Host :: string
  url_Path :: string
  RawPath :: string
  OmitHost :: bool
  ForceQuery :: bool
  RawQuery :: string

definition empty_URL :: URL where
  "empty_URL = \<lparr>Scheme = [], Opaque = [], url_User = None, url_Host = [], url_Path = [], RawPath = [], OmitHost = False, ForceQuery = False, RawQuery = []\<rparr>"

definition userinfo_String :: "userinfo \<Rightarrow> string" where
  "userinfo_String u =
     url_escape encodeUserPassword (fst u) @ (case snd u of None \<Rightarrow> [] | Some pw \<Rightarrow> CHR '':'' # url_escape encodeUserPassword pw)"

definition userinfo_Password :: "userinfo option \<Rightarrow> string \<times> bool" where
  "userinfo_Password u = (case u of Some (_, Some pw) \<Rightarrow> (pw, True) | _ \<Rightarrow> ([], False))"

definition userinfo_Username :: "userinfo option \<Rightarrow> string" where
  "userinfo_Username u = (case u of None \<Rightarrow> [] | Some (name, _) \<Rightarrow> name)"

subsection \<open>Parsing\<close>

text \<open>\<open>strings.LastIndex\<close> for one byte, as a cut there.\<close>

definition cut_last :: "char \<Rightarrow> string \<Rightarrow> string \<times> string \<times> bool" where
  "cut_last c s = (case cut_byte c (rev s) of (b, a, found) \<Rightarrow> (rev a, rev b, found))"

definition scheme_letter :: "char \<Rightarrow> bool" where "scheme_letter c \<longleftrightarrow> ascii_lower c \<or> ascii_upper c"

text \<open>\<open>getScheme\<close>, with the bytes before the current one; \<open>raw\<close> is the whole text.\<close>

fun getScheme :: "string \<Rightarrow> string \<Rightarrow> string \<Rightarrow> string + (string \<times> string)" where
  "getScheme raw before [] = Inr ([], raw)"
| "getScheme raw before (c # s) =
     (if scheme_letter c then getScheme raw (before @ [c]) s
      else if is_digit c \<or> c \<in> set ''+-.'' then (if before = [] then Inr ([], raw) else getScheme raw (before @ [c]) s)
      else if c = CHR '':'' then (if before = [] then Inl ''missing protocol scheme'' else Inr (before, s))
      else Inr ([], raw))"

definition validOptionalPort :: "string \<Rightarrow> bool" where
  "validOptionalPort port = (case port of [] \<Rightarrow> True | c # ds \<Rightarrow> c = CHR '':'' \<and> list_all is_digit ds)"

text \<open>The first place of \<open>%25\<close>.\<close>

fun zone_index :: "string \<Rightarrow> nat option" where
  "zone_index [] = None"
| "zone_index (c # s) = (if has_prefix (c # s) ''%25'' then Some 0 else map_option Suc (zone_index s))"

definition parseHost :: "string \<Rightarrow> string + string" where
  "parseHost host =
     (if has_prefix host ''['' then
        (case cut_last (CHR '']'') host of
           (before, colonPort, found) \<Rightarrow>
             if \<not> found then Inl ''missing ']' in host''
             else if \<not> validOptionalPort colonPort then Inl ''invalid port after host''
             else case zone_index before of
                    Some zone \<Rightarrow>
                      bind_sum (url_unescape encodeHost (take zone before)) (\<lambda>host1.
                      bind_sum (url_unescape encodeZone (drop zone before)) (\<lambda>host2.
                      bind_sum (url_unescape encodeHost (CHR '']'' # colonPort)) (\<lambda>host3. Inr (host1 @ host2 @ host3))))
                  | None \<Rightarrow> url_unescape encodeHost host)
      else
        (case cut_last (CHR '':'') host of
           (before, port, found) \<Rightarrow>
             if found \<and> \<not> validOptionalPort (CHR '':'' # port) then Inl ''invalid port after host''
             else url_unescape encodeHost host))"

definition validUserinfo :: "string \<Rightarrow> bool" where
  "validUserinfo s \<longleftrightarrow> list_all (\<lambda>c. url_alnum c \<or> c \<in> set ''-._:~!$&'' \<union> {CHR 0x27} \<union> set ''()*+,;=%@'') s"

definition parseAuthority :: "string \<Rightarrow> string + (userinfo option \<times> string)" where
  "parseAuthority authority =
     (case cut_last (CHR ''@'') authority of
        (before, after, found) \<Rightarrow>
          bind_sum (parseHost (if found then after else authority)) (\<lambda>host.
            if \<not> found then Inr (None, host)
            else if \<not> validUserinfo before then Inl ''net/url: invalid userinfo''
            else
              (case cut_byte (CHR '':'') before of
                 (username, password, colon) \<Rightarrow>
                   bind_sum (url_unescape encodeUserPassword username) (\<lambda>name.
                     if \<not> colon then Inr (Some (name, None), host)
                     else bind_sum (url_unescape encodeUserPassword password) (\<lambda>pw. Inr (Some (name, Some pw), host))))))"

definition url_EscapedPath_of :: "string \<Rightarrow> string" where
  "url_EscapedPath_of p = (if p = ''*'' then ''*'' else url_escape encodePath p)"

definition setPath :: "URL \<Rightarrow> string \<Rightarrow> string + URL" where
  "setPath u p =
     bind_sum (url_unescape encodePath p) (\<lambda>path.
       Inr (u\<lparr>url_Path := path, RawPath := (if p = url_escape encodePath path then [] else p)\<rparr>))"

definition ctl_byte :: "char \<Rightarrow> bool" where
  "ctl_byte c \<longleftrightarrow> of_char c < (32 :: nat) \<or> of_char c = (127 :: nat)"

definition cut_query :: "string \<Rightarrow> string \<times> string \<times> bool" where
  "cut_query rest =
     (if has_suffix rest ''?'' \<and> length (filter ((=) (CHR ''?'')) rest) = 1 then (butlast rest, [], True)
      else case cut_byte (CHR ''?'') rest of (before, query, _) \<Rightarrow> (before, query, False))"

text \<open>\<open>parse(rawURL, false)\<close>.\<close>

definition url_parse :: "string \<Rightarrow> string + URL" where
  "url_parse rawURL =
     (if list_ex ctl_byte rawURL then Inl ''net/url: invalid control character in URL''
      else if rawURL = ''*'' then Inr (empty_URL\<lparr>url_Path := ''*''\<rparr>)
      else bind_sum (getScheme rawURL [] rawURL) (\<lambda>(scheme, rest0).
        case cut_query rest0 of (rest, query, force) \<Rightarrow>
          let u = empty_URL\<lparr>Scheme := map ascii_ToLower scheme, RawQuery := query, ForceQuery := force\<rparr>
          in if \<not> has_prefix rest ''/'' \<and> scheme \<noteq> [] then Inr (u\<lparr>Opaque := rest\<rparr>)
             else if \<not> has_prefix rest ''/'' \<and> CHR '':'' \<in> set (fst (cut_byte (CHR ''/'') rest)) then
               Inl ''first path segment in URL cannot contain colon''
             else if (scheme \<noteq> [] \<or> \<not> has_prefix rest ''///'') \<and> has_prefix rest ''//'' then
               (let authority = takeWhile (\<lambda>c. c \<noteq> CHR ''/'') (drop 2 rest);
                    path = dropWhile (\<lambda>c. c \<noteq> CHR ''/'') (drop 2 rest)
                in bind_sum (parseAuthority authority) (\<lambda>(user, host). setPath (u\<lparr>url_User := user, url_Host := host\<rparr>) path))
             else setPath (if scheme \<noteq> [] \<and> has_prefix rest ''/'' then u\<lparr>OmitHost := True\<rparr> else u) rest))"

text \<open>\<open>Parse\<close>: the fragment is cut off first and only checked here, as nobody reads it. Unescaping it differs from that of a path in no way.\<close>

definition url_Parse :: "string \<Rightarrow> string + URL" where
  "url_Parse whole =
     (case cut_byte (CHR ''#'') whole of
        (rawURL, frag, _) \<Rightarrow> bind_sum (url_parse rawURL) (\<lambda>u. bind_sum (url_unescape encodePath frag) (\<lambda>_. Inr u)))"

subsection \<open>Printing\<close>

text \<open>\<open>URL.String\<close> of a URL that is built from a scheme, a user, a host, a path and a query.\<close>

definition url_String :: "URL \<Rightarrow> string" where
  "url_String u =
     (let path = url_EscapedPath_of (url_Path u)
      in (if Scheme u \<noteq> [] then Scheme u @ '':'' else []) @
         (if Scheme u \<noteq> [] \<or> url_Host u \<noteq> [] \<or> url_User u \<noteq> None then
            (if url_Host u \<noteq> [] \<or> url_Path u \<noteq> [] \<or> url_User u \<noteq> None then ''//'' else []) @
            (case url_User u of None \<Rightarrow> [] | Some ui \<Rightarrow> userinfo_String ui @ ''@'') @
            url_escape encodeHost (url_Host u)
          else []) @
         (if path \<noteq> [] \<and> hd path \<noteq> CHR ''/'' \<and> url_Host u \<noteq> [] then ''/'' else []) @
         path @
         (if ForceQuery u \<or> RawQuery u \<noteq> [] then CHR ''?'' # RawQuery u else []))"

subsection \<open>Queries\<close>

type_synonym url_values = "(string \<times> string list) list"

definition values_Set :: "string \<Rightarrow> string \<Rightarrow> url_values \<Rightarrow> url_values" where
  "values_Set k v m = (k, [v]) # filter (\<lambda>p. fst p \<noteq> k) m"

definition values_Encode :: "url_values \<Rightarrow> string" where
  "values_Encode m =
     join ''&'' (concat (map (\<lambda>(k, vs). map (\<lambda>v. url_escape encodeQueryComponent k @ ''='' @ url_escape encodeQueryComponent v) vs) (sort_key fst m)))"

text \<open>One part of a query: \<open>None\<close> if it is passed over without an error.\<close>

definition parse_pair :: "string \<Rightarrow> string + (string \<times> string) option" where
  "parse_pair part =
     (if CHR '';'' \<in> set part then Inl ''invalid semicolon separator in query''
      else if part = [] then Inr None
      else case cut_byte (CHR ''='') part of
             (key, value, _) \<Rightarrow>
               bind_sum (url_unescape encodeQueryComponent key) (\<lambda>k.
               bind_sum (url_unescape encodeQueryComponent value) (\<lambda>v. Inr (Some (k, v)))))"

text \<open>\<open>ParseQuery\<close>: the pairs in their order and the first error.\<close>

definition ParseQuery :: "string \<Rightarrow> (string \<times> string) list \<times> string option" where
  "ParseQuery query =
     (let parts = map parse_pair (if query = [] then [] else split_byte (CHR ''&'') query)
      in ([p. Inr (Some p) \<leftarrow> parts], (case [e. Inl e \<leftarrow> parts] of [] \<Rightarrow> None | e # _ \<Rightarrow> Some e)))"

section \<open>Connection strings\<close>

record ConnectionURI =
  cu_Host :: string
  cu_Database :: string
  cu_User :: string
  cu_Password :: string
  cu_Port :: int
  cu_Options :: string

definition PostgresDefaultPort :: int where "PostgresDefaultPort = 5432"

definition ConnectionURI_string :: "ConnectionURI \<Rightarrow> string" where
  "ConnectionURI_string c =
     (let host = (if cu_Port c = PostgresDefaultPort \<or> cu_Port c = 0 then cu_Host c else cu_Host c @ '':'' @ show_int (cu_Port c));
          uri = empty_URL\<lparr>Scheme := ''postgresql'', url_Host := host, url_Path := cu_Database c,
                          url_User := Some (cu_User c, if cu_Password c \<noteq> [] then Some (cu_Password c) else None)\<rparr>;
          q = values_Set ''sslmode'' ''require'' [];
          q' = (if cu_Options c \<noteq> [] then values_Set ''options'' (cu_Options c) q else q)
      in url_String (uri\<lparr>RawQuery := values_Encode q'\<rparr>))"

section \<open>Escaping is undone by parsing\<close>

lemma upperhex_nibble: "n < 16 \<Longrightarrow> ishex (upperhex n) \<and> unhex (upperhex n) = n"
  by (auto simp: upperhex_def ishex_def unhex_def is_digit_def of_char_of)

lemma of_char_nibbles: "(of_char c :: nat) div 16 < 16" "(of_char c :: nat) mod 16 < 16"
  using of_char_mod_256 [of c, where ?'a = nat] by (simp_all add: less_mult_imp_div_less)

lemma escaped_byte: "char_of (16 * unhex (upperhex (of_char c div 16)) + unhex (upperhex (of_char c mod 16))) = c"
  by (simp add: upperhex_nibble of_char_nibbles)

lemma shouldEscape_percent: "shouldEscape (CHR ''%'') mode"
  by (simp add: shouldEscape_def url_alnum_def ascii_lower_def ascii_upper_def is_digit_def)

lemma shouldEscape_plus: "shouldEscape (CHR ''+'') encodeQueryComponent"
  by (simp add: shouldEscape_def url_alnum_def ascii_lower_def ascii_upper_def is_digit_def)

lemma unescape_escape:
  assumes "mode \<noteq> encodeHost" and "mode \<noteq> encodeZone"
  shows "url_unescape mode (url_escape mode s) = Inr s"
proof (induction s)
  case (Cons c s)
  show ?case
  proof (cases "shouldEscape c mode")
    case True
    then show ?thesis using Cons assms by (auto simp: upperhex_nibble of_char_nibbles escaped_byte)
  next
    case False
    then have "c \<noteq> CHR ''%''" "\<not> (c = CHR ''+'' \<and> mode = encodeQueryComponent)"
      using shouldEscape_percent shouldEscape_plus by auto
    then show ?thesis using Cons False assms by auto
  qed
qed simp

text \<open>The bytes of an escaped text.\<close>

lemma upperhex_alnum: "n < 16 \<Longrightarrow> url_alnum (upperhex n)"
  by (auto simp: upperhex_def url_alnum_def ascii_lower_def ascii_upper_def is_digit_def of_char_of)

lemma escape_bytes:
  "x \<in> set (url_escape mode s) \<Longrightarrow> \<not> shouldEscape x mode \<or> x = CHR ''%'' \<or> url_alnum x \<or> x = CHR ''+'' \<and> mode = encodeQueryComponent"
  by (induction s) (auto simp: upperhex_alnum of_char_nibbles split: if_splits)

lemmas byte_simps = shouldEscape_def url_alnum_def ascii_lower_def ascii_upper_def is_digit_def

lemma escape_free:
  assumes "shouldEscape x mode" and "x \<noteq> CHR ''%''" and "\<not> url_alnum x" and "x \<noteq> CHR ''+''"
  shows "x \<notin> set (url_escape mode s)"
  using assms escape_bytes by blast

lemma escape_id: "list_all (\<lambda>c. \<not> shouldEscape c mode) s \<Longrightarrow> url_escape mode s = s"
  by (induction s) auto

lemma unescape_host_id: "list_all (\<lambda>c. \<not> shouldEscape c encodeHost) s \<Longrightarrow> url_unescape encodeHost s = Inr s"
  by (induction s) (auto simp: shouldEscape_percent dest!: not_sym)

lemma unescaped_visible:
  assumes "\<not> shouldEscape x mode"
  shows "33 \<le> (of_char x :: nat) \<and> of_char x \<le> (126 :: nat)"
proof -
  have "url_alnum x \<or> x \<in> set ''!$&'' \<union> {CHR 0x27} \<union> set ''()*+,;=:[]<>'' \<union> {CHR 0x22} \<or> x \<in> set ''-_.~'' \<or> x \<in> set ''$&+,/:;=?@''"
    using assms unfolding shouldEscape_def by metis
  then show ?thesis by (auto simp: url_alnum_def ascii_lower_def ascii_upper_def is_digit_def)
qed

lemma escape_visible: "x \<in> set (url_escape mode s) \<Longrightarrow> 33 \<le> (of_char x :: nat) \<and> of_char x \<le> (126 :: nat)"
  using escape_bytes [of x mode s] unescaped_visible [of x mode] by (auto simp: url_alnum_def ascii_lower_def ascii_upper_def is_digit_def)

lemma cut_last_append: "c \<notin> set t \<Longrightarrow> cut_last c (s @ c # t) = (s, t, True)"
  by (simp add: cut_last_def cut_byte_append)

lemma cut_last_none: "c \<notin> set s \<Longrightarrow> snd (snd (cut_last c s)) = False"
  by (simp add: cut_last_def cut_byte_none)

section \<open>Connection strings can be parsed\<close>

text \<open>Names of hosts as they occur in DNS.\<close>

definition host_name :: "string \<Rightarrow> bool" where
  "host_name h \<longleftrightarrow> h \<noteq> [] \<and> list_all (\<lambda>c. url_alnum c \<or> c \<in> set ''-._'') h"

definition uri_host :: "ConnectionURI \<Rightarrow> string" where
  "uri_host c = (if cu_Port c = PostgresDefaultPort \<or> cu_Port c = 0 then cu_Host c else cu_Host c @ '':'' @ show_int (cu_Port c))"

lemma host_byte_plain: "url_alnum c \<or> c \<in> set ''-._:'' \<Longrightarrow> \<not> shouldEscape c encodeHost"
  by (auto simp: shouldEscape_def)

lemma uri_host_bytes:
  assumes "host_name (cu_Host c)" and "0 \<le> cu_Port c"
  shows "list_all (\<lambda>x. url_alnum x \<or> x \<in> set ''-._:'') (uri_host c)"
proof -
  have "list_all (\<lambda>x. url_alnum x \<or> x \<in> set ''-._:'') (show_nat n)" for n
    using show_nat_digits [of n] by (auto simp: list_all_iff url_alnum_def)
  then show ?thesis using assms by (auto simp: uri_host_def host_name_def show_int_def list_all_iff)
qed

lemma byte_not_host:
  assumes "list_all (\<lambda>x. url_alnum x \<or> x \<in> set ''-._:'') h" and "x \<in> set ''@/?#[''"
  shows "x \<notin> set h"
  using assms by (auto simp: list_all_iff url_alnum_def ascii_lower_def ascii_upper_def is_digit_def)

lemma parseHost_uri:
  assumes "host_name (cu_Host c)" and "0 \<le> cu_Port c"
  shows "parseHost (uri_host c) = Inr (uri_host c)"
proof -
  note bytes = uri_host_bytes [OF assms]
  have plain: "url_unescape encodeHost (uri_host c) = Inr (uri_host c)"
    using bytes host_byte_plain by (intro unescape_host_id) (auto simp: list_all_iff)
  have "\<not> has_prefix (uri_host c) ''[''"
    using byte_not_host [OF bytes, of "CHR ''[''"] by (cases "uri_host c") (auto simp: has_prefix_def)
  moreover have "CHR '':'' \<notin> set (cu_Host c)"
    using assms(1) by (auto simp: host_name_def list_all_iff url_alnum_def ascii_lower_def ascii_upper_def is_digit_def)
  moreover have "CHR '':'' \<notin> set (show_nat n)" for n
    using show_nat_digits [of n] by (auto simp: list_all_iff is_digit_def)
  ultimately show ?thesis
    using plain assms(2) cut_last_append [of "CHR '':''" "show_nat (nat (cu_Port c))" "cu_Host c"] cut_last_none [of "CHR '':''" "cu_Host c"]
    by (auto simp: parseHost_def uri_host_def show_int_def validOptionalPort_def show_nat_digits split: prod.split)
qed

lemma user_free:
  assumes "x \<in> set ''@/?:#''"
  shows "x \<notin> set (url_escape encodeUserPassword s)"
  using assms by (simp, elim disjE) (simp_all add: escape_free byte_simps)

lemma userinfo_free: "x \<in> set ''@/?#'' \<Longrightarrow> x \<notin> set (userinfo_String ui)"
  using user_free by (auto simp: userinfo_String_def split: option.split)

lemma user_escape_valid: "validUserinfo (url_escape encodeUserPassword s)"
proof -
  have "url_alnum x \<or> x \<in> set ''-._:~!$&'' \<union> {CHR 0x27} \<union> set ''()*+,;=%@''" if "x \<in> set (url_escape encodeUserPassword s)" for x
    using escape_bytes [OF that] by (auto simp: shouldEscape_def split: if_splits)
  then show ?thesis unfolding validUserinfo_def list_all_iff by blast
qed

lemma parseAuthority_uri:
  assumes "parseHost host = Inr host" and "CHR ''@'' \<notin> set host"
  shows "parseAuthority (userinfo_String ui @ ''@'' @ host) = Inr (Some ui, host)"
proof -
  obtain name pw where ui: "ui = (name, pw)" by (cases ui)
  have "validUserinfo (s @ CHR '':'' # t) \<longleftrightarrow> validUserinfo s \<and> validUserinfo t" for s t by (simp add: validUserinfo_def)
  then have valid: "validUserinfo (userinfo_String ui)" by (simp add: ui userinfo_String_def user_escape_valid split: option.split)
  have "parseAuthority (userinfo_String ui @ CHR ''@'' # host) =
      (case cut_byte (CHR '':'') (userinfo_String ui) of
         (username, password, colon) \<Rightarrow>
           bind_sum (url_unescape encodeUserPassword username) (\<lambda>name.
             if \<not> colon then Inr (Some (name, None), host)
             else bind_sum (url_unescape encodeUserPassword password) (\<lambda>pw. Inr (Some (name, Some pw), host))))"
    unfolding parseAuthority_def by (simp add: cut_last_append [OF assms(2)] assms(1) valid)
  then show ?thesis
    using user_free [of "CHR '':''" name]
    by (cases pw) (simp_all add: ui userinfo_String_def cut_byte_none cut_byte_append unescape_escape)
qed


text \<open>The path that is printed for a database, and the one that is read back.\<close>

definition path_part :: "string \<Rightarrow> string" where
  "path_part db = (let p = url_EscapedPath_of db in (if p \<noteq> [] \<and> hd p \<noteq> CHR ''/'' then ''/'' else []) @ p)"

definition uri_path :: "string \<Rightarrow> string" where
  "uri_path db = (if db = [] \<or> hd db = CHR ''/'' then db else CHR ''/'' # db)"

lemma escape_path_hd: "url_escape encodePath (c # db) \<noteq> [] \<and> (hd (url_escape encodePath (c # db)) = CHR ''/'' \<longleftrightarrow> c = CHR ''/'')"
  by (auto simp: byte_simps)

lemma path_part_unescape: "url_unescape encodePath (path_part db) = Inr (uri_path db)"
proof (cases db)
  case (Cons c s)
  then show ?thesis
    using escape_path_hd [of c s] unescape_escape [of encodePath db]
    by (auto simp: path_part_def url_EscapedPath_of_def uri_path_def Let_def simp del: url_escape.simps)
qed (simp add: path_part_def url_EscapedPath_of_def uri_path_def)

lemma path_part_start: "path_part db = [] \<or> hd (path_part db) = CHR ''/''"
  by (auto simp: path_part_def Let_def)

lemma path_part_free: "x \<in> set ''?#'' \<Longrightarrow> x \<notin> set (path_part db)"
  using escape_free [of x encodePath db] by (auto simp: path_part_def Let_def url_EscapedPath_of_def byte_simps)

text \<open>The query.\<close>

definition uri_query :: "ConnectionURI \<Rightarrow> string" where
  "uri_query c = (if cu_Options c \<noteq> [] then ''options='' @ url_escape encodeQueryComponent (cu_Options c) @ ''&'' else []) @ ''sslmode=require''"

lemma options_first: "''options'' < (''sslmode'' :: string)" by code_simp

lemma uri_query_encoded:
  "values_Encode (if cu_Options c \<noteq> [] then values_Set ''options'' (cu_Options c) (values_Set ''sslmode'' ''require'' []) else values_Set ''sslmode'' ''require'' [])
   = uri_query c"
  using options_first
  by (auto simp: values_Encode_def values_Set_def uri_query_def escape_id byte_simps)

lemma query_free: "x \<in> set ''#&;='' \<Longrightarrow> x \<notin> set (url_escape encodeQueryComponent s)"
  by (simp, elim disjE) (simp_all add: escape_free byte_simps)

lemma parse_uri_query:
  "ParseQuery (uri_query c) = ((if cu_Options c \<noteq> [] then [(''options'', cu_Options c)] else []) @ [(''sslmode'', ''require'')], None)"
proof -
  have sslmode: "parse_pair ''sslmode=require'' = Inr (Some (''sslmode'', ''require''))" by code_simp
  have "parse_pair (''options='' @ url_escape encodeQueryComponent s) = Inr (Some (''options'', s))" for s
    using query_free [of "CHR '';''" s] unescape_escape [of encodeQueryComponent s] by (simp add: parse_pair_def)
  moreover have "split_byte (CHR ''&'') (''options='' @ url_escape encodeQueryComponent s @ ''&sslmode=require'') =
      [''options='' @ url_escape encodeQueryComponent s, ''sslmode=require'']" for s
    using split_byte_append [of "CHR ''&''" "''options='' @ url_escape encodeQueryComponent s" "''sslmode=require''"] query_free [of "CHR ''&''" s]
    by (simp add: split_byte_none)
  moreover have "split_byte (CHR ''&'') ''sslmode=require'' = [''sslmode=require'']" by code_simp
  ultimately show ?thesis using sslmode by (simp add: ParseQuery_def uri_query_def)
qed

subsection \<open>The whole\<close>

definition uri_user :: "ConnectionURI \<Rightarrow> userinfo" where
  "uri_user c = (cu_User c, if cu_Password c \<noteq> [] then Some (cu_Password c) else None)"

definition uri_authority :: "ConnectionURI \<Rightarrow> string" where
  "uri_authority c = userinfo_String (uri_user c) @ ''@'' @ uri_host c"

lemma ConnectionURI_parts:
  assumes "host_name (cu_Host c)" and "0 \<le> cu_Port c"
  shows "ConnectionURI_string c = ''postgresql:'' @ (''//'' @ uri_authority c @ path_part (cu_Database c)) @ ''?'' @ uri_query c"
proof -
  have "url_escape encodeHost (uri_host c) = uri_host c"
    using uri_host_bytes [OF assms] host_byte_plain by (intro escape_id) (auto simp: list_all_iff)
  moreover have "uri_host c \<noteq> []" using assms(1) by (simp add: uri_host_def host_name_def)
  moreover have "uri_query c \<noteq> []" by (simp add: uri_query_def)
  ultimately show ?thesis
    unfolding ConnectionURI_string_def Let_def uri_query_encoded
    by (simp add: url_String_def empty_URL_def path_part_def uri_authority_def uri_user_def Let_def flip: uri_host_def)
qed

lemma getScheme_uri: "getScheme raw [] (''postgresql:'' @ rest) = Inr (''postgresql'', rest)"
  by (simp add: scheme_letter_def ascii_lower_def ascii_upper_def is_digit_def)

lemma cut_query_uri:
  assumes "CHR ''?'' \<notin> set rest"
  shows "cut_query (rest @ ''?'' @ uri_query c) = (rest, uri_query c, False)"
proof -
  have "last (uri_query c) = CHR ''e''" "uri_query c \<noteq> []" by (simp_all add: uri_query_def)
  then have "last (rest @ ''?'' @ uri_query c) \<noteq> CHR ''?''" by simp
  then have "\<not> has_suffix (rest @ ''?'' @ uri_query c) ''?''"
    unfolding has_suffix_def by (metis append_take_drop_id last_snoc)
  then show ?thesis using cut_byte_append [OF assms, of "uri_query c"] by (simp add: cut_query_def)
qed

lemma takeWhile_slash:
  assumes "CHR ''/'' \<notin> set a" and "p = [] \<or> hd p = CHR ''/''"
  shows "takeWhile (\<lambda>c. c \<noteq> CHR ''/'') (a @ p) = a" "dropWhile (\<lambda>c. c \<noteq> CHR ''/'') (a @ p) = p"
  using assms by (induction a) (cases p; auto)+

lemma visible_no_ctl: "33 \<le> (of_char x :: nat) \<and> of_char x \<le> (126 :: nat) \<Longrightarrow> \<not> ctl_byte x"
  by (auto simp: ctl_byte_def)

lemma uri_no_ctl:
  assumes "host_name (cu_Host c)" and "0 \<le> cu_Port c"
  shows "\<not> list_ex ctl_byte (ConnectionURI_string c)"
proof -
  have esc: "\<not> ctl_byte x" if "x \<in> set (url_escape mode s)" for x mode s using escape_visible [OF that] by (rule visible_no_ctl)
  have host: "\<not> ctl_byte x" if "x \<in> set (uri_host c)" for x
    using uri_host_bytes [OF assms] that unescaped_visible [of x encodeHost] host_byte_plain [of x] visible_no_ctl
    by (auto simp: list_all_iff)
  have lit: "\<not> ctl_byte x" if "x \<in> set ''postgresql:/@?&=msdruin*''" for x using that by (auto simp: ctl_byte_def)
  show ?thesis
    unfolding ConnectionURI_parts [OF assms] list_ex_iff
    by (auto simp: uri_authority_def userinfo_String_def path_part_def url_EscapedPath_of_def uri_query_def Let_def lit
        dest: esc host split: if_splits option.splits)
qed

lemma ConnectionURI_parsed:
  assumes "host_name (cu_Host c)" and "0 \<le> cu_Port c"
  shows "\<exists>u. url_Parse (ConnectionURI_string c) = Inr u \<and> Scheme u = ''postgresql'' \<and>
    url_User u = Some (cu_User c, if cu_Password c \<noteq> [] then Some (cu_Password c) else None) \<and>
    url_Host u = uri_host c \<and> url_Path u = uri_path (cu_Database c) \<and>
    RawQuery u = uri_query c"
proof -
  let ?p = "path_part (cu_Database c)" and ?a = "uri_authority c"
  let ?s = "''postgresql:'' @ (''//'' @ ?a @ ?p) @ ''?'' @ uri_query c"
  have s: "ConnectionURI_string c = ?s" by (rule ConnectionURI_parts [OF assms])
  have free: "x \<notin> set ?a" if "x \<in> set ''/?#''" for x
    using that userinfo_free [of x "uri_user c"] byte_not_host [OF uri_host_bytes [OF assms], of x] by (auto simp: uri_authority_def)
  have "CHR ''#'' \<notin> set ?s"
    using free [of "CHR ''#''"] path_part_free [of "CHR ''#''"] query_free [of "CHR ''#''"] by (auto simp: uri_query_def)
  then have "url_Parse ?s = bind_sum (url_parse ?s) Inr" by (simp add: url_Parse_def cut_byte_none)
  moreover have "CHR ''?'' \<notin> set (''//'' @ ?a @ ?p)" using free [of "CHR ''?''"] path_part_free [of "CHR ''?''"] by auto
  note cut = cut_query_uri [OF this, of c]
  have auth: "parseAuthority ?a = Inr (Some (uri_user c), uri_host c)"
    unfolding uri_authority_def
    by (rule parseAuthority_uri [OF parseHost_uri [OF assms]]) (rule byte_not_host [OF uri_host_bytes [OF assms]], simp)
  have slash: "CHR ''/'' \<notin> set ?a" using free [of "CHR ''/''"] by simp
  have "url_parse ?s = setPath (empty_URL\<lparr>Scheme := ''postgresql'', RawQuery := uri_query c, ForceQuery := False,
        url_User := Some (uri_user c), url_Host := uri_host c\<rparr>) ?p"
    using uri_no_ctl [OF assms] auth
    unfolding s url_parse_def getScheme_uri
    by (simp add: cut [simplified] has_prefix_def takeWhile_slash [OF slash path_part_start] ascii_ToLower_def ascii_upper_def)
  ultimately show ?thesis
    by (simp add: s setPath_def path_part_unescape uri_user_def)
qed


definition sample_uri :: ConnectionURI where
  "sample_uri = \<lparr>cu_Host = ''test.host'', cu_Database = ''a?b'', cu_User = ''x@y:z'', cu_Password = ''p/w#1'', cu_Port = 5433, cu_Options = ''a&b=c d''\<rparr>"


end
