(* ===== verification/Commands.thy ===== *)
theory Commands
  imports Tools Clients Rdb_Client Completion Embeddings Logging
begin

text \<open>
  The program \<open>telegramsearch\<close>: its static configuration (\<open>staticconfig\<close>, \<open>controllerv1/config.go\<close>, \<open>bottransport\<close>, \<open>bottransportv2\<close>), the tree of its commands with
  the hooks that run before them (\<open>cmd/telegramsearch\<close>, \<open>internal/clitooling\<close>), and what each command does with the stories of the controller.

  The library cobra is a parameter: \<open>runs c\<close> is the command whose hook it calls for the command \<open>c\<close> and the command it passes; that it is the nearest hook and \<open>c\<close> itself is the
  hypothesis \<open>nearest_hook\<close>. Files, the loader of configuration, YAML, the output and the Telegram library are arguments, and so are the Russian texts of the default
  configuration.
\<close>

section \<open>Static configuration\<close>

record ctl_Config =
  cc_HelpText :: string
  cc_NewsText :: string
  cc_NoExplainedAnswer :: string
  cc_NoResultsAnswer :: string
  cc_StaleResponsesText :: string
  cc_FreshResponsesText :: string
  cc_StaleThreshold :: go_duration

text \<open>The default configuration of the controller, with the texts given.\<close>

definition ctl_DefaultConfig :: "ctl_Config \<Rightarrow> ctl_Config" where
  "ctl_DefaultConfig texts = texts\<lparr>cc_StaleThreshold := 365 * 2 * 24 * 3600 * 1000000000\<rparr>"

record v2_Config =
  v2_AppID :: int
  v2_AppHash :: string

definition v2_Validate :: "v2_Config \<Rightarrow> gerr option" where
  "v2_Validate c =
     (if v2_AppID c = 0 then Some (ErrNew ''app_id is required'')
      else if v2_AppHash c = [] then Some (ErrNew ''app_hash is required'')
      else None)"

definition v2_DefaultConfig :: v2_Config where
  "v2_DefaultConfig = \<lparr>v2_AppID = 24144218, v2_AppHash = ''b1602e8d49775f7a212037c00e29ed6d''\<rparr>"

definition zero_v2 :: v2_Config where "zero_v2 = \<lparr>v2_AppID = 0, v2_AppHash = []\<rparr>"

record tg_Config =
  tg_Token :: string
  tg_Greeting :: string

record static_Config =
  sc_Ctlv1 :: ctl_Config
  sc_PostgresRW :: rdb_Config
  sc_OpenAI :: oai_Config
  sc_Logging :: LoggerConfig
  sc_TelegramTransport :: tg_Config
  sc_TelegramV2 :: v2_Config

definition postgres_Default :: rdb_Config where "postgres_Default = rdb_DefaultConfig"

text \<open>The function \<open>DefaultConfig\<close> starts from the zero value \<open>z\<close>; the method sets four of the parts of a configuration.\<close>

definition static_DefaultConfig :: "ctl_Config \<Rightarrow> static_Config \<Rightarrow> static_Config" where
  "static_DefaultConfig texts z =
     z\<lparr>sc_Ctlv1 := ctl_DefaultConfig texts, sc_OpenAI := oai_DefaultConfig, sc_Logging := logger_DefaultConfig, sc_TelegramV2 := v2_DefaultConfig\<rparr>"

definition Config_DefaultConfig :: "ctl_Config \<Rightarrow> static_Config \<Rightarrow> static_Config" where
  "Config_DefaultConfig texts c =
     c\<lparr>sc_Ctlv1 := ctl_DefaultConfig texts, sc_OpenAI := oai_DefaultConfig, sc_PostgresRW := postgres_Default, sc_Logging := logger_DefaultConfig\<rparr>"

definition static_Validate :: "static_Config \<Rightarrow> gerr option" where
  "static_Validate c = errors_Join [v2_Validate (sc_TelegramV2 c)]"

definition Backend_Get :: "gerr + string" where "Backend_Get = Inl (ErrNew ''not implemented'')"
definition Backend_Name :: string where "Backend_Name = ''telegramsearch-static''"

text \<open>\<open>Unmarshal\<close> only checks that it is given a configuration.\<close>

definition Backend_Unmarshal :: "'a option \<Rightarrow> gerr option" where
  "Backend_Unmarshal to = (case to of None \<Rightarrow> Some (ErrNew ''cannot unmarshall to Config'') | Some _ \<Rightarrow> None)"

definition exampleConfigForUsers :: "ctl_Config \<Rightarrow> static_Config \<Rightarrow> static_Config" where
  "exampleConfigForUsers texts z = Config_DefaultConfig texts z"

section \<open>The tree of commands\<close>

datatype command =
    RootCmd | TelegramCmd | EmbeddingsCmd | VersionCmd | ConfiggenCmd
  | BotCmd | LoadCmd | CompletionCmd | TryCmd | GenerateCmd

fun cmd_Name :: "command \<Rightarrow> string" where
  "cmd_Name RootCmd = ''telegramsearch''"
| "cmd_Name TelegramCmd = ''telegram''"
| "cmd_Name EmbeddingsCmd = ''embeddings''"
| "cmd_Name VersionCmd = ''version''"
| "cmd_Name ConfiggenCmd = ''configgen''"
| "cmd_Name BotCmd = ''bot''"
| "cmd_Name LoadCmd = ''load''"
| "cmd_Name CompletionCmd = ''completion''"
| "cmd_Name TryCmd = ''try''"
| "cmd_Name GenerateCmd = ''generate''"

fun cmd_Parent :: "command \<Rightarrow> command option" where
  "cmd_Parent RootCmd = None"
| "cmd_Parent BotCmd = Some TelegramCmd"
| "cmd_Parent LoadCmd = Some TelegramCmd"
| "cmd_Parent CompletionCmd = Some EmbeddingsCmd"
| "cmd_Parent TryCmd = Some EmbeddingsCmd"
| "cmd_Parent GenerateCmd = Some EmbeddingsCmd"
| "cmd_Parent _ = Some RootCmd"

fun cmd_depth :: "command \<Rightarrow> nat" where
  "cmd_depth RootCmd = 0"
| "cmd_depth BotCmd = 2"
| "cmd_depth LoadCmd = 2"
| "cmd_depth CompletionCmd = 2"
| "cmd_depth TryCmd = 2"
| "cmd_depth GenerateCmd = 2"
| "cmd_depth _ = 1"

lemma cmd_depth_parent: "cmd_Parent c = Some p \<Longrightarrow> cmd_depth p < cmd_depth c"
  by (cases c) auto

section \<open>The controller\<close>

text \<open>\<open>ctl_cleaning\<close> tells whether the goroutine that removes expired entries of the cache was started.\<close>

record 'db Ctl =
  ctl_explained :: cache
  ctl_cfg :: ctl_Config
  ctl_openai :: oai_Config
  ctl_storage :: "'db rdb_DB"
  ctl_cleaning :: bool

definition controllerv1_New :: "ctl_Config \<Rightarrow> oai_Config \<Rightarrow> 'db rdb_DB \<Rightarrow> gerr + 'db Ctl" where
  "controllerv1_New cfg openai storageRW =
     Inr \<lparr>ctl_explained = Map.empty, ctl_cfg = cfg, ctl_openai = openai, ctl_storage = storageRW, ctl_cleaning = False\<rparr>"

definition Ctl_Ready :: "'db Ctl \<Rightarrow> gerr option \<times> 'db Ctl" where
  "Ctl_Ready c = (None, c\<lparr>ctl_cleaning := True\<rparr>)"

section \<open>Hooks\<close>

record ('s, 'b) cli_env =
  ce_path_Join :: "string list \<Rightarrow> string"
  ce_user :: "gerr + string"
  ce_load :: "'b loader list \<Rightarrow> static_Config \<Rightarrow> gerr option \<times> static_Config"
  ce_yaml :: "static_Config \<Rightarrow> gerr + string"
  ce_texts :: ctl_Config
  ce_parse_level :: "string \<Rightarrow> gerr + level"
  ce_zap_Open :: "string \<Rightarrow> gerr + 's"
  ce_error_text :: "gerr \<Rightarrow> string"

record ('s, 'd, 'db) cli_state =
  cl_cfg :: static_Config
  cl_log :: "'s logger_state"
  cl_world :: "('d, 'db) rdb_world"
  cl_ctl :: "'db Ctl option"

datatype cmd_end = CmdReturned "gerr option" | CmdPanicked string | CmdExited int

definition then_run :: "cmd_end \<times> 'st \<Rightarrow> ('st \<Rightarrow> cmd_end \<times> 'st) \<Rightarrow> cmd_end \<times> 'st" where
  "then_run r f = (case r of (CmdReturned None, st) \<Rightarrow> f st | (e, st) \<Rightarrow> (e, st))"

text \<open>The hook of the root: the configuration is loaded, unless the command is \<open>configgen\<close>, the logger is set, and the configuration is logged with its secrets masked.\<close>

definition root_PersistentPreRun ::
    "('s, 'b) cli_env \<Rightarrow> string \<Rightarrow> command \<Rightarrow> ('s, 'd, 'db) cli_state \<Rightarrow> cmd_end \<times> ('s, 'd, 'db) cli_state" where
  "root_PersistentPreRun X cfgName cmd st =
     (if cmd_Name cmd = ''configgen'' then (CmdReturned None, st)
      else
        (case config_Load (ce_path_Join X) (ce_user X) (ce_load X) static_Validate ''telegramsearch''
                (Config_DefaultConfig (ce_texts X) (cl_cfg st)) (if cfgName = [] then ''config.yaml'' else cfgName) [] of
           (Some err, cfg) \<Rightarrow> (CmdPanicked (ce_error_text X err), st\<lparr>cl_cfg := cfg\<rparr>)
         | (None, cfg) \<Rightarrow>
             (case SetNewGlobalLoggerOnce (ce_parse_level X) (ce_zap_Open X) (sc_Logging cfg) (cl_log st) of
                (SetPanics p, lg) \<Rightarrow> (CmdPanicked p, st\<lparr>cl_cfg := cfg, cl_log := lg\<rparr>)
              | (ExitsWith n _, lg) \<Rightarrow> (CmdExited n, st\<lparr>cl_cfg := cfg, cl_log := lg\<rparr>)
              | (GotSink _, lg) \<Rightarrow>
                  (case ce_yaml X cfg of
                     Inl err \<Rightarrow> (CmdPanicked (ce_error_text X err), st\<lparr>cl_cfg := cfg, cl_log := lg\<rparr>)
                   | Inr _ \<Rightarrow> (CmdReturned None, st\<lparr>cl_cfg := cfg, cl_log := log_global DebugLevel ''running with config'' lg\<rparr>)))))"

text \<open>\<open>ctl.Init\<close> and the \<open>Init\<close> of the two groups: a storage that is ready, and the controller on it.\<close>

definition ctl_Init ::
    "('d, 'db, 'c, 'v, 'r) rdb_lib \<Rightarrow> ('db \<Rightarrow> gerr option) \<Rightarrow> static_Config \<Rightarrow> ('d, 'db) rdb_world \<Rightarrow>
     ((gerr + 'db Ctl) \<times> ('d, 'db) rdb_world) panics" where
  "ctl_Init L ping cfg w =
     bind_sum (Storage_Ready L ping (rdb_New (sc_PostgresRW cfg)) w) (\<lambda>(err, db, w').
       Inr (case err of
              Some e \<Rightarrow> (Inl (FmtWrap ''error creating storage'' e), w')
            | None \<Rightarrow>
                (case controllerv1_New (sc_Ctlv1 cfg) (sc_OpenAI cfg) db of
                   Inl e \<Rightarrow> (Inl (FmtWrap ''error creating controller'' e), w')
                 | Inr ctl \<Rightarrow> (Inr ctl, w'))))"

definition group_Init ::
    "('d, 'db, 'c, 'v, 'r) rdb_lib \<Rightarrow> ('db \<Rightarrow> gerr option) \<Rightarrow> ('s, 'd, 'db) cli_state \<Rightarrow> cmd_end \<times> ('s, 'd, 'db) cli_state" where
  "group_Init L ping st =
     (case ctl_Init L ping (cl_cfg st) (cl_world st) of
        Inl p \<Rightarrow> (CmdPanicked p, st)
      | Inr (Inl err, w) \<Rightarrow> (CmdReturned (Some (FmtWrap ''error in controller init'' err)), st\<lparr>cl_world := w\<rparr>)
      | Inr (Inr ctl, w) \<Rightarrow> (CmdReturned None, st\<lparr>cl_world := w, cl_ctl := Some ctl\<rparr>))"

definition RunParentPersistentPreRun :: "(command \<Rightarrow> command \<Rightarrow> 'st \<Rightarrow> cmd_end \<times> 'st) \<Rightarrow> command \<Rightarrow> 'st \<Rightarrow> cmd_end \<times> 'st" where
  "RunParentPersistentPreRun PersistentPreRunE cmd st =
     (case cmd_Parent cmd of None \<Rightarrow> (CmdReturned None, st) | Some p \<Rightarrow> PersistentPreRunE p p st)"

lemma RunParent_cong [fundef_cong]:
  assumes "cmd = cmd'" "st = st'" and "\<And>p. cmd_Parent cmd' = Some p \<Longrightarrow> f p p st' = g p p st'"
  shows "RunParentPersistentPreRun f cmd st = RunParentPersistentPreRun g cmd' st'"
  using assms by (auto simp: RunParentPersistentPreRun_def split: option.split)

text \<open>\<open>run_hook X L ping cfgName owner cmd\<close> is the call of \<open>owner.PersistentPreRunE(cmd, args)\<close>; the hook of a group begins with \<open>RunParentPersistentPreRun\<close>, which calls the hook
  of the parent of the command it was given. Commands other than the root and the groups have no hook, so that calling it is a nil dereference.\<close>

function run_hook ::
    "('s, 'b) cli_env \<Rightarrow> ('d, 'db, 'c, 'v, 'r) rdb_lib \<Rightarrow> ('db \<Rightarrow> gerr option) \<Rightarrow> string \<Rightarrow> command \<Rightarrow> command \<Rightarrow>
     ('s, 'd, 'db) cli_state \<Rightarrow> cmd_end \<times> ('s, 'd, 'db) cli_state" where
  "run_hook X L ping cfgName owner cmd st =
     (if owner = RootCmd then root_PersistentPreRun X cfgName cmd st
      else if owner = TelegramCmd \<or> owner = EmbeddingsCmd then
        then_run (RunParentPersistentPreRun (run_hook X L ping cfgName) cmd st) (group_Init L ping)
      else (CmdPanicked ''invalid memory address or nil pointer dereference'', st))"
  by pat_completeness auto
termination by (relation "measure (\<lambda>(X, L, ping, cfgName, owner, cmd, st). cmd_depth cmd)") (auto dest: cmd_depth_parent)

declare run_hook.simps [simp del]

definition has_hook :: "command \<Rightarrow> bool" where
  "has_hook c \<longleftrightarrow> c \<in> {RootCmd, TelegramCmd, EmbeddingsCmd}"

text \<open>What cobra documents: the first of the command and its ancestors with a hook is called, and the hook gets the command that was asked for.\<close>

definition nearest_hook :: "(command \<Rightarrow> command \<times> command) \<Rightarrow> bool" where
  "nearest_hook runs \<longleftrightarrow>
     (\<forall>c. runs c = (if has_hook c then c else case cmd_Parent c of Some p \<Rightarrow> p | None \<Rightarrow> c, c))"

definition pre_run ::
    "(command \<Rightarrow> command \<times> command) \<Rightarrow> ('s, 'b) cli_env \<Rightarrow> ('d, 'db, 'c, 'v, 'r) rdb_lib \<Rightarrow> ('db \<Rightarrow> gerr option) \<Rightarrow> string \<Rightarrow> command \<Rightarrow>
     ('s, 'd, 'db) cli_state \<Rightarrow> cmd_end \<times> ('s, 'd, 'db) cli_state" where
  "pre_run runs X L ping cfgName c st = (case runs c of (owner, cmd) \<Rightarrow> run_hook X L ping cfgName owner cmd st)"

section \<open>The commands\<close>

text \<open>What a command does after the hooks: \<open>Inl\<close> is a panic; else its error and what it prints. \<open>args\<close> are its arguments and \<open>print\<close> the error of writing, if any.\<close>

definition print_result :: "(string \<Rightarrow> gerr option) \<Rightarrow> string \<Rightarrow> gerr option \<times> string" where
  "print_result print s = (print s, s)"

definition completion_RunE ::
    "(string \<Rightarrow> gerr option) \<Rightarrow> 'v env \<Rightarrow> go_time \<Rightarrow> string list \<Rightarrow> cache \<Rightarrow> ((gerr option \<times> string) \<times> cache) panics" where
  "completion_RunE print E now args c =
     (case args of
        [] \<Rightarrow> Inl ''index out of range [0] with length 0''
      | q # _ \<Rightarrow>
          bind_sum (TryCompletion E now 0 q c) (\<lambda>(r, c').
            Inr (case r of Inl err \<Rightarrow> ((Some err, []), c') | Inr resp \<Rightarrow> (print_result print (Response resp), c'))))"

fun print_all :: "(string \<Rightarrow> gerr option) \<Rightarrow> string list \<Rightarrow> gerr option \<times> string" where
  "print_all print [] = (None, [])"
| "print_all print (t # ts) =
     (case print t of Some err \<Rightarrow> (Some err, t) | None \<Rightarrow> (case print_all print ts of (e, s) \<Rightarrow> (e, t @ s)))"

definition try_RunE :: "(string \<Rightarrow> gerr option) \<Rightarrow> 'v env \<Rightarrow> go_time \<Rightarrow> string list \<Rightarrow> (gerr option \<times> string) panics" where
  "try_RunE print E now args =
     (case args of
        [] \<Rightarrow> Inl ''index out of range [0] with length 0''
      | q # _ \<Rightarrow> bind_sum (TryEmbedding E now q) (\<lambda>r. Inr (case r of Inl err \<Rightarrow> (Some err, []) | Inr texts \<Rightarrow> print_all print texts)))"

text \<open>\<open>yaml\<close> is the text that \<open>yamlfromstruct.Generate\<close> gives for the empty result. \<open>None\<close> means that the story does not end.\<close>

definition generate_RunE ::
    "(string \<Rightarrow> gerr option) \<Rightarrow> string \<Rightarrow> 'f gen_env \<Rightarrow> 'f tables \<Rightarrow> ((gerr option \<times> string) panics \<times> 'f tables) option" where
  "generate_RunE print yaml G db =
     map_option (\<lambda>(r, db'). (bind_sum r (\<lambda>err. Inr (case err of Some e \<Rightarrow> (Some e, []) | None \<Rightarrow> print_result print yaml)), db')) (GenerateEmbeddings G db)"

definition load_RunE ::
    "(string \<Rightarrow> gerr option) \<Rightarrow> string \<Rightarrow> (string \<Rightarrow> gerr + string) \<Rightarrow> (string \<Rightarrow> string \<Rightarrow> 'w \<Rightarrow> gerr option \<times> 'w) \<Rightarrow> string \<Rightarrow> string \<Rightarrow> 'w \<Rightarrow>
     (gerr option \<times> string) \<times> 'w" where
  "load_RunE print yaml os_ReadFile dump filename chatID w =
     (case os_ReadFile filename of
        Inl err \<Rightarrow> ((Some (FmtWrap ''cannot open file'' err), []), w)
      | Inr file \<Rightarrow>
          (case dump chatID file w of
             (Some err, w') \<Rightarrow> ((Some err, []), w')
           | (None, w') \<Rightarrow> (print_result print yaml, w')))"

definition version_RunE :: "(string \<Rightarrow> gerr option) \<Rightarrow> string \<Rightarrow> gerr option \<times> string" where
  "version_RunE print yaml = print_result print yaml"

definition configgen_RunE :: "(static_Config \<Rightarrow> gerr + string) \<Rightarrow> ctl_Config \<Rightarrow> static_Config \<Rightarrow> gerr option \<times> string" where
  "configgen_RunE yaml texts z =
     (case yaml (exampleConfigForUsers texts z) of
        Inl err \<Rightarrow> (Some (FmtWrap ''could not marshal config'' err), [])
      | Inr marshalled \<Rightarrow> (None, marshalled))"

text \<open>The bot is started in a goroutine of its own and stopped when the context is done.\<close>

datatype bot_event = BotStart | ContextEnd | BotStop

definition bot_RunE :: "(string \<Rightarrow> gerr + 'b) \<Rightarrow> tg_Config \<Rightarrow> gerr option \<times> bot_event list" where
  "bot_RunE telebot_NewBot cfg =
     (case telebot_NewBot (tg_Token cfg) of
        Inl err \<Rightarrow> (Some (FmtWrap ''new bot'' err), [])
      | Inr b \<Rightarrow> (None, [BotStart, ContextEnd, BotStop]))"

text \<open>The handler of \<open>/start\<close>.\<close>

definition OnStart :: "tg_Config \<Rightarrow> bot_action" where "OnStart cfg = SendToSender (tg_Greeting cfg)"

text \<open>\<open>Execute\<close> of package \<open>internal\<close>, given how the library ended: an error is logged, by a logger that is made if there is none, and ends the process.\<close>

definition Execute_cmd ::
    "('s, 'b) cli_env \<Rightarrow> cmd_end \<times> ('s, 'd, 'db) cli_state \<Rightarrow> cmd_end \<times> ('s, 'd, 'db) cli_state" where
  "Execute_cmd X r =
     (case r of
        (CmdReturned (Some err), st) \<Rightarrow>
          (case SetNewGlobalLoggerQuietly (ce_parse_level X) (ce_zap_Open X) logger_DefaultConfig (cl_log st) of
             (SetPanics p, lg) \<Rightarrow> (CmdPanicked p, st\<lparr>cl_log := lg\<rparr>)
           | (ExitsWith n _, lg) \<Rightarrow> (CmdExited n, st\<lparr>cl_log := lg\<rparr>)
           | (GotSink _, lg) \<Rightarrow>
               (CmdExited 1, st\<lparr>cl_log := log_global ErrorLevel (ce_error_text X (FmtWrap ''error executing root command'' err)) lg\<rparr>))
      | (e, st) \<Rightarrow> (e, st))"

section \<open>Small parts\<close>

text \<open>The settings of a build, if the binary has them, in their order.\<close>

record BuildInfo =
  CleanTree :: bool
  Commit :: string
  build_Time :: string

definition build_setting :: "string \<times> string \<Rightarrow> BuildInfo \<Rightarrow> BuildInfo" where
  "build_setting kv b =
     (if fst kv = ''vcs.modified'' then b\<lparr>CleanTree := snd kv = ''false''\<rparr>
      else if fst kv = ''vcs.revision'' then b\<lparr>Commit := snd kv\<rparr>
      else if fst kv = ''vcs.time'' then b\<lparr>build_Time := snd kv\<rparr>
      else b)"

definition getBuildInfo :: "(string \<times> string) list option \<Rightarrow> BuildInfo" where
  "getBuildInfo info =
     (let result = \<lparr>CleanTree = False, Commit = [], build_Time = []\<rparr>
      in case info of None \<Rightarrow> result | Some settings \<Rightarrow> fold build_setting settings result)"

text \<open>A flag with a secret.\<close>

definition SecretFlag_String :: "'o secret \<Rightarrow> string" where "SecretFlag_String v = secret_String v"
definition SecretFlag_Get :: "'o secret \<Rightarrow> 'o secret" where "SecretFlag_Get v = v"
definition SecretFlag_Set :: "string \<Rightarrow> gerr option \<times> 'o secret" where "SecretFlag_Set s2 = (None, SecretString s2)"
definition SecretFlag_Type :: string where "SecretFlag_Type = ''secret string''"

text \<open>The application \<open>appv1\<close>, which logs one message of the history: \<open>Inl\<close> is the text of the line with which the process exits.\<close>

datatype tg_msg = TextMessage string | OtherMessage
datatype tg_history = MessagesMessages "tg_msg list" | OtherMessages

definition appv1_New :: "gerr option \<Rightarrow> tg_history \<times> gerr option \<Rightarrow> string + string" where
  "appv1_New ping history =
     (if ping \<noteq> None then Inl ''failed to ping''
      else case fst history of
             MessagesMessages [] \<Rightarrow> Inl ''no messages''
           | MessagesMessages (TextMessage t # _) \<Rightarrow> if snd history \<noteq> None then Inl ''failed to get history'' else Inr t
           | MessagesMessages (OtherMessage # _) \<Rightarrow> Inl ''unexpected msg type''
           | OtherMessages \<Rightarrow> Inl ''unexpected msgs type'')"

section \<open>What happens before a command\<close>

definition story_commands :: "command set" where
  "story_commands = {BotCmd, LoadCmd, CompletionCmd, TryCmd, GenerateCmd}"

lemma pre_run_story:
  assumes "nearest_hook runs" and "c \<in> story_commands"
  shows "pre_run runs X L ping cfgName c st =
    then_run (then_run (root_PersistentPreRun X cfgName RootCmd st) (group_Init L ping)) (group_Init L ping)"
proof -
  obtain g where g: "cmd_Parent c = Some g" "g = TelegramCmd \<or> g = EmbeddingsCmd" "cmd_Parent g = Some RootCmd" "\<not> has_hook c"
    using assms(2) by (auto simp: story_commands_def has_hook_def)
  then have "runs c = (g, c)" using assms(1) by (simp add: nearest_hook_def)
  then have "pre_run runs X L ping cfgName c st = then_run (run_hook X L ping cfgName g g st) (group_Init L ping)"
    using g(1,2) by (auto simp: pre_run_def RunParentPersistentPreRun_def run_hook.simps [of X L ping cfgName g c st])
  moreover have "run_hook X L ping cfgName g g st = then_run (run_hook X L ping cfgName RootCmd RootCmd st) (group_Init L ping)"
    using g(2,3) by (auto simp: RunParentPersistentPreRun_def run_hook.simps [of X L ping cfgName g g st])
  ultimately show ?thesis by (simp add: run_hook.simps [of X L ping cfgName RootCmd RootCmd st])
qed

lemma pre_run_root:
  assumes "nearest_hook runs" and "c \<in> {VersionCmd, ConfiggenCmd}"
  shows "pre_run runs X L ping cfgName c st = root_PersistentPreRun X cfgName c st"
proof -
  have "runs c = (RootCmd, c)" using assms by (auto simp: nearest_hook_def has_hook_def)
  then show ?thesis by (simp add: pre_run_def run_hook.simps [of X L ping cfgName RootCmd c st])
qed

lemma group_Init_works:
  assumes "working_lib L" and "rc_DSN (sc_PostgresRW (cl_cfg st)) \<noteq> []" and "slots_taken k (cl_world st)" and "k < 1000" and "\<forall>db. ping db = None"
  shows "\<exists>st' ctl. group_Init L ping st = (CmdReturned None, st') \<and> cl_cfg st' = cl_cfg st \<and> cl_log st' = cl_log st \<and> slots_taken (Suc k) (cl_world st') \<and>
    length (rw_handles (cl_world st')) = Suc (length (rw_handles (cl_world st))) \<and> cl_ctl st' = Some ctl \<and> ctl_cfg ctl = sc_Ctlv1 (cl_cfg st) \<and> \<not> ctl_cleaning ctl"
proof -
  let ?d = "rdb_New (sc_PostgresRW (cl_cfg st))"
  have d: "rdb_session ?d = None" "rc_DSN (rdb_conf ?d) \<noteq> []" using assms(2) by (simp_all add: rdb_New_def)
  obtain db w' where "slots_taken (Suc k) w'" "length (rw_handles w') = Suc (length (rw_handles (cl_world st)))"
      "rdb_Ready L ping ?d (cl_world st) = (None, ?d\<lparr>rdb_session := Some \<lparr>se_handle = db, se_mapper = None\<rparr>\<rparr>, w')"
    using Ready_step(1) [OF assms(1) d assms(3,4), of ping] assms(5) by auto
  then show ?thesis
    by (simp add: group_Init_def ctl_Init_def Storage_Ready_def MapperFunc_def with_session_def controllerv1_New_def)
qed

text \<open>C30: Before a command of the bot or of the embeddings the controller is set up twice, as the hook of its group is called once by the library, with the command, and once by
  itself, as the parent of the command: the database is connected twice, and the first connection is never used or closed. The process that removes old explanations is
  not started. Before the version is printed, no database is connected.\<close>

theorem controller_set_up_twice:
  assumes "nearest_hook runs" and "c \<in> story_commands"
    and "root_PersistentPreRun X cfgName RootCmd st = (CmdReturned None, st1)" and "rc_DSN (sc_PostgresRW (cl_cfg st1)) \<noteq> []"
    and "working_lib L" and "slots_taken k (cl_world st)" and "k < 999" and "\<forall>db. ping db = None"
  shows "\<exists>st' ctl. pre_run runs X L ping cfgName c st = (CmdReturned None, st') \<and>
    length (rw_handles (cl_world st')) = length (rw_handles (cl_world st)) + 2 \<and>
    cl_ctl st' = Some ctl \<and> ctl_cfg ctl = sc_Ctlv1 (cl_cfg st1) \<and> \<not> ctl_cleaning ctl \<and>
    (case pre_run runs X L ping cfgName VersionCmd st of (_, st'') \<Rightarrow> cl_world st'' = cl_world st)"
proof -
  have world: "cl_world (snd (root_PersistentPreRun X cfgName cmd st)) = cl_world st" for cmd
    by (simp add: root_PersistentPreRun_def split: prod.split option.split set_result.split sum.split)
  then have w1: "cl_world st1 = cl_world st" using assms(3) by (metis snd_conv)
  obtain st2 where st2: "group_Init L ping st1 = (CmdReturned None, st2)" "cl_cfg st2 = cl_cfg st1" "slots_taken (Suc k) (cl_world st2)"
      "length (rw_handles (cl_world st2)) = Suc (length (rw_handles (cl_world st1)))"
    using group_Init_works [OF assms(5,4), of k ping] assms(6-8) w1 by auto
  obtain st' ctl where st': "group_Init L ping st2 = (CmdReturned None, st')" "length (rw_handles (cl_world st')) = Suc (length (rw_handles (cl_world st2)))"
      "cl_ctl st' = Some ctl" "ctl_cfg ctl = sc_Ctlv1 (cl_cfg st2)" "\<not> ctl_cleaning ctl"
    using group_Init_works [OF assms(5) _ st2(3), of ping] assms(4,7,8) st2(2) by auto
  have "pre_run runs X L ping cfgName c st = (CmdReturned None, st')"
    unfolding pre_run_story [OF assms(1,2)] assms(3) by (simp add: then_run_def st2(1) st'(1))
  moreover have "cl_world (snd (pre_run runs X L ping cfgName VersionCmd st)) = cl_world st"
    by (simp add: pre_run_root [OF assms(1)] world)
  ultimately show ?thesis using st' st2(2,4) w1 by (auto split: prod.split)
qed

definition sample_texts :: ctl_Config where
  "sample_texts = \<lparr>cc_HelpText = ''h'', cc_NewsText = ''n'', cc_NoExplainedAnswer = ''e'', cc_NoResultsAnswer = ''r'', cc_StaleResponsesText = ''s'',
     cc_FreshResponsesText = ''f'', cc_StaleThreshold = 0\<rparr>"

definition sample_static :: static_Config where
  "sample_static = \<lparr>sc_Ctlv1 = sample_texts, sc_PostgresRW = rdb_DefaultConfig, sc_OpenAI = oai_DefaultConfig, sc_Logging = logger_DefaultConfig,
     sc_TelegramTransport = \<lparr>tg_Token = ''t'', tg_Greeting = ''g''\<rparr>, sc_TelegramV2 = v2_DefaultConfig\<rparr>"

definition sample_cli :: "(string, unit) cli_env" where
  "sample_cli = \<lparr>ce_path_Join = concat, ce_user = Inr ''/root'', ce_load = (\<lambda>_ cfg. (None, cfg)), ce_yaml = (\<lambda>_. Inr ''cfg''), ce_texts = sample_texts,
     ce_parse_level = (\<lambda>_. Inr DebugLevel), ce_zap_Open = (\<lambda>s. Inr s), ce_error_text = (\<lambda>_. ''error'')\<rparr>"

definition sample_cli_state :: "(string, string, string) cli_state" where
  "sample_cli_state = \<lparr>cl_cfg = sample_static, cl_log = initial_logger, cl_world = no_world, cl_ctl = None\<rparr>"

definition cobra_runs :: "command \<Rightarrow> command \<times> command" where
  "cobra_runs c = (if has_hook c then c else case cmd_Parent c of Some p \<Rightarrow> p | None \<Rightarrow> c, c)"

theorem controller_set_up_twice_witness:
  "\<exists>st'. pre_run cobra_runs sample_cli sample_rdb_lib (\<lambda>_. None) [] BotCmd sample_cli_state = (CmdReturned None, st') \<and> length (rw_handles (cl_world st')) = 2"
proof -
  have runs: "nearest_hook cobra_runs" by (simp add: nearest_hook_def cobra_runs_def)
  have "\<exists>st1. root_PersistentPreRun sample_cli [] RootCmd sample_cli_state = (CmdReturned None, st1) \<and> rc_DSN (sc_PostgresRW (cl_cfg st1)) \<noteq> []"
    by (simp add: root_PersistentPreRun_def sample_cli_def sample_cli_state_def config_Load_def Config_DefaultConfig_def static_Validate_def sample_static_def
        v2_Validate_def v2_DefaultConfig_def errors_Join_def SetNewGlobalLoggerOnce_def SetNewGlobalLoggerOnceWithUnfiltered_def initial_logger_def
        logger_DefaultConfig_def postgres_Default_def rdb_DefaultConfig_def lit_def Let_def)
  then obtain st1 where st1: "root_PersistentPreRun sample_cli [] RootCmd sample_cli_state = (CmdReturned None, st1)" "rc_DSN (sc_PostgresRW (cl_cfg st1)) \<noteq> []"
    by blast
  have "slots_taken 0 (cl_world sample_cli_state)" by (simp add: slots_taken_def sample_cli_state_def no_world_def)
  from controller_set_up_twice [OF runs _ st1 sample_rdb_lib_works this, of BotCmd "\<lambda>_. None"] show ?thesis
    by (auto simp: story_commands_def sample_cli_state_def no_world_def)
qed



end
