(* ===== verification/Test_Containers.thy ===== *)
theory Test_Containers
  imports Url Test_Databases Clickhouse
begin

text \<open>
  The servers of tests: containers and their addresses (\<open>internal/testtooling/container\<close>), and the data sources that create and drop databases in them
  (\<open>internal/testtooling/datasource\<close>).

  Docker is the parameter \<open>docker\<close> with a state of its own; the state \<open>docker_world\<close> also holds the containers and the networks that were started and not removed.
  IP addresses are their texts, a port is its number with its protocol, and ports are given in the order in which the map of them is iterated. Connection strings are parsed by the functions of \<open>Url\<close>.
\<close>

section \<open>Addresses\<close>

record Address =
  ad_host :: string
  ad_port :: string
  ad_proto :: string

definition NewAddress :: "string \<Rightarrow> string \<Rightarrow> string \<Rightarrow> Address" where
  "NewAddress host port proto = \<lparr>ad_host = host, ad_port = port, ad_proto = proto\<rparr>"

definition Address_String :: "Address \<Rightarrow> string" where
  "Address_String a = ad_proto a @ ''://'' @ ad_host a @ '':'' @ ad_port a"

definition StringWithoutProto :: "Address \<Rightarrow> string" where
  "StringWithoutProto a = ad_host a @ '':'' @ ad_port a"

definition zero_Address :: Address where "zero_Address = NewAddress [] [] []"

definition isIPv6 :: "string \<Rightarrow> bool" where
  "isIPv6 address \<longleftrightarrow> length (filter ((=) (CHR '':'')) address) \<ge> 2"

section \<open>Docker\<close>

type_synonym nat_port = "string \<times> string"
type_synonym port_binding = "string \<times> string"

text \<open>What a container is started with: the image, user, password and database, if any, the name of the host, and the networks.\<close>

record run_request =
  rq_Image :: string
  rq_Credentials :: "(string \<times> string \<times> string) option"
  rq_Hostname :: string
  rq_Networks :: "string list"

record ('c, 's) docker =
  dk_Run :: "run_request \<Rightarrow> 's \<Rightarrow> (gerr + 'c) \<times> 's"
  dk_Host :: "'c \<Rightarrow> 's \<Rightarrow> gerr + string"
  dk_Ports :: "'c \<Rightarrow> 's \<Rightarrow> gerr + (nat_port \<times> port_binding list) list"
  dk_Terminate :: "'c \<Rightarrow> 's \<Rightarrow> gerr option \<times> 's"
  dk_NewNetwork :: "'s \<Rightarrow> (gerr + string) \<times> 's"
  dk_RemoveNetwork :: "string \<Rightarrow> 's \<Rightarrow> gerr option \<times> 's"
  dk_ParseIP :: "string \<Rightarrow> string option"
  dk_LookupIP :: "string \<Rightarrow> gerr + string list"

record ('c, 's) docker_world =
  dw_state :: 's
  dw_running :: "'c list"
  dw_networks :: "string list"

definition docker_run :: "('c, 's) docker \<Rightarrow> run_request \<Rightarrow> ('c, 's) docker_world \<Rightarrow> (gerr + 'c) \<times> ('c, 's) docker_world" where
  "docker_run D req w =
     (case dk_Run D req (dw_state w) of
        (Inl err, s) \<Rightarrow> (Inl err, w\<lparr>dw_state := s\<rparr>)
      | (Inr c, s) \<Rightarrow> (Inr c, w\<lparr>dw_state := s, dw_running := c # dw_running w\<rparr>))"

definition docker_terminate :: "('c, 's) docker \<Rightarrow> 'c \<Rightarrow> ('c, 's) docker_world \<Rightarrow> gerr option \<times> ('c, 's) docker_world" where
  "docker_terminate D c w =
     (case dk_Terminate D c (dw_state w) of
        (Some err, s) \<Rightarrow> (Some err, w\<lparr>dw_state := s\<rparr>)
      | (None, s) \<Rightarrow> (None, w\<lparr>dw_state := s, dw_running := removeAll c (dw_running w)\<rparr>))"

section \<open>Containers\<close>

record 'c container =
  ct_sourceImage :: string
  ct_networks :: "string list"
  ct_container :: "'c option"
  ct_hostName :: string
  ct_exposedAddr :: Address

definition newContainer :: "string \<Rightarrow> 'c container" where
  "newContainer hostname = \<lparr>ct_sourceImage = [], ct_networks = [], ct_container = None, ct_hostName = hostname, ct_exposedAddr = zero_Address\<rparr>"

definition ExposedAddr :: "'c container \<Rightarrow> Address" where "ExposedAddr c = ct_exposedAddr c"

definition container_Stop :: "('c, 's) docker \<Rightarrow> 'c container \<Rightarrow> ('c, 's) docker_world \<Rightarrow> (gerr option \<times> ('c, 's) docker_world) panics" where
  "container_Stop D c w =
     (case ct_container c of
        None \<Rightarrow> Inl ''invalid memory address or nil pointer dereference''
      | Some ct \<Rightarrow> Inr (docker_terminate D ct w))"

text \<open>Options.\<close>

definition WithNetworks :: "string list \<Rightarrow> 'c container \<Rightarrow> 'c container" where
  "WithNetworks nets c =
     (let nets' = filter (\<lambda>s. s \<noteq> []) nets in if nets' \<noteq> [] then c\<lparr>ct_networks := nets'\<rparr> else c)"

definition WithImage :: "string \<Rightarrow> 'c container \<Rightarrow> 'c container" where "WithImage sourceImage c = c\<lparr>ct_sourceImage := sourceImage\<rparr>"
definition container_WithHostname :: "string \<Rightarrow> 'c container \<Rightarrow> 'c container" where "container_WithHostname hostname c = c\<lparr>ct_hostName := hostname\<rparr>"

subsection \<open>The address of a port\<close>

fun mapped_ports :: "nat_port \<Rightarrow> (nat_port \<times> port_binding list) list \<Rightarrow> port_binding list option" where
  "mapped_ports port [] = None"
| "mapped_ports port ((k, p) # ports) =
     (if fst k \<noteq> fst port \<or> (snd port \<noteq> [] \<and> snd k \<noteq> snd port) \<or> p = [] then mapped_ports port ports else Some p)"

definition mappedPorts :: "('c, 's) docker \<Rightarrow> 'c \<Rightarrow> nat_port \<Rightarrow> 's \<Rightarrow> gerr + port_binding list" where
  "mappedPorts D c port s =
     bind_sum (dk_Ports D c s) (\<lambda>ports. case mapped_ports port ports of Some p \<Rightarrow> Inr p | None \<Rightarrow> Inl (ErrNew ''port not found''))"

definition bool_text :: "bool \<Rightarrow> string" where "bool_text b = (if b then ''true'' else ''false'')"

definition resolve_host :: "('c, 's) docker \<Rightarrow> bool \<Rightarrow> string \<Rightarrow> gerr + string option" where
  "resolve_host D ipv6 host =
     (case dk_ParseIP D host of
        Some ip \<Rightarrow> Inr (Some ip)
      | None \<Rightarrow>
          (case dk_LookupIP D host of
             Inl err \<Rightarrow> Inl (FmtWrap ''error getting ip address'' err)
           | Inr ips \<Rightarrow> Inr (find (\<lambda>ip. isIPv6 ip = ipv6) ips)))"

definition portEndpoint :: "('c, 's) docker \<Rightarrow> 'c \<Rightarrow> nat_port \<Rightarrow> bool \<Rightarrow> 's \<Rightarrow> gerr + Address" where
  "portEndpoint D c port ipv6 s =
     bind_sum (dk_Host D c s) (\<lambda>host.
     bind_sum (resolve_host D ipv6 host) (\<lambda>addr.
       case addr of
         None \<Rightarrow> Inl (ErrNew (''error resolving address: '' @ host @ '', ipv6: '' @ bool_text ipv6))
       | Some ip \<Rightarrow>
           (case mappedPorts D c port s of
              Inl err \<Rightarrow> Inl (FmtWrap ''cannot found mapped port'' err)
            | Inr ports \<Rightarrow>
                (case find (\<lambda>p. isIPv6 (fst p) = ipv6) ports of
                   Some p \<Rightarrow> Inr (NewAddress ip (snd p) (snd port))
                 | None \<Rightarrow> Inl (ErrNew (''port not found, ipv6: '' @ bool_text ipv6))))))"

subsection \<open>The servers\<close>

text \<open>A server with a database: the container, the user, the password and the database.\<close>

record 'c db_container =
  dc_container :: "'c container"
  dc_username :: string
  dc_password :: string
  dc_dbName :: string

definition NewPostgres :: "string \<Rightarrow> string \<Rightarrow> string \<Rightarrow> ('c container \<Rightarrow> 'c container) list \<Rightarrow> 'c db_container" where
  "NewPostgres dbName username password opts =
     \<lparr>dc_container = fold (\<lambda>opt. opt) opts ((newContainer ''db'')\<lparr>ct_sourceImage := ''docker.io/postgres:14-alpine''\<rparr>),
      dc_username = username, dc_password = password, dc_dbName = dbName\<rparr>"

text \<open>\<open>u.Path[1:]\<close> panics on an empty path.\<close>

definition NewPostgresWithDSN :: "string \<Rightarrow> ('c container \<Rightarrow> 'c container) list \<Rightarrow> (string + 'c db_container) panics" where
  "NewPostgresWithDSN dsn opts =
     (case Url.url_Parse dsn of
        Inl err \<Rightarrow> Inr (Inl (''cannot parse dsn: '' @ err))
      | Inr u \<Rightarrow>
          if url_Path u = [] then Inl ''slice bounds out of range [1:0]''
          else Inr (Inr (NewPostgres (tl (url_Path u)) (userinfo_Username (url_User u)) (fst (userinfo_Password (url_User u))) opts)))"

definition NewClickhouse :: "string \<Rightarrow> string \<Rightarrow> string \<Rightarrow> ('c container \<Rightarrow> 'c container) list \<Rightarrow> 'c db_container" where
  "NewClickhouse dbName username password opts =
     \<lparr>dc_container = fold (\<lambda>opt. opt) opts (newContainer ''clickhouse''), dc_username = username, dc_password = password, dc_dbName = dbName\<rparr>"

definition NewZookeeper :: "('c container \<Rightarrow> 'c container) list \<Rightarrow> 'c container" where
  "NewZookeeper opts = fold (\<lambda>opt. opt) opts (newContainer ''zookeeper'')"

text \<open>What the runs of the two databases have in common: the container is kept only when its address is known.\<close>

definition run_database ::
    "('c, 's) docker \<Rightarrow> string \<Rightarrow> string \<Rightarrow> nat_port \<Rightarrow> 'c db_container \<Rightarrow> ('c, 's) docker_world \<Rightarrow> gerr option \<times> 'c db_container \<times> ('c, 's) docker_world" where
  "run_database D name img port c w =
     (case docker_run D \<lparr>rq_Image = img, rq_Credentials = Some (dc_username c, dc_password c, dc_dbName c),
                        rq_Hostname = ct_hostName (dc_container c), rq_Networks = ct_networks (dc_container c)\<rparr> w of
        (Inl err, w') \<Rightarrow> (Some (FmtWrap (''could not start '' @ name @ '' container'') err), c, w')
      | (Inr ct, w') \<Rightarrow>
          (case portEndpoint D ct port False (dw_state w') of
             Inl err \<Rightarrow> (Some (FmtWrap (''could not get '' @ name @ '' port'') err), c, w')
           | Inr addr \<Rightarrow> (None, c\<lparr>dc_container := (dc_container c)\<lparr>ct_container := Some ct, ct_exposedAddr := addr\<rparr>\<rparr>, w')))"

definition Postgres_Run :: "('c, 's) docker \<Rightarrow> 'c db_container \<Rightarrow> ('c, 's) docker_world \<Rightarrow> gerr option \<times> 'c db_container \<times> ('c, 's) docker_world" where
  "Postgres_Run D c w = run_database D ''postgres'' (ct_sourceImage (dc_container c)) (''5432'', ''tcp'') c w"

definition Clickhouse_Run :: "('c, 's) docker \<Rightarrow> 'c db_container \<Rightarrow> ('c, 's) docker_world \<Rightarrow> gerr option \<times> 'c db_container \<times> ('c, 's) docker_world" where
  "Clickhouse_Run D c w = run_database D ''clickhouse'' ''clickhouse/clickhouse-server:23.8'' (''9000'', ''tcp'') c w"

definition Zookeeper_Run :: "('c, 's) docker \<Rightarrow> 'c container \<Rightarrow> ('c, 's) docker_world \<Rightarrow> gerr option \<times> 'c container \<times> ('c, 's) docker_world" where
  "Zookeeper_Run D c w =
     (case docker_run D \<lparr>rq_Image = ''zookeeper:3.7'', rq_Credentials = None, rq_Hostname = ct_hostName c, rq_Networks = ct_networks c\<rparr> w of
        (Inl err, w') \<Rightarrow> (Some (FmtWrap ''could not start clickhouse container'' err), c, w')
      | (Inr ct, w') \<Rightarrow> (None, c\<lparr>ct_container := Some ct\<rparr>, w'))"

text \<open>Networks.\<close>

definition NewNetwork :: "('c, 's) docker \<Rightarrow> ('c, 's) docker_world \<Rightarrow> (gerr + string) \<times> ('c, 's) docker_world" where
  "NewNetwork D w =
     (case dk_NewNetwork D (dw_state w) of
        (Inl err, s) \<Rightarrow> (Inl (FmtWrap ''cannot create network'' err), w\<lparr>dw_state := s\<rparr>)
      | (Inr n, s) \<Rightarrow> (Inr n, w\<lparr>dw_state := s, dw_networks := n # dw_networks w\<rparr>))"

definition Network_Name :: "string \<Rightarrow> string" where "Network_Name n = n"

definition Network_Close :: "('c, 's) docker \<Rightarrow> string \<Rightarrow> ('c, 's) docker_world \<Rightarrow> gerr option \<times> ('c, 's) docker_world" where
  "Network_Close D n w =
     (case dk_RemoveNetwork D n (dw_state w) of
        (Some err, s) \<Rightarrow> (Some err, w\<lparr>dw_state := s\<rparr>)
      | (None, s) \<Rightarrow> (None, w\<lparr>dw_state := s, dw_networks := removeAll n (dw_networks w)\<rparr>))"

section \<open>Data sources\<close>

subsection \<open>Postgres\<close>

record 'db pg_source =
  ps_managementDBName :: string
  ps_host :: string
  ps_conn :: "'db rdb_DB option"

definition NewPostgresConnection :: "string \<Rightarrow> 'db pg_source" where
  "NewPostgresConnection host = \<lparr>ps_managementDBName = ''postgres'', ps_host = host, ps_conn = None\<rparr>"

text \<open>The user and the password are taken unescaped out of the default connection string, which has only bytes for its characters.\<close>

definition defaultConfigWithDB :: "'db pg_source \<Rightarrow> string \<Rightarrow> rdb_Config panics" where
  "defaultConfigWithDB c dbName =
     (case Url.url_Parse (map char_of (rc_DSN rdb_DefaultConfig)) of
        Inl err \<Rightarrow> Inl err
      | Inr u \<Rightarrow>
          let user = userinfo_Username (url_User u) @ (case userinfo_Password (url_User u) of (pwd, found) \<Rightarrow> if found then '':'' @ pwd else [])
          in Inr (rdb_DefaultConfig\<lparr>rc_DSN := lit (''postgres://'' @ user @ ''@'' @ ps_host c @ ''/'' @ dbName), rc_SearchPath := ''public''\<rparr>))"

text \<open>\<open>exec\<close> is the execution of a statement on the handle of a session.\<close>

type_synonym ('db, 's) pg_exec = "'db \<Rightarrow> string \<Rightarrow> 's \<Rightarrow> gerr option \<times> 's"

definition pgs_Connect ::
    "('d, 'db, 'c, 'v, 'r) rdb_lib \<Rightarrow> ('db \<Rightarrow> gerr option) \<Rightarrow> string \<Rightarrow> 'db pg_source \<Rightarrow> ('d, 'db) rdb_world \<Rightarrow>
     ((gerr + 'db rdb_DB) \<times> 'db pg_source \<times> ('d, 'db) rdb_world) panics" where
  "pgs_Connect L ping dbName c w =
     bind_sum (defaultConfigWithDB c dbName) (\<lambda>cfg.
       Inr (case rdb_Ready L ping (rdb_New cfg) w of
              (Some err, db, w') \<Rightarrow> (Inl (FmtWrap ''db is not ready'' err), c\<lparr>ps_conn := Some db\<rparr>, w')
            | (None, db, w') \<Rightarrow> (Inr db, c\<lparr>ps_conn := Some db\<rparr>, w')))"

text \<open>A statement on the management database; the connection is closed only if the statement succeeds.\<close>

definition pgs_manage ::
    "('d, 'db, 'c, 'v, 'r) rdb_lib \<Rightarrow> ('db \<Rightarrow> gerr option) \<Rightarrow> ('db, 's) pg_exec \<Rightarrow> string \<Rightarrow> string \<Rightarrow> 'db pg_source \<Rightarrow> ('d, 'db) rdb_world \<times> 's \<Rightarrow>
     (gerr option \<times> ('d, 'db) rdb_world \<times> 's) panics" where
  "pgs_manage L ping exec stmt failure c st =
     bind_sum (defaultConfigWithDB c (ps_managementDBName c)) (\<lambda>cfg.
       case rdb_Ready L ping (rdb_New cfg) (fst st) of
         (Some err, _, w') \<Rightarrow> Inr (Some (FmtWrap ''db is not ready'' err), w', snd st)
       | (None, db, w') \<Rightarrow>
           bind_sum (with_session db (\<lambda>se. exec (se_handle se) stmt (snd st))) (\<lambda>(err, s').
             case err of
               Some e \<Rightarrow> Inr (Some (FmtWrap failure e), w', s')
             | None \<Rightarrow> bind_sum (rdb_Close L db w') (\<lambda>(err', w''). Inr (err', w'', s'))))"

definition pgs_CreateDatabase where
  "pgs_CreateDatabase L ping exec name c st = pgs_manage L ping exec (''CREATE DATABASE '' @ name) ''cannot create db'' c st"

definition pgs_DropDatabase where
  "pgs_DropDatabase L ping exec name c st = pgs_manage L ping exec (''DROP DATABASE '' @ name) ''cannot drop db'' c st"

definition pgs_Close ::
    "('d, 'db, 'c, 'v, 'r) rdb_lib \<Rightarrow> 'db pg_source \<Rightarrow> ('d, 'db) rdb_world \<Rightarrow> (gerr option \<times> ('d, 'db) rdb_world) panics" where
  "pgs_Close L c w =
     (case ps_conn c of None \<Rightarrow> Inl ''invalid memory address or nil pointer dereference'' | Some db \<Rightarrow> rdb_Close L db w)"

definition pgs_InitDBSchema :: "gerr + string \<Rightarrow> ('db, 's) pg_exec \<Rightarrow> 'db pg_source \<Rightarrow> 's \<Rightarrow> (gerr option \<times> 's) panics" where
  "pgs_InitDBSchema file exec c s =
     (case ps_conn c of
        None \<Rightarrow> Inr (Some (ErrNew ''not connected''), s)
      | Some db \<Rightarrow>
          (case file of
             Inl err \<Rightarrow> Inr (Some err, s)
           | Inr sql \<Rightarrow> with_session db (\<lambda>se. exec (se_handle se) sql s)))"

subsection \<open>ClickHouse\<close>

text \<open>The defaults; the password is the one of the environment. What the client does not read (the buckets, the interval of metrics, the periods per query) is not in the record.\<close>

definition chdb_DefaultConfig :: "string option \<Rightarrow> chdb_Config" where
  "chdb_DefaultConfig env =
     \<lparr>ch_Enabled = False, ch_ChcAddr = ''10.30.42.61:9000'', ch_ChcRoAddr = [], ch_Database = ''yanakipre'', ch_Username = ''default'',
      ch_ChcPassword = (case env of None \<Rightarrow> [] | Some v \<Rightarrow> v), ch_MaxOpenConns = 10, ch_MaxIdleConns = 10, ch_UseTls = False,
      ch_MaxExecutionTime = 60, ch_MaxQuerySize = 10 * 1024 * 1024, ch_MaxResultRows = 1000000, ch_MaxResultBytes = 10 * 1024 * 1024\<rparr>"

definition ManagementClickHouseDB :: string where "ManagementClickHouseDB = ''default''"

record 'k ch_source =
  hs_managementDBName :: string
  hs_host :: string
  hs_conn :: "'k DB option"

definition NewClickHouse :: "string \<Rightarrow> 'k ch_source" where
  "NewClickHouse host = \<lparr>hs_managementDBName = ManagementClickHouseDB, hs_host = host, hs_conn = None\<rparr>"

definition chs_config :: "string option \<Rightarrow> string \<Rightarrow> string \<Rightarrow> chdb_Config" where
  "chs_config env host dbName = (chdb_DefaultConfig env)\<lparr>ch_Database := dbName, ch_ChcAddr := host, ch_Enabled := True, ch_UseTls := False\<rparr>"

definition chs_Connect ::
    "('w, 'k, 'a, 'b) ch_lib \<Rightarrow> string option \<Rightarrow> string \<Rightarrow> 'k ch_source \<Rightarrow> ('w, 'k, 'a) ch_world \<Rightarrow> (gerr + 'k DB) \<times> 'k ch_source \<times> ('w, 'k, 'a) ch_world" where
  "chs_Connect L env dbName c w =
     (case chdb_Ready L (NewDB (chs_config env (hs_host c) dbName) False) w of
        (Some err, db, w') \<Rightarrow> (Inl (FmtWrap ''db is not ready'' err), c\<lparr>hs_conn := Some db\<rparr>, w')
      | (None, db, w') \<Rightarrow> (Inr db, c\<lparr>hs_conn := Some db\<rparr>, w'))"

text \<open>A statement on the management database: the connection of the data source is dropped, and the one of the statement is closed if the statement succeeds.\<close>

definition chs_manage ::
    "('w, 'k, 'a, 'b) ch_lib \<Rightarrow> string option \<Rightarrow> string \<Rightarrow> string \<Rightarrow> 'k ch_source \<Rightarrow> ('w, 'k, 'a) ch_world \<Rightarrow> gerr option \<times> 'k ch_source \<times> ('w, 'k, 'a) ch_world" where
  "chs_manage L env stmt failure c w =
     (case chs_Connect L env (hs_managementDBName c) c w of
        (Inl err, c1, w1) \<Rightarrow> (Some err, c1, w1)
      | (Inr conn, c1, w1) \<Rightarrow>
          (case ExecContext L conn stmt [] w1 of
             (Some err, w2) \<Rightarrow> (Some (FmtWrap failure err), c1\<lparr>hs_conn := None\<rparr>, w2)
           | (None, w2) \<Rightarrow> (case chdb_Close L conn w2 of (err, w3) \<Rightarrow> (err, c1\<lparr>hs_conn := None\<rparr>, w3))))"

definition chs_CreateDatabase ::
    "('w, 'k, 'a, 'b) ch_lib \<Rightarrow> string option \<Rightarrow> string \<Rightarrow> 'k ch_source \<Rightarrow> ('w, 'k, 'a) ch_world \<Rightarrow> gerr option \<times> 'k ch_source \<times> ('w, 'k, 'a) ch_world" where
  "chs_CreateDatabase L env name c w = chs_manage L env (''CREATE DATABASE '' @ name) ''cannot create db'' c w"

definition chs_DropDatabase ::
    "('w, 'k, 'a, 'b) ch_lib \<Rightarrow> string option \<Rightarrow> string \<Rightarrow> 'k ch_source \<Rightarrow> ('w, 'k, 'a) ch_world \<Rightarrow> gerr option \<times> 'k ch_source \<times> ('w, 'k, 'a) ch_world" where
  "chs_DropDatabase L env name c w = chs_manage L env (''DROP DATABASE '' @ name) ''cannot drop db'' c w"

text \<open>A method on no connection reads its configuration.\<close>

definition chs_Close :: "('w, 'k, 'a, 'b) ch_lib \<Rightarrow> 'k ch_source \<Rightarrow> ('w, 'k, 'a) ch_world \<Rightarrow> (gerr option \<times> ('w, 'k, 'a) ch_world) panics" where
  "chs_Close L c w =
     (case hs_conn c of None \<Rightarrow> Inl ''invalid memory address or nil pointer dereference'' | Some db \<Rightarrow> Inr (chdb_Close L db w))"

text \<open>The container of the migrations: started with its arguments and waited for, its exit code, and its logs, which are opened and read.\<close>

record ('c, 's) migrator =
  mg_Start :: "string list \<Rightarrow> 's \<Rightarrow> (gerr + 'c) \<times> 's"
  mg_ExitCode :: "'c \<Rightarrow> 's \<Rightarrow> gerr + int"
  mg_Logs :: "'c \<Rightarrow> 's \<Rightarrow> gerr + string"

definition migration_args :: "string \<Rightarrow> string \<Rightarrow> URL \<Rightarrow> string list" where
  "migration_args chPort dbName u =
     [''--clickhouse-url'', ''clickhouse://host.docker.internal:'' @ chPort @ ''?database='' @ dbName @ ''&x-multi-statement=true'',
      ''--console-postgres-conn'',
      ''postgres://'' @ userinfo_Username (url_User u) @ '':'' @ fst (userinfo_Password (url_User u)) @ ''@db:5432/'' @ tl (url_Path u)]"

definition migration_result :: "('c, 's) migrator \<Rightarrow> 'c \<Rightarrow> 's \<Rightarrow> gerr option" where
  "migration_result M ct s =
     (case mg_ExitCode M ct s of
        Inl err \<Rightarrow> Some err
      | Inr code \<Rightarrow>
          if code = 0 then None
          else
            (case mg_Logs M ct s of
               Inl err \<Rightarrow> Some err
             | Inr logs \<Rightarrow>
                 Some (WithFieldsErr (ErrNew ''container exited with a non-zero exit code'')
                   [\<lparr>f_key = ''logs'', f_value = StringType logs\<rparr>, \<lparr>f_key = ''exit_code'', f_value = Int64Type (of_int code)\<rparr>])))"

definition chs_InitDBSchema ::
    "('c, 's) docker \<Rightarrow> ('c, 's) migrator \<Rightarrow> string \<Rightarrow> string \<Rightarrow> 'k ch_source \<Rightarrow> ('c, 's) docker_world \<Rightarrow> (gerr option \<times> ('c, 's) docker_world) panics" where
  "chs_InitDBSchema D M pgDSN dbName c w =
     (if hs_conn c = None then Inr (Some (ErrNew ''not connected''), w)
      else
        (case split_byte (CHR '':'') (hs_host c) of
           _ # chPort # _ \<Rightarrow>
             (case Url.url_Parse (if pgDSN = [] then ''postgres://postgres:password@db:5432/yanakipre'' else pgDSN) of
                Inl err \<Rightarrow> Inr (Some (FmtWrap ''cannot parse dsn'' (ErrNew err)), w)
              | Inr u \<Rightarrow>
                  if url_Path u = [] then Inl ''slice bounds out of range [1:0]''
                  else
                    (case mg_Start M (migration_args chPort dbName u) (dw_state w) of
                       (Inl err, s) \<Rightarrow> Inr (Some err, w\<lparr>dw_state := s\<rparr>)
                     | (Inr ct, s) \<Rightarrow>
                         Inr (migration_result M ct s, snd (docker_terminate D ct (w\<lparr>dw_state := s, dw_running := ct # dw_running w\<rparr>)))))
         | _ \<Rightarrow> Inl ''index out of range [1] with length 1''))"

section \<open>Fixtures\<close>

text \<open>A fixture that fails ends its test: \<open>Fatalf\<close> does not return, and a panic is not recovered. The text of either may have an error in it.\<close>

datatype 'a fixture = FixtureValue 'a | FixtureFatal string gerr | FixturePanics string "gerr option"

definition RunClickhouseContainer ::
    "('c, 's) docker \<Rightarrow> string option \<Rightarrow> string \<Rightarrow> ('c, 's) docker_world \<Rightarrow> (gerr + 'c db_container) \<times> ('c, 's) docker_world" where
  "RunClickhouseContainer D env networkName w =
     (let chParams = chdb_DefaultConfig env in
      case Clickhouse_Run D (NewClickhouse ManagementClickHouseDB (ch_Username chParams) (ch_ChcPassword chParams) [WithNetworks [networkName]]) w of
        (Some err, _, w') \<Rightarrow> (Inl (FmtWrap ''cannot run ch container'' err), w')
      | (None, c, w') \<Rightarrow> (Inr c, w'))"

definition FixtureClickhouseContainer ::
    "('c, 's) docker \<Rightarrow> string option \<Rightarrow> ('c, 's) docker_world \<Rightarrow> (string \<times> 'c db_container) fixture \<times> ('c, 's) docker_world" where
  "FixtureClickhouseContainer D env w =
     (case NewNetwork D w of
        (Inl err, w1) \<Rightarrow> (FixtureFatal ''cannot create network'' err, w1)
      | (Inr net, w1) \<Rightarrow>
          (case RunClickhouseContainer D env (Network_Name net) w1 of
             (Inl err, w2) \<Rightarrow> (FixtureFatal ''cannot run clickhouse container'' err, w2)
           | (Inr c, w2) \<Rightarrow> (FixtureValue (net, c), w2)))"

text \<open>The body of \<open>FixtureEmptyClickHouseDB\<close> on a container that runs, and its cleanup. The state is the client's and the one of docker.\<close>

definition FixtureEmptyClickHouseDB ::
    "('w, 'k, 'a, 'b) ch_lib \<Rightarrow> ('c, 's) docker \<Rightarrow> ('c, 's) migrator \<Rightarrow> string option \<Rightarrow> 'c db_container \<Rightarrow> string \<Rightarrow> string \<Rightarrow>
     ('w, 'k, 'a) ch_world \<times> ('c, 's) docker_world \<Rightarrow> ('k DB \<times> 'k ch_source) fixture \<times> ('w, 'k, 'a) ch_world \<times> ('c, 's) docker_world" where
  "FixtureEmptyClickHouseDB L D M env cont pgDSN randDbName st =
     (case st of (w, dw) \<Rightarrow>
      case chs_CreateDatabase L env randDbName (NewClickHouse (StringWithoutProto (ExposedAddr (dc_container cont)))) w of
        (Some err, _, w1) \<Rightarrow> (FixtureFatal ''cannot create a new Clickhouse DB'' err, w1, dw)
      | (None, c1, w1) \<Rightarrow>
          (case chs_Connect L env randDbName c1 w1 of
             (Inl err, _, w2) \<Rightarrow> (FixtureFatal ''cannot connect to Clickhouse'' err, w2, dw)
           | (Inr conn, c2, w2) \<Rightarrow>
               (case chs_InitDBSchema D M pgDSN randDbName c2 dw of
                  Inl p \<Rightarrow> (FixturePanics p None, w2, dw)
                | Inr (Some err, dw') \<Rightarrow> (FixtureFatal ''cannot initialize Clickhouse schema'' err, w2, dw')
                | Inr (None, dw') \<Rightarrow> (FixtureValue (conn, c2), w2, dw'))))"

definition clickhouse_cleanup ::
    "('w, 'k, 'a, 'b) ch_lib \<Rightarrow> string option \<Rightarrow> string \<Rightarrow> 'k ch_source \<Rightarrow> ('w, 'k, 'a) ch_world \<Rightarrow> unit fixture \<times> ('w, 'k, 'a) ch_world" where
  "clickhouse_cleanup L env randDbName c w =
     (case chs_Close L c w of
        Inl p \<Rightarrow> (FixturePanics p None, w)
      | Inr (Some err, w1) \<Rightarrow> (FixtureFatal ''cannot close Clickhouse connection'' err, w1)
      | Inr (None, w1) \<Rightarrow>
          (case chs_DropDatabase L env randDbName c w1 of
             (Some err, _, w2) \<Rightarrow> (FixtureFatal ''cannot drop Clickhouse database'' err, w2)
           | (None, _, w2) \<Rightarrow> (FixtureValue (), w2)))"

section \<open>Addresses of ports\<close>

lemma mapped_ports_Some:
  "mapped_ports port ports = Some p \<Longrightarrow> p \<noteq> [] \<and> (\<exists>k. (k, p) \<in> set ports \<and> fst k = fst port \<and> (snd port = [] \<or> snd k = snd port))"
  by (induction port ports rule: mapped_ports.induct) (auto split: if_splits)

lemma mapped_ports_found:
  "(port, p) \<in> set ports \<Longrightarrow> p \<noteq> [] \<Longrightarrow> mapped_ports port ports \<noteq> None"
  by (induction port ports rule: mapped_ports.induct) auto

lemma find_in: "find P xs = Some x \<Longrightarrow> x \<in> set xs \<and> P x"
  by (erule find_SomeD) simp

text \<open>The address that is found is the one of a binding of the port, with its protocol and of the family that was asked for, on the address of the host: one of the family if
  the host is a name, and the address itself, of whatever family, if it is one.\<close>

theorem portEndpoint_sound:
  assumes "portEndpoint D c (number, proto) ipv6 s = Inr a" and "proto \<noteq> []"
  shows "\<exists>host ports bindings ip. dk_Host D c s = Inr host \<and> dk_Ports D c s = Inr ports \<and> ((number, proto), bindings) \<in> set ports \<and>
    (ip, ad_port a) \<in> set bindings \<and> isIPv6 ip = ipv6 \<and> ad_proto a = proto \<and>
    (case dk_ParseIP D host of
       Some addr \<Rightarrow> ad_host a = addr
     | None \<Rightarrow> isIPv6 (ad_host a) = ipv6 \<and> (\<exists>ips. dk_LookupIP D host = Inr ips \<and> ad_host a \<in> set ips))"
proof -
  obtain host addr where h: "dk_Host D c s = Inr host" "resolve_host D ipv6 host = Inr (Some addr)"
    using assms(1) by (auto simp: portEndpoint_def bind_sum_def split: sum.splits option.splits)
  then obtain bindings b where b: "mappedPorts D c (number, proto) s = Inr bindings" "find (\<lambda>p. isIPv6 (fst p) = ipv6) bindings = Some b"
    and a: "a = NewAddress addr (snd b) proto"
    using assms(1) by (auto simp: portEndpoint_def bind_sum_def split: sum.splits option.splits)
  obtain ports where p: "dk_Ports D c s = Inr ports" "mapped_ports (number, proto) ports = Some bindings"
    using b(1) by (auto simp: mappedPorts_def bind_sum_def split: sum.splits option.splits)
  have "((number, proto), bindings) \<in> set ports" using mapped_ports_Some [OF p(2)] assms(2) by auto
  moreover have "(fst b, ad_port a) \<in> set bindings \<and> isIPv6 (fst b) = ipv6" using find_in [OF b(2)] a by (simp add: NewAddress_def)
  moreover have "case dk_ParseIP D host of Some addr \<Rightarrow> ad_host a = addr
     | None \<Rightarrow> isIPv6 (ad_host a) = ipv6 \<and> (\<exists>ips. dk_LookupIP D host = Inr ips \<and> ad_host a \<in> set ips)"
    using h(2) find_in [of "\<lambda>ip. isIPv6 ip = ipv6"] by (auto simp: resolve_host_def a NewAddress_def split: option.splits sum.splits)
  moreover have "ad_proto a = proto" by (simp add: a NewAddress_def)
  ultimately show ?thesis using h(1) p(1) by blast
qed

section \<open>Containers that stay\<close>

text \<open>A run that succeeds has started one container, which \<open>Stop\<close> removes; its address is an address of the port. A run that fails after the container started leaves it running, and
  since the container is not kept there is nothing for \<open>Stop\<close> to remove: it panics.\<close>

lemma run_database_cases:
  obtains (started) ct s where "dk_Run D \<lparr>rq_Image = img, rq_Credentials = Some (dc_username c, dc_password c, dc_dbName c),
        rq_Hostname = ct_hostName (dc_container c), rq_Networks = ct_networks (dc_container c)\<rparr> (dw_state w) = (Inr ct, s)"
      "run_database D name img port c w =
        (let w' = w\<lparr>dw_state := s, dw_running := ct # dw_running w\<rparr> in
         case portEndpoint D ct port False s of
           Inl err \<Rightarrow> (Some (FmtWrap (''could not get '' @ name @ '' port'') err), c, w')
         | Inr addr \<Rightarrow> (None, c\<lparr>dc_container := (dc_container c)\<lparr>ct_container := Some ct, ct_exposedAddr := addr\<rparr>\<rparr>, w'))"
  | (not_started) err s where "run_database D name img port c w = (Some (FmtWrap (''could not start '' @ name @ '' container'') err), c, w\<lparr>dw_state := s\<rparr>)"
proof -
  obtain r s where run: "dk_Run D \<lparr>rq_Image = img, rq_Credentials = Some (dc_username c, dc_password c, dc_dbName c),
        rq_Hostname = ct_hostName (dc_container c), rq_Networks = ct_networks (dc_container c)\<rparr> (dw_state w) = (r, s)" by fastforce
  show ?thesis
  proof (cases r)
    case (Inl err)
    then show ?thesis using run not_started [of err s] by (simp add: run_database_def docker_run_def)
  next
    case (Inr ct)
    then show ?thesis using run started [of ct s] by (simp add: run_database_def docker_run_def Let_def)
  qed
qed

theorem run_database_lifetime:
  assumes "run_database D name img port c w = (res, c', w')" and "ct_container (dc_container c) = None"
    and "\<forall>req s ct s'. dk_Run D req s = (Inr ct, s') \<longrightarrow> ct \<notin> set (dw_running w)"
  shows "case res of
      None \<Rightarrow>
        (\<exists>ct. dw_running w' = ct # dw_running w \<and> portEndpoint D ct port False (dw_state w') = Inr (ExposedAddr (dc_container c')) \<and>
          (\<exists>err w2. container_Stop D (dc_container c') w' = Inr (err, w2) \<and> dw_running w2 = (if err = None then dw_running w else dw_running w')))
    | Some err \<Rightarrow>
        c' = c \<and> (\<exists>p. container_Stop D (dc_container c') w' = Inl p) \<and>
        (dw_running w' = dw_running w \<or> (\<exists>ct e. dw_running w' = ct # dw_running w \<and> portEndpoint D ct port False (dw_state w') = Inl e))"
proof (cases rule: run_database_cases [of D img c w name port])
  case (started ct s)
  then have new: "ct \<notin> set (dw_running w)" using assms(3) by blast
  show ?thesis
  proof (cases "portEndpoint D ct port False s")
    case (Inl e)
    then show ?thesis using started(2) assms(1,2) by (auto simp: Let_def container_Stop_def)
  next
    case (Inr addr)
    with started(2) assms(1) have r: "res = None" "c' = c\<lparr>dc_container := (dc_container c)\<lparr>ct_container := Some ct, ct_exposedAddr := addr\<rparr>\<rparr>"
      "w' = w\<lparr>dw_state := s, dw_running := ct # dw_running w\<rparr>" by (auto simp: Let_def)
    obtain err s' where t: "dk_Terminate D ct s = (err, s')" by fastforce
    then have "container_Stop D (dc_container c') w' =
        Inr (err, if err = None then w\<lparr>dw_state := s', dw_running := removeAll ct (dw_running w)\<rparr> else w'\<lparr>dw_state := s'\<rparr>)"
      by (auto simp: r container_Stop_def docker_terminate_def split: option.splits)
    with Inr show ?thesis using new by (auto simp: r ExposedAddr_def)
  qed
next
  case (not_started err s)
  then show ?thesis using assms(1,2) by (auto simp: container_Stop_def)
qed

section \<open>A server for a connection string\<close>

text \<open>The server that is made for the text of a connection is one for its user, its password and its database, whatever bytes they have; without a database making it panics.\<close>

theorem NewPostgresWithDSN_uri:
  assumes "host_name (cu_Host u)" and "0 \<le> cu_Port u"
  shows "NewPostgresWithDSN (ConnectionURI_string u) opts =
    (if cu_Database u = [] then Inl ''slice bounds out of range [1:0]''
     else Inr (Inr (NewPostgres (if hd (cu_Database u) = CHR ''/'' then tl (cu_Database u) else cu_Database u) (cu_User u) (cu_Password u) opts)))"
  using ConnectionURI_parsed [OF assms]
  by (auto simp: NewPostgresWithDSN_def uri_path_def userinfo_Username_def userinfo_Password_def)

section \<open>Connections of a data source\<close>

text \<open>What a statement on the management database leaves: closed connections if it succeeds. If it fails, the connection it was run on stays open and nothing refers to it.\<close>

lemma chdb_Ready_enabled:
  assumes "chdb_Ready L (NewDB cfg False) w = (None, db, w')" "ch_Enabled cfg"
  obtains conn where "cl_Open L (chOptions cfg (ch_ChcAddr cfg) (ch_ChcPassword cfg)) = Inr conn"
    "db = (NewDB cfg False)\<lparr>db_conn := Some conn\<rparr>" "w' = w\<lparr>w_open := conn # w_open w\<rparr>"
  using assms by (auto simp: chdb_Ready_def NewDB_def Let_def split: sum.splits option.splits)

lemma chs_config_enabled [simp]: "ch_Enabled (chs_config env host dbName)" "ch_ChcAddr (chs_config env host dbName) = host"
  by (simp_all add: chs_config_def)

lemma chs_Connect_ok:
  assumes "chs_Connect L env dbName c w = (Inr db, c', w')"
  obtains conn where "cl_Open L (chOptions (chs_config env (hs_host c) dbName) (hs_host c) (ch_ChcPassword (chs_config env (hs_host c) dbName))) = Inr conn"
    "db = (NewDB (chs_config env (hs_host c) dbName) False)\<lparr>db_conn := Some conn\<rparr>" "c' = c\<lparr>hs_conn := Some db\<rparr>" "w' = w\<lparr>w_open := conn # w_open w\<rparr>"
proof -
  have "chdb_Ready L (NewDB (chs_config env (hs_host c) dbName) False) w = (None, db, w')" "c' = c\<lparr>hs_conn := Some db\<rparr>"
    using assms by (auto simp: chs_Connect_def split: prod.splits option.splits)
  then show ?thesis using that chdb_Ready_enabled chs_config_enabled by metis
qed

lemma ExecContext_open:
  assumes "db_conn db = Some conn" "\<not> db_readOnly db" "ExecContext L db query args w = (err, w')"
  shows "w_open w' = w_open w" "(err, w_server w') = cl_Exec L conn query args (w_server w)"
  using assms by (auto simp: ExecContext_def on_server_def makeLoggerHook_def split: prod.splits)

theorem chs_manage_connections:
  assumes "chs_manage L env stmt failure c w = (err, c', w')"
    and "\<forall>opts k. cl_Open L opts = Inr k \<longrightarrow> k \<notin> set (w_open w) \<and> cl_Close L k = None"
  shows "case err of
      None \<Rightarrow> w_open w' = w_open w \<and> hs_conn c' = None \<and> (\<exists>k. cl_Exec L k stmt [] (w_server w) = (None, w_server w'))
    | Some e \<Rightarrow>
        (\<exists>k e'. e = FmtWrap failure e' \<and> cl_Exec L k stmt [] (w_server w) = (Some e', w_server w') \<and> w_open w' = k # w_open w \<and>
           chs_Close L c' w' = Inl ''invalid memory address or nil pointer dereference'') \<or>
        w_server w' = w_server w"
proof (cases "chs_Connect L env (hs_managementDBName c) c w")
  case (fields r c1 w1)
  show ?thesis
  proof (cases r)
    case (Inl e)
    then have "w_server w1 = w_server w"
      using fields by (auto simp: chs_Connect_def chdb_Ready_def NewDB_def Let_def split: sum.splits option.splits if_splits)
    with Inl fields show ?thesis using assms(1) by (auto simp: chs_manage_def)
  next
    case (Inr db)
    obtain conn where conn: "cl_Open L (chOptions (chs_config env (hs_host c) (hs_managementDBName c)) (hs_host c) (ch_ChcPassword (chs_config env (hs_host c) (hs_managementDBName c)))) = Inr conn"
      and db: "db = (NewDB (chs_config env (hs_host c) (hs_managementDBName c)) False)\<lparr>db_conn := Some conn\<rparr>" and w1: "w1 = w\<lparr>w_open := conn # w_open w\<rparr>"
      using chs_Connect_ok [OF fields [unfolded Inr]] by metis
    obtain e w2 where e: "ExecContext L db stmt [] w1 = (e, w2)" by fastforce
    have x: "w_open w2 = conn # w_open w" "cl_Exec L conn stmt [] (w_server w) = (e, w_server w2)"
      using ExecContext_open [OF _ _ e, of conn] by (auto simp: db NewDB_def w1)
    show ?thesis
    proof (cases e)
      case (Some f)
      then show ?thesis using assms(1) fields Inr e x by (auto simp: chs_manage_def chs_Close_def)
    next
      case None
      have "chdb_Close L db w2 = (None, w2\<lparr>w_open := w_open w\<rparr>)"
        using assms(2) conn x(1) by (auto simp: chdb_Close_def db NewDB_def removeAll_id)
      with None show ?thesis using assms(1) fields Inr e x by (auto simp: chs_manage_def)
    qed
  qed
qed

text \<open>The fixture of an empty ClickHouse database and its cleanup: whatever a test does on the server in between, if it leaves the connections alone then a cleanup that
  succeeds leaves no connection open that was not open before the fixture, and the last statement the server executed is the removal of the database that the first one created.\<close>

theorem clickhouse_fixture_cleanup:
  assumes "FixtureEmptyClickHouseDB L D M env cont pgDSN n (w, dw) = (FixtureValue (conn, c), w1, dw1)"
    and "w_open w2 = w_open w1" and "clickhouse_cleanup L env n c w2 = (FixtureValue (), w3)"
    and lib: "\<forall>opts k. cl_Open L opts = Inr k \<longrightarrow> k \<notin> set (w_open w) \<and> cl_Close L k = None"
  shows "w_open w3 = w_open w \<and> chdb_IsReady conn \<and> db_conn conn \<noteq> None \<and>
    (\<exists>k. cl_Exec L k (''CREATE DATABASE '' @ n) [] (w_server w) = (None, w_server w1)) \<and>
    (\<exists>k. cl_Exec L k (''DROP DATABASE '' @ n) [] (w_server w2) = (None, w_server w3))"
proof -
  obtain c1 v1 where create: "chs_CreateDatabase L env n (NewClickHouse (StringWithoutProto (ExposedAddr (dc_container cont)))) w = (None, c1, v1)"
    and connect: "chs_Connect L env n c1 v1 = (Inr conn, c, w1)"
    using assms(1) by (auto simp: FixtureEmptyClickHouseDB_def split: prod.splits option.splits sum.splits)
  have v1: "w_open v1 = w_open w" "\<exists>k. cl_Exec L k (''CREATE DATABASE '' @ n) [] (w_server w) = (None, w_server v1)"
    using chs_manage_connections [OF create [unfolded chs_CreateDatabase_def] lib] by simp_all
  obtain k where k: "cl_Open L (chOptions (chs_config env (hs_host c1) n) (hs_host c1) (ch_ChcPassword (chs_config env (hs_host c1) n))) = Inr k"
    and conn: "conn = (NewDB (chs_config env (hs_host c1) n) False)\<lparr>db_conn := Some k\<rparr>" and c: "c = c1\<lparr>hs_conn := Some conn\<rparr>"
    and w1: "w1 = v1\<lparr>w_open := k # w_open v1\<rparr>" using chs_Connect_ok [OF connect] by metis
  have ready: "chdb_IsReady conn" "db_conn conn = Some k" by (simp_all add: conn chdb_IsReady_def NewDB_def)
  have "chs_Close L c w2 = Inr (None, w2\<lparr>w_open := w_open w\<rparr>)"
    using lib k v1(1) assms(2) by (auto simp: chs_Close_def c w1 chdb_Close_def conn NewDB_def removeAll_id)
  then obtain c3 where drop: "chs_DropDatabase L env n c (w2\<lparr>w_open := w_open w\<rparr>) = (None, c3, w3)"
    using assms(3) by (auto simp: clickhouse_cleanup_def split: prod.splits option.splits)
  have "w_open w3 = w_open w" "\<exists>k. cl_Exec L k (''DROP DATABASE '' @ n) [] (w_server w2) = (None, w_server w3)"
    using chs_manage_connections [OF drop [unfolded chs_DropDatabase_def]] lib by simp_all
  with v1(2) ready show ?thesis by (simp add: w1)
qed

text \<open>A docker of one container at a time, a server that keeps the statements it executed, and migrations that succeed.\<close>

definition sample_docker :: "(unit, unit) docker" where
  "sample_docker =
     \<lparr>dk_Run = (\<lambda>_ s. (Inr (), s)), dk_Host = (\<lambda>_ _. Inr ''localhost''),
      dk_Ports = (\<lambda>_ _. Inr [((''9000'', ''tcp''), [(''::1'', ''32001''), (''0.0.0.0'', ''32000'')])]), dk_Terminate = (\<lambda>_ s. (None, s)),
      dk_NewNetwork = (\<lambda>s. (Inr ''net'', s)), dk_RemoveNetwork = (\<lambda>_ s. (None, s)), dk_ParseIP = (\<lambda>_. None), dk_LookupIP = (\<lambda>_. Inr [''::1'', ''127.0.0.1''])\<rparr>"

definition sample_migrator :: "(unit, unit) migrator" where
  "sample_migrator = \<lparr>mg_Start = (\<lambda>_ s. (Inr (), s)), mg_ExitCode = (\<lambda>_ _. Inr 0), mg_Logs = (\<lambda>_ _. Inr [])\<rparr>"

definition sample_docker_world :: "(unit, unit) docker_world" where
  "sample_docker_world = \<lparr>dw_state = (), dw_running = [], dw_networks = []\<rparr>"

lemma sample_endpoint:
  "portEndpoint sample_docker () (''9000'', ''tcp'') False () = Inr (NewAddress ''127.0.0.1'' ''32000'' ''tcp'')"
  by code_simp

lemma sample_fixture:
  "\<exists>conn c w1 dw1 w3. FixtureEmptyClickHouseDB sample_ch_lib sample_docker sample_migrator None
       ((NewClickhouse [] [] [] [])\<lparr>dc_container := (newContainer [])\<lparr>ct_exposedAddr := NewAddress ''127.0.0.1'' ''32000'' ''tcp''\<rparr>\<rparr>) [] ''db1'' (sample_world, sample_docker_world) =
     (FixtureValue (conn, c), w1, dw1) \<and> clickhouse_cleanup sample_ch_lib None ''db1'' c w1 = (FixtureValue (), w3)"
proof -
  have "case Url.url_Parse ''postgres://postgres:password@db:5432/yanakipre'' of Inl _ \<Rightarrow> False | Inr u \<Rightarrow> url_Path u \<noteq> []" by code_simp
  then obtain u where "Url.url_Parse ''postgres://postgres:password@db:5432/yanakipre'' = Inr u" "url_Path u \<noteq> []" by (auto split: sum.splits)
  then show ?thesis
    by (auto simp: FixtureEmptyClickHouseDB_def clickhouse_cleanup_def chs_CreateDatabase_def chs_DropDatabase_def chs_manage_def chs_Connect_def chs_Close_def
        chs_InitDBSchema_def chdb_Ready_def chdb_Close_def ExecContext_def on_server_def sample_ch_lib_def sample_world_def NewDB_def Let_def NewClickHouse_def
        newContainer_def ExposedAddr_def StringWithoutProto_def NewAddress_def sample_migrator_def migration_result_def)
qed

end
