(* ===== verification/Test_Fixtures.thy ===== *)
theory Test_Fixtures
  imports Test_Containers Snake_Case
begin

text \<open>
  The Postgres servers and databases of tests: starting a server (\<open>internal/rdb/rdbtesttooling\<close>) and the fixtures on it (\<open>internal/testtooling/postgres.go\<close>).

  The library that runs the servers is the parameter \<open>gn_Start\<close>; files are read by a parameter, and \<open>exec\<close> executes the text of a file on the handle of a session. The bodies of the
  fixtures are modelled; the library that caches their results is left out, so each use here is one that is not cached.
\<close>

section \<open>Servers\<close>

record gn_container =
  gc_Host :: string
  gc_DefaultPort :: int

record gn_preset =
  gp_Version :: string
  gp_Queries :: "string list"

record gn_options =
  gn_Command :: "string list"
  gn_HealthCheck :: bool
  gn_Reuse :: bool
  gn_Name :: string
  gn_Auth :: "string option"

text \<open>Starting may return a container along with an error.\<close>

type_synonym 's gn_Start = "string \<Rightarrow> gn_preset \<Rightarrow> gn_options \<Rightarrow> 's \<Rightarrow> (gn_container option \<times> gerr option) \<times> 's"

definition RealHostname :: "string \<Rightarrow> string \<Rightarrow> string" where
  "RealHostname gnomockEnv host = (if gnomockEnv = ''gnomockd'' then ''host.docker.internal'' else host)"

definition postgresConnect ::
    "(string \<Rightarrow> gerr + 'h) \<Rightarrow> ('h \<Rightarrow> gerr option) \<Rightarrow> gn_container \<Rightarrow> string \<Rightarrow> 'h list \<Rightarrow> (gerr + 'h) \<times> 'h list" where
  "postgresConnect sql_Open ping c db handles =
     (case sql_Open (''host='' @ gc_Host c @ '' port='' @ show_int (gc_DefaultPort c) @ '' user=postgres password=password dbname='' @ db @ '' sslmode=disable'') of
        Inl err \<Rightarrow> (Inl err, handles)
      | Inr h \<Rightarrow> (case ping h of Some err \<Rightarrow> (Inl err, h # handles) | None \<Rightarrow> (Inr h, h # handles)))"

text \<open>The host is replaced in the container that is passed; \<open>handles\<close> are the ones that were opened and not closed.\<close>

definition postgresHealthcheck ::
    "string \<Rightarrow> (string \<Rightarrow> gerr + 'h) \<Rightarrow> ('h \<Rightarrow> gerr option) \<Rightarrow> ('h \<Rightarrow> gerr option) \<Rightarrow> gn_container \<Rightarrow> 'h list \<Rightarrow> gerr option \<times> gn_container \<times> 'h list" where
  "postgresHealthcheck gnomockEnv sql_Open ping select1 c handles =
     (let c' = c\<lparr>gc_Host := RealHostname gnomockEnv (gc_Host c)\<rparr> in
      case postgresConnect sql_Open ping c' ''postgres'' handles of
        (Inl err, hs) \<Rightarrow> (Some err, c', hs)
      | (Inr h, hs) \<Rightarrow> (select1 h, c', removeAll h hs))"

definition fixImage_Image :: "(gn_preset \<Rightarrow> string) \<Rightarrow> gn_preset \<Rightarrow> string" where
  "fixImage_Image img p = (if str_contains (gp_Version p) ''sha256'' then ''docker.io/library/postgres@'' @ gp_Version p else img p)"

text \<open>The credentials for an image, as the text for docker; none when they are not found or cannot be written.\<close>

definition WithRegistryAuth :: "(string \<Rightarrow> gerr + 'a) \<Rightarrow> ('a \<Rightarrow> gerr + string) \<Rightarrow> (string \<Rightarrow> string) \<Rightarrow> string \<Rightarrow> gn_options \<Rightarrow> gn_options" where
  "WithRegistryAuth imageAuth marshal base64 img opts =
     (let img' = (if has_prefix img ''docker.io/library/'' then drop 18 img else img) in
      case imageAuth img' of
        Inl _ \<Rightarrow> opts
      | Inr auth \<Rightarrow> (case marshal auth of Inl _ \<Rightarrow> opts | Inr json \<Rightarrow> opts\<lparr>gn_Auth := Some (base64 json)\<rparr>))"

definition StartPGContainerFromPreset ::
    "string \<Rightarrow> 's gn_Start \<Rightarrow> (gn_preset \<Rightarrow> string) \<Rightarrow> (string \<Rightarrow> gn_options \<Rightarrow> gn_options) \<Rightarrow> gn_preset \<Rightarrow> gn_options \<Rightarrow> 's \<Rightarrow>
     ((gn_container option \<times> gerr option) \<times> 's) panics" where
  "StartPGContainerFromPreset gnomockEnv start img auth p opts s =
     (if gp_Version p \<noteq> ''14-alpine'' then Inl ''unsupported version''
      else
        (let p' = p\<lparr>gp_Version := ''sha256:51ce26e4463d434049b4b83e72eaaa008047a6a6cc65f2f3ee2ff3c183da0621'',
                    gp_Queries := [''ALTER SYSTEM SET synchronous_commit=off;'', ''ALTER SYSTEM SET fsync=off;'', ''SELECT pg_reload_conf();''] @ gp_Queries p\<rparr>;
             image_ref = fixImage_Image img p'
         in case start image_ref p' (auth image_ref opts) s of
              ((c, err), s') \<Rightarrow> Inr ((map_option (\<lambda>c. c\<lparr>gc_Host := RealHostname gnomockEnv (gc_Host c)\<rparr>) c, err), s')))"

definition StartPGContainer ::
    "string \<Rightarrow> 's gn_Start \<Rightarrow> (gn_preset \<Rightarrow> string) \<Rightarrow> (string \<Rightarrow> gn_options \<Rightarrow> gn_options) \<Rightarrow> string \<Rightarrow> 's \<Rightarrow> ((gn_container option \<times> gerr option) \<times> 's) panics" where
  "StartPGContainer gnomockEnv start img auth version s =
     StartPGContainerFromPreset gnomockEnv start img auth \<lparr>gp_Version = version, gp_Queries = []\<rparr>
       \<lparr>gn_Command = [''postgres'', ''-c'', ''wal_level=logical''], gn_HealthCheck = True, gn_Reuse = False, gn_Name = [], gn_Auth = None\<rparr> s"

definition StartReusablePGContainer ::
    "string \<Rightarrow> 's gn_Start \<Rightarrow> (gn_preset \<Rightarrow> string) \<Rightarrow> (string \<Rightarrow> gn_options \<Rightarrow> gn_options) \<Rightarrow> string \<Rightarrow> string \<Rightarrow> 's \<Rightarrow> ((gn_container option \<times> gerr option) \<times> 's) panics" where
  "StartReusablePGContainer gnomockEnv start img auth version containerName s =
     StartPGContainerFromPreset gnomockEnv start img auth \<lparr>gp_Version = version, gp_Queries = []\<rparr>
       \<lparr>gn_Command = [], gn_HealthCheck = True, gn_Reuse = True, gn_Name = containerName, gn_Auth = None\<rparr> s"

definition project_dsn :: "gn_container \<Rightarrow> string" where
  "project_dsn c = ''postgres://postgres:password@'' @ gc_Host c @ '':'' @ show_int (gc_DefaultPort c) @ ''/postgres''"

text \<open>The connection string of the environment, or the one of a server that is started for the tests, with the server to stop in the end.\<close>

definition FixturePostgresProject ::
    "string option \<Rightarrow> ('s \<Rightarrow> ((gn_container option \<times> gerr option) \<times> 's) panics) \<Rightarrow> 's \<Rightarrow> (string \<times> gn_container option) fixture \<times> 's" where
  "FixturePostgresProject env startPG s =
     (case env of
        Some (x # dsn) \<Rightarrow> (FixtureValue (x # dsn, None), s)
      | _ \<Rightarrow>
          (case startPG s of
             Inl p \<Rightarrow> (FixturePanics p None, s)
           | Inr ((_, Some err), s') \<Rightarrow> (FixturePanics ''could not start postgres project'' (Some err), s')
           | Inr ((None, None), s') \<Rightarrow> (FixturePanics ''invalid memory address or nil pointer dereference'' None, s')
           | Inr ((Some c, None), s') \<Rightarrow> (FixtureValue (project_dsn c, Some c), s')))"

section \<open>Databases\<close>

type_synonym ('db, 's) sql_exec = "'db \<Rightarrow> string \<Rightarrow> 's \<Rightarrow> gerr option \<times> 's"

definition ExecSQLFile :: "(string \<Rightarrow> gerr + string) \<Rightarrow> ('db, 's) sql_exec \<Rightarrow> 'db rdb_DB \<Rightarrow> string \<Rightarrow> 's pg_world \<Rightarrow> (gerr option \<times> 's pg_world) panics" where
  "ExecSQLFile ReadFile exec db path w =
     (case ReadFile path of
        Inl err \<Rightarrow> Inr (Some err, w)
      | Inr sql \<Rightarrow> with_session db (\<lambda>se. case exec (se_handle se) sql (pw_server w) of (err, s) \<Rightarrow> (err, w\<lparr>pw_server := s\<rparr>)))"

definition pg_code :: "gerr \<Rightarrow> string option" where
  "pg_code err = errors_As (\<lambda>e. case e of PgErr code _ \<Rightarrow> Some code | _ \<Rightarrow> None) err"

text \<open>The codes of a schema, an object, a function and a table that exist, and of a row that exists.\<close>

definition schema_exists :: "gerr \<Rightarrow> bool" where
  "schema_exists err \<longleftrightarrow> pg_code err \<in> {Some ''42P06'', Some ''42710'', Some ''42723'', Some ''42P07''}"

definition row_exists :: "gerr \<Rightarrow> bool" where "row_exists err \<longleftrightarrow> pg_code err = Some ''23505''"

text \<open>The schema of a database and its seed. The seed is loaded only when the schema was.\<close>

definition load_schema ::
    "(string \<Rightarrow> gerr + string) \<Rightarrow> ('db, 's) sql_exec \<Rightarrow> 'db rdb_DB \<Rightarrow> string \<Rightarrow> string \<Rightarrow> 's pg_world \<Rightarrow> unit fixture \<times> 's pg_world" where
  "load_schema ReadFile exec db schemaPath seedPath w =
     (case ExecSQLFile ReadFile exec db schemaPath w of
        Inl p \<Rightarrow> (FixturePanics p None, w)
      | Inr (Some err, w1) \<Rightarrow>
          if schema_exists err then (FixtureValue (), w1) else (FixturePanics ''could not create db with schema'' (Some err), w1)
      | Inr (None, w1) \<Rightarrow>
          (case ExecSQLFile ReadFile exec db seedPath w1 of
             Inl p \<Rightarrow> (FixturePanics p None, w1)
           | Inr (Some err, w2) \<Rightarrow> if row_exists err then (FixtureValue (), w2) else (FixturePanics ''could not seed db'' (Some err), w2)
           | Inr (None, w2) \<Rightarrow> (FixtureValue (), w2)))"

definition FixtureReusableDBWithSchemaSeeded ::
    "'s pg_lib \<Rightarrow> ('d, 'db, 'c, 'v, 'r) rdb_lib \<Rightarrow> ('db \<Rightarrow> gerr option) \<Rightarrow> char unicode \<Rightarrow> (string \<Rightarrow> gerr + string) \<Rightarrow> ('db, 's) sql_exec \<Rightarrow>
     (gn_container option \<times> gerr option) panics \<Rightarrow> (string \<Rightarrow> gerr + string) \<Rightarrow> string \<Rightarrow> string \<Rightarrow> string \<Rightarrow> string \<Rightarrow> 's pg_world \<times> ('d, 'db) rdb_world \<Rightarrow>
     'db rdb_DB fixture \<times> 's pg_world \<times> ('d, 'db) rdb_world" where
  "FixtureReusableDBWithSchemaSeeded L R ping U ReadFile exec started lastHash name schemaPath lastMigrationPath seedPath st =
     (case started of
        Inl p \<Rightarrow> (FixturePanics p None, st)
      | Inr (_, Some err) \<Rightarrow> (FixturePanics ''could not start postgres project'' (Some err), st)
      | Inr (c, None) \<Rightarrow>
          (case lastHash lastMigrationPath of
             Inl err \<Rightarrow> (FixturePanics ''could not get last migration hash'' (Some err), st)
           | Inr hash \<Rightarrow>
               (case c of
                  None \<Rightarrow> (FixturePanics ''invalid memory address or nil pointer dereference'' None, st)
                | Some c \<Rightarrow>
                    (case SetupDBWithName L R ping (rdb_DefaultConfig\<lparr>rc_DSN := lit (project_dsn c), rc_SearchPath := ''public''\<rparr>) (name @ ''_'' @ hash) (fst st) (snd st) of
                       Inl p \<Rightarrow> (FixturePanics p None, st)
                     | Inr ((_, Some err), w1, rw1) \<Rightarrow> (FixturePanics ''could not setup database in postgres project'' (Some err), w1, rw1)
                     | Inr ((None, None), w1, rw1) \<Rightarrow> (FixturePanics ''invalid memory address or nil pointer dereference'' None, w1, rw1)
                     | Inr ((Some db, None), w1, rw1) \<Rightarrow>
                         (case MapperFunc (CamelToSnake U) db of
                            Inl p \<Rightarrow> (FixturePanics p None, w1, rw1)
                          | Inr db' \<Rightarrow>
                              (case load_schema ReadFile exec db' schemaPath seedPath w1 of
                                 (FixtureValue _, w2) \<Rightarrow> (FixtureValue db', w2, rw1)
                               | (FixtureFatal t e, w2) \<Rightarrow> (FixtureFatal t e, w2, rw1)
                               | (FixturePanics t e, w2) \<Rightarrow> (FixturePanics t e, w2, rw1)))))))"

text \<open>A new database for a test, with the counter of names, and its cleanup.\<close>

definition FixtureEmptyPostgresDB ::
    "'s pg_lib \<Rightarrow> ('d, 'db, 'c, 'v, 'r) rdb_lib \<Rightarrow> ('db \<Rightarrow> gerr option) \<Rightarrow> char unicode \<Rightarrow> string \<Rightarrow> string \<Rightarrow> string \<Rightarrow> 32 word \<Rightarrow> 's pg_world \<times> ('d, 'db) rdb_world \<Rightarrow>
     ('db rdb_DB \<times> string) fixture \<times> 32 word \<times> 's pg_world \<times> ('d, 'db) rdb_world" where
  "FixtureEmptyPostgresDB L R ping U dsn dbProject testName testDBIdx st =
     (case DbName dbProject testName testDBIdx of (randName, idx) \<Rightarrow>
      case SetupDBWithName L R ping (rdb_DefaultConfig\<lparr>rc_DSN := lit dsn, rc_SearchPath := ''public''\<rparr>) randName (fst st) (snd st) of
        Inl p \<Rightarrow> (FixturePanics p None, idx, st)
      | Inr ((_, Some err), w1, rw1) \<Rightarrow>
          (FixturePanics ''could not setup database in postgres project'' (Some (WithFieldsErr err [\<lparr>f_key = ''database_name'', f_value = StringType randName\<rparr>])), idx, w1, rw1)
      | Inr ((None, None), w1, rw1) \<Rightarrow> (FixturePanics ''invalid memory address or nil pointer dereference'' None, idx, w1, rw1)
      | Inr ((Some db, None), w1, rw1) \<Rightarrow>
          (case MapperFunc (CamelToSnake U) db of
             Inl p \<Rightarrow> (FixturePanics p None, idx, w1, rw1)
           | Inr db' \<Rightarrow> (FixtureValue (db', randName), idx, w1, rw1)))"

text \<open>The session that the teardown closes is the one whose mapper was set.\<close>

definition postgres_cleanup ::
    "'s pg_lib \<Rightarrow> ('d, 'db, 'c, 'v, 'r) rdb_lib \<Rightarrow> string \<Rightarrow> 'db rdb_DB \<Rightarrow> 's pg_world \<times> ('d, 'db) rdb_world \<Rightarrow> unit fixture \<times> 's pg_world \<times> ('d, 'db) rdb_world" where
  "postgres_cleanup L R randName db st =
     (case teardown L R randName db (fst st) (snd st) of
        Inl p \<Rightarrow> (FixturePanics p None, st)
      | Inr (Some err, w1, rw1) \<Rightarrow> (FixturePanics ''error while destroying postgres project'' (Some err), w1, rw1)
      | Inr (None, w1, rw1) \<Rightarrow> (FixtureValue (), w1, rw1))"

definition FixtureDBWithSchema ::
    "(string \<Rightarrow> gerr + string) \<Rightarrow> ('db, 's) sql_exec \<Rightarrow> 'db rdb_DB \<Rightarrow> string \<Rightarrow> 's pg_world \<Rightarrow> 'db rdb_DB fixture \<times> 's pg_world" where
  "FixtureDBWithSchema ReadFile exec db schemaPath w =
     (case ExecSQLFile ReadFile exec db schemaPath w of
        Inl p \<Rightarrow> (FixturePanics p None, w)
      | Inr (Some err, w1) \<Rightarrow> (FixturePanics ''could not create db with schema'' (Some err), w1)
      | Inr (None, w1) \<Rightarrow> (FixtureValue db, w1))"

text \<open>A Postgres server in a container, for the credentials of the default configuration.\<close>

definition FixturePostgresContainer ::
    "('c, 's) docker \<Rightarrow> ('c, 's) docker_world \<Rightarrow> (string \<times> 'c db_container) fixture \<times> ('c, 's) docker_world" where
  "FixturePostgresContainer D w =
     (case NewNetwork D w of
        (Inl err, w1) \<Rightarrow> (FixtureFatal ''cannot create network'' err, w1)
      | (Inr net, w1) \<Rightarrow>
          (case NewPostgresWithDSN (map char_of (rc_DSN rdb_DefaultConfig)) [WithNetworks [Network_Name net]] of
             Inl p \<Rightarrow> (FixturePanics p None, w1)
           | Inr (Inl err) \<Rightarrow> (FixtureFatal ''cannot initialize postgres container'' (ErrNew err), w1)
           | Inr (Inr c) \<Rightarrow>
               (case Postgres_Run D c w1 of
                  (Some err, _, w2) \<Rightarrow> (FixtureFatal ''cannot run postgres container'' err, w2)
                | (None, c', w2) \<Rightarrow> (FixtureValue (net, c'), w2))))"

text \<open>A database with the schema of the repository on a server in a container, and its cleanup.\<close>

definition FixtureEmptyPostgresSchema ::
    "('d, 'db, 'c, 'v, 'r) rdb_lib \<Rightarrow> ('db \<Rightarrow> gerr option) \<Rightarrow> ('db, 's) pg_exec \<Rightarrow> gerr + string \<Rightarrow> Address \<Rightarrow> string \<Rightarrow> 32 word \<Rightarrow> ('d, 'db) rdb_world \<times> 's \<Rightarrow>
     ('db rdb_DB \<times> 'db pg_source \<times> string) fixture \<times> 32 word \<times> ('d, 'db) rdb_world \<times> 's" where
  "FixtureEmptyPostgresSchema R ping exec file addr testName testDBIdx st =
     (case DbName [] testName testDBIdx of (randName, idx) \<Rightarrow>
      let pg = NewPostgresConnection (StringWithoutProto addr) in
      case pgs_CreateDatabase R ping exec randName pg st of
        Inl p \<Rightarrow> (FixturePanics p None, idx, st)
      | Inr (Some err, rw1, s1) \<Rightarrow> (FixtureFatal ''cannot create a new Postgres DB'' err, idx, rw1, s1)
      | Inr (None, rw1, s1) \<Rightarrow>
          (case pgs_Connect R ping randName pg rw1 of
             Inl p \<Rightarrow> (FixturePanics p None, idx, rw1, s1)
           | Inr (Inl err, _, rw2) \<Rightarrow> (FixtureFatal ''cannot connect to Postgres DB'' err, idx, rw2, s1)
           | Inr (Inr db, pg', rw2) \<Rightarrow>
               (case pgs_InitDBSchema file exec pg' s1 of
                  Inl p \<Rightarrow> (FixturePanics p None, idx, rw2, s1)
                | Inr (Some err, s2) \<Rightarrow> (FixtureFatal ''cannot connect initialize Postgres schema'' err, idx, rw2, s2)
                | Inr (None, s2) \<Rightarrow> (FixtureValue (db, pg', randName), idx, rw2, s2))))"

definition postgres_schema_cleanup ::
    "('d, 'db, 'c, 'v, 'r) rdb_lib \<Rightarrow> ('db \<Rightarrow> gerr option) \<Rightarrow> ('db, 's) pg_exec \<Rightarrow> string \<Rightarrow> 'db pg_source \<Rightarrow> ('d, 'db) rdb_world \<times> 's \<Rightarrow>
     unit fixture \<times> ('d, 'db) rdb_world \<times> 's" where
  "postgres_schema_cleanup R ping exec randName pg st =
     (case pgs_Close R pg (fst st) of
        Inl p \<Rightarrow> (FixturePanics p None, st)
      | Inr (Some err, rw1) \<Rightarrow> (FixtureFatal ''cannot close Postgres connection'' err, rw1, snd st)
      | Inr (None, rw1) \<Rightarrow>
          (case pgs_DropDatabase R ping exec randName pg (rw1, snd st) of
             Inl p \<Rightarrow> (FixturePanics p None, rw1, snd st)
           | Inr (Some err, rw2, s2) \<Rightarrow> (FixturePanics ''error while destroying postgres project'' (Some err), rw2, s2)
           | Inr (None, rw2, s2) \<Rightarrow> (FixtureValue (), rw2, s2)))"

section \<open>What fixtures leave\<close>

text \<open>Connection strings of a started server name the database of the test, and nothing else changes in them.\<close>

lemma split_on_append: "x \<notin> set ys \<Longrightarrow> split_on x (ys @ x # zs) = ys # split_on x zs"
  by (induction ys) auto

lemma split_on_none: "x \<notin> set ys \<Longrightarrow> split_on x ys = [ys]"
  by (induction ys) auto

lemma split_on_four:
  "x \<notin> set a \<Longrightarrow> x \<notin> set b \<Longrightarrow> x \<notin> set c \<Longrightarrow> x \<notin> set d \<Longrightarrow> split_on x (a @ x # b @ x # c @ x # d) = [a, b, c, d]"
  by (simp add: split_on_append split_on_none)

lemma lit_append [simp]: "lit (xs @ ys) = lit xs @ lit ys" by (simp add: lit_def)

lemma slash_lit: "47 \<in> set (lit xs) \<longleftrightarrow> CHR ''/'' \<in> set xs"
proof -
  have "(of_char c :: nat) = 47 \<longleftrightarrow> c = CHR ''/''" for c :: char using of_char_eq_iff [of c "CHR ''/''", where 'a=nat] by simp
  then show ?thesis by (force simp: lit_def image_iff)
qed

lemma show_int_no_slash: "CHR ''/'' \<notin> set (show_int i)"
proof -
  have "\<not> is_digit (CHR ''/'')" by (simp add: is_digit_def)
  then show ?thesis using show_nat_digits [of "nat i"] show_nat_digits [of "nat (- i)"] by (auto simp: show_int_def list_all_iff)
qed

lemma project_dsn_database:
  assumes "CHR ''/'' \<notin> set (gc_Host c)"
  shows "with_database (lit (project_dsn c)) (lit n) = Inr (lit (''postgres://postgres:password@'' @ gc_Host c @ '':'' @ show_int (gc_DefaultPort c) @ ''/'' @ n))"
proof -
  let ?a = "lit ''postgres:password@'' @ lit (gc_Host c @ '':'' @ show_int (gc_DefaultPort c))"
  have "r_slash \<notin> set (lit (''postgres:password@'' @ gc_Host c @ '':'' @ show_int (gc_DefaultPort c)))"
    unfolding slash_lit using assms show_int_no_slash by auto
  then have free: "r_slash \<notin> set ?a" by (simp only: lit_append append_assoc) simp
  have dsn: "lit (project_dsn c) = lit ''postgres:'' @ r_slash # [] @ r_slash # ?a @ r_slash # lit ''postgres''"
    by (simp add: project_dsn_def lit_def)
  have "split_on r_slash (lit (project_dsn c)) = [lit ''postgres:'', [], ?a, lit ''postgres'']"
    unfolding dsn by (rule split_on_four) (use free in \<open>simp_all add: lit_def\<close>)
  then show ?thesis by (simp add: with_database_def lit_def)
qed

lemma rdb_Ready_conf: "rdb_Ready R ping d rw = (e, d', rw') \<Longrightarrow> rdb_conf d' = rdb_conf d"
  by (auto simp: rdb_Ready_def Let_def split: if_splits option.splits sum.splits prod.splits)

lemma SetupDBWithName_conf:
  assumes "SetupDBWithName L R ping cfg n w rw = Inr ((Some d, e), w1, rw1)"
  shows "\<exists>dsn cs. with_database (rc_DSN cfg) (lit n) = Inr dsn \<and> pg_ParseConfig L dsn = Inr cs \<and> rdb_conf d = cfg\<lparr>rc_DSN := cs\<rparr>"
proof -
  obtain dsn where dsn: "with_database (rc_DSN cfg) (lit n) = Inr dsn" using assms by (auto simp: SetupDBWithName_def bind_sum_Inr_iff)
  then obtain cs where cs: "pg_ParseConfig L dsn = Inr cs" using assms by (auto simp: SetupDBWithName_def split: sum.splits)
  obtain e' d' rw' where r: "rdb_Ready R ping (rdb_New (cfg\<lparr>rc_DSN := cs\<rparr>)) rw = (e', d', rw')" using prod_cases3 by blast
  then have "d = d'" using assms dsn cs by (auto simp: SetupDBWithName_def split: prod.splits option.splits if_splits)
  then show ?thesis using dsn cs rdb_Ready_conf [OF r] by (auto simp: rdb_New_def)
qed

text \<open>A reusable database: the seed is loaded exactly when the schema was loaded by this call. A database whose schema exists is left as it is, so one whose first fixture ended between
  the schema and the seed is never seeded.\<close>

theorem reusable_database_seeding:
  assumes "rdb_session db = Some se" and "ReadFile schemaPath = Inr schema" and "ReadFile seedPath = Inr seed"
  shows "load_schema ReadFile exec db schemaPath seedPath w =
    (case exec (se_handle se) schema (pw_server w) of
       (Some err, s) \<Rightarrow> (if schema_exists err then FixtureValue () else FixturePanics ''could not create db with schema'' (Some err), w\<lparr>pw_server := s\<rparr>)
     | (None, s) \<Rightarrow>
         (case exec (se_handle se) seed s of
            (Some err, s') \<Rightarrow> (if row_exists err then FixtureValue () else FixturePanics ''could not seed db'' (Some err), w\<lparr>pw_server := s'\<rparr>)
          | (None, s') \<Rightarrow> (FixtureValue (), w\<lparr>pw_server := s'\<rparr>)))"
  using assms by (auto simp: load_schema_def ExecSQLFile_def with_session_def split: prod.splits option.splits)

text \<open>A database of a test and its cleanup: a fixture on a server whose name has no slash connects to the database of a new name, and a cleanup that succeeds leaves no connection
  open that was not open before, whatever the test did on the server.\<close>

theorem postgres_fixture_cleanup:
  assumes "FixtureEmptyPostgresDB L R ping U (project_dsn c) dbProject testName i (w, rw) = (FixtureValue (db, n), j, w1, rw1)"
    and "CHR ''/'' \<notin> set (gc_Host c)" and "\<forall>dsn. pg_ParseConfig L dsn = Inr dsn"
    and "postgres_cleanup L R n db (w2, rw2) = (FixtureValue (), w3, rw3)"
  shows "n = fst (DbName dbProject testName i) \<and> j = i + 1 \<and>
    rc_DSN (rdb_conf db) = lit (''postgres://postgres:password@'' @ gc_Host c @ '':'' @ show_int (gc_DefaultPort c) @ ''/'' @ n) \<and>
    pw_conns w3 = pw_conns w2"
proof -
  have db: "n = fst (DbName dbProject testName i)" "j = i + 1"
    "\<exists>d. SetupDBWithName L R ping (rdb_DefaultConfig\<lparr>rc_DSN := lit (project_dsn c), rc_SearchPath := ''public''\<rparr>) n w rw = Inr ((Some d, None), w1, rw1) \<and> MapperFunc (CamelToSnake U) d = Inr db"
    using assms(1) by (auto simp: FixtureEmptyPostgresDB_def DbName_def Let_def split: sum.splits option.splits prod.splits)
  then obtain d where d: "SetupDBWithName L R ping (rdb_DefaultConfig\<lparr>rc_DSN := lit (project_dsn c), rc_SearchPath := ''public''\<rparr>) n w rw = Inr ((Some d, None), w1, rw1)"
    "MapperFunc (CamelToSnake U) d = Inr db" by blast
  have "rc_DSN (rdb_conf d) = lit (''postgres://postgres:password@'' @ gc_Host c @ '':'' @ show_int (gc_DefaultPort c) @ ''/'' @ n)"
    using SetupDBWithName_conf [OF d(1)] assms(3) project_dsn_database [OF assms(2), of n] by auto
  moreover have "rdb_conf db = rdb_conf d" using d(2) by (auto simp: MapperFunc_def with_session_def split: option.splits)
  moreover have "teardown L R n db w2 rw2 = Inr (None, w3, rw3)"
    using assms(4) by (auto simp: postgres_cleanup_def split: sum.splits option.splits prod.splits)
  ultimately show ?thesis using db(1,2) teardown_conns by simp
qed

end
