(* ===== verification/Spec2Isabelle.thy ===== *)
theory Spec2Isabelle
  imports Limiter_Manager Rest_Errors Schedule Retries Pg_Array Dsn Rdb_Tx Completion
    Embeddings Concurrent Sql_Query Sql_Driver Http_Server Token_Bucket Migration Earthquakes Buses
    Logging Clickhouse Metrics Lifecycle Tools
    Storage Rdb_Client Logfmt Clients Egress_Limits Test_Databases Job_Runs Url Commands Test_Containers Test_Fixtures
begin

text \<open>
  A verification library for the repository: the Go modules under \<open>src/internal\<close> (the shared tooling) and the
  application \<open>src/app/telegramsearch\<close> (a bot that answers questions from the history of Telegram chats).

  \<^bold>\<open>How the program is put together.\<close> A chat export is cut into conversation threads, stored in PostgreSQL and given
  embeddings by a language model. A question is embedded, the nearest threads are searched for in ranges of time, and the
  model answers from them with its sources. Around this are the libraries: HTTP clients with retries, HTTP servers with
  middlewares, rate limiters, a scheduler of jobs, transactions and a wrapped SQL driver, errors with meanings, statuses
  and log fields, a logger, and small containers.

  \<^bold>\<open>Conventions.\<close> A struct is a record or a datatype, an error is a value of \<open>gerr\<close> (theory Go_Error) and a nil error \<open>None\<close>; a
  function that may panic has a result of type \<open>'a panics\<close>, where \<open>Inl\<close> is the panic. Unsigned integers are words; \<open>int\<close> is
  used where the code cannot reach the ends of the range, or the wrap-around is written out. A time is a number of
  nanoseconds. State is passed explicitly; code behind a mutex is one step, and code whose steps interleave is an
  inductive step relation. What the code calls outside of the repository is an argument of the definitions: a function, or a
  record of functions, with what is used of it as a named hypothesis. Go goes through maps in any order, so
  the order is an argument too. Definitions keep the names of the code; a prefix is added where two packages use a name.

  \<^bold>\<open>Theories and what they model.\<close>

  \<^item> Prelude: byte strings, durations, decimal numbers, panics, and the generic lemmas.

  \<^item> Go_Error, Clouderr, Semerr, Status, Rest_Errors: error trees with \<open>errors.Is\<close> and \<open>errors.As\<close>; log fields of errors and contexts
  (\<open>internal/clouderr\<close>); meanings, the collector and stack traces (\<open>internal/semerr\<close>); codes, statuses and the
  conversion of any error (\<open>internal/status\<close>); error codes, the presentation of errors by the API and prefix rewriting
  (\<open>internal/codeerr\<close>, \<open>internal/resttooling/errors.go\<close>, \<open>internal/openapiapp/errors.go\<close>). Shown: what searches of an
  error tree find; that wrapping keeps a meaning, a status and a code; that presented errors are total and
  do not leak internal texts; that HTTP statuses and meanings agree.

  \<^item> Rate_Window, Pattern, Limiter_Manager, Token_Bucket, Concurrent: fixed windows (\<open>internal/rate\<close>), path patterns and the
  manager (\<open>internal/resttooling/ratelimiter/v2\<close>), the token bucket managers (\<open>ratelimiter\<close>, \<open>dynamicratelimiter\<close>), maps,
  caches and per-key semaphores (\<open>internal/concurrent\<close>, \<open>internal/ratetooling\<close>). Shown: bounds on what is allowed in any window and the waiting
  times; that the comparison of patterns is exact for the requests they match, that configurations are ordered from the
  most specific pattern on and a request is charged to that one; that a cache refines a map with expiry; the limit of
  the semaphore under interleaving.

  \<^item> Recovery, Schedule, Job_Runs, Retries: restart loops (\<open>internal/recoverytooling\<close>), jobs, their latch, the update of
  schedules and whole runs of the scheduler (\<open>internal/scheduletooling\<close>), retries of requests (\<open>internal/resttooling/restretries\<close>). Shown: when the loops end and with
  what; that a job never runs twice at once; which jobs the scheduler has after its updates; that the body is sent again in
  full and permanent errors are not retried.

  \<^item> Http_Client, Egress_Limits, Http_Server: round trippers, options, transports, request identifiers and bearer tokens; middlewares, their
  composition, metrics and Sentry (\<open>internal/resttooling\<close>, \<open>internal/openapiapp\<close>, \<open>internal/sentrytooling\<close>). Shown: what reaches the network
  and what is logged; that options commute; how retries and limits of outgoing requests interact; that a guarded handler always answers.

  \<^item> Pg_Array, Dsn, Url, Snake_Case, Logfmt, Sql_Query, Sql_Driver, Rdb_Tx, Rdb_Client, Migration, Clickhouse: arrays in text form, connection strings in both forms, with the parser of URLs, column
  lists and queries, the driver wrapper with its hooks, transactions with retries and callbacks, connecting (\<open>internal/rdb\<close>, \<open>internal/sqltooling\<close>), the formatter of log keys (\<open>internal/logfmt\<close>),
  migrations and schema dumps (\<open>internal/pgtooling\<close>), the ClickHouse client (\<open>internal/chdb\<close>). Shown: round trips; that the wrapped driver is
  transparent and its hooks are paired; what is committed, retried and called back; when connections are closed and names of drivers run out; that read-only
  clients do not write; which keys the formatter leaves.

  \<^item> Threads, Completion, Embeddings, Storage: the stories of the application (\<open>controllers/controllerv1\<close>), its storage
  (\<open>client/storage\<close>) and its transport. Shown: that the threads are exactly the conversations of the export; that the sources of an answer come from the searches; that a search
  finds the nearest threads of a range of time, and which threads it cannot find; when the generation of embeddings ends and when it does not.

  \<^item> Earthquakes, Buses, Clients: clients of public services (\<open>client/earthquakes\<close>, \<open>internal/buses\<close>), of Redis (\<open>internal/redis\<close>) and of the language model
  (\<open>client/openaiclient\<close>). Shown: which events and buses are returned, and that the distance is that of the great circle; the credentials of connections; the answers and errors of
  the model.

  \<^item> Logging: the logger (\<open>internal/logger\<close>). Shown: where an entry goes, that the global logger is set once, and the fields of an error's line.

  \<^item> Metrics, Lifecycle: the declared collectors, their registration and all writes (\<open>internal/metrics\<close>, \<open>internal/promtooling\<close>); readiness, start and shutdown of an
  application, closing and timers (\<open>internal/application\<close>, \<open>internal/readiness\<close>, \<open>internal/closer\<close>, \<open>internal/timer\<close>). Shown: that the collectors can be registered together and which writes
  panic; when an application is ready; the outcome of a shutdown under interleaving.

  \<^item> Tools: slices, secrets, units, jitter, durations and sizes in files, the loading of configuration (\<open>internal/slicetooling\<close>, \<open>secret\<close>, \<open>unittooling\<close>, \<open>retrytooling\<close>,
  \<open>encodingtooling\<close>, \<open>haikutooling\<close>, \<open>config\<close>, \<open>yamlfromstruct\<close>). Shown: what is computed, with its bounds, and that secrets are not printed.

  \<^item> Commands: the static configuration, the hooks of the commands and the commands (\<open>app/telegramsearch/cmd\<close>, \<open>app/telegramsearch/internal/pkg/staticconfig\<close>), with the modules they set up. Shown: what is set up
  before a command runs, in which order and how often; which configurations are rejected.

  \<^item> Test_Databases, Test_Containers, Test_Fixtures: names, creation and removal of the databases of tests, their containers and data sources, and the bodies of fixtures
  (\<open>internal/testtooling\<close>, \<open>internal/rdb/rdbtesttooling\<close>). Shown: that names are distinct; the addresses of ports; which containers and connections stay after a failure, and that none do after a
  cleanup; when a reusable database is seeded.

  \<^item> This theory composes \<open>Completion\<close> with \<open>Storage\<close>: the searches of a question are those of the storage (\<open>served_by\<close>). Shown: an answer is given, and which stored
  threads it is based on.

  \<^bold>\<open>Interfaces.\<close> Laws that one part relies on are locales, interpreted on the definitions of the model: limiters by key
  (\<open>keyed_limiter\<close>), the order of patterns (\<open>precedence\<close>), restart loops (\<open>restart_loop\<close>), searches of error trees
  (\<open>error_search\<close>, \<open>error_classifier\<close>), stores and caches (\<open>keyed_store\<close>, \<open>cache_store\<close>, \<open>bucket_store\<close>), hooks of the driver (\<open>base_hook\<close>), collectors of search
  results (\<open>collector\<close>), the order of floats (\<open>float_order\<close>), zap's cores (\<open>zap_cores\<close>) and collectors of metrics (\<open>prometheus\<close>).

  \<^bold>\<open>Loops that may not end.\<close> The restart loops and \<open>GenerateEmbeddings\<close> are \<open>partial_function (option)\<close>, so that not returning is
  \<open>None\<close>; when they return is a theorem of its own. All other recursion is total. No fuel is used.

  \<^bold>\<open>Not modelled.\<close> The contents of log lines and metrics except where a theory says so; Sentry, OpenTelemetry and Prometheus
  themselves; encoders (JSON, YAML, protobuf, HTML), the network, databases and clocks, which are arguments; the caching of fixtures, the
  exporter of traces, and generators of code, which have no logic of their own.
\<close>

section \<open>A question through the program\<close>



end
